(* ===== verification/Prelude.thy ===== *)
theory Prelude
  imports Complex_Main "HOL-Library.Word" "HOL-Library.Char_ord"
begin

unbundle bit_operations_syntax

text \<open>
  Shared vocabulary of the development: the machine integers of the C code and its
  conversions between them, C strings (a \<open>char list\<close> without its terminating NUL) and the
  parts of the C library that the modelled code calls on them (\<open>isspace\<close>, \<open>strtol\<close>,
  \<open>strtoul\<close>, \<open>index\<close>, the decimal conversion of \<open>printf\<close>), the values of
  \<open>errno\<close> the code tests, and the result type of code that may terminate the process.
  Lemmas that the component theories share are collected in \<open>c_int\<close> (integer conversions
  and truncating division) and \<open>c_str\<close> (strings and numbers).
\<close>

named_theorems c_int
named_theorems c_str

section \<open>Integers of the C code\<close>

type_synonym u8 = "8 word"
type_synonym u16 = "16 word"
type_synonym u32 = "32 word"

text \<open>An \<open>int\<close> has 32 bits and a \<open>long\<close> 64 (the LP64 ABI); converting a value
  out of range to a signed type keeps its low bits, as every supported compiler does.\<close>

abbreviation (input) INT_MAX :: int where "INT_MAX \<equiv> 2147483647"
abbreviation (input) INT_MIN :: int where "INT_MIN \<equiv> -2147483648"
abbreviation (input) LONG_MAX :: int where "LONG_MAX \<equiv> 9223372036854775807"
abbreviation (input) LONG_MIN :: int where "LONG_MIN \<equiv> -9223372036854775808"
abbreviation (input) ULONG_MAX :: int where "ULONG_MAX \<equiv> 18446744073709551615"
abbreviation (input) UINT32_MAX :: int where "UINT32_MAX \<equiv> 4294967295"

definition to_int32 :: "int \<Rightarrow> int" where
  "to_int32 n = (n + 2147483648) mod 4294967296 - 2147483648"

definition is_int32 :: "int \<Rightarrow> bool" where
  "is_int32 n \<longleftrightarrow> INT_MIN \<le> n \<and> n \<le> INT_MAX"

lemma to_int32_id [c_int]: "is_int32 n \<Longrightarrow> to_int32 n = n"
  by (simp add: to_int32_def is_int32_def)

lemma is_int32_to_int32 [simp, intro]: "is_int32 (to_int32 n)"
proof -
  have "0 \<le> (n + 2147483648) mod 4294967296" "(n + 2147483648) mod 4294967296 < 4294967296"
    by simp_all
  then show ?thesis unfolding to_int32_def is_int32_def by linarith
qed

lemma to_int32_idem [simp]: "to_int32 (to_int32 n) = to_int32 n"
  by (simp add: to_int32_id)

text \<open>The conversion is the one of two's complement words.\<close>

lemma to_int32_word: "to_int32 n = sint (word_of_int n :: 32 word)"
proof -
  have "sint (word_of_int n :: 32 word) = (take_bit 32 (n + 2 ^ 31)) - 2 ^ 31"
    by (simp add: sint_sbintrunc' signed_take_bit_eq_take_bit_shift)
  then show ?thesis
    by (simp add: to_int32_def take_bit_eq_mod)
qed

text \<open>Division and remainder of C truncate towards zero.\<close>

definition c_div :: "int \<Rightarrow> int \<Rightarrow> int" where
  "c_div a b = sgn a * sgn b * (\<bar>a\<bar> div \<bar>b\<bar>)"

definition c_mod :: "int \<Rightarrow> int \<Rightarrow> int" where
  "c_mod a b = a - b * c_div a b"

lemma c_div_nonneg [c_int]: "0 \<le> a \<Longrightarrow> 0 < b \<Longrightarrow> c_div a b = a div b"
  by (cases "a = 0") (auto simp: c_div_def)

lemma c_div_neg: "a < 0 \<Longrightarrow> 0 < b \<Longrightarrow> c_div a b = - (- a div b)"
  by (simp add: c_div_def)

lemma c_mod_nonneg [c_int]: "0 \<le> a \<Longrightarrow> 0 < b \<Longrightarrow> c_mod a b = a mod b"
  by (simp add: c_mod_def c_div_nonneg minus_mult_div_eq_mod)

text \<open>The remainder is smaller than the divisor.\<close>

lemma c_div_rem:
  assumes "0 < b"
  shows "b * \<bar>c_div a b\<bar> \<le> \<bar>a\<bar> \<and> \<bar>a - b * c_div a b\<bar> < b"
proof (cases "0 \<le> a")
  case True
  have "b * (a div b) + a mod b = a" by simp
  moreover have "0 \<le> a mod b" "a mod b < b" "0 \<le> a div b"
    using assms True by (simp_all add: pos_imp_zdiv_nonneg_iff)
  ultimately have "b * (a div b) \<le> a" "a - b * (a div b) < b" "0 \<le> a - b * (a div b)" by linarith+
  then show ?thesis using True assms \<open>0 \<le> a div b\<close> by (simp add: c_div_nonneg)
next
  case False
  have "b * (- a div b) + - a mod b = - a" by simp
  moreover have "0 \<le> - a mod b" "- a mod b < b" "0 \<le> - a div b"
    using assms False by (simp_all add: pos_imp_zdiv_nonneg_iff)
  ultimately have "b * (- a div b) \<le> - a" "- a - b * (- a div b) < b" "0 \<le> - a - b * (- a div b)"
    by linarith+
  then show ?thesis using False assms \<open>0 \<le> - a div b\<close> by (simp add: c_div_neg abs_le_iff abs_less_iff)
qed

text \<open>A truncated quotient lies between zero and the dividend.\<close>

lemma c_div_between:
  assumes "0 < b"
  shows "0 \<le> a \<Longrightarrow> 0 \<le> c_div a b \<and> c_div a b \<le> a"
    and "a \<le> 0 \<Longrightarrow> a \<le> c_div a b \<and> c_div a b \<le> 0"
proof -
  show "0 \<le> a \<Longrightarrow> 0 \<le> c_div a b \<and> c_div a b \<le> a"
  proof -
    assume a: "0 \<le> a"
    have "a div b \<le> a" using a assms by (metis div_by_1 order_le_less zdiv_mono2 int_one_le_iff_zero_less)
    then show ?thesis using a assms by (simp add: c_div_nonneg pos_imp_zdiv_nonneg_iff)
  qed
  show "a \<le> 0 \<Longrightarrow> a \<le> c_div a b \<and> c_div a b \<le> 0"
  proof -
    assume a: "a \<le> 0"
    show ?thesis
    proof (cases "a = 0")
      case True
      then show ?thesis by (simp add: c_div_def)
    next
      case False
      have "- a div b \<le> - a" using a assms by (metis div_by_1 order_le_less zdiv_mono2 int_one_le_iff_zero_less neg_0_le_iff_le)
      then show ?thesis using a assms False by (simp add: c_div_neg pos_imp_zdiv_nonneg_iff)
    qed
  qed
qed

section \<open>C strings\<close>

text \<open>A C string held in a buffer is what precedes its first NUL.\<close>

abbreviation NUL :: char where "NUL \<equiv> CHR 0x00"
abbreviation NL :: char where "NL \<equiv> CHR 0x0A"

definition cstr :: "string \<Rightarrow> string" where
  "cstr buf = takeWhile (\<lambda>c. c \<noteq> NUL) buf"

definition no_nul :: "string \<Rightarrow> bool" where
  "no_nul s \<longleftrightarrow> NUL \<notin> set s"

lemma cstr_id [c_str]: "no_nul s \<Longrightarrow> cstr s = s"
  by (auto simp: cstr_def no_nul_def takeWhile_eq_all_conv)

lemma no_nul_cstr [simp]: "no_nul (cstr s)"
  by (auto simp: cstr_def no_nul_def dest: set_takeWhileD)

lemma no_nul_append [simp]: "no_nul (s @ t) \<longleftrightarrow> no_nul s \<and> no_nul t"
  by (auto simp: no_nul_def)

lemma no_nul_Cons [simp]: "no_nul (c # t) \<longleftrightarrow> c \<noteq> NUL \<and> no_nul t"
  by (auto simp: no_nul_def)

lemma no_nul_Nil [simp]: "no_nul []"
  by (simp add: no_nul_def)

text \<open>\<open>isspace\<close> of the C locale: blank, and the codes 9 to 13.\<close>

definition isspace :: "char \<Rightarrow> bool" where
  "isspace c \<longleftrightarrow> (let n = of_char c :: nat in n = 32 \<or> (9 \<le> n \<and> n \<le> 13))"

lemma isspace_blank [simp]: "isspace (CHR '' '')"
  by (simp add: isspace_def)

lemma not_isspace_NUL [simp]: "\<not> isspace NUL"
  by (simp add: isspace_def)

lemma isspace_NL [simp]: "isspace NL"
  by (simp add: isspace_def)

definition is_digit :: "char \<Rightarrow> bool" where
  "is_digit c \<longleftrightarrow> (let n = of_char c :: nat in 48 \<le> n \<and> n \<le> 57)"

definition digit_val :: "char \<Rightarrow> nat" where
  "digit_val c = of_char c - 48"

definition digit_chr :: "nat \<Rightarrow> char" where
  "digit_chr d = char_of (48 + d)"

lemma is_digit_chr [simp]: "d < 10 \<Longrightarrow> is_digit (digit_chr d)"
  by (simp add: is_digit_def digit_chr_def of_char_of take_bit_eq_mod)

lemma digit_val_chr [simp]: "d < 10 \<Longrightarrow> digit_val (digit_chr d) = d"
  by (simp add: digit_val_def digit_chr_def of_char_of take_bit_eq_mod)

lemma is_digit_not_space: "is_digit c \<Longrightarrow> \<not> isspace c"
  by (auto simp: is_digit_def isspace_def Let_def)

lemma is_digit_not_nul: "is_digit c \<Longrightarrow> c \<noteq> NUL"
  by (auto simp: is_digit_def)

text \<open>
  \<open>strtol\<close> and \<open>strtoul\<close> in base 10: blanks are skipped, a sign and digits are read;
  without a digit nothing is consumed and the value is 0; out of range the value saturates
  and \<open>errno\<close> becomes \<open>ERANGE\<close>. The result is the value, whether \<open>ERANGE\<close> was
  raised, and the text at \<open>endptr\<close>.
\<close>

fun read_digits :: "nat \<Rightarrow> string \<Rightarrow> nat \<times> string" where
  "read_digits acc [] = (acc, [])"
| "read_digits acc (c # cs) =
     (if is_digit c then read_digits (10 * acc + digit_val c) cs else (acc, c # cs))"

definition scan_sign :: "string \<Rightarrow> bool \<times> string" where
  "scan_sign t = (case t of [] \<Rightarrow> (False, [])
     | c # cs \<Rightarrow> if c = CHR ''-'' then (True, cs)
                 else if c = CHR ''+'' then (False, cs) else (False, t))"

definition scan_unsigned :: "string \<Rightarrow> (nat \<times> string) option" where
  "scan_unsigned u = (case u of [] \<Rightarrow> None
     | c # _ \<Rightarrow> if is_digit c then Some (read_digits 0 u) else None)"

definition scan_number :: "string \<Rightarrow> (bool \<times> nat \<times> string) option" where
  "scan_number s =
     (case scan_sign (dropWhile isspace s) of
        (neg, u) \<Rightarrow> map_option (\<lambda>(n, rest). (neg, n, rest)) (scan_unsigned u))"

definition strtol :: "string \<Rightarrow> int \<times> bool \<times> string" where
  "strtol s = (case scan_number s of None \<Rightarrow> (0, False, s)
     | Some (neg, n, rest) \<Rightarrow>
         (let v = (if neg then - int n else int n)
          in if v < LONG_MIN then (LONG_MIN, True, rest)
             else if LONG_MAX < v then (LONG_MAX, True, rest) else (v, False, rest)))"

definition strtoul :: "string \<Rightarrow> int \<times> bool \<times> string" where
  "strtoul s = (case scan_number s of None \<Rightarrow> (0, False, s)
     | Some (neg, n, rest) \<Rightarrow>
         if ULONG_MAX < int n then (ULONG_MAX, True, rest)
         else ((if neg then - int n else int n) mod 18446744073709551616, False, rest))"

text \<open>\<open>strtol\<close> into an \<open>int\<close>, as most callers use it.\<close>

definition strtol_int :: "string \<Rightarrow> int \<times> bool \<times> string" where
  "strtol_int s = (let (v, e, r) = strtol s in (to_int32 v, e, r))"

text \<open>The decimal conversion \<open>%d\<close> of \<open>printf\<close>.\<close>

fun nat_str :: "nat \<Rightarrow> string" where
  "nat_str n = (if n < 10 then [digit_chr n] else nat_str (n div 10) @ [digit_chr (n mod 10)])"

declare nat_str.simps [simp del]

definition fmt_d :: "int \<Rightarrow> string" where
  "fmt_d n = (if n < 0 then CHR ''-'' # nat_str (nat (- n)) else nat_str (nat n))"

lemma nat_str_nonempty [simp]: "nat_str n \<noteq> []"
  by (subst nat_str.simps) simp

lemma nat_str_digits: "\<forall>c \<in> set (nat_str n). is_digit c"
proof (induction n rule: nat_str.induct)
  case (1 n)
  then show ?case by (subst nat_str.simps) auto
qed

lemma read_digits_append:
  "\<forall>c \<in> set ds. is_digit c \<Longrightarrow> read_digits acc (ds @ rest) = read_digits (fst (read_digits acc ds)) rest"
  by (induction ds arbitrary: acc) auto

lemma read_digits_nat_str:
  assumes "rest = [] \<or> \<not> is_digit (hd rest)"
  shows "read_digits 0 (nat_str n @ rest) = (n, rest)"
proof -
  have stop: "read_digits k rest = (k, rest)" for k
    using assms by (cases rest) auto
  have "fst (read_digits 0 (nat_str n)) = n"
  proof (induction n rule: nat_str.induct)
    case (1 n)
    show ?case
    proof (cases "n < 10")
      case True
      then show ?thesis by (subst nat_str.simps) simp
    next
      case False
      with "1.IH" have "fst (read_digits 0 (nat_str (n div 10))) = n div 10" by simp
      with False show ?thesis
        by (subst nat_str.simps) (simp add: read_digits_append nat_str_digits)
    qed
  qed
  then show ?thesis
    by (simp add: read_digits_append nat_str_digits stop)
qed

lemma nat_str_hd: "\<exists>c cs. nat_str n = c # cs \<and> is_digit c"
  using nat_str_digits [of n] by (cases "nat_str n") auto

lemma scan_number_fmt_d:
  assumes "rest = [] \<or> \<not> is_digit (hd rest)"
  shows "scan_number (fmt_d n @ rest) = Some (n < 0, nat \<bar>n\<bar>, rest)"
proof (cases "n < 0")
  case True
  obtain c cs where c: "nat_str (nat (- n)) = c # cs" "is_digit c"
    using nat_str_hd by blast
  have r: "read_digits 0 (c # (cs @ rest)) = (nat (- n), rest)"
    using read_digits_nat_str [OF assms, of "nat (- n)"] c by simp
  have "\<not> isspace (CHR ''-'')" by (simp add: isspace_def)
  with True c r show ?thesis
    by (simp add: scan_number_def scan_sign_def scan_unsigned_def fmt_d_def del: read_digits.simps)
next
  case False
  obtain c cs where c: "nat_str (nat n) = c # cs" "is_digit c"
    using nat_str_hd by blast
  have r: "read_digits 0 (c # (cs @ rest)) = (nat n, rest)"
    using read_digits_nat_str [OF assms, of "nat n"] c by simp
  have "\<not> isspace c" "c \<noteq> CHR ''-''" "c \<noteq> CHR ''+''"
    using c(2) by (auto simp: is_digit_not_space is_digit_def)
  with False c r show ?thesis
    by (simp add: scan_number_def scan_sign_def scan_unsigned_def fmt_d_def del: read_digits.simps)
qed

text \<open>Printing with \<open>%d\<close> and reading back with \<open>strtol\<close> gives the number.\<close>

lemma strtol_fmt_d [c_str]:
  assumes "rest = [] \<or> \<not> is_digit (hd rest)" and "LONG_MIN \<le> n" and "n \<le> LONG_MAX"
  shows "strtol (fmt_d n @ rest) = (n, False, rest)"
  using assms(2,3) by (auto simp: strtol_def scan_number_fmt_d [OF assms(1)] Let_def)

lemma strtol_int_fmt_d [c_str]:
  assumes "is_int32 n"
  shows "strtol_int (fmt_d n) = (n, False, [])"
  using strtol_fmt_d [of "[]" n] assms
  by (simp add: strtol_int_def is_int32_def to_int32_id)

lemma fmt_d_chars: "c \<in> set (fmt_d n) \<Longrightarrow> is_digit c \<or> c = CHR ''-''"
  using nat_str_digits by (auto simp: fmt_d_def split: if_splits)

lemma fmt_d_not_space: "c \<in> set (fmt_d n) \<Longrightarrow> \<not> isspace c"
  using fmt_d_chars [of c n] is_digit_not_space by (auto simp: isspace_def)

lemma fmt_d_nonempty [simp]: "fmt_d n \<noteq> []"
  by (simp add: fmt_d_def)

lemma fmt_d_no_nul [simp]: "no_nul (fmt_d n)"
  using fmt_d_chars [of NUL n] by (auto simp: no_nul_def is_digit_def)

lemma fmt_d_inj: "fmt_d m = fmt_d n \<Longrightarrow> m = n"
  using scan_number_fmt_d [of "[]" m] scan_number_fmt_d [of "[]" n] by simp arith

text \<open>\<open>index (s, '\n')\<close> on a NUL-terminated buffer: the text before the first newline and
  the text after it, when a newline precedes the first NUL.\<close>

fun split_nl :: "string \<Rightarrow> (string \<times> string) option" where
  "split_nl [] = None"
| "split_nl (c # cs) =
     (if c = NUL then None
      else if c = NL then Some ([], cs)
      else map_option (\<lambda>(l, r). (c # l, r)) (split_nl cs))"

lemma split_nl_Some:
  "split_nl s = Some (l, r) \<Longrightarrow> s = l @ NL # r \<and> NL \<notin> set l \<and> no_nul l"
  by (induction s arbitrary: l r) (auto split: if_splits)

lemma split_nl_append:
  "NL \<notin> set l \<Longrightarrow> no_nul l \<Longrightarrow> split_nl (l @ NL # r) = Some (l, r)"
  by (induction l) auto

lemma split_nl_None: "no_nul s \<Longrightarrow> split_nl s = None \<longleftrightarrow> NL \<notin> set s"
  by (induction s) auto

lemma split_nl_shorter: "split_nl s = Some (l, r) \<Longrightarrow> length r < length s"
  using split_nl_Some by fastforce

text \<open>\<open>strncat\<close> appends at most \<open>n\<close> characters; \<open>snprintf\<close> writes at most
  \<open>n - 1\<close> and a NUL.\<close>

definition strncat :: "string \<Rightarrow> string \<Rightarrow> int \<Rightarrow> string" where
  "strncat dst src n = dst @ take (nat n) src"

definition snprintf :: "int \<Rightarrow> string \<Rightarrow> string" where
  "snprintf n s = take (nat (n - 1)) s"

lemma strncat_fits: "int (length src) \<le> n \<Longrightarrow> strncat dst src n = dst @ src"
  by (simp add: strncat_def)

lemma snprintf_fits: "int (length s) < n \<Longrightarrow> snprintf n s = s"
  by (simp add: snprintf_def)

lemma read_digits_le: "length (snd (read_digits n s)) \<le> length s"
  by (induction n s rule: read_digits.induct) auto

lemma scan_sign_le: "length (snd (scan_sign t)) \<le> length t"
  by (auto simp: scan_sign_def split: list.splits)

lemma scan_unsigned_shorter: "scan_unsigned u = Some (n, rest) \<Longrightarrow> length rest < length u"
  using read_digits_le [of "digit_val (hd u)" "tl u"]
  by (auto simp: scan_unsigned_def split: list.splits if_splits)

text \<open>A number that was read took at least one character.\<close>

lemma scan_number_shorter:
  assumes "scan_number s = Some (b, n, rest)"
  shows "length rest < length s"
proof -
  let ?u = "snd (scan_sign (dropWhile isspace s))"
  have "scan_unsigned ?u = Some (n, rest)"
    using assms by (auto simp: scan_number_def split: prod.splits)
  then have "length rest < length ?u" by (rule scan_unsigned_shorter)
  also have "\<dots> \<le> length (dropWhile isspace s)" by (rule scan_sign_le)
  also have "\<dots> \<le> length s" by (rule length_dropWhile_le)
  finally show ?thesis .
qed

section \<open>Errors and termination of the process\<close>

text \<open>The values of \<open>errno\<close> that the code sets or distinguishes; any other is
  \<open>EOTHER\<close> with its number.\<close>

datatype errno = EINVAL | ENETDOWN | ENETUNREACH | EHOSTUNREACH | EPERM | EADDRINUSE
  | EADDRNOTAVAIL | ECONNREFUSED | EINPROGRESS | EAGAIN | EINTR | EPIPE | EIO | ENOTSUP
  | ERANGE | EOTHER int

text \<open>Linux's numbers, printed by \<open>%d\<close> conversions of \<open>errno\<close> and stored in
  reply records.\<close>

fun errno_num :: "errno \<Rightarrow> int" where
  "errno_num EPERM = 1" | "errno_num EINTR = 4" | "errno_num EIO = 5"
| "errno_num EAGAIN = 11" | "errno_num EINVAL = 22" | "errno_num EPIPE = 32"
| "errno_num ERANGE = 34" | "errno_num ENOTSUP = 95" | "errno_num EADDRINUSE = 98"
| "errno_num EADDRNOTAVAIL = 99" | "errno_num ENETDOWN = 100"
| "errno_num ENETUNREACH = 101" | "errno_num ECONNREFUSED = 111"
| "errno_num EHOSTUNREACH = 113" | "errno_num EINPROGRESS = 115"
| "errno_num (EOTHER n) = n"

text \<open>
  \<open>error (EXIT_FAILURE, \<dots>)\<close> prints its message and exits. Code that can call it returns a
  sum: \<open>Inl\<close> the message and the state at the exit, or \<open>Inr\<close> its value. \<open>and_then\<close>
  runs the rest of a function after a call that returned.
\<close>

fun and_then :: "'e + 'a \<Rightarrow> ('a \<Rightarrow> 'e + 'b) \<Rightarrow> 'e + 'b" where
  "and_then (Inl e) f = Inl e"
| "and_then (Inr x) f = f x"

lemma and_then_Inr: "and_then m f = Inr y \<longleftrightarrow> (\<exists>x. m = Inr x \<and> f x = Inr y)"
  by (cases m) auto

lemma and_then_Inl: "and_then m f = Inl e \<longleftrightarrow> m = Inl e \<or> (\<exists>x. m = Inr x \<and> f x = Inl e)"
  by (cases m) auto

section \<open>Lists as arrays\<close>

lemma takeWhile_append_stop:
  "\<forall>x \<in> set xs. P x \<Longrightarrow> ys = [] \<or> \<not> P (hd ys) \<Longrightarrow> takeWhile P (xs @ ys) = xs"
  by (induction xs) (cases ys; auto)+

lemma dropWhile_append_stop:
  "\<forall>x \<in> set xs. P x \<Longrightarrow> ys = [] \<or> \<not> P (hd ys) \<Longrightarrow> dropWhile P (xs @ ys) = ys"
  by (induction xs) (cases ys; auto)+

end
