(* ===== verification/Inet.thy ===== *)
theory Inet
  imports Prelude
begin

text \<open>
  What \<open>mtr\<close> and \<open>mtr-packet\<close> share about network addresses: the protocol numbers, the
  address families and the conversions between addresses and text of the C library
  (\<open>inet_ntop\<close>, \<open>inet_pton\<close>), which are parameters with their documented behaviour
  stated by \<open>inet_ok\<close>.
\<close>

section \<open>Protocols and families\<close>

abbreviation (input) IPPROTO_ICMP :: int where "IPPROTO_ICMP \<equiv> 1"
abbreviation (input) IPPROTO_TCP :: int where "IPPROTO_TCP \<equiv> 6"
abbreviation (input) IPPROTO_UDP :: int where "IPPROTO_UDP \<equiv> 17"
abbreviation (input) IPPROTO_ICMPV6 :: int where "IPPROTO_ICMPV6 \<equiv> 58"
abbreviation (input) IPPROTO_SCTP :: int where "IPPROTO_SCTP \<equiv> 132"

datatype family = AF_UNSPEC | AF_INET | AF_INET6

definition addr_len :: "family \<Rightarrow> nat" where
  "addr_len af = (case af of AF_INET \<Rightarrow> 4 | AF_INET6 \<Rightarrow> 16 | AF_UNSPEC \<Rightarrow> 0)"

section \<open>Text of addresses: \<open>inet_ntop\<close> and \<open>inet_pton\<close>\<close>

record inet_env =
  inet_ntop :: "family \<Rightarrow> u8 list \<Rightarrow> string option"
  inet_pton :: "family \<Rightarrow> string \<Rightarrow> u8 list option"

text \<open>
  The documented behaviour: \<open>inet_ntop\<close> of a known family turns the address's bytes into a
  text of printing characters, shorter than \<open>INET6_ADDRSTRLEN\<close>, which \<open>inet_pton\<close> of
  that family reads back; \<open>inet_pton\<close> gives as many bytes as the family has.
\<close>

definition is_addr_text :: "string \<Rightarrow> bool" where
  "is_addr_text s \<longleftrightarrow> s \<noteq> [] \<and> length s < 46 \<and> (\<forall>c \<in> set s. \<not> isspace c \<and> c \<noteq> NUL)"

definition inet_ok :: "inet_env \<Rightarrow> bool" where
  "inet_ok env \<longleftrightarrow>
     (\<forall>af b. af \<noteq> AF_UNSPEC \<longrightarrow> addr_len af \<le> length b \<longrightarrow>
        (\<exists>s. inet_ntop env af b = Some s \<and> is_addr_text s
             \<and> inet_pton env af s = Some (take (addr_len af) b)))
   \<and> (\<forall>af s b. inet_pton env af s = Some b \<longrightarrow> length b = addr_len af)"

lemma inet_ok_ntop:
  assumes "inet_ok env" and "af \<noteq> AF_UNSPEC" and "addr_len af \<le> length b"
  obtains s where "inet_ntop env af b = Some s" and "is_addr_text s"
    and "inet_pton env af s = Some (take (addr_len af) b)"
  using assms unfolding inet_ok_def by blast

end
