(* ===== verification/TimeVal.thy ===== *)
theory TimeVal
  imports Prelude
begin

text \<open>
  \<open>packet/timeval.c\<close>: normalising and comparing time values. A \<open>struct timeval\<close> is a pair
  of seconds and microseconds; \<open>compare_timeval\<close> is the comparison of a linear order on them,
  which for normalised values is the order of the instants they stand for.
\<close>

datatype timeval = Timeval (tv_sec: int) (tv_usec: int)

definition normalize_timeval :: "timeval \<Rightarrow> timeval" where
  "normalize_timeval t =
     (let full_sec = to_int32 (c_div (tv_usec t) 1000000);
          sec = tv_sec t + full_sec;
          usec = tv_usec t - 1000000 * full_sec;
          (sec, usec) = (if usec < 0 then (sec - 1, usec + 1000000) else (sec, usec))
      in if sec < 0 then Timeval 0 0 else Timeval sec usec)"

definition compare_timeval :: "timeval \<Rightarrow> timeval \<Rightarrow> int" where
  "compare_timeval a b =
     (if tv_sec b < tv_sec a then 1
      else if tv_sec a < tv_sec b then -1
      else if tv_usec b < tv_usec a then 1
      else if tv_usec a < tv_usec b then -1
      else 0)"

section \<open>The order of time values\<close>

instantiation timeval :: linorder
begin

definition less_eq_timeval :: "timeval \<Rightarrow> timeval \<Rightarrow> bool" where
  "less_eq_timeval a b \<longleftrightarrow> tv_sec a < tv_sec b \<or> tv_sec a = tv_sec b \<and> tv_usec a \<le> tv_usec b"

definition less_timeval :: "timeval \<Rightarrow> timeval \<Rightarrow> bool" where
  "less_timeval a b \<longleftrightarrow> tv_sec a < tv_sec b \<or> tv_sec a = tv_sec b \<and> tv_usec a < tv_usec b"

instance
  by standard (auto simp: less_eq_timeval_def less_timeval_def timeval.expand)

end

lemma compare_timeval_less [simp]: "compare_timeval a b < 0 \<longleftrightarrow> a < b"
  by (auto simp: compare_timeval_def less_timeval_def)

lemma compare_timeval_eq [simp]: "compare_timeval a b = 0 \<longleftrightarrow> a = b"
  by (auto simp: compare_timeval_def timeval.expand)

lemma compare_timeval_greater: "0 < compare_timeval a b \<longleftrightarrow> b < a"
  by (auto simp: compare_timeval_def less_timeval_def)

section \<open>Instants\<close>

definition usecs :: "timeval \<Rightarrow> int" where
  "usecs t = 1000000 * tv_sec t + tv_usec t"

definition normalized :: "timeval \<Rightarrow> bool" where
  "normalized t \<longleftrightarrow> 0 \<le> tv_sec t \<and> 0 \<le> tv_usec t \<and> tv_usec t < 1000000"

text \<open>On normalised values the order is the order of the instants.\<close>

lemma usecs_less:
  assumes "normalized a" and "normalized b"
  shows "a < b \<longleftrightarrow> usecs a < usecs b"
  using assms by (auto simp: normalized_def less_timeval_def usecs_def)

lemma normalized_usecs_inj: "normalized a \<Longrightarrow> normalized b \<Longrightarrow> usecs a = usecs b \<Longrightarrow> a = b"
  by (metis linorder_less_linear order_less_irrefl usecs_less)

text \<open>Normalising keeps the instant, except that a time before zero becomes zero.\<close>

lemma normalize_timeval_spec:
  assumes "\<bar>tv_usec t\<bar> \<le> 1000000 * 2147483647"
  shows "normalized (normalize_timeval t)" and "usecs (normalize_timeval t) = max 0 (usecs t)"
proof -
  define f where "f = c_div (tv_usec t) 1000000"
  have f: "1000000 * \<bar>f\<bar> \<le> \<bar>tv_usec t\<bar> \<and> \<bar>tv_usec t - 1000000 * f\<bar> < 1000000"
    using c_div_rem [of 1000000 "tv_usec t"] by (simp add: f_def)
  then have "to_int32 f = f"
    using assms by (intro to_int32_id, unfold is_int32_def) linarith
  then have n: "normalize_timeval t =
      (let (sec, usec) = (if tv_usec t - 1000000 * f < 0
          then (tv_sec t + f - 1, tv_usec t - 1000000 * f + 1000000)
          else (tv_sec t + f, tv_usec t - 1000000 * f))
       in if sec < 0 then Timeval 0 0 else Timeval sec usec)"
    by (simp add: normalize_timeval_def f_def Let_def)
  show "normalized (normalize_timeval t)"
    using f by (auto simp: n normalized_def)
  show "usecs (normalize_timeval t) = max 0 (usecs t)"
    using f by (auto simp: n usecs_def)
qed

end
