(* ===== verification/PacketState.thy ===== *)
theory PacketState
  imports Inet TimeVal
begin

text \<open>
  The state of \<open>mtr-packet\<close> (\<open>packet/probe.h\<close>, \<open>packet/probe_unix.h\<close>) and the operating
  system it runs on. The code is C on Unix: calls that fail set \<open>errno\<close>, calls that succeed
  leave it alone, and some of the code looks at it, so \<open>errno\<close> is part of the state, with the
  lines printed so far and a world that only the operating system looks into. The operating
  system is the record \<open>os\<close> of functions on that world. A function of the code is a
  \<open>proc\<close>: from a state to its result and the next state, or to the message of an
  \<open>error (EXIT_FAILURE, \<dots>)\<close> with the state of that moment. The target is Linux with
  \<open>linux/errqueue.h\<close>, on a little-endian machine.
\<close>

section \<open>Network byte order\<close>

definition htons :: "u16 \<Rightarrow> u16" where
  "htons w = push_bit 8 w OR drop_bit 8 w"

lemma htons_htons [simp]: "htons (htons w) = w"
  by (rule bit_word_eqI) (auto simp: htons_def bit_simps)

lemma htons_inject [simp]: "htons v = htons w \<longleftrightarrow> v = w"
  by (metis htons_htons)

text \<open>A 16 bit field of a header in memory, read and written by the machine.\<close>

definition load16 :: "u8 list \<Rightarrow> nat \<Rightarrow> u16" where
  "load16 buf i = (ucast (buf ! i) OR push_bit 8 (ucast (buf ! (i + 1))))"

definition bytes16 :: "u16 \<Rightarrow> u8 list" where
  "bytes16 w = [ucast w, ucast (drop_bit 8 w)]"

text \<open>\<open>memcpy\<close> to an offset of a buffer.\<close>

definition put :: "nat \<Rightarrow> u8 list \<Rightarrow> u8 list \<Rightarrow> u8 list" where
  "put i bs buf = take i buf @ bs @ drop (i + length bs) buf"

lemma length_bytes16 [simp]: "length (bytes16 w) = 2"
  by (simp add: bytes16_def)

lemma length_put: "i + length bs \<le> length buf \<Longrightarrow> length (put i bs buf) = length buf"
  by (simp add: put_def)

lemma nth_put:
  assumes "i + length bs \<le> length buf" and "j < length buf"
  shows "put i bs buf ! j = (if i \<le> j \<and> j < i + length bs then bs ! (j - i) else buf ! j)"
  using assms by (auto simp: put_def nth_append min_def)

lemma load16_bytes16: "load16 (bytes16 w) 0 = w"
  by (rule bit_word_eqI) (auto simp: load16_def bytes16_def bit_simps)

lemma load16_put:
  assumes "i + 2 \<le> length buf"
  shows "load16 (put i (bytes16 w) buf) i = w"
  using assms load16_bytes16 [of w] by (simp add: load16_def nth_put)

lemma load16_put_other:
  assumes "i + length bs \<le> length buf" and "j + 2 \<le> i \<or> i + length bs \<le> j" and "j + 2 \<le> length buf"
  shows "load16 (put i bs buf) j = load16 buf j"
  using assms by (auto simp: load16_def nth_put)

section \<open>Addresses, parameters, probes\<close>

text \<open>A \<open>sockaddr_storage\<close>: family, port as it is in memory, address bytes.\<close>

record sockaddr =
  ss_family :: family
  sin_port :: u16
  sin_addr :: "u8 list"

definition zero_sockaddr :: sockaddr where
  "zero_sockaddr = \<lparr>ss_family = AF_UNSPEC, sin_port = 0, sin_addr = []\<rparr>"

record probe_param_t =
  pp_ip_version :: int
  pp_command_token :: int
  pp_remote_address :: "string option"
  pp_local_address :: "string option"
  pp_protocol :: int
  pp_dest_port :: int
  pp_local_port :: int
  pp_type_of_service :: int
  pp_routing_mark :: int
  pp_ttl :: int
  pp_packet_size :: int
  pp_bit_pattern :: int
  pp_timeout :: int
  pp_is_probing_byte_order :: bool

record probe_t =
  pr_sequence :: int
  pr_token :: int
  pr_remote_addr :: sockaddr
  pr_socket :: int
  pr_timeout_time :: timeval
  pr_departure_time :: timeval

definition zero_probe :: probe_t where
  "zero_probe = \<lparr>pr_sequence = 0, pr_token = 0, pr_remote_addr = zero_sockaddr, pr_socket = 0,
     pr_timeout_time = Timeval 0 0, pr_departure_time = Timeval 0 0\<rparr>"

record mpls_label_t =
  ml_label :: u32
  ml_traffic_class :: u8
  ml_bottom_of_stack :: u8
  ml_ttl :: u8

text \<open>The outstanding probes are their addresses in memory with their contents, in the order of
  the list.\<close>

record net_state_t =
  outstanding_probe_count :: int
  outstanding_probes :: "(nat \<times> probe_t) list"
  ip4_present :: bool
  ip6_present :: bool
  ip4_socket_raw :: bool
  ip6_socket_raw :: bool
  ip4_send_socket :: int
  ip4_recv_socket :: int
  ip4_tmp_icmp_socket :: int
  ip4_txrx_icmp_socket :: int
  ip4_txrx_udp_socket :: int
  icmp6_send_socket :: int
  udp6_send_socket :: int
  ip6_recv_socket :: int
  ip6_txrx_icmp_socket :: int
  ip6_txrx_udp_socket :: int
  ip_length_host_order :: bool
  sctp_support :: bool
  np_next_sequence :: int

abbreviation (input) MAX_PROBES :: int where "MAX_PROBES \<equiv> 1024"
abbreviation (input) PACKET_BUFFER_SIZE :: int where "PACKET_BUFFER_SIZE \<equiv> 9000"
abbreviation (input) MIN_PORT :: int where "MIN_PORT \<equiv> 33000"
abbreviation (input) MAX_PORT :: int where "MAX_PORT \<equiv> 65535"

abbreviation (input) ICMP_ECHOREPLY :: int where "ICMP_ECHOREPLY \<equiv> 0"
abbreviation (input) ICMP_DEST_UNREACH :: int where "ICMP_DEST_UNREACH \<equiv> 3"
abbreviation (input) ICMP_ECHO :: int where "ICMP_ECHO \<equiv> 8"
abbreviation (input) ICMP_TIME_EXCEEDED :: int where "ICMP_TIME_EXCEEDED \<equiv> 11"

section \<open>The operating system\<close>

datatype sock_kind = SOCK_RAW | SOCK_DGRAM | SOCK_STREAM

datatype sockopt = SO_REUSEPORT | SO_REUSEADDR | SO_MARK | IP_HDRINCL | IP_TTL | IP_TOS | IP_RECVERR
  | IPV6_UNICAST_HOPS | IPV6_TCLASS | IPV6_CHECKSUM | IPV6_RECVERR

text \<open>A message of \<open>recvmsg\<close>: its bytes, the address it came from and, for a message of the
  error queue, the offender that its control data names.\<close>

record message =
  msg_bytes :: "u8 list"
  msg_from :: sockaddr
  msg_offender :: "sockaddr option"

text \<open>\<open>os_uninit\<close> and \<open>os_uninit_bytes\<close> are what uninitialised stack memory holds;
  \<open>os_malloc\<close> tells whether memory is left.\<close>

record 'w os =
  os_pid :: int
  os_inet :: inet_env
  os_uninit :: sockaddr
  os_uninit_bytes :: "u8 list"
  os_malloc :: "'w \<Rightarrow> bool \<times> 'w"
  os_socket :: "family \<Rightarrow> sock_kind \<Rightarrow> int \<Rightarrow> 'w \<Rightarrow> (errno + int) \<times> 'w"
  os_close :: "int \<Rightarrow> 'w \<Rightarrow> 'w"
  os_getfl :: "int \<Rightarrow> 'w \<Rightarrow> (errno + int) \<times> 'w"
  os_set_nonblock :: "int \<Rightarrow> int \<Rightarrow> 'w \<Rightarrow> (errno + unit) \<times> 'w"
  os_setsockopt :: "int \<Rightarrow> sockopt \<Rightarrow> int \<Rightarrow> 'w \<Rightarrow> (errno + unit) \<times> 'w"
  os_bind :: "int \<Rightarrow> sockaddr \<Rightarrow> 'w \<Rightarrow> (errno + unit) \<times> 'w"
  os_connect :: "int \<Rightarrow> sockaddr \<Rightarrow> 'w \<Rightarrow> (errno + unit) \<times> 'w"
  os_getsockname :: "int \<Rightarrow> 'w \<Rightarrow> (errno + sockaddr) \<times> 'w"
  os_sendto :: "int \<Rightarrow> u8 list \<Rightarrow> sockaddr \<Rightarrow> 'w \<Rightarrow> (errno + int) \<times> 'w"
  os_recvmsg :: "int \<Rightarrow> bool \<Rightarrow> 'w \<Rightarrow> (errno + message) \<times> 'w"
  os_so_error :: "int \<Rightarrow> 'w \<Rightarrow> (errno + errno option) \<times> 'w"
  os_so_protocol :: "int \<Rightarrow> 'w \<Rightarrow> (errno + int) \<times> 'w"
  os_gettimeofday :: "'w \<Rightarrow> (errno + timeval) \<times> 'w"
  os_writable :: "int \<Rightarrow> 'w \<Rightarrow> (errno + bool) \<times> 'w"
  os_select :: "int \<Rightarrow> int list \<Rightarrow> int list \<Rightarrow> timeval option \<Rightarrow> 'w \<Rightarrow> (errno + unit) \<times> 'w"
  os_read :: "int \<Rightarrow> int \<Rightarrow> 'w \<Rightarrow> (errno + string) \<times> 'w"

record 'w pst =
  net_state :: net_state_t
  stdout_lines :: "string list"
  errno_var :: errno
  world :: 'w

section \<open>Procedures\<close>

type_synonym ('a, 'w) proc = "'w pst \<Rightarrow> (string \<times> 'w pst) + ('a \<times> 'w pst)"

definition ret :: "'a \<Rightarrow> ('a, 'w) proc" where
  "ret x = (\<lambda>st. Inr (x, st))"

definition bnd :: "('a, 'w) proc \<Rightarrow> ('a \<Rightarrow> ('b, 'w) proc) \<Rightarrow> ('b, 'w) proc" where
  "bnd m f = (\<lambda>st. and_then (m st) (\<lambda>(x, st). f x st))"

definition error_exit :: "string \<Rightarrow> ('a, 'w) proc" where
  "error_exit msg = (\<lambda>st. Inl (msg, st))"

definition get_ns :: "(net_state_t, 'w) proc" where
  "get_ns = (\<lambda>st. Inr (net_state st, st))"

definition upd_ns :: "(net_state_t \<Rightarrow> net_state_t) \<Rightarrow> (unit, 'w) proc" where
  "upd_ns f = (\<lambda>st. Inr ((), st\<lparr>net_state := f (net_state st)\<rparr>))"

definition get_errno :: "(errno, 'w) proc" where
  "get_errno = (\<lambda>st. Inr (errno_var st, st))"

definition set_errno :: "errno \<Rightarrow> (unit, 'w) proc" where
  "set_errno e = (\<lambda>st. Inr ((), st\<lparr>errno_var := e\<rparr>))"

definition print_line :: "string \<Rightarrow> (unit, 'w) proc" where
  "print_line l = (\<lambda>st. Inr ((), st\<lparr>stdout_lines := stdout_lines st @ [l]\<rparr>))"

text \<open>A system call: \<open>None\<close> is its failure, with \<open>errno\<close> set.\<close>

definition sys :: "('w \<Rightarrow> (errno + 'a) \<times> 'w) \<Rightarrow> ('a option, 'w) proc" where
  "sys call = (\<lambda>st. case call (world st) of
     (Inl e, w) \<Rightarrow> Inr (None, st\<lparr>errno_var := e, world := w\<rparr>)
   | (Inr x, w) \<Rightarrow> Inr (Some x, st\<lparr>world := w\<rparr>))"

definition sys_close :: "'w os \<Rightarrow> int \<Rightarrow> (unit, 'w) proc" where
  "sys_close os fd = (\<lambda>st. Inr ((), st\<lparr>world := os_close os fd (world st)\<rparr>))"

definition sys_malloc :: "'w os \<Rightarrow> (bool, 'w) proc" where
  "sys_malloc os = (\<lambda>st. case os_malloc os (world st) of (b, w) \<Rightarrow> Inr (b, st\<lparr>world := w\<rparr>))"

lemmas proc_defs = ret_def bnd_def error_exit_def get_ns_def upd_ns_def get_errno_def set_errno_def
  print_line_def sys_close_def

lemma bnd_Inr: "bnd m f st = Inr r \<longleftrightarrow> (\<exists>x st'. m st = Inr (x, st') \<and> f x st' = Inr r)"
  by (auto simp: bnd_def and_then_Inr)

lemma bnd_Inl: "bnd m f st = Inl e \<longleftrightarrow> m st = Inl e \<or> (\<exists>x st'. m st = Inr (x, st') \<and> f x st' = Inl e)"
  by (auto simp: bnd_def and_then_Inl)

lemma bnd_ret [simp]: "bnd (ret x) f = f x"
  by (simp add: bnd_def ret_def)

lemma bnd_assoc: "bnd (bnd m f) g = bnd m (\<lambda>x. bnd (f x) g)"
proof
  fix st
  show "bnd (bnd m f) g st = bnd m (\<lambda>x. bnd (f x) g) st"
    by (cases "m st") (auto simp: bnd_def)
qed

text \<open>A procedure keeps a property of the state, whether it returns or exits.\<close>

definition keeps :: "('w pst \<Rightarrow> bool) \<Rightarrow> ('a, 'w) proc \<Rightarrow> bool" where
  "keeps P m \<longleftrightarrow> (\<forall>st. P st \<longrightarrow> (case m st of Inl (msg, st') \<Rightarrow> P st' | Inr (x, st') \<Rightarrow> P st'))"

lemma keeps_bnd:
  assumes "keeps P m" and "\<And>x. keeps P (f x)"
  shows "keeps P (bnd m f)"
  unfolding keeps_def
proof (intro allI impI)
  fix st assume "P st"
  with assms(1) have m: "case m st of Inl (msg, st') \<Rightarrow> P st' | Inr (x, st') \<Rightarrow> P st'"
    by (simp add: keeps_def)
  show "case bnd m f st of Inl (msg, st') \<Rightarrow> P st' | Inr (x, st') \<Rightarrow> P st'"
  proof (cases "m st")
    case (Inl e)
    with m show ?thesis by (simp add: bnd_def)
  next
    case (Inr r)
    obtain x st' where r: "r = (x, st')" by fastforce
    with m Inr have "P st'" by simp
    with assms(2) [of x] have "case f x st' of Inl (msg, st') \<Rightarrow> P st' | Inr (x, st') \<Rightarrow> P st'"
      by (simp add: keeps_def)
    with Inr r show ?thesis by (simp add: bnd_def)
  qed
qed

lemma keeps_ret [simp]: "keeps P (ret x)"
  by (simp add: keeps_def ret_def)

lemma keeps_error_exit [simp]: "keeps P (error_exit msg)"
  by (simp add: keeps_def error_exit_def)

lemma keeps_get [simp]: "keeps P get_ns" "keeps P get_errno"
  by (simp_all add: keeps_def get_ns_def get_errno_def)

lemma keepsD: "keeps P m \<Longrightarrow> P st \<Longrightarrow> m st = Inr (x, st') \<Longrightarrow> P st'"
  by (auto simp: keeps_def dest!: spec [of _ st])

lemma keepsD_exit: "keeps P m \<Longrightarrow> P st \<Longrightarrow> m st = Inl (msg, st') \<Longrightarrow> P st'"
  by (auto simp: keeps_def dest!: spec [of _ st])

end
