(* ===== verification/BsdList.thy ===== *)
theory BsdList
  imports Prelude
begin

text \<open>
  The doubly linked list of \<open>portability/queue.h\<close> that holds the outstanding probes
  (\<open>LIST_HEAD\<close>, \<open>LIST_INSERT_HEAD\<close>, \<open>LIST_REMOVE\<close>, \<open>LIST_FOREACH\<close>,
  \<open>LIST_FOREACH_SAFE\<close>), at the level of its pointers. An element has the address of the next
  element and, in \<open>le_prev\<close>, the address of the pointer that points to it: the head of the
  list or the \<open>le_next\<close> of the element before. The theory relates the pointers to the list of
  addresses they link, in the order of the traversal.
\<close>

section \<open>Pointers\<close>

datatype slot = HeadSlot | NextSlot nat

record links =
  lh_first :: "nat option"
  le_next :: "nat \<Rightarrow> nat option"
  le_prev :: "nat \<Rightarrow> slot"

text \<open>Assignment through a pointer to a pointer.\<close>

fun store_slot :: "slot \<Rightarrow> nat option \<Rightarrow> links \<Rightarrow> links" where
  "store_slot HeadSlot v h = h\<lparr>lh_first := v\<rparr>"
| "store_slot (NextSlot p) v h = h\<lparr>le_next := (le_next h)(p := v)\<rparr>"

definition LIST_INSERT_HEAD :: "nat \<Rightarrow> links \<Rightarrow> links" where
  "LIST_INSERT_HEAD elm h =
     (let h = h\<lparr>le_next := (le_next h)(elm := lh_first h)\<rparr>;
          h = (case le_next h elm of None \<Rightarrow> h
               | Some first \<Rightarrow> h\<lparr>le_prev := (le_prev h)(first := NextSlot elm)\<rparr>);
          h = h\<lparr>lh_first := Some elm\<rparr>
      in h\<lparr>le_prev := (le_prev h)(elm := HeadSlot)\<rparr>)"

definition LIST_REMOVE :: "nat \<Rightarrow> links \<Rightarrow> links" where
  "LIST_REMOVE elm h =
     (let h = (case le_next h elm of None \<Rightarrow> h
               | Some n \<Rightarrow> h\<lparr>le_prev := (le_prev h)(n := le_prev h elm)\<rparr>)
      in store_slot (le_prev h elm) (le_next h elm) h)"

text \<open>The traversals: \<open>LIST_FOREACH\<close> reads the next address after the body,
  \<open>LIST_FOREACH_SAFE\<close> before it, so that the body may remove its element. A traversal is given
  fuel; the length of the list is enough.\<close>

fun LIST_FOREACH :: "nat \<Rightarrow> nat option \<Rightarrow> (nat \<Rightarrow> 'b \<Rightarrow> 'b) \<Rightarrow> links \<Rightarrow> 'b \<Rightarrow> 'b option" where
  "LIST_FOREACH fuel None body h x = Some x"
| "LIST_FOREACH 0 (Some var) body h x = None"
| "LIST_FOREACH (Suc fuel) (Some var) body h x =
     LIST_FOREACH fuel (le_next h var) body h (body var x)"

fun LIST_FOREACH_SAFE ::
  "nat \<Rightarrow> nat option \<Rightarrow> (nat \<Rightarrow> links \<times> 'b \<Rightarrow> links \<times> 'b) \<Rightarrow> links \<times> 'b \<Rightarrow> (links \<times> 'b) option" where
  "LIST_FOREACH_SAFE fuel None body hx = Some hx"
| "LIST_FOREACH_SAFE 0 (Some var) body hx = None"
| "LIST_FOREACH_SAFE (Suc fuel) (Some var) body hx =
     (let tvar = le_next (fst hx) var
      in LIST_FOREACH_SAFE fuel tvar body (body var hx))"

section \<open>The list the pointers link\<close>

text \<open>\<open>linked h slot xs\<close>: from the pointer at \<open>slot\<close> the addresses \<open>xs\<close> follow one
  another, each with the address of the pointer that leads to it.\<close>

fun content :: "links \<Rightarrow> slot \<Rightarrow> nat option" where
  "content h HeadSlot = lh_first h"
| "content h (NextSlot p) = le_next h p"

fun linked :: "links \<Rightarrow> slot \<Rightarrow> nat list \<Rightarrow> bool" where
  "linked h slot [] = (content h slot = None)"
| "linked h slot (x # xs) =
     (content h slot = Some x \<and> le_prev h x = slot \<and> linked h (NextSlot x) xs)"

definition is_list :: "links \<Rightarrow> nat list \<Rightarrow> bool" where
  "is_list h xs \<longleftrightarrow> linked h HeadSlot xs \<and> distinct xs"

lemma content_store [simp]: "content (store_slot sl v h) sl' = (if sl' = sl then v else content h sl')"
  by (cases sl; cases sl') auto

lemma le_prev_store [simp]: "le_prev (store_slot sl v h) = le_prev h"
  by (cases sl) auto

lemma linked_frame:
  assumes "content h' slot = content h slot"
    and "\<forall>x \<in> set xs. le_next h' x = le_next h x \<and> le_prev h' x = le_prev h x"
  shows "linked h' slot xs = linked h slot xs"
  using assms by (induction xs arbitrary: slot) auto

lemma LIST_INSERT_HEAD_list:
  assumes "is_list h xs" and "elm \<notin> set xs"
  shows "is_list (LIST_INSERT_HEAD elm h) (elm # xs)"
proof (cases xs)
  case Nil
  with assms show ?thesis by (simp add: is_list_def LIST_INSERT_HEAD_def)
next
  case (Cons y ys)
  let ?h = "LIST_INSERT_HEAD elm h"
  have h: "lh_first h = Some y" "linked h (NextSlot y) ys" and d: "y \<notin> set ys" "distinct ys" "y \<noteq> elm"
    using assms Cons by (auto simp: is_list_def)
  have e: "lh_first ?h = Some elm" "le_next ?h = (le_next h)(elm := Some y)"
    "le_prev ?h = (le_prev h)(y := NextSlot elm, elm := HeadSlot)"
    using h(1) by (simp_all add: LIST_INSERT_HEAD_def)
  have "linked ?h (NextSlot y) ys"
    by (subst linked_frame [where h = h]) (use h(2) assms(2) Cons d in \<open>auto simp: e\<close>)
  then show ?thesis
    using assms(2) Cons d by (auto simp: is_list_def e)
qed

text \<open>The pointers that a removal changes.\<close>

lemma content_REMOVE:
  "content (LIST_REMOVE elm h) sl = (if sl = le_prev h elm then le_next h elm else content h sl)"
  by (cases sl; cases "le_prev h elm"; cases "le_next h elm") (auto simp: LIST_REMOVE_def)

lemma next_REMOVE:
  "le_next (LIST_REMOVE elm h) x = (if NextSlot x = le_prev h elm then le_next h elm else le_next h x)"
  using content_REMOVE [of elm h "NextSlot x"] by simp

lemma le_prev_REMOVE: "le_prev (LIST_REMOVE elm h) =
    (case le_next h elm of None \<Rightarrow> le_prev h | Some n \<Rightarrow> (le_prev h)(n := le_prev h elm))"
  by (simp add: LIST_REMOVE_def split: option.split)

lemma linked_prev:
  "linked h slot (pre @ elm # post) \<Longrightarrow>
     le_prev h elm = (if pre = [] then slot else NextSlot (last pre)) \<and> linked h (NextSlot elm) post"
proof (induction pre arbitrary: slot)
  case (Cons a pre)
  then have "linked h (NextSlot a) (pre @ elm # post)" by simp
  from Cons.IH [OF this] show ?case by (cases pre) simp_all
qed simp

lemma linked_REMOVE:
  assumes "linked h slot (pre @ elm # post)" and "distinct (pre @ elm # post)"
    and "slot \<notin> NextSlot ` set (pre @ elm # post)"
  shows "linked (LIST_REMOVE elm h) slot (pre @ post)"
  using assms
proof (induction pre arbitrary: slot)
  case Nil
  have l: "le_prev h elm = slot" "linked h (NextSlot elm) post" using Nil by auto
  show ?case
  proof (cases post)
    case Nil
    with l show ?thesis by (simp add: content_REMOVE)
  next
    case (Cons y ys)
    have y: "le_next h elm = Some y" "linked h (NextSlot y) ys" using l(2) Cons by auto
    have "linked (LIST_REMOVE elm h) (NextSlot y) ys"
    proof (subst linked_frame [where h = h])
      have ne: "NextSlot x \<noteq> le_prev h elm" if "x \<in> set post" for x
      proof -
        have "NextSlot x \<in> NextSlot ` set (elm # post)" using that by simp
        then show ?thesis using Nil.prems(3) l(1) by (metis append_Nil)
      qed
      then show "content (LIST_REMOVE elm h) (NextSlot y) = content h (NextSlot y)"
        using Cons by (simp only: content_REMOVE) simp
      show "\<forall>x \<in> set ys. le_next (LIST_REMOVE elm h) x = le_next h x
          \<and> le_prev (LIST_REMOVE elm h) x = le_prev h x"
        using ne Cons y(1) Nil.prems(2) by (auto simp: next_REMOVE le_prev_REMOVE)
    qed (rule y(2))
    with Cons y(1) l(1) show ?thesis by (simp add: content_REMOVE le_prev_REMOVE)
  qed
next
  case (Cons x pre)
  have "linked h (NextSlot x) (pre @ elm # post)" using Cons.prems(1) by simp
  moreover have "NextSlot x \<notin> NextSlot ` set (pre @ elm # post)" using Cons.prems(2) by auto
  ultimately have IH: "linked (LIST_REMOVE elm h) (NextSlot x) (pre @ post)"
    using Cons.IH Cons.prems(2) by simp
  have p: "le_prev h elm = NextSlot (last (x # pre))" "linked h (NextSlot elm) post"
    using linked_prev [OF Cons.prems(1)] by simp_all
  have "last (x # pre) \<in> set (x # pre)" by (rule last_in_set) simp
  then have "slot \<noteq> le_prev h elm" using Cons.prems(3) p(1) by auto
  then have "content (LIST_REMOVE elm h) slot = Some x"
    using Cons.prems(1) by (simp add: content_REMOVE)
  moreover have "le_prev (LIST_REMOVE elm h) x = slot"
  proof (cases post)
    case Nil
    with p(2) Cons.prems(1) show ?thesis by (simp add: le_prev_REMOVE)
  next
    case (Cons y ys)
    then have "le_next h elm = Some y" "y \<noteq> x" using p(2) Cons.prems(2) by auto
    with Cons.prems(1) show ?thesis by (simp add: le_prev_REMOVE)
  qed
  ultimately show ?case using IH by simp
qed

lemma LIST_REMOVE_list:
  assumes "is_list h xs" and "elm \<in> set xs"
  shows "is_list (LIST_REMOVE elm h) (remove1 elm xs)"
proof -
  obtain pre post where xs: "xs = pre @ elm # post" and pre: "elm \<notin> set pre"
    using assms(2) split_list_first by metis
  have "linked (LIST_REMOVE elm h) HeadSlot (pre @ post)"
    by (rule linked_REMOVE) (use assms(1) xs in \<open>auto simp: is_list_def\<close>)
  then show ?thesis
    using assms(1) xs pre by (auto simp: is_list_def remove1_append)
qed

text \<open>The traversals visit the elements in order; the safe one also when each visit removes
  nothing but its own element.\<close>

lemma LIST_FOREACH_fold:
  "linked h slot xs \<Longrightarrow> length xs \<le> fuel \<Longrightarrow>
     LIST_FOREACH fuel (content h slot) body h x = Some (fold body xs x)"
proof (induction xs arbitrary: slot fuel x)
  case Nil
  then show ?case by simp
next
  case (Cons y ys)
  then obtain f where "fuel = Suc f" by (cases fuel) auto
  with Cons show ?case using Cons.IH [of "NextSlot y" f] by simp
qed

lemma linked_content:
  "linked h slot (pre @ post) \<Longrightarrow>
     content h (if pre = [] then slot else NextSlot (last pre)) = (if post = [] then None else Some (hd post))"
proof (induction pre arbitrary: slot)
  case Nil
  then show ?case by (cases post) auto
next
  case (Cons a pre)
  then have "linked h (NextSlot a) (pre @ post)" by simp
  from Cons.IH [OF this] show ?case by (cases pre) simp_all
qed

lemma LIST_FOREACH_SAFE_fold:
  assumes "\<And>pre var rest hx. is_list (fst hx) (pre @ var # rest) \<Longrightarrow>
      is_list (fst (body var hx)) (pre @ var # rest) \<or> is_list (fst (body var hx)) (pre @ rest)"
    and "is_list h xs" and "length xs \<le> fuel"
  shows "LIST_FOREACH_SAFE fuel (lh_first h) body (h, x) = Some (fold body xs (h, x))"
proof -
  have step: "LIST_FOREACH_SAFE fuel p body hx = Some (fold body ys hx)"
    if "is_list (fst hx) (pre @ ys)" and "p = (if ys = [] then None else Some (hd ys))"
      and "length ys \<le> fuel" for fuel p pre ys hx
    using that
  proof (induction ys arbitrary: fuel p pre hx)
    case Nil
    then show ?case by simp
  next
    case (Cons y ys)
    obtain f where f: "fuel = Suc f" using Cons.prems(3) by (cases fuel) auto
    have nxt: "le_next (fst hx) y = (if ys = [] then None else Some (hd ys))"
      using linked_content [of "fst hx" HeadSlot "pre @ [y]" ys] Cons.prems(1) by (simp add: is_list_def)
    obtain pre' where "is_list (fst (body y hx)) (pre' @ ys)"
      using assms(1) [OF Cons.prems(1)] by (metis append.assoc append_Cons append_Nil)
    from Cons.IH [OF this nxt] Cons.prems f show ?case by simp
  qed
  show ?thesis
    by (rule step [where pre = "[]"])
      (use assms(2,3) linked_content [of h HeadSlot "[]" xs] in \<open>auto simp: is_list_def\<close>)
qed

section \<open>The interface\<close>

text \<open>What the tracking of outstanding probes relies on: a structure that holds a list of
  distinct elements, to which one is added in front and from which one is removed.\<close>

locale tracking_list =
  fixes holds :: "'h \<Rightarrow> 'p list \<Rightarrow> bool"
    and insert_front :: "'p \<Rightarrow> 'h \<Rightarrow> 'h"
    and remove :: "'p \<Rightarrow> 'h \<Rightarrow> 'h"
  assumes holds_distinct: "holds h ps \<Longrightarrow> distinct ps"
    and holds_insert: "holds h ps \<Longrightarrow> p \<notin> set ps \<Longrightarrow> holds (insert_front p h) (p # ps)"
    and holds_remove: "holds h ps \<Longrightarrow> p \<in> set ps \<Longrightarrow> holds (remove p h) (remove1 p ps)"
begin

lemma insert_then_remove: "holds h ps \<Longrightarrow> p \<notin> set ps \<Longrightarrow> holds (remove p (insert_front p h)) ps"
  using holds_remove [OF holds_insert] by force

text \<open>Removing some of the elements, in any order, leaves the others in theirs.\<close>

lemma remove_several:
  "holds h ps \<Longrightarrow> distinct qs \<Longrightarrow> set qs \<subseteq> set ps \<Longrightarrow>
     holds (fold remove qs h) (filter (\<lambda>p. p \<notin> set qs) ps)"
proof (induction qs arbitrary: h ps)
  case Nil
  then show ?case by simp
next
  case (Cons q qs)
  have h: "holds (remove q h) (remove1 q ps)" using Cons.prems by (auto intro: holds_remove)
  have d: "distinct ps" using Cons.prems(1) by (rule holds_distinct)
  have "set qs \<subseteq> set (remove1 q ps)" using Cons.prems d by auto
  from Cons.IH [OF h _ this] Cons.prems(2)
  have "holds (fold remove (q # qs) h) (filter (\<lambda>p. p \<notin> set qs) (remove1 q ps))" by simp
  moreover have "filter (\<lambda>p. p \<notin> set qs) (remove1 q ps) = filter (\<lambda>p. p \<notin> set (q # qs)) ps"
    using d by (auto simp: distinct_remove1_removeAll removeAll_filter_not_eq intro: filter_cong)
  ultimately show ?case by simp
qed

end

interpretation links: tracking_list is_list LIST_INSERT_HEAD LIST_REMOVE
proof
  show "is_list h ps \<Longrightarrow> distinct ps" for h ps by (simp add: is_list_def)
qed (fact LIST_INSERT_HEAD_list LIST_REMOVE_list)+

end
