(* ===== verification/Probe.thy ===== *)
theory Probe
  imports PacketState BsdList
begin

text \<open>
  \<open>packet/probe.c\<close>, with the platform's part of allocating, freeing and completing probes from
  \<open>packet/probe_unix.c\<close>: the table of outstanding probes, the resolution of their addresses,
  and the reply lines that tell \<open>mtr\<close> what became of a probe. The table is the list that
  \<open>BsdList\<close> shows the pointers of the code to implement. A use of a probe that is not in the
  table is the exit ``dangling probe''; it stands for a use of freed memory.
\<close>

section \<open>The table of outstanding probes\<close>

definition fresh_ptr :: "net_state_t \<Rightarrow> nat" where
  "fresh_ptr ns = Suc (foldr max (map fst (outstanding_probes ns)) 0)"

text \<open>\<open>platform_alloc_probe\<close> takes the next sequence number.\<close>

definition advance_sequence :: "net_state_t \<Rightarrow> net_state_t" where
  "advance_sequence ns =
     (let ns = ns\<lparr>np_next_sequence := np_next_sequence ns + 1\<rparr>
      in if MAX_PORT < np_next_sequence ns then ns\<lparr>np_next_sequence := MIN_PORT\<rparr> else ns)"

definition platform_alloc_probe :: "net_state_t \<Rightarrow> probe_t \<Rightarrow> net_state_t \<times> probe_t" where
  "platform_alloc_probe ns probe =
     (advance_sequence ns, probe\<lparr>pr_sequence := np_next_sequence ns\<rparr>)"

definition insert_probe :: "nat \<times> probe_t \<Rightarrow> net_state_t \<Rightarrow> net_state_t" where
  "insert_probe pp ns = ns\<lparr>outstanding_probes := pp # outstanding_probes ns\<rparr>"

definition remove_probe :: "nat \<Rightarrow> net_state_t \<Rightarrow> net_state_t" where
  "remove_probe p ns = ns\<lparr>outstanding_probes := filter (\<lambda>(q, _). q \<noteq> p) (outstanding_probes ns)\<rparr>"

definition alloc_probe :: "'w os \<Rightarrow> int \<Rightarrow> ((nat \<times> probe_t) option, 'w) proc" where
  "alloc_probe os tok =
     bnd get_ns (\<lambda>ns.
     if MAX_PROBES \<le> outstanding_probe_count ns then ret None
     else bnd (sys_malloc os) (\<lambda>got.
     if \<not> got then ret None
     else
       (let probe = zero_probe\<lparr>pr_token := tok\<rparr>;
            p = fresh_ptr ns;
            (ns', probe) = platform_alloc_probe ns probe
        in bnd (upd_ns (\<lambda>_. insert_probe (p, probe)
                  (ns'\<lparr>outstanding_probe_count := outstanding_probe_count ns' + 1\<rparr>)))
             (\<lambda>_. ret (Some (p, probe))))))"

text \<open>The contents of a probe, and an assignment to it through its pointer.\<close>

definition probe_at :: "nat \<Rightarrow> (probe_t, 'w) proc" where
  "probe_at p = bnd get_ns (\<lambda>ns. case map_of (outstanding_probes ns) p of
     Some probe \<Rightarrow> ret probe | None \<Rightarrow> error_exit ''dangling probe'')"

definition upd_probe :: "nat \<Rightarrow> (probe_t \<Rightarrow> probe_t) \<Rightarrow> (unit, 'w) proc" where
  "upd_probe p f = upd_ns (\<lambda>ns. ns\<lparr>outstanding_probes :=
     map (\<lambda>(q, x). if q = p then (q, f x) else (q, x)) (outstanding_probes ns)\<rparr>)"

definition platform_free_probe :: "'w os \<Rightarrow> probe_t \<Rightarrow> (unit, 'w) proc" where
  "platform_free_probe os probe = (if pr_socket probe \<noteq> 0 then sys_close os (pr_socket probe) else ret ())"

definition free_probe :: "'w os \<Rightarrow> nat \<Rightarrow> (unit, 'w) proc" where
  "free_probe os p =
     bnd (probe_at p) (\<lambda>probe.
     bnd (upd_ns (remove_probe p)) (\<lambda>_.
     bnd (upd_ns (\<lambda>ns. ns\<lparr>outstanding_probe_count := outstanding_probe_count ns - 1\<rparr>)) (\<lambda>_.
     platform_free_probe os probe)))"

text \<open>\<open>find_probe\<close>: the identifier and the sequence number are as they are in the packet, in
  network order.\<close>

definition find_probe :: "'w os \<Rightarrow> int \<Rightarrow> u16 \<Rightarrow> u16 \<Rightarrow> net_state_t \<Rightarrow> nat option" where
  "find_probe os protocol icmp_id sequence ns =
     (if protocol = IPPROTO_ICMP \<and> icmp_id \<noteq> htons (word_of_int (os_pid os)) then None
      else map_option fst (find (\<lambda>(p, probe). htons (word_of_int (pr_sequence probe)) = sequence)
             (outstanding_probes ns)))"

section \<open>Addresses of a probe\<close>

definition family_of :: "int \<Rightarrow> family" where
  "family_of ip_version =
     (if ip_version = 6 then AF_INET6 else if ip_version = 4 then AF_INET else AF_UNSPEC)"

definition decode_address_string :: "'w os \<Rightarrow> int \<Rightarrow> string option \<Rightarrow> (sockaddr option, 'w) proc" where
  "decode_address_string os ip_version address_string =
     (if family_of ip_version = AF_UNSPEC then bnd (set_errno EINVAL) (\<lambda>_. ret None)
      else (case address_string of
              None \<Rightarrow> error_exit ''null address''
            | Some s \<Rightarrow>
                (case inet_pton (os_inet os) (family_of ip_version) s of
                   None \<Rightarrow> bnd (set_errno EINVAL) (\<lambda>_. ret None)
                 | Some a \<Rightarrow> ret (Some \<lparr>ss_family = family_of ip_version, sin_port = 0, sin_addr = a\<rparr>))))"

text \<open>\<open>find_source_addr\<close> asks the kernel by connecting a socket. For an unreachable host the
  address becomes the unspecified one; the family of the result is then whatever the memory of the
  caller held.\<close>

definition find_source_addr :: "'w os \<Rightarrow> sockaddr \<Rightarrow> sockaddr \<Rightarrow> (sockaddr option, 'w) proc" where
  "find_source_addr os srcaddr destaddr =
     bnd (sys (os_socket os (ss_family destaddr) SOCK_DGRAM IPPROTO_UDP)) (\<lambda>sock.
     case sock of None \<Rightarrow> ret None | Some sock \<Rightarrow>
     bnd (sys (os_connect os sock (destaddr\<lparr>sin_port := htons 1\<rparr>))) (\<lambda>connected.
     bnd (case connected of
            Some _ \<Rightarrow> sys (os_getsockname os sock)
          | None \<Rightarrow> bnd get_errno (\<lambda>e.
              if e \<noteq> EHOSTUNREACH then ret None
              else ret (Some (srcaddr\<lparr>sin_addr := replicate (addr_len (ss_family destaddr)) 0\<rparr>)))) (\<lambda>addr.
     bnd (sys_close os sock) (\<lambda>_.
     ret (map_option (\<lambda>a. a\<lparr>sin_port := 0\<rparr>) addr)))))"

definition resolve_probe_addresses ::
  "'w os \<Rightarrow> probe_param_t \<Rightarrow> ((sockaddr \<times> sockaddr) option, 'w) proc" where
  "resolve_probe_addresses os param =
     bnd (decode_address_string os (pp_ip_version param) (pp_remote_address param)) (\<lambda>dest.
     case dest of None \<Rightarrow> ret None | Some dest_sockaddr \<Rightarrow>
     bnd (case pp_local_address param of
            Some a \<Rightarrow> decode_address_string os (pp_ip_version param) (Some a)
          | None \<Rightarrow> find_source_addr os (os_uninit os) dest_sockaddr) (\<lambda>src.
     case src of None \<Rightarrow> ret None | Some src_sockaddr \<Rightarrow>
     bnd get_ns (\<lambda>ns.
     ret (Some (dest_sockaddr,
       if pp_protocol param = IPPROTO_ICMP
          \<and> (ss_family src_sockaddr = AF_INET \<and> \<not> ip4_socket_raw ns
             \<or> ss_family src_sockaddr = AF_INET6 \<and> \<not> ip6_socket_raw ns)
       then src_sockaddr\<lparr>sin_port := htons (word_of_int (os_pid os))\<rparr>
       else src_sockaddr)))))"

section \<open>Reply lines\<close>

definition mpls_text :: "mpls_label_t \<Rightarrow> string" where
  "mpls_text m =
     fmt_d (to_int32 (uint (ml_label m))) @ '','' @ fmt_d (uint (ml_traffic_class m)) @ '',''
     @ fmt_d (uint (ml_bottom_of_stack m)) @ '','' @ fmt_d (uint (ml_ttl m))"

text \<open>\<open>format_mpls_string\<close>: \<open>str\<close> is what is written so far, \<open>buffer_size\<close> what is left.\<close>

fun format_mpls_loop :: "nat \<Rightarrow> string \<Rightarrow> int \<Rightarrow> mpls_label_t list \<Rightarrow> string" where
  "format_mpls_loop i str buffer_size [] = str"
| "format_mpls_loop i str buffer_size (mpls # mpls_list) =
     (let sep = (if 0 < i then take (nat (buffer_size - 1)) '','' else []);
          buffer_size = buffer_size - int (length sep);
          label = snprintf buffer_size (mpls_text mpls)
      in format_mpls_loop (Suc i) (str @ sep @ label) (buffer_size - int (length label)) mpls_list)"

definition format_mpls_string :: "int \<Rightarrow> mpls_label_t list \<Rightarrow> string" where
  "format_mpls_string buffer_size mpls_list = format_mpls_loop 0 [] buffer_size mpls_list"

abbreviation (input) RESPONSE_SIZE :: int where "RESPONSE_SIZE \<equiv> 4096"

definition result_name :: "int \<Rightarrow> string option" where
  "result_name icmp_type =
     (if icmp_type = ICMP_TIME_EXCEEDED then Some ''ttl-expired''
      else if icmp_type = ICMP_DEST_UNREACH then Some ''no-route''
      else if icmp_type = ICMP_ECHOREPLY then Some ''reply'' else None)"

definition response_text :: "int \<Rightarrow> string \<Rightarrow> string \<Rightarrow> string \<Rightarrow> int \<Rightarrow> mpls_label_t list \<Rightarrow> string" where
  "response_text tok result ip_argument ip_text round_trip_us mpls =
     (let response = snprintf RESPONSE_SIZE (fmt_d tok @ '' '' @ result @ '' '' @ ip_argument @ '' ''
            @ ip_text @ '' round-trip-time '' @ fmt_d (to_int32 round_trip_us))
      in if mpls = [] then response
         else (let mpls_str = format_mpls_string RESPONSE_SIZE mpls;
                   response = strncat response '' mpls '' (RESPONSE_SIZE - int (length response) - 1)
               in strncat response mpls_str (RESPONSE_SIZE - int (length response) - 1)))"

definition respond_to_probe ::
  "'w os \<Rightarrow> nat \<Rightarrow> int \<Rightarrow> sockaddr \<Rightarrow> int \<Rightarrow> mpls_label_t list \<Rightarrow> (unit, 'w) proc" where
  "respond_to_probe os p icmp_type remote_addr round_trip_us mpls =
     (case result_name icmp_type of
        None \<Rightarrow> error_exit ''assertion''
      | Some result \<Rightarrow>
          (let ip_argument = (if ss_family remote_addr = AF_INET6 then ''ip-6'' else ''ip-4'')
           in case inet_ntop (os_inet os) (ss_family remote_addr) (sin_addr remote_addr) of
                None \<Rightarrow> error_exit ''inet_ntop failure''
              | Some ip_text \<Rightarrow>
                  bnd (probe_at p) (\<lambda>probe.
                  bnd (print_line (response_text (pr_token probe) result ip_argument ip_text round_trip_us mpls))
                    (\<lambda>_. free_probe os p))))"

text \<open>\<open>receive_probe\<close> of \<open>packet/probe_unix.c\<close>: without a timestamp the time is taken
  now. The round trip time is an \<open>unsigned int\<close>.\<close>

definition round_trip :: "timeval \<Rightarrow> timeval \<Rightarrow> int" where
  "round_trip timestamp departure_time =
     ((tv_sec timestamp - tv_sec departure_time) * 1000000
        + tv_usec timestamp - tv_usec departure_time) mod 4294967296"

definition gettimeofday :: "'w os \<Rightarrow> (timeval, 'w) proc" where
  "gettimeofday os = bnd (sys (os_gettimeofday os)) (\<lambda>t.
     case t of None \<Rightarrow> error_exit ''gettimeofday failure'' | Some t \<Rightarrow> ret t)"

definition receive_probe ::
  "'w os \<Rightarrow> nat \<Rightarrow> int \<Rightarrow> sockaddr \<Rightarrow> timeval option \<Rightarrow> mpls_label_t list \<Rightarrow> (unit, 'w) proc" where
  "receive_probe os p icmp_type remote_addr timestamp mpls =
     bnd (case timestamp of None \<Rightarrow> gettimeofday os | Some t \<Rightarrow> ret t) (\<lambda>timestamp.
     bnd (probe_at p) (\<lambda>probe.
     respond_to_probe os p icmp_type remote_addr
       (round_trip timestamp (pr_departure_time probe)) mpls))"

section \<open>The invariant of the table\<close>

definition probe_ok :: "probe_t \<Rightarrow> bool" where
  "probe_ok probe \<longleftrightarrow> MIN_PORT \<le> pr_sequence probe \<and> pr_sequence probe \<le> MAX_PORT"

definition probes_ok :: "net_state_t \<Rightarrow> bool" where
  "probes_ok ns \<longleftrightarrow>
     distinct (map fst (outstanding_probes ns))
     \<and> outstanding_probe_count ns = int (length (outstanding_probes ns))
     \<and> outstanding_probe_count ns \<le> MAX_PROBES
     \<and> (\<forall>(p, probe) \<in> set (outstanding_probes ns). probe_ok probe)
     \<and> MIN_PORT \<le> np_next_sequence ns \<and> np_next_sequence ns \<le> MAX_PORT"

abbreviation table_ok :: "'w pst \<Rightarrow> bool" where
  "table_ok st \<equiv> probes_ok (net_state st)"

lemma fresh_ptr_new: "fresh_ptr ns \<notin> fst ` set (outstanding_probes ns)"
proof -
  have "x \<in> set xs \<Longrightarrow> x \<le> foldr max xs 0" for x :: nat and xs
    by (induction xs) (auto simp: max_def)
  then have "q \<in> fst ` set (outstanding_probes ns) \<Longrightarrow> q < fresh_ptr ns" for q
    by (force simp: fresh_ptr_def less_Suc_eq_le)
  then show ?thesis by blast
qed

text \<open>The table is a structure of the kind the pointers implement.\<close>

definition holds_probes :: "net_state_t \<Rightarrow> nat list \<Rightarrow> bool" where
  "holds_probes ns ps \<longleftrightarrow> map fst (outstanding_probes ns) = ps \<and> distinct ps"

lemma map_fst_filter: "map fst (filter (\<lambda>(q, _). q \<noteq> p) xs) = filter (\<lambda>q. q \<noteq> p) (map fst xs)"
  by (induction xs) auto

interpretation table: tracking_list holds_probes "\<lambda>p. insert_probe (p, init p)" remove_probe for init
proof
  fix ns ps p
  show "holds_probes ns ps \<Longrightarrow> distinct ps" by (simp add: holds_probes_def)
  show "holds_probes ns ps \<Longrightarrow> p \<notin> set ps \<Longrightarrow> holds_probes (insert_probe (p, init p) ns) (p # ps)"
    by (auto simp: holds_probes_def insert_probe_def)
  show "holds_probes ns ps \<Longrightarrow> p \<in> set ps \<Longrightarrow> holds_probes (remove_probe p ns) (remove1 p ps)"
    by (auto simp: holds_probes_def remove_probe_def map_fst_filter distinct_remove1_removeAll
        removeAll_filter_not_eq intro: filter_cong)
qed

end
