(* ===== verification/Construct.thy ===== *)
theory Construct
  imports PacketState
begin

text \<open>
  \<open>packet/construct_unix.c\<close>: the packets that \<open>mtr-packet\<close> sends, as lists of bytes, and the
  sockets it opens for TCP and SCTP probes. A construction that fails is \<open>None\<close> with
  \<open>errno\<close> set; one that succeeds is the packet (empty for a stream protocol) with the socket
  of the probe, if one was opened.
\<close>

section \<open>The checksum\<close>

text \<open>The sum of the bytes, those at even places as high bytes, in 32 bits.\<close>

fun checksum_sum :: "nat \<Rightarrow> u8 list \<Rightarrow> u32 \<Rightarrow> u32" where
  "checksum_sum i [] acc = acc"
| "checksum_sum i (b # bs) acc =
     checksum_sum (Suc i) bs (if i mod 2 = 0 then acc + push_bit 8 (ucast b) else acc + ucast b)"

lemma unat_high: "unat (drop_bit 16 (w :: u32)) = unat w div 65536"
  by (simp only: unat_drop_bit_eq) (simp only: drop_bit_eq_div, simp)

lemma unat_low: "unat ((w :: u32) AND 0xFFFF) = unat w mod 65536"
proof -
  have "(0xFFFF :: u32) = mask 16" by (simp add: mask_eq_exp_minus_1)
  then show ?thesis
    by (simp only: take_bit_eq_mask [symmetric] unsigned_take_bit_eq) (simp add: take_bit_eq_mod)
qed

lemma unat_fold: "unat (drop_bit 16 (w :: u32) + (w AND 0xFFFF)) = unat w div 65536 + unat w mod 65536"
proof -
  have "unat w < 4294967296" using unsigned_less [of w] by simp
  then have "unat w div 65536 + unat w mod 65536 < 2 ^ LENGTH(32)" by simp
  then show ?thesis
    by (subst unat_add_lem [THEN iffD1]) (simp_all add: unat_high unat_low)
qed

function checksum_fold :: "u32 \<Rightarrow> u32" where
  "checksum_fold acc =
     (if drop_bit 16 acc \<noteq> 0 then checksum_fold (drop_bit 16 acc + (acc AND 0xFFFF)) else acc)"
  by pat_completeness auto
termination
proof (relation "measure unat")
  fix acc :: u32
  assume "drop_bit 16 acc \<noteq> 0"
  then have "0 < unat acc div 65536"
    using unat_high [of acc] by (metis bot_nat_0.not_eq_extremum unsigned_eq_0_iff)
  moreover have "unat acc = 65536 * (unat acc div 65536) + unat acc mod 65536" by simp
  ultimately have "unat acc div 65536 + unat acc mod 65536 < unat acc" by linarith
  then show "(drop_bit 16 acc + (acc AND 0xFFFF), acc) \<in> measure unat"
    by (simp only: in_measure unat_fold)
qed simp

declare checksum_fold.simps [simp del]

definition compute_checksum :: "u8 list \<Rightarrow> u16" where
  "compute_checksum packet = ucast (NOT (checksum_fold (checksum_sum 0 packet 0)) AND 0xFFFF)"

section \<open>Headers\<close>

definition length_byte_swap :: "net_state_t \<Rightarrow> u16 \<Rightarrow> u16" where
  "length_byte_swap ns len = (if ip_length_host_order ns then len else htons len)"

definition construct_addr_port :: "sockaddr \<Rightarrow> int \<Rightarrow> sockaddr" where
  "construct_addr_port addr port = addr\<lparr>sin_port := htons (word_of_int port)\<rparr>"

abbreviation (input) IP_HEADER :: nat where "IP_HEADER \<equiv> 20"
abbreviation (input) IP6_HEADER :: nat where "IP6_HEADER \<equiv> 40"
abbreviation (input) ICMP_HEADER :: nat where "ICMP_HEADER \<equiv> 8"
abbreviation (input) UDP_HEADER :: nat where "UDP_HEADER \<equiv> 8"

text \<open>\<open>struct IPHeader\<close>: version 0, tos 1, len 2, id 4, frag 6, ttl 8, protocol 9, check 10,
  saddr 12, daddr 16.\<close>

definition construct_ip4_header ::
  "net_state_t \<Rightarrow> u8 list \<Rightarrow> int \<Rightarrow> sockaddr \<Rightarrow> sockaddr \<Rightarrow> probe_param_t \<Rightarrow> u8 list" where
  "construct_ip4_header ns packet packet_size srcaddr destaddr param =
     (let packet = put 0 (replicate IP_HEADER 0) packet;
          packet = put 0 [0x45] packet;
          packet = put 1 [word_of_int (pp_type_of_service param)] packet;
          packet = put 2 (bytes16 (length_byte_swap ns (word_of_int packet_size))) packet;
          packet = put 8 [word_of_int (pp_ttl param)] packet;
          packet = put 9 [word_of_int (pp_protocol param)] packet;
          packet = put 12 (take 4 (sin_addr srcaddr)) packet
      in put 16 (take 4 (sin_addr destaddr)) packet)"

text \<open>\<open>struct ICMPHeader\<close>: type 0, code 1, checksum 2, id 4, sequence 6. The header starts at
  \<open>off\<close>, after the IP header for a raw socket.\<close>

definition icmp_header :: "int \<Rightarrow> u8 \<Rightarrow> int \<Rightarrow> nat \<Rightarrow> u8 list \<Rightarrow> u8 list" where
  "icmp_header pid type sequence off packet =
     (let packet = put off (replicate ICMP_HEADER 0) packet;
          packet = put off [type] packet;
          packet = put (off + 4) (bytes16 (htons (word_of_int pid))) packet
      in put (off + 6) (bytes16 (htons (word_of_int sequence))) packet)"

definition construct_icmp4_header :: "'w os \<Rightarrow> net_state_t \<Rightarrow> int \<Rightarrow> u8 list \<Rightarrow> u8 list" where
  "construct_icmp4_header os ns sequence packet =
     (let off = (if ip4_socket_raw ns then IP_HEADER else 0);
          packet = icmp_header (os_pid os) (word_of_int ICMP_ECHO) sequence off packet
      in put (off + 2) (bytes16 (htons (compute_checksum (drop off packet)))) packet)"

definition construct_icmp6_packet :: "'w os \<Rightarrow> int \<Rightarrow> u8 list \<Rightarrow> u8 list" where
  "construct_icmp6_packet os sequence packet = icmp_header (os_pid os) 128 sequence 0 packet"

text \<open>\<open>set_udp_ports\<close>: the destination port, the source port and the checksum, as stored.\<close>

definition set_udp_ports :: "'w os \<Rightarrow> int \<Rightarrow> probe_param_t \<Rightarrow> u16 \<times> u16 \<times> u16" where
  "set_udp_ports os sequence param =
     (if pp_dest_port param \<noteq> 0 then
        (if pp_local_port param \<noteq> 0
         then (htons (word_of_int (pp_dest_port param)), htons (word_of_int (pp_local_port param)),
               htons (word_of_int sequence))
         else (htons (word_of_int (pp_dest_port param)), htons (word_of_int sequence), 0))
      else
        (htons (word_of_int sequence),
         (if pp_local_port param \<noteq> 0 then htons (word_of_int (pp_local_port param))
          else htons (word_of_int (os_pid os))), 0))"

text \<open>\<open>struct UDPHeader\<close>: srcport 0, dstport 2, length 4, checksum 6.\<close>

definition udp_header :: "'w os \<Rightarrow> int \<Rightarrow> probe_param_t \<Rightarrow> nat \<Rightarrow> int \<Rightarrow> u8 list \<Rightarrow> u8 list" where
  "udp_header os sequence param off udp_size packet =
     (case set_udp_ports os sequence param of (dstport, srcport, checksum) \<Rightarrow>
       (let packet = put off (replicate UDP_HEADER 0) packet;
            packet = put (off + 2) (bytes16 dstport) packet;
            packet = put off (bytes16 srcport) packet;
            packet = put (off + 6) (bytes16 checksum) packet
        in put (off + 4) (bytes16 (htons (word_of_int udp_size))) packet))"

definition construct_udp4_header ::
  "'w os \<Rightarrow> net_state_t \<Rightarrow> int \<Rightarrow> u8 list \<Rightarrow> int \<Rightarrow> probe_param_t \<Rightarrow> u8 list" where
  "construct_udp4_header os ns sequence packet packet_size param =
     (if ip4_socket_raw ns
      then udp_header os sequence param IP_HEADER (packet_size - int IP_HEADER) packet
      else udp_header os sequence param 0 packet_size packet)"

definition construct_udp6_packet ::
  "'w os \<Rightarrow> int \<Rightarrow> u8 list \<Rightarrow> int \<Rightarrow> probe_param_t \<Rightarrow> (u8 list option, 'w) proc" where
  "construct_udp6_packet os sequence packet packet_size param =
     bnd get_ns (\<lambda>ns.
     (let packet = udp_header os sequence param 0 packet_size packet
      in if ip6_socket_raw ns
         then bnd (sys (os_setsockopt os (udp6_send_socket ns) IPV6_CHECKSUM 6))
                (\<lambda>r. ret (if r = None then None else Some packet))
         else ret (Some packet)))"

section \<open>Stream protocols\<close>

text \<open>A sequence of socket options, up to the first that fails.\<close>

fun set_options :: "'w os \<Rightarrow> int \<Rightarrow> (sockopt \<times> int) list \<Rightarrow> (bool, 'w) proc" where
  "set_options os fd [] = ret True"
| "set_options os fd ((opt, v) # opts) =
     bnd (sys (os_setsockopt os fd opt v)) (\<lambda>r. if r = None then ret False else set_options os fd opts)"

definition set_stream_socket_options :: "'w os \<Rightarrow> int \<Rightarrow> probe_param_t \<Rightarrow> (bool, 'w) proc" where
  "set_stream_socket_options os stream_socket param =
     set_options os stream_socket
       ([(SO_REUSEPORT, 1), (SO_REUSEADDR, 1),
         (if pp_ip_version param = 6 then IPV6_UNICAST_HOPS else IP_TTL, pp_ttl param),
         (if pp_ip_version param = 6 then IPV6_TCLASS else IP_TOS, pp_type_of_service param)]
        @ (if pp_routing_mark param \<noteq> 0 then [(SO_MARK, pp_routing_mark param)] else []))"

definition set_socket_nonblocking :: "'w os \<Rightarrow> int \<Rightarrow> (unit, 'w) proc" where
  "set_socket_nonblocking os fd =
     bnd (sys (os_getfl os fd)) (\<lambda>flags.
     case flags of None \<Rightarrow> error_exit ''Unexpected socket F_GETFL error''
     | Some flags \<Rightarrow>
         bnd (sys (os_set_nonblock os fd flags)) (\<lambda>r.
         if r = None then error_exit ''Unexpected socket F_SETFL O_NONBLOCK error'' else ret ()))"

text \<open>A socket that is not returned is closed.\<close>

definition open_stream_socket ::
  "'w os \<Rightarrow> int \<Rightarrow> int \<Rightarrow> sockaddr \<Rightarrow> sockaddr \<Rightarrow> probe_param_t \<Rightarrow> (int option, 'w) proc" where
  "open_stream_socket os protocol port src_sockaddr dest_sockaddr param =
     (if pp_ip_version param \<noteq> 6 \<and> pp_ip_version param \<noteq> 4
      then bnd (set_errno EINVAL) (\<lambda>_. ret None)
      else
        bnd (sys (os_socket os (if pp_ip_version param = 6 then AF_INET6 else AF_INET) SOCK_STREAM protocol))
          (\<lambda>s. case s of None \<Rightarrow> ret None | Some stream_socket \<Rightarrow>
        (let give_up = bnd (sys_close os stream_socket) (\<lambda>_. ret None)
         in
        bnd (set_socket_nonblocking os stream_socket) (\<lambda>_.
        bnd (set_stream_socket_options os stream_socket param) (\<lambda>ok.
        if \<not> ok then give_up
        else bnd (sys (os_bind os stream_socket (construct_addr_port src_sockaddr port))) (\<lambda>bound.
        if bound = None then give_up
        else
          (let dest_port = (if pp_dest_port param \<noteq> 0 then pp_dest_port param else 80)
           in
          bnd (sys (os_connect os stream_socket (construct_addr_port dest_sockaddr dest_port))) (\<lambda>c.
          bnd get_errno (\<lambda>e.
          if c = None \<and> e \<noteq> EINPROGRESS then give_up else ret (Some stream_socket))))))))))"

section \<open>The packet\<close>

definition is_stream :: "int \<Rightarrow> bool" where
  "is_stream protocol \<longleftrightarrow> protocol = IPPROTO_TCP \<or> protocol = IPPROTO_SCTP"

text \<open>\<open>compute_packet_size\<close>; \<open>None\<close> is the error \<open>EINVAL\<close>.\<close>

definition compute_packet_size :: "net_state_t \<Rightarrow> probe_param_t \<Rightarrow> int option" where
  "compute_packet_size ns param =
     (if is_stream (pp_protocol param) then Some 0
      else
        Option.bind
          (if pp_ip_version param = 6 then Some (if ip6_socket_raw ns then int IP6_HEADER else 0)
           else if pp_ip_version param = 4 then Some (if ip4_socket_raw ns then int IP_HEADER else 0)
           else None)
        (\<lambda>packet_size. Option.bind
          (if pp_protocol param = IPPROTO_ICMP then Some (packet_size + int ICMP_HEADER)
           else if pp_protocol param = IPPROTO_UDP then Some (packet_size + int UDP_HEADER + 4)
           else None)
        (\<lambda>packet_size.
          (let packet_size = (if packet_size < pp_packet_size param then pp_packet_size param else packet_size)
           in Some (if pp_ip_version param = 6 \<and> ip6_socket_raw ns
                    then packet_size - int IP6_HEADER else packet_size)))))"

text \<open>The result of constructing: the packet and the socket of a stream probe.\<close>

type_synonym built = "(u8 list \<times> int option) option"

definition stream_packet ::
  "'w os \<Rightarrow> int \<Rightarrow> sockaddr \<Rightarrow> sockaddr \<Rightarrow> probe_param_t \<Rightarrow> (built, 'w) proc" where
  "stream_packet os sequence src_sockaddr dest_sockaddr param =
     bnd (open_stream_socket os (pp_protocol param) sequence src_sockaddr dest_sockaddr param)
       (\<lambda>s. ret (map_option (\<lambda>send_socket. ([], Some send_socket)) s))"

text \<open>A socket is bound, and its options set, or \<open>None\<close>.\<close>

definition guard_call :: "('a option, 'w) proc \<Rightarrow> (built, 'w) proc \<Rightarrow> (built, 'w) proc" where
  "guard_call call k = bnd call (\<lambda>r. if r = None then ret None else k)"

definition construct_ip4_datagram ::
  "'w os \<Rightarrow> int \<Rightarrow> u8 list \<Rightarrow> int \<Rightarrow> sockaddr \<Rightarrow> sockaddr \<Rightarrow> probe_param_t \<Rightarrow> net_state_t \<Rightarrow> u8 list" where
  "construct_ip4_datagram os sequence packet packet_size src_sockaddr dest_sockaddr param ns =
     (let packet = (if ip4_socket_raw ns
                    then construct_ip4_header ns packet packet_size src_sockaddr dest_sockaddr param
                    else packet)
      in if pp_protocol param = IPPROTO_ICMP then construct_icmp4_header os ns sequence packet
         else construct_udp4_header os ns sequence packet packet_size param)"

definition construct_ip4_packet ::
  "'w os \<Rightarrow> int \<Rightarrow> u8 list \<Rightarrow> int \<Rightarrow> sockaddr \<Rightarrow> sockaddr \<Rightarrow> probe_param_t \<Rightarrow> (built, 'w) proc" where
  "construct_ip4_packet os sequence packet packet_size src_sockaddr dest_sockaddr param =
     (if is_stream (pp_protocol param) then stream_packet os sequence src_sockaddr dest_sockaddr param
      else if pp_protocol param \<noteq> IPPROTO_ICMP \<and> pp_protocol param \<noteq> IPPROTO_UDP
      then bnd (set_errno EINVAL) (\<lambda>_. ret None)
      else bnd get_ns (\<lambda>ns.
        (let packet = construct_ip4_datagram os sequence packet packet_size src_sockaddr dest_sockaddr param ns;
             done' = ret (Some (packet, None));
             set_options4 =
               (if ip4_socket_raw ns \<or> pp_is_probing_byte_order param then done'
                else (let fd = (if pp_protocol param = IPPROTO_ICMP
                                then ip4_txrx_icmp_socket ns else ip4_txrx_udp_socket ns)
                      in guard_call (sys (os_setsockopt os fd IP_TOS (pp_type_of_service param)))
                           (guard_call (sys (os_setsockopt os fd IP_TTL (pp_ttl param))) done')));
             bind4 =
               (if \<not> ip4_socket_raw ns \<and> pp_protocol param = IPPROTO_ICMP
                   \<and> \<not> pp_is_probing_byte_order param
                then bnd (sys (os_getsockname os (ip4_txrx_icmp_socket ns))) (\<lambda>cur.
                  case cur of None \<Rightarrow> ret None
                  | Some cur \<Rightarrow>
                      if sin_port cur \<noteq> 0 then set_options4
                      else guard_call (sys (os_bind os (ip4_txrx_icmp_socket ns) src_sockaddr)) set_options4)
                else set_options4)
         in if pp_routing_mark param \<noteq> 0
            then guard_call (sys (os_setsockopt os (ip4_send_socket ns) SO_MARK (pp_routing_mark param))) bind4
            else bind4)))"

definition construct_ip6_packet ::
  "'w os \<Rightarrow> int \<Rightarrow> u8 list \<Rightarrow> int \<Rightarrow> sockaddr \<Rightarrow> sockaddr \<Rightarrow> probe_param_t \<Rightarrow> (built, 'w) proc" where
  "construct_ip6_packet os sequence packet packet_size src_sockaddr dest_sockaddr param =
     (if is_stream (pp_protocol param) then stream_packet os sequence src_sockaddr dest_sockaddr param
      else if pp_protocol param \<noteq> IPPROTO_ICMP \<and> pp_protocol param \<noteq> IPPROTO_UDP
      then bnd (set_errno EINVAL) (\<lambda>_. ret None)
      else bnd get_ns (\<lambda>ns.
        (let send_socket =
               (if pp_protocol param = IPPROTO_ICMP
                then (if ip6_socket_raw ns then icmp6_send_socket ns else ip6_txrx_icmp_socket ns)
                else (if ip6_socket_raw ns then udp6_send_socket ns else ip6_txrx_udp_socket ns))
         in bnd (if pp_protocol param = IPPROTO_ICMP
                 then ret (Some (construct_icmp6_packet os sequence packet))
                 else construct_udp6_packet os sequence packet packet_size param) (\<lambda>packet.
        case packet of None \<Rightarrow> ret None | Some packet \<Rightarrow>
        bnd (sys (os_getsockname os send_socket)) (\<lambda>cur.
        (let bound = (case cur of None \<Rightarrow> False
                      | Some cur \<Rightarrow> if ip6_socket_raw ns then cur = src_sockaddr else sin_port cur \<noteq> 0);
             mark6 = (if pp_routing_mark param \<noteq> 0
                      then guard_call (sys (os_setsockopt os send_socket SO_MARK (pp_routing_mark param)))
                             (ret (Some (packet, None)))
                      else ret (Some (packet, None)));
             options6 =
               guard_call (sys (os_setsockopt os send_socket IPV6_TCLASS (pp_type_of_service param)))
                 (guard_call (sys (os_setsockopt os send_socket IPV6_UNICAST_HOPS (pp_ttl param))) mark6)
         in if bound then options6
            else guard_call (sys (os_bind os send_socket src_sockaddr)) options6))))))"

definition construct_packet ::
  "'w os \<Rightarrow> int \<Rightarrow> sockaddr \<Rightarrow> sockaddr \<Rightarrow> probe_param_t \<Rightarrow> (built, 'w) proc" where
  "construct_packet os sequence dest_sockaddr src_sockaddr param =
     bnd get_ns (\<lambda>ns.
     case compute_packet_size ns param of
       None \<Rightarrow> bnd (set_errno EINVAL) (\<lambda>_. ret None)
     | Some packet_size \<Rightarrow>
         if PACKET_BUFFER_SIZE < packet_size then bnd (set_errno EINVAL) (\<lambda>_. ret None)
         else
           (let packet = replicate (nat packet_size) (word_of_int (pp_bit_pattern param))
            in if pp_ip_version param = 6
               then construct_ip6_packet os sequence packet packet_size src_sockaddr dest_sockaddr param
               else if pp_ip_version param = 4
               then construct_ip4_packet os sequence packet packet_size src_sockaddr dest_sockaddr param
               else bnd (set_errno EINVAL) (\<lambda>_. ret None)))"

section \<open>The checksum is the one's complement sum\<close>

text \<open>The sum as a natural number. Below 65536 bytes it does not overflow.\<close>

fun byte_sum :: "nat \<Rightarrow> u8 list \<Rightarrow> nat" where
  "byte_sum i [] = 0"
| "byte_sum i (b # bs) = (if i mod 2 = 0 then 256 * unat b else unat b) + byte_sum (Suc i) bs"

lemma byte_sum_append: "byte_sum i (xs @ ys) = byte_sum i xs + byte_sum (i + length xs) ys"
  by (induction xs arbitrary: i) auto

lemma byte_sum_even: "byte_sum (i + 2) bs = byte_sum i bs"
proof (induction bs arbitrary: i)
  case (Cons b bs)
  from Cons.IH [of "Suc i"] show ?case by simp
qed simp

lemma byte_sum_bound: "byte_sum i bs \<le> 65280 * length bs"
proof (induction bs arbitrary: i)
  case (Cons b bs)
  have "unat b < 2 ^ LENGTH(8)" by (rule unsigned_less)
  then have "unat b \<le> 255" by simp
  then show ?case using Cons.IH [of "Suc i"] by (auto split: if_splits)
qed simp

lemma unat_checksum_sum:
  "unat acc + byte_sum i bs < 4294967296 \<Longrightarrow> unat (checksum_sum i bs acc) = unat acc + byte_sum i bs"
proof (induction bs arbitrary: i acc)
  case (Cons b bs)
  let ?v = "if i mod 2 = 0 then push_bit 8 (ucast b) else (ucast b :: u32)"
  have "unat b < 2 ^ LENGTH(8)" by (rule unsigned_less)
  then have b: "unat b < 256" by simp
  then have u: "unat (ucast b :: u32) = unat b"
    by (simp add: unsigned_ucast_eq take_bit_nat_eq_self)
  have "unat (push_bit 8 (ucast b) :: u32) = 256 * unat b"
    using b by (simp add: push_bit_eq_mult unat_word_ariths u)
  then have v: "unat ?v = (if i mod 2 = 0 then 256 * unat b else unat b)" using u by simp
  have fits: "unat acc + unat ?v + byte_sum (Suc i) bs < 4294967296"
    using Cons.prems v by simp
  then have "unat (acc + ?v) = unat acc + unat ?v"
    by (subst unat_add_lem [THEN iffD1]) simp_all
  with Cons.IH [of "acc + ?v" "Suc i"] fits v show ?case by (cases "i mod 2 = 0") simp_all
qed simp

lemma checksum_fold_spec:
  "unat (checksum_fold w) < 65536 \<and> unat (checksum_fold w) mod 65535 = unat w mod 65535
     \<and> (unat (checksum_fold w) = 0 \<longleftrightarrow> unat w = 0)"
proof (induction w rule: checksum_fold.induct)
  case (1 acc)
  show ?case
  proof (cases "drop_bit 16 acc \<noteq> 0")
    case True
    let ?n = "drop_bit 16 acc + (acc AND 0xFFFF)"
    have split: "unat acc = 65536 * (unat acc div 65536) + unat acc mod 65536" by simp
    have "unat ?n mod 65535 = (unat acc div 65536 + unat acc mod 65536) mod 65535" by (simp only: unat_fold)
    also have "\<dots> = (65535 * (unat acc div 65536) + (unat acc div 65536 + unat acc mod 65536)) mod 65535"
      by (metis mod_mult_self4)
    also have "65535 * (unat acc div 65536) + (unat acc div 65536 + unat acc mod 65536) = unat acc"
      using split by linarith
    finally have "unat ?n mod 65535 = unat acc mod 65535" .
    moreover have "unat ?n = 0 \<longleftrightarrow> unat acc = 0"
      by (simp only: unat_fold) (use split in linarith)
    ultimately show ?thesis
      using 1 [OF True] True by (simp only: checksum_fold.simps [of acc] if_True not_False_eq_True)
  next
    case False
    then have "unat acc div 65536 = 0" using unat_high [of acc] by simp
    then have "unat acc < 65536" by (simp add: div_eq_0_iff)
    with False show ?thesis by (simp add: checksum_fold.simps [of acc])
  qed
qed

text \<open>The checksum complements the folded sum.\<close>

lemma unat_compute_checksum:
  "unat (compute_checksum bs) = 65535 - unat (checksum_fold (checksum_sum 0 bs 0))"
proof -
  let ?f = "checksum_fold (checksum_sum 0 bs 0)"
  have f: "unat ?f < 65536" using checksum_fold_spec by blast
  have m: "(0xFFFF :: u32) = mask 16" by (simp add: mask_eq_exp_minus_1)
  have "unat (NOT ?f AND 0xFFFF) = (unat (NOT ?f)) mod 65536" by (rule unat_low)
  also have "unat (NOT ?f) = 4294967295 - unat ?f"
  proof -
    have "NOT ?f = -1 - ?f" by (simp add: not_eq_complement)
    moreover have "unat (-1 - ?f) = unat (-1 :: u32) - unat ?f" by (rule unat_sub) simp
    moreover have "unat (-1 :: u32) = 4294967295"
      by (simp add: unsigned_minus_1_eq_mask mask_eq_exp_minus_1)
    ultimately show ?thesis by simp
  qed
  also have "(4294967295 - unat ?f) mod 65536 = 65535 - unat ?f"
  proof -
    have "4294967295 - unat ?f = 65536 * 65535 + (65535 - unat ?f)" using f by linarith
    moreover have "65535 - unat ?f < 65536" by linarith
    ultimately show ?thesis by (metis mod_less mod_mult_self4)
  qed
  finally have "unat (NOT ?f AND 0xFFFF) = 65535 - unat ?f" .
  then show ?thesis
    unfolding compute_checksum_def by (simp add: unsigned_ucast_eq take_bit_nat_eq_self)
qed

lemma bytes16_sum: "even i \<Longrightarrow> byte_sum i (bytes16 (htons w)) = unat w"
proof -
  assume i: "even i"
  have "unat (ucast (htons w) :: u8) = unat w div 256"
  proof -
    have "ucast (htons w) = (ucast (drop_bit 8 w) :: u8)"
      by (rule bit_word_eqI) (auto simp: htons_def bit_simps)
    moreover have "unat (drop_bit 8 w) = unat w div 256"
      by (simp only: unat_drop_bit_eq) (simp only: drop_bit_eq_div, simp)
    moreover have "unat w < 2 ^ LENGTH(16)" by (rule unsigned_less)
    ultimately show ?thesis by (simp add: unsigned_ucast_eq take_bit_eq_mod)
  qed
  moreover have "unat (ucast (drop_bit 8 (htons w)) :: u8) = unat w mod 256"
  proof -
    have "ucast (drop_bit 8 (htons w)) = (ucast w :: u8)"
      by (rule bit_word_eqI) (auto simp: htons_def bit_simps)
    then show ?thesis by (simp add: unsigned_ucast_eq take_bit_eq_mod)
  qed
  ultimately show ?thesis
    using i by (simp add: bytes16_def even_iff_mod_2_eq_zero mod_Suc)
qed

lemma multiple_65535:
  assumes "(n :: nat) mod 65535 = 0" and "n \<noteq> 0" and "n < 65536"
  shows "n = 65535"
proof -
  obtain k where "n = 65535 * k" using assms(1) by (metis dvd_def mod_0_imp_dvd)
  then have "k \<noteq> 0" "\<not> 2 \<le> k" using assms(2,3) by auto
  then have "k = 1" by linarith
  with \<open>n = 65535 * k\<close> show ?thesis by simp
qed

lemma complement_mod:
  fixes s f m :: nat
  assumes "f \<le> m" and "f mod m = s mod m"
  shows "(s + (m - f)) mod m = 0"
proof -
  have "(s + (m - f)) mod m = (f + (m - f)) mod m"
    using assms(2) by (intro mod_add_cong) simp_all
  with assms(1) show ?thesis by simp
qed

lemma checksum_of_sum:
  assumes "length bs \<le> 65535" and "byte_sum 0 bs mod 65535 = 0" and "byte_sum 0 bs \<noteq> 0"
  shows "compute_checksum bs = 0"
proof -
  let ?w = "checksum_sum 0 bs 0"
  have "byte_sum 0 bs \<le> 65280 * 65535" using byte_sum_bound [of 0 bs] assms(1) by linarith
  then have w: "unat ?w = byte_sum 0 bs" by (subst unat_checksum_sum) simp_all
  note f = checksum_fold_spec [of ?w]
  have "unat (checksum_fold ?w) mod 65535 = 0" "unat (checksum_fold ?w) \<noteq> 0" "unat (checksum_fold ?w) < 65536"
    using f w assms(2,3) by simp_all
  then have "unat (checksum_fold ?w) = 65535" by (rule multiple_65535)
  then have "unat (compute_checksum bs) = 0" by (simp add: unat_compute_checksum)
  then show ?thesis by (simp add: unsigned_eq_0_iff)
qed

text \<open>Storing the checksum in a field of zeros makes the packet verify.\<close>

lemma checksum_verifies:
  assumes "even (length xs)" and "length xs + 2 + length ys \<le> 65535"
  defines "c \<equiv> compute_checksum (xs @ [0, 0] @ ys)"
  shows "compute_checksum (xs @ bytes16 (htons c) @ ys) = 0"
proof (rule checksum_of_sum)
  let ?bs = "xs @ [0, 0] @ ys"
  let ?S = "byte_sum 0 ?bs" and ?F = "unat (checksum_fold (checksum_sum 0 ?bs 0))"
  have "?S \<le> 65280 * 65535" using byte_sum_bound [of 0 ?bs] assms(2) by simp
  then have "unat (checksum_sum 0 ?bs 0) = ?S" by (subst unat_checksum_sum) simp_all
  then have f: "?F < 65536" "?F mod 65535 = ?S mod 65535" "?F = 0 \<longleftrightarrow> ?S = 0"
    using checksum_fold_spec [of "checksum_sum 0 ?bs 0"] by simp_all
  have c: "unat c = 65535 - ?F" unfolding c_def by (rule unat_compute_checksum)
  have S': "byte_sum 0 (xs @ bytes16 (htons c) @ ys) = ?S + unat c"
    using assms(1) by (simp add: byte_sum_append bytes16_sum)
  show "byte_sum 0 (xs @ bytes16 (htons c) @ ys) \<noteq> 0"
    unfolding S' c using f(1,3) by linarith
  have "?F \<le> 65535" using f(1) by linarith
  from complement_mod [OF this f(2)] show "byte_sum 0 (xs @ bytes16 (htons c) @ ys) mod 65535 = 0"
    unfolding S' c .
  show "length (xs @ bytes16 (htons c) @ ys) \<le> 65535" using assms(2) by simp
qed

section \<open>The fields of the packets\<close>

named_theorems packet_fields

lemma length_icmp_header [packet_fields]:
  "off + 8 \<le> length p \<Longrightarrow> length (icmp_header pid ty q off p) = length p"
  by (simp add: icmp_header_def Let_def length_put)

lemma icmp_header_fields [packet_fields]:
  assumes "off + 8 \<le> length p"
  shows "icmp_header pid ty q off p ! off = ty"
    and "icmp_header pid ty q off p ! (off + 1) = 0"
    and "icmp_header pid ty q off p ! (off + 2) = 0"
    and "icmp_header pid ty q off p ! (off + 3) = 0"
    and "load16 (icmp_header pid ty q off p) (off + 4) = htons (word_of_int pid)"
    and "load16 (icmp_header pid ty q off p) (off + 6) = htons (word_of_int q)"
    and "\<And>i. i < off \<Longrightarrow> icmp_header pid ty q off p ! i = p ! i"
    and "\<And>i. off + 8 \<le> i \<Longrightarrow> i < length p \<Longrightarrow> icmp_header pid ty q off p ! i = p ! i"
  using assms
  by (simp_all add: icmp_header_def Let_def nth_put length_put load16_put load16_put_other)

lemma drop_put: "off \<le> i \<Longrightarrow> i + length bs \<le> length p \<Longrightarrow> drop off (put i bs p) = put (i - off) bs (drop off p)"
  by (simp add: put_def drop_take)

text \<open>The ICMP part of an echo request verifies.\<close>

lemma icmp4_checksum_verifies:
  assumes "off = (if ip4_socket_raw ns then 20 else 0)" and "off + 8 \<le> length p" and "length p \<le> 65535"
  shows "compute_checksum (drop off (construct_icmp4_header os ns q p)) = 0"
proof -
  let ?h = "icmp_header (os_pid os) 8 q off p"
  let ?q = "drop off ?h"
  have len: "length ?h = length p" using assms(2) by (rule length_icmp_header)
  have q: "?q = take 2 ?q @ [0, 0] @ drop 4 ?q"
  proof -
    have "?q ! 2 = 0" "?q ! 3 = 0"
      using icmp_header_fields(3,4) [OF assms(2), of "os_pid os" 8 q] len assms(2)
      by (simp_all add: add.commute)
    moreover have "4 \<le> length ?q" using len assms(2) by simp
    moreover have "drop 2 ?q = ?q ! 2 # ?q ! 3 # drop 4 ?q"
      using \<open>4 \<le> length ?q\<close> by (simp add: Cons_nth_drop_Suc numeral_eq_Suc)
    ultimately show ?thesis by (metis append_Cons append_Nil append_take_drop_id)
  qed
  have "drop off (construct_icmp4_header os ns q p) = put 2 (bytes16 (htons (compute_checksum ?q))) ?q"
    using assms(1,2) len by (simp add: construct_icmp4_header_def Let_def drop_put)
  also have "\<dots> = take 2 ?q @ bytes16 (htons (compute_checksum (take 2 ?q @ [0, 0] @ drop 4 ?q))) @ drop 4 ?q"
    by (subst q [symmetric]) (simp add: put_def)
  also have "compute_checksum \<dots> = 0"
    by (rule checksum_verifies) (use len assms(2,3) in auto)
  finally show ?thesis .
qed

lemma icmp4_fields [packet_fields]:
  assumes "off = (if ip4_socket_raw ns then 20 else 0)" and "off + 8 \<le> length p"
  shows "length (construct_icmp4_header os ns q p) = length p"
    and "construct_icmp4_header os ns q p ! off = 8"
    and "load16 (construct_icmp4_header os ns q p) (off + 4) = htons (word_of_int (os_pid os))"
    and "load16 (construct_icmp4_header os ns q p) (off + 6) = htons (word_of_int q)"
    and "\<And>i. i < off \<Longrightarrow> construct_icmp4_header os ns q p ! i = p ! i"
  using assms
  by (simp_all add: construct_icmp4_header_def Let_def nth_put length_put load16_put_other packet_fields)

lemma udp_header_fields [packet_fields]:
  assumes "off + 8 \<le> length p" and "set_udp_ports os q param = (dstport, srcport, ck)"
  shows "length (udp_header os q param off n p) = length p"
    and "load16 (udp_header os q param off n p) off = srcport"
    and "load16 (udp_header os q param off n p) (off + 2) = dstport"
    and "load16 (udp_header os q param off n p) (off + 4) = htons (word_of_int n)"
    and "load16 (udp_header os q param off n p) (off + 6) = ck"
    and "\<And>i. i < off \<Longrightarrow> udp_header os q param off n p ! i = p ! i"
  using assms
  by (simp_all add: udp_header_def Let_def nth_put length_put load16_put load16_put_other)

lemma ip4_header_fields [packet_fields]:
  assumes "20 \<le> length p" and "4 \<le> length (sin_addr src)" and "4 \<le> length (sin_addr dest)"
  shows "length (construct_ip4_header ns p n src dest param) = length p"
    and "construct_ip4_header ns p n src dest param ! 0 = 0x45"
    and "construct_ip4_header ns p n src dest param ! 8 = word_of_int (pp_ttl param)"
    and "construct_ip4_header ns p n src dest param ! 9 = word_of_int (pp_protocol param)"
    and "load16 (construct_ip4_header ns p n src dest param) 2 = length_byte_swap ns (word_of_int n)"
proof -
  have "p \<noteq> []" using assms(1) by auto
  with assms show "length (construct_ip4_header ns p n src dest param) = length p"
    and "construct_ip4_header ns p n src dest param ! 0 = 0x45"
    and "construct_ip4_header ns p n src dest param ! 8 = word_of_int (pp_ttl param)"
    and "construct_ip4_header ns p n src dest param ! 9 = word_of_int (pp_protocol param)"
    and "load16 (construct_ip4_header ns p n src dest param) 2 = length_byte_swap ns (word_of_int n)"
    by (simp_all add: construct_ip4_header_def Let_def nth_put length_put load16_put load16_put_other min_def)
qed

lemma put_exact: "i + length bs \<le> length p \<Longrightarrow> take (length bs) (drop i (put i bs p)) = bs"
  by (simp add: put_def)

lemma put_other_range:
  "i + length bs \<le> length p \<Longrightarrow> j + n \<le> i \<or> i + length bs \<le> j \<Longrightarrow> j + n \<le> length p \<Longrightarrow>
     take n (drop j (put i bs p)) = take n (drop j p)"
  by (rule nth_equalityI) (auto simp: length_put nth_put)

lemma ip4_header_addresses [packet_fields]:
  assumes "20 \<le> length p" and "4 \<le> length (sin_addr src)" and "4 \<le> length (sin_addr dest)"
  shows "take 4 (drop 16 (construct_ip4_header ns p n src dest param)) = take 4 (sin_addr dest)"
    and "take 4 (drop 12 (construct_ip4_header ns p n src dest param)) = take 4 (sin_addr src)"
proof -
  have l: "length (take 4 (sin_addr src)) = 4" "length (take 4 (sin_addr dest)) = 4" using assms by simp_all
  obtain p' where p': "construct_ip4_header ns p n src dest param
      = put 16 (take 4 (sin_addr dest)) (put 12 (take 4 (sin_addr src)) p')" and n: "length p' = length p"
    using assms(1) by (simp add: construct_ip4_header_def Let_def length_put)
  show "take 4 (drop 16 (construct_ip4_header ns p n src dest param)) = take 4 (sin_addr dest)"
    unfolding p' using put_exact [of 16 "take 4 (sin_addr dest)" "put 12 (take 4 (sin_addr src)) p'"] l n assms(1)
    by (simp add: length_put)
  show "take 4 (drop 12 (construct_ip4_header ns p n src dest param)) = take 4 (sin_addr src)"
    unfolding p' using put_exact [of 12 "take 4 (sin_addr src)" p'] l n assms(1)
    by (subst put_other_range) (simp_all add: length_put)
qed

end
