(* ===== verification/Deconstruct.thy ===== *)
theory Deconstruct
  imports Probe Construct
begin

text \<open>
  \<open>packet/deconstruct_unix.c\<close>: finding the probe that a received packet answers. A packet is in
  a buffer \<open>buf\<close> of which the first bytes were received; what follows them is what the buffer
  held before, and the code can be seen to read it or not. Offsets into the buffer replace the
  pointers to the headers. A round trip is recorded with \<open>receive_probe\<close>.
\<close>

abbreviation (input) MAX_MPLS_LABELS :: nat where "MAX_MPLS_LABELS \<equiv> 8"

definition find_and_receive_probe ::
  "'w os \<Rightarrow> sockaddr \<Rightarrow> timeval \<Rightarrow> int \<Rightarrow> int \<Rightarrow> u16 \<Rightarrow> u16 \<Rightarrow> mpls_label_t list \<Rightarrow> (unit, 'w) proc" where
  "find_and_receive_probe os remote_addr timestamp icmp_type protocol icmp_id icmp_sequence mpls =
     bnd get_ns (\<lambda>ns.
     case find_probe os protocol icmp_id icmp_sequence ns of
       None \<Rightarrow> ret ()
     | Some p \<Rightarrow> receive_probe os p icmp_type remote_addr (Some timestamp) mpls)"

text \<open>A UDP header at \<open>off\<close>: the sequence number is looked for in the destination port, the
  source port and the checksum.\<close>

definition udp_probe :: "'w os \<Rightarrow> u8 list \<Rightarrow> nat \<Rightarrow> net_state_t \<Rightarrow> nat option" where
  "udp_probe os buf off ns =
     (case find_probe os IPPROTO_UDP 0 (load16 buf (off + 2)) ns of
        Some p \<Rightarrow> Some p
      | None \<Rightarrow>
     (case find_probe os IPPROTO_UDP 0 (load16 buf off) ns of
        Some p \<Rightarrow> Some p
      | None \<Rightarrow> find_probe os IPPROTO_UDP 0 (load16 buf (off + 6)) ns))"

definition handle_inner_udp_packet ::
  "'w os \<Rightarrow> sockaddr \<Rightarrow> int \<Rightarrow> u8 list \<Rightarrow> nat \<Rightarrow> timeval \<Rightarrow> mpls_label_t list \<Rightarrow> (unit, 'w) proc" where
  "handle_inner_udp_packet os remote_addr icmp_result buf off timestamp mpls =
     bnd get_ns (\<lambda>ns.
     case udp_probe os buf off ns of
       None \<Rightarrow> ret ()
     | Some p \<Rightarrow> receive_probe os p icmp_result remote_addr (Some timestamp) mpls)"

text \<open>\<open>handle_error_queue_packet\<close> does not use its parameter \<open>icmp_result\<close>.\<close>

definition handle_error_queue_packet ::
  "'w os \<Rightarrow> sockaddr \<Rightarrow> int \<Rightarrow> int \<Rightarrow> u8 list \<Rightarrow> int \<Rightarrow> timeval \<Rightarrow> (unit, 'w) proc" where
  "handle_error_queue_packet os remote_addr icmp_result proto packet packet_length timestamp =
     (if proto = IPPROTO_UDP then
        handle_inner_udp_packet os remote_addr ICMP_TIME_EXCEEDED packet 0 timestamp []
      else if proto = IPPROTO_ICMP \<or> proto = IPPROTO_ICMPV6 then
        find_and_receive_probe os remote_addr timestamp ICMP_TIME_EXCEEDED IPPROTO_ICMP
          (load16 packet 4) (load16 packet 6) []
      else ret ())"

text \<open>The transport header of an embedded packet, at \<open>off\<close>. A TCP or SCTP header has the
  sequence number in its source port.\<close>

definition handle_inner_ip4_packet ::
  "'w os \<Rightarrow> sockaddr \<Rightarrow> int \<Rightarrow> u8 list \<Rightarrow> nat \<Rightarrow> int \<Rightarrow> timeval \<Rightarrow> mpls_label_t list \<Rightarrow> (unit, 'w) proc" where
  "handle_inner_ip4_packet os remote_addr icmp_result buf ip packet_length timestamp mpls =
     (let protocol = uint (buf ! (ip + 9));
          off = ip + IP_HEADER
      in if protocol = IPPROTO_ICMP then
           (if packet_length < int (IP_HEADER + ICMP_HEADER) then ret ()
            else find_and_receive_probe os remote_addr timestamp icmp_result IPPROTO_ICMP
                   (load16 buf (off + 4)) (load16 buf (off + 6)) mpls)
         else if protocol = IPPROTO_UDP then
           (if packet_length < int (IP_HEADER + UDP_HEADER) then ret ()
            else handle_inner_udp_packet os remote_addr icmp_result buf off timestamp mpls)
         else if protocol = IPPROTO_TCP then
           (if packet_length < int (IP_HEADER + 8) then ret ()
            else find_and_receive_probe os remote_addr timestamp icmp_result IPPROTO_TCP 0
                   (load16 buf off) mpls)
         else if protocol = IPPROTO_SCTP then
           (if packet_length < int (IP_HEADER + 8) then ret ()
            else find_and_receive_probe os remote_addr timestamp icmp_result IPPROTO_SCTP 0
                   (load16 buf off) mpls)
         else ret ())"

text \<open>For IPv6 the protocol is at 6. The size that is required of an SCTP packet is that of an
  IPv4 header with an SCTP header.\<close>

definition handle_inner_ip6_packet ::
  "'w os \<Rightarrow> sockaddr \<Rightarrow> int \<Rightarrow> u8 list \<Rightarrow> nat \<Rightarrow> int \<Rightarrow> timeval \<Rightarrow> mpls_label_t list \<Rightarrow> (unit, 'w) proc" where
  "handle_inner_ip6_packet os remote_addr icmp_result buf ip packet_length timestamp mpls =
     (let protocol = uint (buf ! (ip + 6));
          off = ip + IP6_HEADER
      in if protocol = IPPROTO_ICMPV6 then
           (if packet_length < int (IP6_HEADER + ICMP_HEADER) then ret ()
            else find_and_receive_probe os remote_addr timestamp icmp_result IPPROTO_ICMP
                   (load16 buf (off + 4)) (load16 buf (off + 6)) mpls)
         else if protocol = IPPROTO_UDP then
           (if packet_length < int (IP6_HEADER + UDP_HEADER) then ret ()
            else handle_inner_udp_packet os remote_addr icmp_result buf off timestamp mpls)
         else if protocol = IPPROTO_TCP then
           (if packet_length < int (IP6_HEADER + 8) then ret ()
            else find_and_receive_probe os remote_addr timestamp icmp_result IPPROTO_TCP 0
                   (load16 buf off) mpls)
         else if protocol = IPPROTO_SCTP then
           (if packet_length < int (IP_HEADER + 8) then ret ()
            else find_and_receive_probe os remote_addr timestamp icmp_result IPPROTO_SCTP 0
                   (load16 buf off) mpls)
         else ret ())"

section \<open>MPLS labels\<close>

definition decode_mpls_label :: "u8 list \<Rightarrow> nat \<Rightarrow> mpls_label_t" where
  "decode_mpls_label buf i =
     \<lparr>ml_label = push_bit 12 (ucast (buf ! i)) OR push_bit 4 (ucast (buf ! (i + 1)))
                 OR ucast (drop_bit 4 (buf ! (i + 2))),
      ml_traffic_class = drop_bit 1 (buf ! (i + 2) AND 0x0E),
      ml_bottom_of_stack = buf ! (i + 2) AND 0x01,
      ml_ttl = buf ! (i + 3)\<rparr>"

definition decode_mpls_object :: "u8 list \<Rightarrow> nat \<Rightarrow> nat \<Rightarrow> nat \<Rightarrow> mpls_label_t list" where
  "decode_mpls_object buf obj obj_len mpls_count =
     (let labels_present = (obj_len - 4) div 4
      in map (\<lambda>i. decode_mpls_label buf (obj + 4 + 4 * i)) [0..<min mpls_count labels_present])"

text \<open>The chain of extension objects: length 0, class number 2, type 3. \<open>remaining_size\<close> bytes
  are left from \<open>obj\<close> on.\<close>

function mpls_objects :: "u8 list \<Rightarrow> nat \<Rightarrow> nat \<Rightarrow> nat \<Rightarrow> mpls_label_t list" where
  "mpls_objects buf obj remaining_size mpls_count =
     (if remaining_size < 4 then []
      else (let obj_len = unat (htons (load16 buf obj))
            in if remaining_size < obj_len \<or> obj_len < 4 then []
               else if buf ! (obj + 2) = 1 \<and> buf ! (obj + 3) = 1
               then decode_mpls_object buf obj obj_len mpls_count
               else mpls_objects buf (obj + obj_len) (remaining_size - obj_len) mpls_count))"
  by pat_completeness auto
termination
  by (relation "measure (\<lambda>(b, i, n, c). n)") auto

declare mpls_objects.simps [simp del]

abbreviation (input) ORIG_ICMP_EXT :: nat where "ORIG_ICMP_EXT \<equiv> 140"

definition decode_mpls_labels :: "u8 list \<Rightarrow> nat \<Rightarrow> int \<Rightarrow> nat \<Rightarrow> mpls_label_t list" where
  "decode_mpls_labels buf icmp packet_length mpls_count =
     (if packet_length < int ORIG_ICMP_EXT then []
      else (let icmp_ext = icmp + ICMP_HEADER + 128
            in if buf ! icmp_ext AND 0xF0 \<noteq> 0x20 then []
               else mpls_objects buf (icmp_ext + 4) (nat packet_length - ORIG_ICMP_EXT) mpls_count))"

section \<open>Received packets\<close>

definition when' :: "bool \<Rightarrow> (unit, 'w) proc \<Rightarrow> (unit, 'w) proc" where
  "when' b m = (if b then m else ret ())"

definition handle_received_icmp4_packet ::
  "'w os \<Rightarrow> sockaddr \<Rightarrow> u8 list \<Rightarrow> nat \<Rightarrow> int \<Rightarrow> timeval \<Rightarrow> (unit, 'w) proc" where
  "handle_received_icmp4_packet os remote_addr buf icmp packet_length timestamp =
     bnd get_ns (\<lambda>ns.
     (let icmp_ip_size = (if ip4_socket_raw ns then int IP_HEADER else 0) + int ICMP_HEADER;
          inner_size = packet_length - int ICMP_HEADER;
          inner_ip = icmp + ICMP_HEADER;
          type = uint (buf ! icmp);
          mpls = decode_mpls_labels buf icmp packet_length MAX_MPLS_LABELS;
          inner = (\<lambda>result. handle_inner_ip4_packet os remote_addr result buf inner_ip inner_size timestamp mpls)
      in bnd (when' (type = ICMP_ECHOREPLY)
                (find_and_receive_probe os remote_addr timestamp ICMP_ECHOREPLY IPPROTO_ICMP
                   (load16 buf (icmp + 4)) (load16 buf (icmp + 6)) mpls)) (\<lambda>_.
         if packet_length < icmp_ip_size then ret ()
         else
           bnd (when' (type = ICMP_TIME_EXCEEDED) (inner ICMP_TIME_EXCEEDED)) (\<lambda>_.
           when' (type = ICMP_DEST_UNREACH)
             (inner (if buf ! (icmp + 1) = 3 then ICMP_ECHOREPLY else ICMP_DEST_UNREACH))))))"

definition handle_received_icmp6_packet ::
  "'w os \<Rightarrow> sockaddr \<Rightarrow> u8 list \<Rightarrow> nat \<Rightarrow> int \<Rightarrow> timeval \<Rightarrow> (unit, 'w) proc" where
  "handle_received_icmp6_packet os remote_addr buf icmp packet_length timestamp =
     (let inner_size = packet_length - int ICMP_HEADER;
          inner_ip = icmp + ICMP_HEADER;
          type = uint (buf ! icmp);
          mpls = decode_mpls_labels buf icmp packet_length MAX_MPLS_LABELS;
          inner = (\<lambda>result. handle_inner_ip6_packet os remote_addr result buf inner_ip inner_size timestamp mpls)
      in bnd (when' (type = 129)
                (find_and_receive_probe os remote_addr timestamp ICMP_ECHOREPLY IPPROTO_ICMP
                   (load16 buf (icmp + 4)) (load16 buf (icmp + 6)) mpls)) (\<lambda>_.
         if packet_length < int (ICMP_HEADER + IP6_HEADER) then ret ()
         else
           bnd (when' (type = 3) (inner ICMP_TIME_EXCEEDED)) (\<lambda>_.
           when' (type = 1)
             (inner (if buf ! (icmp + 1) = 4 then ICMP_ECHOREPLY else ICMP_DEST_UNREACH)))))"

type_synonym 'w received_packet_func = "sockaddr \<Rightarrow> u8 list \<Rightarrow> int \<Rightarrow> timeval \<Rightarrow> (unit, 'w) proc"

definition handle_received_ip4_packet :: "'w os \<Rightarrow> 'w received_packet_func" where
  "handle_received_ip4_packet os remote_addr packet packet_length timestamp =
     bnd get_ns (\<lambda>ns.
     (let ip_icmp_size = (if ip4_socket_raw ns then int IP_HEADER else 0) + int ICMP_HEADER
      in if packet_length < ip_icmp_size then ret ()
         else if ip4_socket_raw ns then
           (if uint (packet ! 9) \<noteq> IPPROTO_ICMP then ret ()
            else handle_received_icmp4_packet os remote_addr packet IP_HEADER
                   (packet_length - int IP_HEADER) timestamp)
         else handle_received_icmp4_packet os remote_addr packet 0 packet_length timestamp))"

definition handle_received_ip6_packet :: "'w os \<Rightarrow> 'w received_packet_func" where
  "handle_received_ip6_packet os remote_addr packet packet_length timestamp =
     handle_received_icmp6_packet os remote_addr packet 0 packet_length timestamp"

end
