(* ===== verification/ProbeUnix.thy ===== *)
theory ProbeUnix
  imports Deconstruct
begin

text \<open>
  \<open>packet/probe_unix.c\<close>: opening the sockets, sending probes, reading replies from the
  sockets, and timing probes out. The loops that only the operating system ends (reading until
  nothing is left, repeating an interrupted call) have fuel; when it runs out the result is the
  exit ``out of fuel''.
\<close>

section \<open>Sending\<close>

text \<open>\<open>send_packet\<close>: the socket by family, protocol and kind of socket, and the destination
  with the port that a datagram socket needs. Socket 0 stands for none.\<close>

definition send_socket_for :: "net_state_t \<Rightarrow> probe_param_t \<Rightarrow> family \<Rightarrow> int" where
  "send_socket_for ns param fam =
     (case fam of
        AF_INET6 \<Rightarrow>
          if pp_protocol param = IPPROTO_ICMP then
            (if ip6_socket_raw ns then icmp6_send_socket ns else ip6_txrx_icmp_socket ns)
          else if pp_protocol param = IPPROTO_UDP then
            (if ip6_socket_raw ns then udp6_send_socket ns else ip6_txrx_udp_socket ns)
          else 0
      | AF_INET \<Rightarrow>
          if ip4_socket_raw ns then ip4_send_socket ns
          else if pp_protocol param = IPPROTO_ICMP then
            (if pp_is_probing_byte_order param then ip4_tmp_icmp_socket ns else ip4_txrx_icmp_socket ns)
          else if pp_protocol param = IPPROTO_UDP then ip4_txrx_udp_socket ns
          else 0
      | AF_UNSPEC \<Rightarrow> 0)"

text \<open>Without a destination port the sequence number is stored as the port in host order.\<close>

definition send_address :: "net_state_t \<Rightarrow> probe_param_t \<Rightarrow> int \<Rightarrow> sockaddr \<Rightarrow> sockaddr" where
  "send_address ns param sequence addr =
     (if pp_protocol param = IPPROTO_UDP
         \<and> (ss_family addr = AF_INET6 \<and> \<not> ip6_socket_raw ns \<or> ss_family addr = AF_INET \<and> \<not> ip4_socket_raw ns)
      then addr\<lparr>sin_port := (if pp_dest_port param \<noteq> 0 then htons (word_of_int (pp_dest_port param))
                             else word_of_int sequence)\<rparr>
      else addr)"

definition send_packet ::
  "'w os \<Rightarrow> probe_param_t \<Rightarrow> int \<Rightarrow> u8 list \<Rightarrow> sockaddr \<Rightarrow> (int option, 'w) proc" where
  "send_packet os param sequence packet addr =
     bnd get_ns (\<lambda>ns.
     (let send_socket = send_socket_for ns param (ss_family addr)
      in if send_socket = 0 then bnd (set_errno EINVAL) (\<lambda>_. ret None)
         else sys (os_sendto os send_socket packet (send_address ns param sequence addr))))"

definition packet_error_line :: "int \<Rightarrow> errno \<Rightarrow> string" where
  "packet_error_line command_token e =
     fmt_d command_token @ '' '' @
     (if e = EINVAL then ''invalid-argument''
      else if e = ENETDOWN then ''network-down''
      else if e = ENETUNREACH then ''no-route''
      else if e = EHOSTUNREACH then ''no-route''
      else if e = EPERM then ''permission-denied''
      else if e = EADDRINUSE then ''address-in-use''
      else if e = EADDRNOTAVAIL then ''address-not-available''
      else ''unexpected-error errno '' @ fmt_d (errno_num e))"

definition report_packet_error :: "int \<Rightarrow> (unit, 'w) proc" where
  "report_packet_error command_token =
     bnd get_errno (\<lambda>e. print_line (packet_error_line command_token e))"

text \<open>The loop of \<open>send_probe\<close> around \<open>construct_packet\<close>: \<open>trytimes\<close> tries are left. A
  packet of positive size ends it, and so does any protocol but TCP and SCTP; for those the size is
  never positive, and the loop goes on as long as \<open>errno\<close> is \<open>EADDRINUSE\<close>.\<close>

function construct_loop ::
  "nat \<Rightarrow> 'w os \<Rightarrow> nat \<Rightarrow> sockaddr \<Rightarrow> probe_param_t \<Rightarrow> built \<Rightarrow> (built, 'w) proc" where
  "construct_loop trytimes os p src_sockaddr param last_result =
     (if trytimes = 0 then ret last_result
      else
        bnd (probe_at p) (\<lambda>probe.
        bnd (construct_packet os (pr_sequence probe) (pr_remote_addr probe) src_sockaddr param) (\<lambda>built.
        bnd (case built of
               Some (_, Some fd) \<Rightarrow> upd_probe p (\<lambda>x. x\<lparr>pr_socket := fd\<rparr>) | _ \<Rightarrow> ret ()) (\<lambda>_.
        bnd get_errno (\<lambda>e.
        if (case built of Some (packet, _) \<Rightarrow> packet \<noteq> [] | None \<Rightarrow> False) \<or> \<not> is_stream (pp_protocol param)
           \<or> e \<noteq> EADDRINUSE
        then ret built
        else
          bnd get_ns (\<lambda>ns.
          bnd (upd_probe p (\<lambda>x. x\<lparr>pr_sequence := np_next_sequence ns\<rparr>)) (\<lambda>_.
          bnd (upd_ns advance_sequence) (\<lambda>_.
          construct_loop (trytimes - 1) os p src_sockaddr param built))))))))"
  by pat_completeness auto
termination
  by (relation "measure (\<lambda>(n, _). n)") auto

declare construct_loop.simps [simp del]

abbreviation (input) SEND_TRIES :: nat where "SEND_TRIES \<equiv> 32535"

definition send_probe :: "'w os \<Rightarrow> probe_param_t \<Rightarrow> (unit, 'w) proc" where
  "send_probe os param =
     (let tok = pp_command_token param
      in bnd (alloc_probe os tok) (\<lambda>pr.
      case pr of
        None \<Rightarrow> print_line (fmt_d tok @ '' probes-exhausted'')
      | Some (p, _) \<Rightarrow>
      bnd (resolve_probe_addresses os param) (\<lambda>addrs.
      case addrs of
        None \<Rightarrow> bnd (print_line (fmt_d tok @ '' invalid-argument'')) (\<lambda>_. free_probe os p)
      | Some (dest_sockaddr, src_sockaddr) \<Rightarrow>
      bnd (upd_probe p (\<lambda>x. x\<lparr>pr_remote_addr := dest_sockaddr\<rparr>)) (\<lambda>_.
      bnd (gettimeofday os) (\<lambda>now.
      bnd (upd_probe p (\<lambda>x. x\<lparr>pr_departure_time := now\<rparr>)) (\<lambda>_.
      bnd (construct_loop SEND_TRIES os p src_sockaddr param None) (\<lambda>built.
      case built of
        None \<Rightarrow>
          bnd get_errno (\<lambda>e.
          if e = ECONNREFUSED then
            bnd (probe_at p) (\<lambda>probe.
            receive_probe os p ICMP_ECHOREPLY (pr_remote_addr probe) None [])
          else bnd (report_packet_error tok) (\<lambda>_. free_probe os p))
      | Some (packet, _) \<Rightarrow>
      bnd (probe_at p) (\<lambda>probe.
      bnd (if packet \<noteq> []
           then send_packet os param (pr_sequence probe) packet (pr_remote_addr probe)
           else ret (Some 0)) (\<lambda>sent.
      if sent = None then bnd (report_packet_error tok) (\<lambda>_. free_probe os p)
      else
        (let t = pr_departure_time probe
         in upd_probe p (\<lambda>x. x\<lparr>pr_timeout_time := Timeval (tv_sec t + pp_timeout param) (tv_usec t)\<rparr>)))))))))))"

section \<open>Receiving\<close>

text \<open>The loop that clears an error with \<open>getsockopt\<close> after an interruption.\<close>

fun clear_error :: "nat \<Rightarrow> 'w os \<Rightarrow> int \<Rightarrow> (unit, 'w) proc" where
  "clear_error 0 os fd = error_exit ''out of fuel''"
| "clear_error (Suc fuel) os fd =
     bnd (sys (os_so_error os fd)) (\<lambda>r.
     bnd get_errno (\<lambda>e. if r = None \<and> e = EINTR then clear_error fuel os fd else ret ()))"

text \<open>What \<open>receive_replies_from_recv_socket\<close> carries from one message to the next: the
  buffer, the flag \<open>MSG_ERRQUEUE\<close>, its two notes and the last offender.\<close>

record recv_state =
  rs_packet :: "u8 list"
  rs_errqueue :: bool
  rs_connrefused :: bool
  rs_hostunreach :: bool
  rs_offender :: "sockaddr option"

definition dispatch_message ::
  "'w os \<Rightarrow> int \<Rightarrow> 'w received_packet_func \<Rightarrow> recv_state \<Rightarrow> sockaddr \<Rightarrow> int \<Rightarrow> timeval \<Rightarrow> (unit, 'w) proc" where
  "dispatch_message os socket handle_received_packet rs remote_addr packet_length timestamp =
     (if rs_connrefused rs then
        handle_error_queue_packet os remote_addr ICMP_ECHOREPLY IPPROTO_UDP (rs_packet rs) packet_length timestamp
      else if rs_hostunreach rs then
        bnd (sys (os_so_protocol os socket)) (\<lambda>proto.
        case proto of None \<Rightarrow> error_exit ''getsockopt SO_PROTOCOL error''
        | Some proto \<Rightarrow>
            handle_error_queue_packet os remote_addr ICMP_TIME_EXCEEDED proto (rs_packet rs) packet_length timestamp)
      else handle_received_packet remote_addr (rs_packet rs) packet_length timestamp)"

text \<open>A message fills the front of the buffer; the rest keeps its old content.\<close>

definition fill_buffer :: "u8 list \<Rightarrow> u8 list \<Rightarrow> u8 list" where
  "fill_buffer bytes buf = bytes @ drop (length bytes) buf"

fun recv_loop :: "nat \<Rightarrow> 'w os \<Rightarrow> int \<Rightarrow> 'w received_packet_func \<Rightarrow> recv_state \<Rightarrow> (unit, 'w) proc" where
  "recv_loop 0 os socket handle_received_packet rs = error_exit ''out of fuel''"
| "recv_loop (Suc fuel) os socket handle_received_packet rs =
     bnd (sys (os_recvmsg os socket (rs_errqueue rs))) (\<lambda>msg.
     bnd (gettimeofday os) (\<lambda>timestamp.
     case msg of
       None \<Rightarrow>
         bnd get_errno (\<lambda>e.
         if e = EAGAIN then ret ()
         else if e = EINTR then
           bnd (clear_error fuel os socket) (\<lambda>_. recv_loop fuel os socket handle_received_packet rs)
         else if e = EHOSTUNREACH then
           recv_loop fuel os socket handle_received_packet (rs\<lparr>rs_hostunreach := True, rs_errqueue := True\<rparr>)
         else if e = ECONNREFUSED then
           recv_loop fuel os socket handle_received_packet (rs\<lparr>rs_connrefused := True, rs_errqueue := True\<rparr>)
         else error_exit ''Failure receiving replies'')
     | Some msg \<Rightarrow>
         (let rs = rs\<lparr>rs_packet := fill_buffer (msg_bytes msg) (rs_packet rs)\<rparr>;
              rs = (if rs_errqueue rs \<and> msg_offender msg \<noteq> None
                    then rs\<lparr>rs_offender := msg_offender msg\<rparr> else rs);
              remote_addr = (if rs_errqueue rs
                             then (case rs_offender rs of Some a \<Rightarrow> a | None \<Rightarrow> msg_from msg)
                             else msg_from msg)
          in bnd (dispatch_message os socket handle_received_packet rs remote_addr
                    (int (length (msg_bytes msg))) timestamp)
               (\<lambda>_. recv_loop fuel os socket handle_received_packet rs))))"

definition receive_replies_from_recv_socket ::
  "nat \<Rightarrow> 'w os \<Rightarrow> int \<Rightarrow> 'w received_packet_func \<Rightarrow> (unit, 'w) proc" where
  "receive_replies_from_recv_socket fuel os socket handle_received_packet =
     recv_loop fuel os socket handle_received_packet
       \<lparr>rs_packet = os_uninit_bytes os, rs_errqueue = False, rs_connrefused = False,
        rs_hostunreach = False, rs_offender = None\<rparr>"

definition receive_replies_from_probe_socket :: "'w os \<Rightarrow> nat \<Rightarrow> (unit, 'w) proc" where
  "receive_replies_from_probe_socket os p =
     bnd (probe_at p) (\<lambda>probe.
     (let probe_socket = pr_socket probe
      in if probe_socket = 0 then ret ()
         else
           bnd (sys (os_writable os probe_socket)) (\<lambda>writable.
           case writable of
             None \<Rightarrow> bnd get_errno (\<lambda>e. if e = EAGAIN then ret () else error_exit ''probe socket select error'')
           | Some False \<Rightarrow> ret ()
           | Some True \<Rightarrow>
               bnd (sys (os_so_error os probe_socket)) (\<lambda>err.
               case err of
                 None \<Rightarrow> error_exit ''probe socket SO_ERROR''
               | Some err \<Rightarrow>
                   if err = None \<or> err = Some ECONNREFUSED
                   then receive_probe os p ICMP_ECHOREPLY (pr_remote_addr probe) None []
                   else
                     bnd (set_errno (the err)) (\<lambda>_.
                     bnd (report_packet_error (pr_token probe)) (\<lambda>_.
                     free_probe os p))))))"

text \<open>\<open>LIST_FOREACH_SAFE\<close> over the outstanding probes: the body frees its own probe at most,
  so the probes visited are those of the list at the start (\<open>LIST_FOREACH_SAFE_fold\<close>).\<close>

fun foreach_probe :: "nat list \<Rightarrow> (nat \<Rightarrow> (unit, 'w) proc) \<Rightarrow> (unit, 'w) proc" where
  "foreach_probe [] body = ret ()"
| "foreach_probe (p # ps) body = bnd (body p) (\<lambda>_. foreach_probe ps body)"

definition foreach_outstanding :: "(nat \<Rightarrow> (unit, 'w) proc) \<Rightarrow> (unit, 'w) proc" where
  "foreach_outstanding body = bnd get_ns (\<lambda>ns. foreach_probe (map fst (outstanding_probes ns)) body)"

definition receive_replies :: "nat \<Rightarrow> 'w os \<Rightarrow> (unit, 'w) proc" where
  "receive_replies fuel os =
     bnd get_ns (\<lambda>ns.
     (let recv = receive_replies_from_recv_socket fuel os
      in bnd (when' (ip4_present ns)
           (if ip4_socket_raw ns then recv (ip4_recv_socket ns) (handle_received_ip4_packet os)
            else bnd (recv (ip4_txrx_icmp_socket ns) (handle_received_ip4_packet os)) (\<lambda>_.
                 recv (ip4_txrx_udp_socket ns) (handle_received_ip4_packet os)))) (\<lambda>_.
         bnd (when' (ip6_present ns)
           (if ip6_socket_raw ns then recv (ip6_recv_socket ns) (handle_received_ip6_packet os)
            else bnd (recv (ip6_txrx_icmp_socket ns) (handle_received_ip6_packet os)) (\<lambda>_.
                 recv (ip6_txrx_udp_socket ns) (handle_received_ip6_packet os)))) (\<lambda>_.
         foreach_outstanding (receive_replies_from_probe_socket os)))))"

section \<open>Timeouts\<close>

definition check_probe_timeouts :: "'w os \<Rightarrow> (unit, 'w) proc" where
  "check_probe_timeouts os =
     bnd (gettimeofday os) (\<lambda>now.
     foreach_outstanding (\<lambda>p.
       bnd (probe_at p) (\<lambda>probe.
       when' (compare_timeval (pr_timeout_time probe) now < 0)
         (bnd (print_line (fmt_d (pr_token probe) @ '' no-reply'')) (\<lambda>_.
          free_probe os p)))))"

text \<open>The soonest timeout: the remaining time of a probe, and the least of those.\<close>

definition remaining_time :: "timeval \<Rightarrow> probe_t \<Rightarrow> timeval" where
  "remaining_time now probe =
     normalize_timeval (Timeval (tv_sec (pr_timeout_time probe) - tv_sec now)
                                (tv_usec (pr_timeout_time probe) - tv_usec now))"

definition sooner :: "timeval \<Rightarrow> probe_t \<Rightarrow> timeval option \<Rightarrow> timeval option" where
  "sooner now probe timeout =
     (let t = remaining_time now probe
      in case timeout of
           Some timeout \<Rightarrow> if compare_timeval t timeout < 0 then Some t else Some timeout
         | None \<Rightarrow> Some t)"

definition next_timeout :: "timeval \<Rightarrow> net_state_t \<Rightarrow> timeval option" where
  "next_timeout now ns = fold (\<lambda>(_, probe). sooner now probe) (outstanding_probes ns) None"

definition get_next_probe_timeout :: "'w os \<Rightarrow> (timeval option, 'w) proc" where
  "get_next_probe_timeout os =
     bnd (gettimeofday os) (\<lambda>now. bnd get_ns (\<lambda>ns. ret (next_timeout now ns)))"

text \<open>\<open>gather_probe_sockets\<close>: the set of sockets, and one more than the largest.\<close>

definition gather_probe_sockets :: "net_state_t \<Rightarrow> int list \<times> int" where
  "gather_probe_sockets ns =
     fold (\<lambda>(_, probe) (write_set, nfds).
       (let probe_socket = pr_socket probe
        in if probe_socket \<noteq> 0
           then (write_set @ [probe_socket], if nfds \<le> probe_socket then probe_socket + 1 else nfds)
           else (write_set, nfds)))
       (outstanding_probes ns) ([], 0)"

section \<open>Opening the sockets\<close>

definition is_ip_version_supported :: "net_state_t \<Rightarrow> int \<Rightarrow> bool" where
  "is_ip_version_supported ns ip_version =
     (if ip_version = 4 then ip4_present ns else if ip_version = 6 then ip6_present ns else False)"

definition is_protocol_supported :: "net_state_t \<Rightarrow> int \<Rightarrow> bool" where
  "is_protocol_supported ns protocol =
     (if protocol = IPPROTO_ICMP then True
      else if protocol = IPPROTO_UDP then True
      else if protocol = IPPROTO_TCP then True
      else if protocol = IPPROTO_SCTP then sctp_support ns
      else False)"

definition check_sctp_support :: "'w os \<Rightarrow> (unit, 'w) proc" where
  "check_sctp_support os =
     bnd (sys (os_socket os AF_INET SOCK_STREAM IPPROTO_SCTP)) (\<lambda>s.
     case s of None \<Rightarrow> ret ()
     | Some fd \<Rightarrow> bnd (sys_close os fd) (\<lambda>_. upd_ns (\<lambda>ns. ns\<lparr>sctp_support := True\<rparr>)))"

text \<open>A socket that cannot be had makes the function close the sockets before it.\<close>

fun close_all :: "'w os \<Rightarrow> int list \<Rightarrow> (unit, 'w) proc" where
  "close_all os [] = ret ()"
| "close_all os (fd # fds) = bnd (sys_close os fd) (\<lambda>_. close_all os fds)"

definition open_or_close ::
  "'w os \<Rightarrow> (int option, 'w) proc \<Rightarrow> int list \<Rightarrow> (int \<Rightarrow> (bool, 'w) proc) \<Rightarrow> (bool, 'w) proc" where
  "open_or_close os call opened k =
     bnd call (\<lambda>s. case s of
       None \<Rightarrow> bnd (close_all os opened) (\<lambda>_. ret False)
     | Some fd \<Rightarrow> k fd)"

abbreviation (input) IPPROTO_RAW :: int where "IPPROTO_RAW \<equiv> 255"

definition open_ip4_sockets_raw :: "'w os \<Rightarrow> (bool, 'w) proc" where
  "open_ip4_sockets_raw os =
     bnd (sys (os_socket os AF_INET SOCK_RAW IPPROTO_RAW)) (\<lambda>first.
     open_or_close os (if first = None then sys (os_socket os AF_INET SOCK_RAW IPPROTO_ICMP) else ret first) []
       (\<lambda>send_socket.
     open_or_close os (bnd (sys (os_setsockopt os send_socket IP_HDRINCL 1)) (\<lambda>r. ret (map_option (\<lambda>_. 0) r)))
       [send_socket] (\<lambda>_.
     open_or_close os (sys (os_socket os AF_INET SOCK_RAW IPPROTO_ICMP)) [send_socket] (\<lambda>recv_socket.
     bnd (upd_ns (\<lambda>ns. ns\<lparr>ip4_present := True, ip4_socket_raw := True,
            ip4_send_socket := send_socket, ip4_recv_socket := recv_socket\<rparr>)) (\<lambda>_. ret True)))))"

text \<open>The failure of the first \<open>setsockopt\<close> of the datagram sockets leaves the socket open.\<close>

definition recverr_socket ::
  "'w os \<Rightarrow> family \<Rightarrow> int \<Rightarrow> sockopt \<Rightarrow> int list \<Rightarrow> bool \<Rightarrow> (int \<Rightarrow> (bool, 'w) proc) \<Rightarrow> (bool, 'w) proc" where
  "recverr_socket os fam protocol opt opened close_own k =
     open_or_close os (sys (os_socket os fam SOCK_DGRAM protocol)) opened (\<lambda>fd.
     open_or_close os (bnd (sys (os_setsockopt os fd opt 1)) (\<lambda>r. ret (map_option (\<lambda>_. 0) r)))
       (if close_own then opened @ [fd] else []) (\<lambda>_. k fd))"

definition open_ip4_sockets_dgram :: "'w os \<Rightarrow> (bool, 'w) proc" where
  "open_ip4_sockets_dgram os =
     recverr_socket os AF_INET IPPROTO_ICMP IP_RECVERR [] False (\<lambda>icmp_socket.
     recverr_socket os AF_INET IPPROTO_UDP IP_RECVERR [icmp_socket] True (\<lambda>udp_socket.
     open_or_close os (sys (os_socket os AF_INET SOCK_DGRAM IPPROTO_ICMP)) [icmp_socket, udp_socket]
       (\<lambda>icmp_tmp_socket.
     bnd (upd_ns (\<lambda>ns. ns\<lparr>ip4_present := True, ip4_socket_raw := False,
            ip4_txrx_icmp_socket := icmp_socket, ip4_tmp_icmp_socket := icmp_tmp_socket,
            ip4_txrx_udp_socket := udp_socket\<rparr>)) (\<lambda>_. ret True))))"

definition open_ip6_sockets_raw :: "'w os \<Rightarrow> (bool, 'w) proc" where
  "open_ip6_sockets_raw os =
     open_or_close os (sys (os_socket os AF_INET6 SOCK_RAW IPPROTO_ICMPV6)) [] (\<lambda>send_socket_icmp.
     open_or_close os (sys (os_socket os AF_INET6 SOCK_RAW IPPROTO_UDP)) [send_socket_icmp] (\<lambda>send_socket_udp.
     open_or_close os (sys (os_socket os AF_INET6 SOCK_RAW IPPROTO_ICMPV6)) [send_socket_icmp, send_socket_udp]
       (\<lambda>recv_socket.
     bnd (upd_ns (\<lambda>ns. ns\<lparr>ip6_present := True, ip6_socket_raw := True,
            icmp6_send_socket := send_socket_icmp, udp6_send_socket := send_socket_udp,
            ip6_recv_socket := recv_socket\<rparr>)) (\<lambda>_. ret True))))"

definition open_ip6_sockets_dgram :: "'w os \<Rightarrow> (bool, 'w) proc" where
  "open_ip6_sockets_dgram os =
     recverr_socket os AF_INET6 IPPROTO_ICMPV6 IPV6_RECVERR [] False (\<lambda>icmp_socket.
     recverr_socket os AF_INET6 IPPROTO_UDP IPV6_RECVERR [icmp_socket] True (\<lambda>udp_socket.
     bnd (upd_ns (\<lambda>ns. ns\<lparr>ip6_present := True, ip6_socket_raw := False,
            ip6_txrx_icmp_socket := icmp_socket, ip6_txrx_udp_socket := udp_socket\<rparr>)) (\<lambda>_. ret True)))"

definition zero_net_state :: net_state_t where
  "zero_net_state = \<lparr>outstanding_probe_count = 0, outstanding_probes = [], ip4_present = False,
     ip6_present = False, ip4_socket_raw = False, ip6_socket_raw = False, ip4_send_socket = 0,
     ip4_recv_socket = 0, ip4_tmp_icmp_socket = 0, ip4_txrx_icmp_socket = 0, ip4_txrx_udp_socket = 0,
     icmp6_send_socket = 0, udp6_send_socket = 0, ip6_recv_socket = 0, ip6_txrx_icmp_socket = 0,
     ip6_txrx_udp_socket = 0, ip_length_host_order = False, sctp_support = False, np_next_sequence = 0\<rparr>"

definition init_net_state_privileged :: "'w os \<Rightarrow> (unit, 'w) proc" where
  "init_net_state_privileged os =
     bnd (upd_ns (\<lambda>_. zero_net_state\<lparr>np_next_sequence := MIN_PORT\<rparr>)) (\<lambda>_.
     bnd (open_ip4_sockets_raw os) (\<lambda>ok4.
     bnd (if ok4 then ret True else open_ip4_sockets_dgram os) (\<lambda>_.
     bnd (open_ip6_sockets_raw os) (\<lambda>ok6.
     bnd (if ok6 then ret True else open_ip6_sockets_dgram os) (\<lambda>_.
     bnd get_ns (\<lambda>ns.
     if \<not> ip4_present ns \<and> \<not> ip6_present ns then error_exit ''Failure to open IPv6 sockets'' else ret ()))))))"

text \<open>\<open>check_length_order\<close> returns at once on Linux.\<close>

definition init_net_state :: "'w os \<Rightarrow> (unit, 'w) proc" where
  "init_net_state os =
     bnd get_ns (\<lambda>ns.
     bnd (if ip4_socket_raw ns then set_socket_nonblocking os (ip4_recv_socket ns)
          else bnd (set_socket_nonblocking os (ip4_txrx_icmp_socket ns)) (\<lambda>_.
               set_socket_nonblocking os (ip4_txrx_udp_socket ns))) (\<lambda>_.
     bnd (if ip6_socket_raw ns then set_socket_nonblocking os (ip6_recv_socket ns)
          else bnd (set_socket_nonblocking os (ip6_txrx_icmp_socket ns)) (\<lambda>_.
               set_socket_nonblocking os (ip6_txrx_udp_socket ns))) (\<lambda>_.
     check_sctp_support os)))"

end
