(* ===== verification/CmdParse.thy ===== *)
theory CmdParse
  imports Prelude
begin

text \<open>
  \<open>packet/cmdparse.c\<close>, the line parser that \<open>mtr\<close> and \<open>mtr-packet\<close> share. The buffer
  is a list of characters that \<open>tokenize_command\<close> overwrites in place with NULs; its tokens are
  positions in that buffer, read back as C strings by \<open>str_at\<close>. The abstract specification
  \<open>words\<close> splits a line at white space; \<open>tokenize_refines\<close> shows that the in-place
  tokenizer implements it, and the later theories reason over \<open>words\<close> only.
\<close>

section \<open>Data\<close>

definition MAX_COMMAND_ARGUMENTS :: nat where
  "MAX_COMMAND_ARGUMENTS = 16"

definition MAX_COMMAND_TOKENS :: nat where
  "MAX_COMMAND_TOKENS = MAX_COMMAND_ARGUMENTS * 2 + 2"

record command_t =
  token :: int
  command_name :: string
  argument_count :: nat
  argument_name :: "string list"
  argument_value :: "string list"

definition zero_command :: command_t where
  "zero_command = \<lparr>token = 0, command_name = [], argument_count = 0, argument_name = [],
     argument_value = []\<rparr>"

section \<open>The tokenizer\<close>

text \<open>The loop of \<open>tokenize_command\<close>: \<open>None\<close> is its \<open>-1\<close>. The second result is the
  buffer as the loop leaves it.\<close>

function tokenize_loop ::
  "nat \<Rightarrow> nat \<Rightarrow> bool \<Rightarrow> nat list \<Rightarrow> string \<Rightarrow> nat list option \<times> string" where
  "tokenize_loop max_tokens i on_space tokens command_string =
     (if i < length command_string \<and> command_string ! i \<noteq> NUL then
        if on_space then
          if \<not> isspace (command_string ! i) then
            if max_tokens \<le> length tokens then (None, command_string)
            else tokenize_loop max_tokens (Suc i) False (tokens @ [i]) command_string
          else tokenize_loop max_tokens (Suc i) True tokens command_string
        else
          if isspace (command_string ! i) then
            tokenize_loop max_tokens (Suc i) True tokens (command_string[i := NUL])
          else tokenize_loop max_tokens (Suc i) False tokens command_string
      else (Some tokens, command_string))"
  by pat_completeness auto
termination
  by (relation "measure (\<lambda>(m, i, b, ts, s). length s - i)") auto

declare tokenize_loop.simps [simp del]

definition tokenize_command :: "nat \<Rightarrow> string \<Rightarrow> nat list option \<times> string" where
  "tokenize_command max_tokens command_string =
     tokenize_loop max_tokens 0 True [] command_string"

text \<open>The C string that starts at a position of the buffer.\<close>

definition str_at :: "string \<Rightarrow> nat \<Rightarrow> string" where
  "str_at buf p = cstr (drop p buf)"

section \<open>The parser\<close>

fun parse_arguments :: "string list \<Rightarrow> command_t \<Rightarrow> errno + command_t" where
  "parse_arguments [] c = Inr c"
| "parse_arguments [n] c = Inl EINVAL"
| "parse_arguments (n # v # ts) c =
     (if MAX_COMMAND_ARGUMENTS \<le> argument_count c then Inl EINVAL
      else parse_arguments ts
             (c\<lparr>argument_name := argument_name c @ [n],
                argument_value := argument_value c @ [v],
                argument_count := Suc (argument_count c)\<rparr>))"

definition parse_tokens :: "string list \<Rightarrow> errno + command_t" where
  "parse_tokens tokens =
     (case tokens of
        tok # name # rest \<Rightarrow>
          (case strtol tok of (v, erange, _) \<Rightarrow>
             if erange then Inl EINVAL
             else parse_arguments rest (zero_command\<lparr>token := to_int32 v, command_name := name\<rparr>))
      | _ \<Rightarrow> Inl EINVAL)"

definition parse_command :: "string \<Rightarrow> errno + command_t" where
  "parse_command command_string =
     (case tokenize_command MAX_COMMAND_TOKENS command_string of
        (None, _) \<Rightarrow> Inl EINVAL
      | (Some tokens, buf) \<Rightarrow> parse_tokens (map (str_at buf) tokens))"

section \<open>Specification: the words of a line\<close>

function words :: "string \<Rightarrow> string list" where
  "words [] = []"
| "words (c # cs) =
     (if isspace c then words cs
      else (c # takeWhile (\<lambda>x. \<not> isspace x) cs) # words (dropWhile (\<lambda>x. \<not> isspace x) cs))"
  by pat_completeness auto
termination
  by (relation "measure length") (auto simp: length_dropWhile_le less_Suc_eq_le)

definition is_word :: "string \<Rightarrow> bool" where
  "is_word w \<longleftrightarrow> w \<noteq> [] \<and> (\<forall>c \<in> set w. \<not> isspace c)"

lemma is_word_append: "is_word a \<Longrightarrow> is_word b \<Longrightarrow> is_word (a @ b)"
  by (auto simp: is_word_def)

lemma is_word_fmt_d [simp]: "is_word (fmt_d n)"
  using fmt_d_not_space by (auto simp: is_word_def)

lemma words_are_words: "w \<in> set (words s) \<Longrightarrow> is_word w"
proof (induction s rule: words.induct)
  case (2 c cs)
  have first: "\<not> isspace c \<Longrightarrow> is_word (c # takeWhile (\<lambda>x. \<not> isspace x) cs)"
    unfolding is_word_def by (metis list.distinct(1) set_ConsD set_takeWhileD)
  show ?case
  proof (cases "isspace c")
    case True
    then show ?thesis using 2 by simp
  next
    case False
    with "2.prems" consider "w = c # takeWhile (\<lambda>x. \<not> isspace x) cs"
      | "w \<in> set (words (dropWhile (\<lambda>x. \<not> isspace x) cs))"
      by auto
    then show ?thesis using first False "2.IH"(2) by cases simp_all
  qed
qed simp

lemma words_chars: "w \<in> set (words s) \<Longrightarrow> set w \<subseteq> set s"
proof (induction s rule: words.induct)
  case (2 c cs)
  then show ?case
    by (auto split: if_splits dest: set_takeWhileD set_dropWhileD)
qed simp

lemma words_of_word:
  assumes "is_word w" and "rest = [] \<or> isspace (hd rest)"
  shows "words (w @ rest) = w # words rest"
proof -
  obtain c cs where w: "w = c # cs" "\<not> isspace c" "\<forall>x \<in> set cs. \<not> isspace x"
    using assms(1) by (cases w) (auto simp: is_word_def)
  have "rest = [] \<or> \<not> \<not> isspace (hd rest)"
    using assms(2) by simp
  note takeWhile_append_stop [OF w(3) this] dropWhile_append_stop [OF w(3) this]
  with w show ?thesis by simp
qed

lemma words_blank [simp]: "words (CHR '' '' # s) = words s"
  by simp

text \<open>Words joined by single blanks are read back as those words.\<close>

fun blank_words :: "string list \<Rightarrow> string" where
  "blank_words [] = []"
| "blank_words (w # ws) = CHR '' '' # w @ blank_words ws"

lemma hd_blank_words: "blank_words ws = [] \<or> isspace (hd (blank_words ws))"
  by (cases ws) auto

lemma words_blank_words [c_str]: "\<forall>w \<in> set ws. is_word w \<Longrightarrow> words (blank_words ws) = ws"
proof (induction ws)
  case (Cons w ws)
  then show ?case by (simp add: words_of_word hd_blank_words del: words.simps(2))
qed simp

lemma words_line [c_str]:
  assumes "is_word w" and "\<forall>x \<in> set ws. is_word x"
  shows "words (w @ blank_words ws) = w # ws"
  using words_of_word [OF assms(1) hd_blank_words] words_blank_words [OF assms(2)] by simp

lemma blank_words_append: "blank_words (xs @ ys) = blank_words xs @ blank_words ys"
  by (induction xs) auto

section \<open>The tokenizer implements the specification\<close>

text \<open>What the loop does to the rest of the buffer, and where it puts tokens.\<close>

fun blanked :: "bool \<Rightarrow> string \<Rightarrow> string" where
  "blanked b [] = []"
| "blanked True (c # cs) = c # blanked (isspace c) cs"
| "blanked False (c # cs) = (if isspace c then NUL # blanked True cs else c # blanked False cs)"

fun starts :: "bool \<Rightarrow> nat \<Rightarrow> string \<Rightarrow> nat list" where
  "starts b i [] = []"
| "starts True i (c # cs) =
     (if isspace c then starts True (Suc i) cs else i # starts False (Suc i) cs)"
| "starts False i (c # cs) = starts (isspace c) (Suc i) cs"

lemma starts_ge: "p \<in> set (starts b i s) \<Longrightarrow> i \<le> p"
  by (induction b i s rule: starts.induct) (auto split: if_splits dest: Suc_leD)

lemma no_nul_dropD: "no_nul (drop i s) \<Longrightarrow> i < length s \<Longrightarrow> s ! i \<noteq> NUL \<and> no_nul (drop (Suc i) s)"
  by (simp add: Cons_nth_drop_Suc [symmetric])

lemma tokenize_loop_result:
  assumes "no_nul (drop i s)"
  shows "(length ts + length (starts b i (drop i s)) \<le> m \<or> starts b i (drop i s) = []
            \<longrightarrow> tokenize_loop m i b ts s
                = (Some (ts @ starts b i (drop i s)), take i s @ blanked b (drop i s)))
      \<and> (\<not> (length ts + length (starts b i (drop i s)) \<le> m \<or> starts b i (drop i s) = [])
            \<longrightarrow> fst (tokenize_loop m i b ts s) = None)"
  using assms
proof (induction m i b ts s rule: tokenize_loop.induct)
  case (1 m i b ts s)
  show ?case
  proof (cases "i < length s")
    case False
    then show ?thesis by (simp add: tokenize_loop.simps [of m i b ts s])
  next
    case True
    define c cs where "c = s ! i" and "cs = drop (Suc i) s"
    have d: "drop i s = c # cs" "drop (Suc i) s = cs"
      using True by (simp_all add: c_def cs_def Cons_nth_drop_Suc)
    have tk: "take (Suc i) s = take i s @ [c]"
      using True by (simp add: c_def take_Suc_conv_app_nth)
    have nn: "c \<noteq> NUL" "no_nul (drop (Suc i) s)"
      using no_nul_dropD [OF "1.prems" True] by (simp_all add: c_def)
    have upd: "drop (Suc i) (s[i := NUL]) = cs" "take (Suc i) (s[i := NUL]) = take i s @ [NUL]"
      "no_nul cs"
      using True nn by (simp_all add: cs_def take_Suc_conv_app_nth)
    note unf = tokenize_loop.simps [of m i b ts s, folded c_def]
    note IH = "1.IH" [folded c_def, unfolded tk d upd]
    consider "b" "isspace c" | "b" "\<not> isspace c" | "\<not> b" "isspace c" | "\<not> b" "\<not> isspace c"
      by blast
    then show ?thesis
    proof cases
      case 1
      then show ?thesis using IH(2) nn upd True unf by (simp add: d)
    next
      case 2
      then show ?thesis using IH(1) nn upd True unf by (auto simp: d not_le)
    next
      case 3
      then show ?thesis using IH(3) nn upd True unf by (simp add: d)
    next
      case 4
      then show ?thesis using IH(4) nn upd True unf by (simp add: d)
    qed
  qed
qed

lemma cstr_Cons: "cstr (c # cs) = (if c = NUL then [] else c # cstr cs)"
  by (simp add: cstr_def)

lemma str_at_0 [simp]: "str_at s 0 = cstr s"
  by (simp add: str_at_def)

lemma str_at_Suc:
  "map (\<lambda>p. str_at (x # xs) (p - i)) (starts b (Suc i) cs)
     = map (\<lambda>p. str_at xs (p - Suc i)) (starts b (Suc i) cs)"
  by (rule map_cong) (auto simp: str_at_def drop_Cons' dest!: starts_ge)

lemma starts_words:
  assumes "no_nul s"
  shows "map (\<lambda>p. str_at (blanked True s) (p - i)) (starts True i s) = words s
    \<and> cstr (blanked False s) = takeWhile (\<lambda>x. \<not> isspace x) s
    \<and> map (\<lambda>p. str_at (blanked False s) (p - i)) (starts False i s)
        = words (dropWhile (\<lambda>x. \<not> isspace x) s)"
  using assms
proof (induction s arbitrary: i)
  case Nil
  then show ?case by (simp add: cstr_def)
next
  case (Cons c cs)
  note IH = Cons.IH [of "Suc i"]
  show ?case
    using IH Cons.prems by (cases "isspace c") (simp_all add: str_at_Suc cstr_Cons del: map_eq_conv)
qed

lemma tokenize_refines:
  assumes "no_nul s"
  shows "case tokenize_command m s of
           (Some ps, buf) \<Rightarrow> map (str_at buf) ps = words s \<and> length (words s) \<le> m
         | (None, _) \<Rightarrow> m < length (words s)"
proof -
  have w: "map (str_at (blanked True s)) (starts True 0 s) = words s"
    using starts_words [OF assms, of 0] by simp
  then have len: "length (starts True 0 s) = length (words s)"
    by (metis length_map)
  show ?thesis
    using tokenize_loop_result [where i = 0 and s = s and m = m and b = True and ts = "[]"] assms w len
    by (auto simp: tokenize_command_def split: option.splits prod.splits if_splits)
qed

lemma parse_command_words:
  assumes "no_nul s"
  shows "parse_command s =
           (if length (words s) \<le> MAX_COMMAND_TOKENS then parse_tokens (words s) else Inl EINVAL)"
  using tokenize_refines [OF assms, of MAX_COMMAND_TOKENS]
  by (auto simp: parse_command_def split: prod.splits option.splits)

end
