(* ===== verification/LineBuffer.thy ===== *)
theory LineBuffer
  imports Prelude
begin

text \<open>
  The contract of a buffered line reader. Both programs read a byte stream into a fixed buffer
  and hand every complete line to a handler: \<open>mtr\<close> the replies of \<open>mtr-packet\<close>
  (\<open>consume_reply_buffer\<close> in \<open>ui/cmdpipe.c\<close>) and \<open>mtr-packet\<close> its commands
  (\<open>dispatch_buffer_commands\<close> in \<open>packet/command.c\<close>). The locale \<open>line_reader\<close>
  states what the two loops have in common; its lemmas show that how the stream was cut into
  reads does not matter, as long as no line outgrows the buffer. The two components interpret
  the locale on their own definitions.
\<close>

section \<open>Lines of a text\<close>

function lines_of :: "string \<Rightarrow> string list \<times> string" where
  "lines_of s =
     (case split_nl s of None \<Rightarrow> ([], s)
      | Some (l, r) \<Rightarrow> (let (ls, rest) = lines_of r in (l # ls, rest)))"
  by pat_completeness auto
termination
  by (relation "measure length") (auto dest: split_nl_shorter)

declare lines_of.simps [simp del]

text \<open>Running a fallible step over a list stops at the first exit.\<close>

fun fold_res :: "('a \<Rightarrow> 's \<Rightarrow> 'e + 's) \<Rightarrow> 'a list \<Rightarrow> 's \<Rightarrow> 'e + 's" where
  "fold_res f [] s = Inr s"
| "fold_res f (x # xs) s = and_then (f x s) (fold_res f xs)"

text \<open>\<open>short_lines n k s\<close>: after \<open>k\<close> characters of a line, no line of \<open>s\<close> reaches
  \<open>n\<close> characters without its newline.\<close>

fun short_lines :: "nat \<Rightarrow> nat \<Rightarrow> string \<Rightarrow> bool" where
  "short_lines n k [] = (k < n)"
| "short_lines n k (c # cs) =
     (k < n \<and> (if c = NL then short_lines n 0 cs else short_lines n (Suc k) cs))"

lemma short_lines_rest:
  "short_lines n k (p @ NL # r) \<Longrightarrow> short_lines n 0 r"
  by (induction n k p rule: short_lines.induct) (auto split: if_splits)

lemma short_lines_prefix: "short_lines n k (r @ t) \<Longrightarrow> NL \<notin> set r \<Longrightarrow> k + length r < n"
proof (induction r arbitrary: k)
  case Nil
  then show ?case by (cases t) auto
next
  case (Cons c r)
  then show ?case by fastforce
qed

lemma and_then_cong: "(\<And>x. m = Inr x \<Longrightarrow> f x = g x) \<Longrightarrow> and_then m f = and_then m g"
  by (cases m) auto

lemma and_then_assoc: "and_then (and_then m f) g = and_then m (\<lambda>x. and_then (f x) g)"
  by (cases m) auto

lemma and_then_return [simp]: "and_then m Inr = m"
  by (cases m) auto

lemma fold_res_append: "fold_res f (xs @ ys) s = and_then (fold_res f xs s) (fold_res f ys)"
proof (induction xs arbitrary: s)
  case (Cons x xs)
  then have "fold_res f (xs @ ys) = (\<lambda>s. and_then (fold_res f xs s) (fold_res f ys))"
    by (rule ext)
  then show ?case by (simp add: and_then_assoc)
qed simp

lemma split_nl_append_Some: "split_nl a = Some (l, r) \<Longrightarrow> split_nl (a @ b) = Some (l, r @ b)"
  by (induction a arbitrary: l r) (auto split: if_splits)

section \<open>The interface\<close>

locale line_reader =
  fixes handle :: "string \<Rightarrow> 's \<Rightarrow> 'e + 's"
    and drain :: "string \<Rightarrow> 's \<Rightarrow> 'e + (string \<times> 's)"
    and feed :: "string \<Rightarrow> string \<times> 's \<Rightarrow> 'e + (string \<times> 's)"
    and overflow :: "'s \<Rightarrow> 's"
    and capacity :: nat
  assumes drain_line: "split_nl buf = Some (l, r) \<Longrightarrow> drain buf s = and_then (handle l s) (drain r)"
    and drain_rest: "split_nl buf = None \<Longrightarrow> drain buf s = Inr (buf, s)"
    and feed_drain: "feed chunk (buf, s) = and_then (drain (buf @ chunk) s)
          (\<lambda>(r, s'). Inr (if capacity \<le> length r then ([], overflow s') else (r, s')))"
begin

text \<open>Draining a buffer handles its lines in order and keeps what follows the last newline.\<close>

lemma drain_lines:
  "drain buf s = and_then (fold_res handle (fst (lines_of buf)) s) (\<lambda>s'. Inr (snd (lines_of buf), s'))"
proof (induction buf arbitrary: s rule: lines_of.induct)
  case (1 buf)
  show ?case
  proof (cases "split_nl buf")
    case None
    then show ?thesis by (simp add: drain_rest lines_of.simps [of buf])
  next
    case (Some lr)
    obtain l r where lr: "lr = (l, r)" by fastforce
    with Some have "drain r = (\<lambda>s'. and_then (fold_res handle (fst (lines_of r)) s')
        (\<lambda>s'. Inr (snd (lines_of r), s')))"
      using "1.IH" by (intro ext) simp
    with Some lr show ?thesis
      by (simp add: drain_line [of buf l r] lines_of.simps [of buf] and_then_assoc split: prod.splits)
  qed
qed

lemma drain_append:
  assumes "no_nul a"
  shows "drain (a @ b) s = and_then (drain a s) (\<lambda>(r, s'). drain (r @ b) s')"
  using assms
proof (induction "length a" arbitrary: a s rule: less_induct)
  case less
  show ?case
  proof (cases "split_nl a")
    case None
    then show ?thesis by (simp add: drain_rest [OF None])
  next
    case (Some lr)
    obtain l r where lr: "split_nl a = Some (l, r)" using Some by fastforce
    have "a = l @ NL # r" using split_nl_Some [OF lr] by simp
    then have "length r < length a" and "no_nul r" using less.prems by auto
    then have "drain (r @ b) = (\<lambda>s'. and_then (drain r s') (\<lambda>(r, s'). drain (r @ b) s'))"
      using less.hyps by blast
    then show ?thesis
      by (simp add: drain_line [OF lr] drain_line [OF split_nl_append_Some [OF lr]] and_then_assoc)
  qed
qed

lemma drain_result:
  assumes "drain a s = Inr (r, s')" and "no_nul a"
  shows "NL \<notin> set r \<and> (a = r \<or> (\<exists>p. a = p @ NL # r))"
  using assms
proof (induction "length a" arbitrary: a s rule: less_induct)
  case less
  show ?case
  proof (cases "split_nl a")
    case None
    then show ?thesis using less.prems by (auto simp: drain_rest split_nl_None)
  next
    case (Some lr)
    obtain l t where lt: "split_nl a = Some (l, t)" using Some by fastforce
    have a: "a = l @ NL # t" using split_nl_Some [OF lt] by simp
    from less.prems(1) obtain s1 where "drain t s1 = Inr (r, s')"
      by (auto simp: drain_line [OF lt] and_then_Inr)
    then have "NL \<notin> set r \<and> (t = r \<or> (\<exists>p. t = p @ NL # r))"
      using less.hyps [of t] a less.prems(2) by auto
    then show ?thesis
    proof (intro conjI; elim conjE disjE exE)
      fix p assume "t = p @ NL # r"
      then have "a = (l @ NL # p) @ NL # r" using a by simp
      then show "a = r \<or> (\<exists>p. a = p @ NL # r)" by blast
    qed (use a in auto)
  qed
qed

text \<open>What every line keeps, the drain and the reads keep.\<close>

lemma drain_keeps:
  assumes "\<And>l s s'. handle l s = Inr s' \<Longrightarrow> P s \<Longrightarrow> P s'" and "drain buf s = Inr (r, s')" and "P s"
  shows "P s'"
proof -
  have "fold_res handle ls s = Inr s' \<Longrightarrow> P s \<Longrightarrow> P s'" for ls s
    by (induction ls arbitrary: s) (auto simp: and_then_Inr dest: assms(1))
  with assms(2,3) show ?thesis
    by (auto simp: drain_lines and_then_Inr)
qed

text \<open>Cutting the stream into reads makes no difference.\<close>

lemma feeds_concat:
  assumes "NL \<notin> set buf" and "no_nul buf" and "no_nul (concat chunks)"
    and "short_lines capacity 0 (buf @ concat chunks)"
  shows "fold_res feed chunks (buf, s) = drain (buf @ concat chunks) s"
  using assms
proof (induction chunks arbitrary: buf s)
  case Nil
  then show ?case by (simp add: drain_rest split_nl_None)
next
  case (Cons c cs)
  have nn: "no_nul (buf @ c)" "no_nul (concat cs)" using Cons.prems by auto
  have "fold_res feed (c # cs) (buf, s)
      = and_then (drain (buf @ c) s) (\<lambda>(r, s'). fold_res feed cs
          (if capacity \<le> length r then ([], overflow s') else (r, s')))"
    by (simp add: feed_drain and_then_assoc split_def)
  also have "\<dots> = and_then (drain (buf @ c) s) (\<lambda>(r, s'). drain (r @ concat cs) s')"
  proof (rule and_then_cong)
    fix x assume x: "drain (buf @ c) s = Inr x"
    obtain r s' where rs: "x = (r, s')" by fastforce
    have r: "NL \<notin> set r" "buf @ c = r \<or> (\<exists>p. buf @ c = p @ NL # r)"
      using drain_result [OF x [unfolded rs] nn(1)] by blast+
    then have "no_nul r" using nn(1) by (metis no_nul_Cons no_nul_append)
    have short: "short_lines capacity 0 (r @ concat cs)"
    proof (cases "buf @ c = r")
      case True
      then have "buf @ concat (c # cs) = r @ concat cs" by simp
      then show ?thesis using Cons.prems(4) by metis
    next
      case False
      then obtain p where "buf @ c = p @ NL # r" using r by blast
      then have "buf @ concat (c # cs) = p @ NL # (r @ concat cs)"
        by simp
      then show ?thesis using Cons.prems(4) short_lines_rest by metis
    qed
    then have "length r < capacity"
      using short_lines_prefix [OF _ r(1)] by fastforce
    then show "(case x of (r, s') \<Rightarrow> fold_res feed cs
          (if capacity \<le> length r then ([], overflow s') else (r, s')))
        = (case x of (r, s') \<Rightarrow> drain (r @ concat cs) s')"
      using Cons.IH [OF r(1) \<open>no_nul r\<close> nn(2) short] by (simp add: rs)
  qed
  also have "\<dots> = drain (buf @ concat (c # cs)) s"
    using drain_append [OF nn(1), of "concat cs" s] by simp
  finally show ?case .
qed

end

end
