(* ===== verification/Command.thy ===== *)
theory Command
  imports ProbeUnix CmdParse LineBuffer
begin

text \<open>
  \<open>packet/command.c\<close> and \<open>packet/command_unix.c\<close>: the commands that \<open>mtr-packet\<close> reads from
  its standard input, one per line. The command buffer is the text of the bytes that are read and
  not yet dispatched. The version that \<open>check-support\<close> reports is an argument.
\<close>

section \<open>Feature support\<close>

fun find_parameter_loop :: "string list \<Rightarrow> string list \<Rightarrow> string \<Rightarrow> string option" where
  "find_parameter_loop (name # names) (v # vs) name_request =
     (if name = name_request then Some v else find_parameter_loop names vs name_request)"
| "find_parameter_loop _ _ name_request = None"

definition find_parameter :: "command_t \<Rightarrow> string \<Rightarrow> string option" where
  "find_parameter command name_request =
     find_parameter_loop (argument_name command) (argument_value command) name_request"

definition yes_no :: "bool \<Rightarrow> string" where
  "yes_no b = (if b then ''ok'' else ''no'')"

definition check_protocol_support :: "net_state_t \<Rightarrow> int \<Rightarrow> string" where
  "check_protocol_support ns protocol = yes_no (is_protocol_supported ns protocol)"

definition check_ip_version_support :: "net_state_t \<Rightarrow> int \<Rightarrow> string" where
  "check_ip_version_support ns ip_version = yes_no (is_ip_version_supported ns ip_version)"

definition check_support :: "string \<Rightarrow> string \<Rightarrow> net_state_t \<Rightarrow> string" where
  "check_support version feature ns =
     (if feature = ''version'' then version
      else if feature = ''ip-4'' then check_ip_version_support ns 4
      else if feature = ''ip-6'' then check_ip_version_support ns 6
      else if feature = ''send-probe'' then ''ok''
      else if feature = ''icmp'' then check_protocol_support ns IPPROTO_ICMP
      else if feature = ''udp'' then check_protocol_support ns IPPROTO_UDP
      else if feature = ''tcp'' then check_protocol_support ns IPPROTO_TCP
      else if feature = ''sctp'' then check_protocol_support ns IPPROTO_SCTP
      else if feature = ''mark'' then ''ok''
      else ''no'')"

definition check_support_command :: "string \<Rightarrow> command_t \<Rightarrow> (unit, 'w) proc" where
  "check_support_command version command =
     (case find_parameter command ''feature'' of
        None \<Rightarrow> print_line (fmt_d (token command) @ '' invalid-argument'')
      | Some feature \<Rightarrow>
          bnd get_ns (\<lambda>ns.
          print_line (fmt_d (token command) @ '' feature-support support '' @ check_support version feature ns)))"

section \<open>Probe requests\<close>

text \<open>A number that must end with its text.\<close>

definition number_arg :: "string \<Rightarrow> (int \<Rightarrow> probe_param_t option) \<Rightarrow> probe_param_t option" where
  "number_arg v f = (case strtol_int v of (n, _, endstr) \<Rightarrow> if endstr \<noteq> [] then None else f n)"

definition protocol_number :: "string \<Rightarrow> int option" where
  "protocol_number v =
     (if v = ''icmp'' then Some IPPROTO_ICMP
      else if v = ''udp'' then Some IPPROTO_UDP
      else if v = ''tcp'' then Some IPPROTO_TCP
      else if v = ''sctp'' then Some IPPROTO_SCTP
      else None)"

text \<open>\<open>decode_probe_argument\<close>: \<open>None\<close> is an invalid argument; an unknown name is ignored.\<close>

definition decode_probe_argument :: "probe_param_t \<Rightarrow> string \<Rightarrow> string \<Rightarrow> probe_param_t option" where
  "decode_probe_argument param name v =
     (if name = ''ip-4'' then Some (param\<lparr>pp_ip_version := 4, pp_remote_address := Some v\<rparr>)
      else if name = ''ip-6'' then Some (param\<lparr>pp_ip_version := 6, pp_remote_address := Some v\<rparr>)
      else if name = ''local-ip-4'' then Some (param\<lparr>pp_local_address := Some v\<rparr>)
      else if name = ''local-ip-6'' then Some (param\<lparr>pp_local_address := Some v\<rparr>)
      else if name = ''protocol'' then
        map_option (\<lambda>p. param\<lparr>pp_protocol := p\<rparr>) (protocol_number v)
      else if name = ''port'' then number_arg v (\<lambda>n. Some (param\<lparr>pp_dest_port := n\<rparr>))
      else if name = ''local-port'' then
        number_arg v (\<lambda>n. if n < 1024 then None else Some (param\<lparr>pp_local_port := n\<rparr>))
      else if name = ''tos'' then number_arg v (\<lambda>n. Some (param\<lparr>pp_type_of_service := n\<rparr>))
      else if name = ''mark'' then number_arg v (\<lambda>n. Some (param\<lparr>pp_routing_mark := n\<rparr>))
      else if name = ''size'' then number_arg v (\<lambda>n. Some (param\<lparr>pp_packet_size := n\<rparr>))
      else if name = ''bit-pattern'' then number_arg v (\<lambda>n. Some (param\<lparr>pp_bit_pattern := n\<rparr>))
      else if name = ''ttl'' then number_arg v (\<lambda>n. Some (param\<lparr>pp_ttl := n\<rparr>))
      else if name = ''timeout'' then number_arg v (\<lambda>n. Some (param\<lparr>pp_timeout := n\<rparr>))
      else Some param)"

fun decode_arguments :: "(string \<times> string) list \<Rightarrow> probe_param_t \<Rightarrow> probe_param_t option" where
  "decode_arguments [] param = Some param"
| "decode_arguments ((name, v) # args) param =
     Option.bind (decode_probe_argument param name v) (decode_arguments args)"

definition default_param :: "int \<Rightarrow> probe_param_t" where
  "default_param tok =
     \<lparr>pp_ip_version = 0, pp_command_token = tok, pp_remote_address = None, pp_local_address = None,
      pp_protocol = IPPROTO_ICMP, pp_dest_port = 0, pp_local_port = 0, pp_type_of_service = 0,
      pp_routing_mark = 0, pp_ttl = 255, pp_packet_size = 64, pp_bit_pattern = 0, pp_timeout = 10,
      pp_is_probing_byte_order = False\<rparr>"

definition validate_probe_parameters :: "probe_param_t \<Rightarrow> (bool, 'w) proc" where
  "validate_probe_parameters param =
     bnd get_ns (\<lambda>ns.
     if \<not> is_ip_version_supported ns (pp_ip_version param) then
       bnd (print_line (fmt_d (pp_command_token param) @ '' invalid-argument reason ip-version-not-supported''))
         (\<lambda>_. ret False)
     else if \<not> is_protocol_supported ns (pp_protocol param) then
       bnd (print_line (fmt_d (pp_command_token param) @ '' invalid-argument reason protocol-not-supported''))
         (\<lambda>_. ret False)
     else ret True)"

definition send_probe_command :: "'w os \<Rightarrow> command_t \<Rightarrow> (unit, 'w) proc" where
  "send_probe_command os command =
     (case decode_arguments (zip (argument_name command) (argument_value command))
             (default_param (token command)) of
        None \<Rightarrow> print_line (fmt_d (token command) @ '' invalid-argument'')
      | Some param \<Rightarrow>
          bnd (validate_probe_parameters param) (\<lambda>ok. if ok then send_probe os param else ret ()))"

definition dispatch_command :: "'w os \<Rightarrow> string \<Rightarrow> command_t \<Rightarrow> (unit, 'w) proc" where
  "dispatch_command os version command =
     (if command_name command = ''check-support'' then check_support_command version command
      else if command_name command = ''send-probe'' then send_probe_command os command
      else print_line (fmt_d (token command) @ '' unknown-command''))"

section \<open>The command buffer\<close>

definition run :: "(unit, 'w) proc \<Rightarrow> 'w pst \<Rightarrow> (string \<times> 'w pst) + 'w pst" where
  "run m st = and_then (m st) (\<lambda>(_, st). Inr st)"

definition dispatch_line :: "'w os \<Rightarrow> string \<Rightarrow> string \<Rightarrow> 'w pst \<Rightarrow> (string \<times> 'w pst) + 'w pst" where
  "dispatch_line os version full_command =
     (case parse_command full_command of
        Inl e \<Rightarrow> run (print_line ''0 command-parse-error'')
      | Inr command \<Rightarrow> run (dispatch_command os version command))"

function dispatch_loop ::
  "'w os \<Rightarrow> string \<Rightarrow> string \<Rightarrow> 'w pst \<Rightarrow> (string \<times> 'w pst) + (string \<times> 'w pst)" where
  "dispatch_loop os version buf st =
     (case split_nl buf of
        None \<Rightarrow> Inr (buf, st)
      | Some (full_command, buf) \<Rightarrow>
          and_then (dispatch_line os version full_command st) (dispatch_loop os version buf))"
  by pat_completeness auto
termination
  by (relation "measure (\<lambda>(o', v, b, s). length b)") (auto dest: split_nl_shorter)

declare dispatch_loop.simps [simp del]

abbreviation (input) INCOMING_SIZE :: nat where "INCOMING_SIZE \<equiv> 4096"

definition report_overflow :: "'w pst \<Rightarrow> 'w pst" where
  "report_overflow st = st\<lparr>stdout_lines := stdout_lines st @ [''0 command-buffer-overflow'']\<rparr>"

definition dispatch_buffer_commands ::
  "'w os \<Rightarrow> string \<Rightarrow> string \<Rightarrow> 'w pst \<Rightarrow> (string \<times> 'w pst) + (string \<times> 'w pst)" where
  "dispatch_buffer_commands os version buf st =
     and_then (dispatch_loop os version buf st)
       (\<lambda>(rest, st). Inr (if INCOMING_SIZE - 1 \<le> length rest then ([], report_overflow st) else (rest, st)))"

text \<open>\<open>read_commands\<close>: the new buffer, and whether the function succeeded.\<close>

definition read_commands :: "'w os \<Rightarrow> int \<Rightarrow> string \<Rightarrow> (string \<times> bool, 'w) proc" where
  "read_commands os command_stream buf =
     (let space_remaining = int INCOMING_SIZE - int (length buf) - 1
      in bnd (sys (os_read os command_stream space_remaining)) (\<lambda>r.
         case r of
           None \<Rightarrow>
             bnd get_errno (\<lambda>e. if e \<noteq> EINTR \<and> e \<noteq> EAGAIN
               then error_exit ''Unexpected command buffer read error'' else ret (buf, True))
         | Some received \<Rightarrow>
             if received = [] then bnd (set_errno EPIPE) (\<lambda>_. ret (buf, False))
             else ret (buf @ received, True)))"

text \<open>The command reader is a line reader.\<close>

definition accept_chunk ::
  "'w os \<Rightarrow> string \<Rightarrow> string \<Rightarrow> string \<times> 'w pst \<Rightarrow> (string \<times> 'w pst) + (string \<times> 'w pst)" where
  "accept_chunk os version chunk = (\<lambda>(buf, st). dispatch_buffer_commands os version (buf @ chunk) st)"

interpretation command_lines: line_reader "dispatch_line os version" "dispatch_loop os version"
  "accept_chunk os version" report_overflow "INCOMING_SIZE - 1" for os version
proof
  fix buf l r st
  assume "split_nl buf = Some (l, r)"
  then show "dispatch_loop os version buf st
      = and_then (dispatch_line os version l st) (dispatch_loop os version r)"
    by (simp add: dispatch_loop.simps [of os version buf st])
next
  fix buf st
  assume "split_nl buf = None"
  then show "dispatch_loop os version buf st = Inr (buf, st)"
    by (simp add: dispatch_loop.simps [of os version buf st])
next
  fix chunk buf st
  show "accept_chunk os version chunk (buf, st) = and_then (dispatch_loop os version (buf @ chunk) st)
      (\<lambda>(r, s'). Inr (if INCOMING_SIZE - 1 \<le> length r then ([], report_overflow s') else (r, s')))"
    by (simp add: accept_chunk_def dispatch_buffer_commands_def)
qed

end
