(* ===== verification/PacketMain.thy ===== *)
theory PacketMain
  imports Command
begin

text \<open>
  \<open>packet/packet.c\<close> and \<open>packet/wait_unix.c\<close>: dropping privileges after the sockets are open,
  waiting for activity, and the loop that receives replies, reads commands, times probes out and
  dispatches, until the command pipe is closed and no probe is outstanding.
\<close>

section \<open>Privileges\<close>

text \<open>The user and group ids of the process, and the calls that change them.\<close>

record 'w ids =
  id_uid :: "'w \<Rightarrow> int"
  id_euid :: "'w \<Rightarrow> int"
  id_gid :: "'w \<Rightarrow> int"
  id_egid :: "'w \<Rightarrow> int"
  id_setgid :: "int \<Rightarrow> 'w \<Rightarrow> (errno + unit) \<times> 'w"
  id_setuid :: "int \<Rightarrow> 'w \<Rightarrow> (errno + unit) \<times> 'w"
  id_clear_caps :: "'w \<Rightarrow> (errno + unit) \<times> 'w"

definition drop_elevated_permissions :: "'w ids \<Rightarrow> (bool, 'w) proc" where
  "drop_elevated_permissions ids = (\<lambda>st.
     bnd (sys (id_setgid ids (id_gid ids (world st)))) (\<lambda>r.
     if r = None then ret False
     else (\<lambda>st. bnd (sys (id_setuid ids (id_uid ids (world st)))) (\<lambda>r.
       if r = None then ret False
       else (\<lambda>st.
         if id_euid ids (world st) \<noteq> id_uid ids (world st) \<or> id_egid ids (world st) \<noteq> id_gid ids (world st)
         then ret False st
         else bnd (sys (id_clear_caps ids)) (\<lambda>r. ret (r \<noteq> None)) st)) st)) st)"

section \<open>Waiting\<close>

definition gather_read_fds :: "int \<Rightarrow> net_state_t \<Rightarrow> int list \<times> int list \<times> int" where
  "gather_read_fds command_stream ns =
     (let read_set = [command_stream]
            @ (if ip4_socket_raw ns then [ip4_recv_socket ns]
               else [ip4_txrx_icmp_socket ns, ip4_txrx_udp_socket ns])
            @ (if ip6_socket_raw ns then [ip6_recv_socket ns]
               else [ip6_txrx_icmp_socket ns, ip6_txrx_udp_socket ns]);
          nfds = foldl (\<lambda>nfds fd. if nfds \<le> fd then fd + 1 else nfds) (command_stream + 1) (tl read_set);
          (write_set, probe_nfds) = gather_probe_sockets ns
      in (read_set, write_set, if nfds < probe_nfds then probe_nfds else nfds))"

fun wait_loop :: "nat \<Rightarrow> 'w os \<Rightarrow> int list \<times> int list \<times> int \<Rightarrow> (unit, 'w) proc" where
  "wait_loop 0 os fds = error_exit ''out of fuel''"
| "wait_loop (Suc fuel) os fds =
     (case fds of (read_set, write_set, nfds) \<Rightarrow>
       bnd (get_next_probe_timeout os) (\<lambda>timeout.
       if (case timeout of Some t \<Rightarrow> tv_sec t < 0 | None \<Rightarrow> False) then error_exit ''assertion''
       else
         bnd (sys (os_select os nfds read_set write_set timeout)) (\<lambda>r.
         if r \<noteq> None then ret ()
         else bnd get_errno (\<lambda>e.
           if e \<noteq> EINTR \<and> e \<noteq> EAGAIN then error_exit ''unexpected select error''
           else wait_loop fuel os fds))))"

definition wait_for_activity :: "nat \<Rightarrow> 'w os \<Rightarrow> int \<Rightarrow> (unit, 'w) proc" where
  "wait_for_activity fuel os command_stream =
     bnd get_ns (\<lambda>ns. wait_loop fuel os (gather_read_fds command_stream ns))"

section \<open>The main loop\<close>

definition init_command_buffer :: "'w os \<Rightarrow> int \<Rightarrow> (string, 'w) proc" where
  "init_command_buffer os command_stream =
     bnd (sys (os_getfl os command_stream)) (\<lambda>flags.
     case flags of None \<Rightarrow> error_exit ''Unexpected command stream error''
     | Some flags \<Rightarrow>
         bnd (sys (os_set_nonblock os command_stream flags)) (\<lambda>r.
         if r = None then error_exit ''Unexpected command stream error'' else ret []))"

text \<open>The dispatching of the buffer as a procedure.\<close>

definition dispatch_proc :: "'w os \<Rightarrow> string \<Rightarrow> string \<Rightarrow> (string, 'w) proc" where
  "dispatch_proc os version buf = dispatch_buffer_commands os version buf"

text \<open>One turn of the loop: the buffer, whether the command pipe is open, and whether the loop
  ends.\<close>

definition main_turn ::
  "nat \<Rightarrow> 'w os \<Rightarrow> string \<Rightarrow> int \<Rightarrow> string \<times> bool \<Rightarrow> (string \<times> bool \<times> bool, 'w) proc" where
  "main_turn fuel os version command_stream = (\<lambda>(buf, command_pipe_open).
     bnd (wait_for_activity fuel os command_stream) (\<lambda>_.
     bnd (receive_replies fuel os) (\<lambda>_.
     bnd (if command_pipe_open then
            bnd (read_commands os command_stream buf) (\<lambda>(buf, ok).
            bnd get_errno (\<lambda>e. ret (buf, \<not> (\<not> ok \<and> e = EPIPE))))
          else ret (buf, False)) (\<lambda>(buf, command_pipe_open).
     bnd (check_probe_timeouts os) (\<lambda>_.
     bnd (dispatch_proc os version buf) (\<lambda>buf.
     bnd get_ns (\<lambda>ns.
     ret (buf, command_pipe_open, \<not> command_pipe_open \<and> outstanding_probe_count ns = 0))))))))"

fun main_loop :: "nat \<Rightarrow> 'w os \<Rightarrow> string \<Rightarrow> int \<Rightarrow> string \<times> bool \<Rightarrow> (unit, 'w) proc" where
  "main_loop 0 os version command_stream b = error_exit ''out of fuel''"
| "main_loop (Suc fuel) os version command_stream b =
     bnd (main_turn fuel os version command_stream b) (\<lambda>(buf, command_pipe_open, finished).
     if finished then ret () else main_loop fuel os version command_stream (buf, command_pipe_open))"

definition packet_main :: "nat \<Rightarrow> 'w os \<Rightarrow> 'w ids \<Rightarrow> string \<Rightarrow> int \<Rightarrow> (unit, 'w) proc" where
  "packet_main fuel os ids version command_stream =
     bnd (init_net_state_privileged os) (\<lambda>_.
     bnd (drop_elevated_permissions ids) (\<lambda>ok.
     if \<not> ok then error_exit ''Unable to drop elevated permissions''
     else
       bnd (init_net_state os) (\<lambda>_.
       bnd (init_command_buffer os command_stream) (\<lambda>buf.
       main_loop fuel os version command_stream (buf, True)))))"

end
