(* ===== verification/PacketInv.thy ===== *)
theory PacketInv
  imports PacketMain
begin

text \<open>
  What holds of \<open>mtr-packet\<close> in every run. \<open>proc_ok P m Q\<close>: started in a state of \<open>P\<close>, the
  procedure \<open>m\<close> returns in a state of \<open>Q\<close> or exits with a message of the code, but never for
  having used a probe that was freed. \<open>tracked n S\<close> says that the table of probes is well formed,
  that the probes \<open>S\<close> are in it, and that the lines printed and the probes outstanding are
  \<open>n\<close> together: a command turns into a line at once, or into an outstanding probe that turns
  into a line when it is freed.
\<close>

section \<open>Triples\<close>

definition proc_ok :: "('w pst \<Rightarrow> bool) \<Rightarrow> ('a, 'w) proc \<Rightarrow> ('a \<Rightarrow> 'w pst \<Rightarrow> bool) \<Rightarrow> bool" where
  "proc_ok P m Q \<longleftrightarrow> (\<forall>st. P st \<longrightarrow>
     (case m st of Inl (msg, st') \<Rightarrow> msg \<noteq> ''dangling probe'' | Inr (x, st') \<Rightarrow> Q x st'))"

lemma proc_okD: "proc_ok P m Q \<Longrightarrow> P st \<Longrightarrow> m st = Inr (x, st') \<Longrightarrow> Q x st'"
  by (auto simp: proc_ok_def dest!: spec [of _ st])

lemma proc_ok_exit: "proc_ok P m Q \<Longrightarrow> P st \<Longrightarrow> m st = Inl (msg, st') \<Longrightarrow> msg \<noteq> ''dangling probe''"
  by (auto simp: proc_ok_def dest!: spec [of _ st])

lemma ok_bnd:
  assumes "proc_ok P m Q" and "\<And>x. proc_ok (Q x) (f x) R"
  shows "proc_ok P (bnd m f) R"
  unfolding proc_ok_def
proof (intro allI impI)
  fix st assume P: "P st"
  show "case bnd m f st of Inl (msg, st') \<Rightarrow> msg \<noteq> ''dangling probe'' | Inr (x, st') \<Rightarrow> R x st'"
  proof (cases "m st")
    case (Inl e)
    then show ?thesis using proc_ok_exit [OF assms(1) P, of "fst e" "snd e"] by (cases e) (simp add: bnd_def)
  next
    case (Inr r)
    obtain x st' where r: "r = (x, st')" by fastforce
    have "Q x st'" using proc_okD [OF assms(1) P] Inr r by simp
    with assms(2) [of x] have "case f x st' of Inl (msg, st') \<Rightarrow> msg \<noteq> ''dangling probe''
        | Inr (x, st') \<Rightarrow> R x st'"
      by (simp add: proc_ok_def)
    with Inr r show ?thesis by (simp add: bnd_def)
  qed
qed

lemma ok_weaken:
  assumes "proc_ok P m Q" and "\<And>st. P' st \<Longrightarrow> P st" and "\<And>x st. Q x st \<Longrightarrow> Q' x st"
  shows "proc_ok P' m Q'"
  unfolding proc_ok_def
proof (intro allI impI)
  fix st assume "P' st"
  then have "P st" by (rule assms(2))
  with assms(1) have "case m st of Inl (msg, st') \<Rightarrow> msg \<noteq> ''dangling probe'' | Inr (x, st') \<Rightarrow> Q x st'"
    by (simp add: proc_ok_def)
  then show "case m st of Inl (msg, st') \<Rightarrow> msg \<noteq> ''dangling probe'' | Inr (x, st') \<Rightarrow> Q' x st'"
    by (auto split: sum.splits intro: assms(3))
qed

lemma ok_ret: "(\<And>st. P st \<Longrightarrow> Q x st) \<Longrightarrow> proc_ok P (ret x) Q"
  by (simp add: proc_ok_def ret_def)

lemma ok_get_ns: "proc_ok P get_ns (\<lambda>ns st. P st \<and> net_state st = ns)"
  by (simp add: proc_ok_def get_ns_def)

lemma ok_get_ns_bnd: "(\<And>ns. proc_ok (\<lambda>st. P st \<and> net_state st = ns) (f ns) Q) \<Longrightarrow> proc_ok P (bnd get_ns f) Q"
  by (rule ok_bnd [OF ok_get_ns])

lemma ok_get_errno: "proc_ok P get_errno (\<lambda>_. P)"
  by (simp add: proc_ok_def get_errno_def)

lemma ok_error_exit: "msg \<noteq> ''dangling probe'' \<Longrightarrow> proc_ok P (error_exit msg) Q"
  by (simp add: proc_ok_def error_exit_def)

lemma ok_false: "(\<And>st. \<not> P st) \<Longrightarrow> proc_ok P m Q"
  by (simp add: proc_ok_def)

lemma ok_conj: "(c \<Longrightarrow> proc_ok P m Q) \<Longrightarrow> proc_ok (\<lambda>st. P st \<and> c) m Q"
  by (auto simp: proc_ok_def)

section \<open>The account of probes\<close>

definition live :: "'w pst \<Rightarrow> nat set" where
  "live st = fst ` set (outstanding_probes (net_state st))"

definition tracked :: "int \<Rightarrow> nat set \<Rightarrow> 'w pst \<Rightarrow> bool" where
  "tracked n S st \<longleftrightarrow> probes_ok (net_state st) \<and> S \<subseteq> live st
     \<and> int (length (stdout_lines st)) + outstanding_probe_count (net_state st) = n"

lemma tracked_mono: "tracked n S st \<Longrightarrow> S' \<subseteq> S \<Longrightarrow> tracked n S' st"
  by (auto simp: tracked_def)

lemma ok_mono: "proc_ok P m (\<lambda>x. tracked n S) \<Longrightarrow> S' \<subseteq> S \<Longrightarrow> proc_ok P m (\<lambda>x. tracked n S')"
  by (erule ok_weaken) (auto intro: tracked_mono)

text \<open>System calls, printing and \<open>errno\<close>.\<close>

lemma ok_sys: "proc_ok (tracked n S) (sys call) (\<lambda>_. tracked n S)"
  by (auto simp: proc_ok_def sys_def tracked_def live_def split: prod.splits sum.splits)

lemma ok_close: "proc_ok (tracked n S) (sys_close os fd) (\<lambda>_. tracked n S)"
  by (simp add: proc_ok_def sys_close_def tracked_def live_def)

lemma ok_malloc: "proc_ok (tracked n S) (sys_malloc os) (\<lambda>_. tracked n S)"
  by (auto simp: proc_ok_def sys_malloc_def tracked_def live_def split: prod.splits)

lemma ok_set_errno: "proc_ok (tracked n S) (set_errno e) (\<lambda>_. tracked n S)"
  by (simp add: proc_ok_def set_errno_def tracked_def live_def)

lemma ok_print: "proc_ok (tracked n S) (print_line l) (\<lambda>_. tracked (n + 1) S)"
  by (simp add: proc_ok_def print_line_def tracked_def live_def)

text \<open>Updates of the state that leave the table alone.\<close>

lemma ok_upd_ns:
  assumes "\<And>ns. probes_ok ns \<Longrightarrow> probes_ok (f ns) \<and> outstanding_probe_count (f ns) = outstanding_probe_count ns
      \<and> fst ` set (outstanding_probes (f ns)) = fst ` set (outstanding_probes ns)"
  shows "proc_ok (tracked n S) (upd_ns f) (\<lambda>_. tracked n S)"
  using assms by (simp add: proc_ok_def upd_ns_def tracked_def live_def)

lemma ok_upd_probe:
  assumes "\<And>x. probe_ok x \<Longrightarrow> probe_ok (f x)"
  shows "proc_ok (tracked n S) (upd_probe p f) (\<lambda>_. tracked n S)"
  unfolding upd_probe_def
proof (rule ok_upd_ns)
  fix ns assume ok: "probes_ok ns"
  let ?g = "\<lambda>(q, x). if q = p then (q, f x) else (q, x)"
  have fst: "map fst (map ?g xs) = map fst xs" for xs
    by (induction xs) auto
  then have s: "fst ` set (map ?g (outstanding_probes ns)) = fst ` set (outstanding_probes ns)"
    by (metis list.set_map)
  have "\<forall>(q, x) \<in> set (map ?g (outstanding_probes ns)). probe_ok x"
    using ok assms by (auto simp: probes_ok_def split: if_splits)
  then show "probes_ok (ns\<lparr>outstanding_probes := map ?g (outstanding_probes ns)\<rparr>)
      \<and> outstanding_probe_count (ns\<lparr>outstanding_probes := map ?g (outstanding_probes ns)\<rparr>) = outstanding_probe_count ns
      \<and> fst ` set (outstanding_probes (ns\<lparr>outstanding_probes := map ?g (outstanding_probes ns)\<rparr>))
        = fst ` set (outstanding_probes ns)"
    using ok fst [of "outstanding_probes ns"] s by (simp add: probes_ok_def del: map_map list.set_map)
qed

lemma ok_advance: "proc_ok (tracked n S) (upd_ns advance_sequence) (\<lambda>_. tracked n S)"
  by (rule ok_upd_ns) (auto simp: advance_sequence_def probes_ok_def Let_def)

lemma ok_probe_at:
  assumes "p \<in> S"
  shows "proc_ok (tracked n S) (probe_at p) (\<lambda>probe st. tracked n S st)"
  unfolding probe_at_def
proof (rule ok_get_ns_bnd)
  fix ns
  show "proc_ok (\<lambda>st. tracked n S st \<and> net_state st = ns)
      (case map_of (outstanding_probes ns) p of Some probe \<Rightarrow> ret probe | None \<Rightarrow> error_exit ''dangling probe'')
      (\<lambda>probe st. tracked n S st)"
  proof (cases "map_of (outstanding_probes ns) p")
    case None
    then have "p \<notin> fst ` set (outstanding_probes ns)" by (simp add: map_of_eq_None_iff)
    then show ?thesis using assms by (intro ok_false) (auto simp: tracked_def live_def)
  qed (auto intro: ok_ret)
qed

lemma ok_alloc_probe:
  "proc_ok (tracked n S) (alloc_probe os tok)
     (\<lambda>r. case r of None \<Rightarrow> tracked n S | Some (p, _) \<Rightarrow> tracked (n + 1) (insert p S))"
  unfolding alloc_probe_def
proof (rule ok_get_ns_bnd)
  fix ns
  let ?Q = "\<lambda>r. case r of None \<Rightarrow> tracked n S | Some (p, _) \<Rightarrow> tracked (n + 1) (insert p S)"
  let ?f = "\<lambda>_ :: net_state_t. insert_probe (fresh_ptr ns, zero_probe\<lparr>pr_token := tok, pr_sequence := np_next_sequence ns\<rparr>)
      ((advance_sequence ns)\<lparr>outstanding_probe_count := outstanding_probe_count (advance_sequence ns) + 1\<rparr>)"
  have add: "probes_ok (?f ns) \<and> outstanding_probe_count (?f ns) = outstanding_probe_count ns + 1
      \<and> fst ` set (outstanding_probes (?f ns)) = insert (fresh_ptr ns) (fst ` set (outstanding_probes ns))"
    if "probes_ok ns" "\<not> MAX_PROBES \<le> outstanding_probe_count ns"
    using that fresh_ptr_new [of ns]
    by (auto simp: probes_ok_def insert_probe_def advance_sequence_def platform_alloc_probe_def probe_ok_def Let_def)
  have step: "proc_ok (\<lambda>st. tracked n S st \<and> net_state st = ns \<and> \<not> MAX_PROBES \<le> outstanding_probe_count ns)
      (upd_ns ?f) (\<lambda>_. tracked (n + 1) (insert (fresh_ptr ns) S))"
    using add by (auto simp: proc_ok_def upd_ns_def tracked_def live_def)
  have malloc: "proc_ok (\<lambda>st. tracked n S st \<and> net_state st = ns \<and> \<not> MAX_PROBES \<le> outstanding_probe_count ns)
      (sys_malloc os)
      (\<lambda>_ st. tracked n S st \<and> net_state st = ns \<and> \<not> MAX_PROBES \<le> outstanding_probe_count ns)"
    by (auto simp: proc_ok_def sys_malloc_def tracked_def live_def split: prod.splits)
  show "proc_ok (\<lambda>st. tracked n S st \<and> net_state st = ns)
      (if MAX_PROBES \<le> outstanding_probe_count ns then ret None
       else bnd (sys_malloc os) (\<lambda>got. if \<not> got then ret None
         else let probe = zero_probe\<lparr>pr_token := tok\<rparr>; p = fresh_ptr ns; (ns', probe) = platform_alloc_probe ns probe
           in bnd (upd_ns (\<lambda>_. insert_probe (p, probe) (ns'\<lparr>outstanding_probe_count := outstanding_probe_count ns' + 1\<rparr>)))
                (\<lambda>_. ret (Some (p, probe))))) ?Q"
  proof (cases "MAX_PROBES \<le> outstanding_probe_count ns")
    case True
    then show ?thesis by (simp, intro ok_ret) simp
  next
    case False
    have rest: "proc_ok (\<lambda>st. tracked n S st \<and> net_state st = ns \<and> \<not> MAX_PROBES \<le> outstanding_probe_count ns)
       (if \<not> got then ret None
         else let probe = zero_probe\<lparr>pr_token := tok\<rparr>; p = fresh_ptr ns; (ns', probe) = platform_alloc_probe ns probe
           in bnd (upd_ns (\<lambda>_. insert_probe (p, probe) (ns'\<lparr>outstanding_probe_count := outstanding_probe_count ns' + 1\<rparr>)))
                (\<lambda>_. ret (Some (p, probe)))) ?Q" for got
    proof (cases got)
      case True
      then show ?thesis
        by (simp add: platform_alloc_probe_def Let_def, intro ok_bnd [OF step] ok_ret) simp
    qed (auto intro: ok_ret)
    show ?thesis
      using ok_bnd [OF malloc rest] False by (simp cong: conj_cong)
  qed
qed

lemma ok_free_probe:
  fixes os :: "'w os"
  assumes "p \<in> S"
  shows "proc_ok (tracked n S) (free_probe os p) (\<lambda>_. tracked (n - 1) (S - {p}))"
proof -
  have remove: "proc_ok (tracked n S)
      (bnd (upd_ns (remove_probe p)) (\<lambda>_.
       bnd (upd_ns (\<lambda>ns. ns\<lparr>outstanding_probe_count := outstanding_probe_count ns - 1\<rparr>)) k))
      (\<lambda>_. tracked (n - 1) (S - {p}))" if "\<And>x. proc_ok (tracked (n - 1) (S - {p})) (k x) (\<lambda>_. tracked (n - 1) (S - {p}))"
    for k :: "unit \<Rightarrow> (unit, 'w) proc"
  proof -
    let ?f = "\<lambda>ns. (remove_probe p ns)\<lparr>outstanding_probe_count := outstanding_probe_count ns - 1\<rparr>"
    have f: "probes_ok (?f ns) \<and> fst ` set (outstanding_probes (?f ns)) = fst ` set (outstanding_probes ns) - {p}"
      if ok: "probes_ok ns" and p: "p \<in> fst ` set (outstanding_probes ns)" for ns
    proof -
      have d: "distinct (map fst (outstanding_probes ns))" using ok by (simp add: probes_ok_def)
      have "length (filter (\<lambda>(q, _). q \<noteq> p) (outstanding_probes ns))
          = length (filter (\<lambda>q. q \<noteq> p) (map fst (outstanding_probes ns)))"
        by (metis length_map map_fst_filter)
      also have "\<dots> = length (remove1 p (map fst (outstanding_probes ns)))"
        using d by (simp add: distinct_remove1_removeAll removeAll_filter_not_eq eq_commute)
      also have "\<dots> = length (outstanding_probes ns) - 1"
        using p by (simp add: length_remove1)
      finally have len: "length (filter (\<lambda>(q, _). q \<noteq> p) (outstanding_probes ns)) = length (outstanding_probes ns) - 1" .
      have "0 < length (outstanding_probes ns)" using p by auto
      then have "int (length (outstanding_probes ns) - 1) = int (length (outstanding_probes ns)) - 1"
        by linarith
      then have count: "int (length (filter (\<lambda>(q, _). q \<noteq> p) (outstanding_probes ns)))
          = outstanding_probe_count ns - 1"
        using ok len by (simp add: probes_ok_def)
      have "fst ` set (filter (\<lambda>(q, _). q \<noteq> p) (outstanding_probes ns))
          = fst ` set (outstanding_probes ns) - {p}"
        by force
      then show ?thesis
        using ok d count
        by (simp add: probes_ok_def remove_probe_def map_fst_filter)
    qed
    have two: "bnd (upd_ns (remove_probe p)) (\<lambda>_.
       bnd (upd_ns (\<lambda>ns. ns\<lparr>outstanding_probe_count := outstanding_probe_count ns - 1\<rparr>)) k) = bnd (upd_ns ?f) k"
      by (rule ext) (simp add: bnd_def upd_ns_def remove_probe_def)
    have one: "proc_ok (tracked n S :: 'w pst \<Rightarrow> bool) (upd_ns ?f) (\<lambda>_. tracked (n - 1) (S - {p}))"
    proof -
      have "tracked (n - 1) (S - {p}) (st\<lparr>net_state := ?f (net_state st)\<rparr>)" if t: "tracked n S st" for st :: "'w pst"
      proof -
        have "probes_ok (net_state st)" "p \<in> fst ` set (outstanding_probes (net_state st))"
          using t assms by (auto simp: tracked_def live_def)
        from f [OF this] t show ?thesis
          by (auto simp: tracked_def live_def remove_probe_def)
      qed
      then show ?thesis by (simp add: proc_ok_def upd_ns_def)
    qed
    show ?thesis unfolding two by (rule ok_bnd [OF one that])
  qed
  show ?thesis
    unfolding free_probe_def platform_free_probe_def
    by (rule ok_bnd [OF ok_probe_at [OF assms]], rule remove) (auto intro: ok_close ok_ret)
qed

text \<open>A probe that is answered turns into its line.\<close>

lemma ok_respond:
  assumes "p \<in> S"
  shows "proc_ok (tracked n S) (respond_to_probe os p icmp_type remote_addr us mpls) (\<lambda>_. tracked n (S - {p}))"
proof -
  have free: "proc_ok (tracked (n + 1) S) (free_probe os p) (\<lambda>_. tracked n (S - {p}))"
    using ok_free_probe [OF assms, of "n + 1" os] by simp
  show ?thesis
    unfolding respond_to_probe_def Let_def
    by (auto intro!: ok_error_exit ok_bnd [OF ok_probe_at [OF assms]] ok_bnd [OF ok_print] free split: option.split)
qed

lemma ok_gettimeofday: "proc_ok (tracked n S) (gettimeofday os) (\<lambda>_. tracked n S)"
  unfolding gettimeofday_def
  by (rule ok_bnd [OF ok_sys]) (auto intro: ok_error_exit ok_ret split: option.split)

lemma ok_receive_probe:
  assumes "p \<in> S"
  shows "proc_ok (tracked n S) (receive_probe os p icmp_type remote_addr timestamp mpls) (\<lambda>_. tracked n (S - {p}))"
proof -
  have "proc_ok (tracked n S) (case timestamp of None \<Rightarrow> gettimeofday os | Some t \<Rightarrow> ret t) (\<lambda>_. tracked n S)"
    by (auto intro: ok_gettimeofday ok_ret split: option.split)
  then show ?thesis
    unfolding receive_probe_def
    by (rule ok_bnd) (rule ok_bnd [OF ok_probe_at [OF assms] ok_respond [OF assms]])
qed

text \<open>The probe that a search finds is live.\<close>

lemma find_probe_live: "find_probe os protocol i q ns = Some p \<Longrightarrow> p \<in> fst ` set (outstanding_probes ns)"
  by (auto simp: find_probe_def find_Some_iff split: if_splits) (metis fst_conv image_eqI nth_mem)+

lemma ok_live:
  assumes "p \<in> fst ` set (outstanding_probes ns)" and "proc_ok (tracked n {p}) m (\<lambda>_. tracked n {})"
  shows "proc_ok (\<lambda>st. tracked n {} st \<and> net_state st = ns) m (\<lambda>_. tracked n {})"
  using assms by (auto simp: proc_ok_def tracked_def live_def)

lemma ok_receive_found:
  assumes "\<And>ns p. found ns = Some p \<Longrightarrow> p \<in> fst ` set (outstanding_probes ns)"
  shows "proc_ok (tracked n {}) (bnd get_ns (\<lambda>ns. case found ns of None \<Rightarrow> ret ()
      | Some p \<Rightarrow> receive_probe os p icmp_type remote_addr timestamp mpls)) (\<lambda>_. tracked n {})"
proof (rule ok_get_ns_bnd)
  fix ns
  show "proc_ok (\<lambda>st. tracked n {} st \<and> net_state st = ns) (case found ns of None \<Rightarrow> ret ()
      | Some p \<Rightarrow> receive_probe os p icmp_type remote_addr timestamp mpls) (\<lambda>_. tracked n {})"
    using ok_receive_probe [of _ "{_}" n os icmp_type remote_addr timestamp mpls]
    by (auto intro!: ok_ret ok_live [OF assms] split: option.split)
qed

section \<open>Procedures that neither answer nor allocate\<close>

definition calm :: "nat set \<Rightarrow> ('a, 'w) proc \<Rightarrow> bool" where
  "calm S m \<longleftrightarrow> (\<forall>n. proc_ok (tracked n S) m (\<lambda>_. tracked n S))"

named_theorems calms

lemma calmD: "calm S m \<Longrightarrow> proc_ok (tracked n S) m (\<lambda>_. tracked n S)"
  by (simp add: calm_def)

lemma calm_bnd [calms]: "calm S m \<Longrightarrow> (\<And>x. calm S (f x)) \<Longrightarrow> calm S (bnd m f)"
  by (auto simp: calm_def intro: ok_bnd)

lemma calm_simple [calms]:
  "calm S (ret x)" "calm S get_ns" "calm S get_errno" "calm S (set_errno e)" "calm S (sys call)"
  "calm S (sys_close os fd)" "calm S (sys_malloc os)" "calm S (upd_ns advance_sequence)"
  by (auto simp: calm_def intro: ok_ret ok_get_errno ok_set_errno ok_sys ok_close ok_malloc ok_advance)
     (simp add: proc_ok_def get_ns_def)

lemma calm_exit [calms]: "msg \<noteq> ''dangling probe'' \<Longrightarrow> calm S (error_exit msg)"
  by (simp add: calm_def ok_error_exit)

lemma calm_if [calms]: "(c \<Longrightarrow> calm S m) \<Longrightarrow> (\<not> c \<Longrightarrow> calm S m') \<Longrightarrow> calm S (if c then m else m')"
  by simp

lemma calm_when [calms]: "calm S m \<Longrightarrow> calm S (when' c m)"
  by (simp add: when'_def calms)

lemma calm_option [calms]:
  "calm S m \<Longrightarrow> (\<And>x. calm S (f x)) \<Longrightarrow> calm S (case v of None \<Rightarrow> m | Some x \<Rightarrow> f x)"
  by (cases v) auto

lemma calm_prod [calms]: "(\<And>x y. calm S (f x y)) \<Longrightarrow> calm S (case v of (x, y) \<Rightarrow> f x y)"
  by (cases v) auto

lemma calm_bool [calms]: "calm S m \<Longrightarrow> calm S m' \<Longrightarrow> calm S (case v of True \<Rightarrow> m | False \<Rightarrow> m')"
  by (cases v) auto

lemma calm_guard_call [calms]: "calm S call \<Longrightarrow> calm S k \<Longrightarrow> calm S (guard_call call k)"
  by (simp add: guard_call_def calms)

lemma calm_gettimeofday [calms]: "calm S (gettimeofday os)"
  by (simp add: calm_def ok_gettimeofday)

lemma calm_upd_probe: "(\<And>x. probe_ok x \<Longrightarrow> probe_ok (f x)) \<Longrightarrow> calm S (upd_probe p f)"
  by (simp add: calm_def ok_upd_probe)

lemma calm_probe_at: "p \<in> S \<Longrightarrow> calm S (probe_at p)"
  by (simp add: calm_def ok_probe_at)

lemma calm_addresses [calms]: "calm S (resolve_probe_addresses os param)"
  unfolding resolve_probe_addresses_def find_source_addr_def decode_address_string_def
  by (intro calms) (simp_all add: calms)

lemma calm_set_options [calms]: "calm S (set_options os fd opts)"
  by (induction os fd opts rule: set_options.induct) (auto intro!: calms)

lemma calm_stream_packet [calms]: "calm S (stream_packet os q src dest param)"
  unfolding stream_packet_def open_stream_socket_def set_stream_socket_options_def
    set_socket_nonblocking_def Let_def
  by (intro calms) simp_all

lemma calm_construct_packet [calms]: "calm S (construct_packet os q dest src param)"
  unfolding construct_packet_def construct_ip4_packet_def construct_ip6_packet_def Let_def
    construct_udp6_packet_def
  by (intro calms)

lemma calm_send_packet [calms]: "calm S (send_packet os param q packet addr)"
  unfolding send_packet_def Let_def by (intro calms)

lemma calm_upd_sequence:
  "calm S (bnd get_ns (\<lambda>ns. bnd (upd_probe p (\<lambda>x. x\<lparr>pr_sequence := np_next_sequence ns\<rparr>)) f))"
  if "\<And>x. calm S (f x)" for f :: "unit \<Rightarrow> ('a, 'w) proc"
  unfolding calm_def
proof (intro allI ok_get_ns_bnd)
  fix n and ns :: net_state_t
  show "proc_ok (\<lambda>st. tracked n S st \<and> net_state st = ns)
      (bnd (upd_probe p (\<lambda>x. x\<lparr>pr_sequence := np_next_sequence ns\<rparr>)) f) (\<lambda>_. tracked n S)"
  proof (cases "probes_ok ns")
    case False
    then show ?thesis by (intro ok_false) (auto simp: tracked_def)
  next
    case True
    then have "proc_ok (tracked n S :: 'w pst \<Rightarrow> bool)
        (upd_probe p (\<lambda>x. x\<lparr>pr_sequence := np_next_sequence ns\<rparr>)) (\<lambda>_. tracked n S)"
      by (intro ok_upd_probe) (simp add: probes_ok_def probe_ok_def)
    from ok_bnd [OF this calmD [OF that]] show ?thesis
      by (rule ok_weaken) auto
  qed
qed

lemma calm_construct_loop:
  assumes "p \<in> S"
  shows "calm S (construct_loop k os p src param built)"
proof (induction k arbitrary: built)
  case 0
  show ?case by (simp add: construct_loop.simps [of 0] calms)
next
  case (Suc k)
  have next': "calm S (bnd get_ns (\<lambda>ns. bnd (upd_probe p (\<lambda>x. x\<lparr>pr_sequence := np_next_sequence ns\<rparr>))
      (\<lambda>_. bnd (upd_ns advance_sequence) (\<lambda>_. construct_loop k os p src param r))))" for r
    by (intro calm_upd_sequence calms Suc)
  show ?case
    unfolding construct_loop.simps [of "Suc k"] diff_Suc_1
    by (intro calms calm_probe_at assms calm_upd_probe next') (simp add: probe_ok_def)+
qed

section \<open>Procedures that may answer one probe\<close>

definition spends :: "nat set \<Rightarrow> nat \<Rightarrow> (unit, 'w) proc \<Rightarrow> bool" where
  "spends S p m \<longleftrightarrow> (\<forall>n. proc_ok (tracked n S) m (\<lambda>_. tracked n (S - {p})))"

named_theorems spendings

lemma spendsD: "spends S p m \<Longrightarrow> proc_ok (tracked n S) m (\<lambda>_. tracked n (S - {p}))"
  by (simp add: spends_def)

lemma spends_bnd [spendings]: "calm S m \<Longrightarrow> (\<And>x. spends S p (f x)) \<Longrightarrow> spends S p (bnd m f)"
  by (auto simp: calm_def spends_def intro: ok_bnd)

lemma spends_calm: "calm S m \<Longrightarrow> spends S p m"
  unfolding calm_def spends_def by (auto intro: ok_mono)

lemma spends_simple [spendings]: "spends S p (ret ())"
    "msg \<noteq> ''dangling probe'' \<Longrightarrow> spends S p (error_exit msg)"
  by (auto intro: spends_calm calms)

lemma spends_if [spendings]:
  "(c \<Longrightarrow> spends S p m) \<Longrightarrow> (\<not> c \<Longrightarrow> spends S p m') \<Longrightarrow> spends S p (if c then m else m')"
  by simp

lemma spends_when [spendings]: "spends S p m \<Longrightarrow> spends S p (when' c m)"
  by (simp add: when'_def spendings)

lemma spends_option [spendings]:
  "spends S p m \<Longrightarrow> (\<And>x. spends S p (f x)) \<Longrightarrow> spends S p (case v of None \<Rightarrow> m | Some x \<Rightarrow> f x)"
  by (cases v) auto

lemma spends_prod [spendings]: "(\<And>x y. spends S p (f x y)) \<Longrightarrow> spends S p (case v of (x, y) \<Rightarrow> f x y)"
  by (cases v) auto

lemma spends_bool [spendings]:
  "spends S p m \<Longrightarrow> spends S p m' \<Longrightarrow> spends S p (case v of True \<Rightarrow> m | False \<Rightarrow> m')"
  by (cases v) auto

lemma spends_receive_probe: "p \<in> S \<Longrightarrow> spends S p (receive_probe os p icmp_type addr timestamp mpls)"
  by (simp add: spends_def ok_receive_probe)

lemma spends_print_free: "p \<in> S \<Longrightarrow> spends S p (bnd (print_line l) (\<lambda>_. free_probe os p))"
  unfolding spends_def
proof (intro allI, rule ok_bnd [OF ok_print])
  fix n assume "p \<in> S"
  from ok_free_probe [OF this, of "n + 1" os]
  show "proc_ok (tracked (n + 1) S) (free_probe os p) (\<lambda>_. tracked n (S - {p}))" by simp
qed

lemma spends_report_free:
  "p \<in> S \<Longrightarrow> spends S p (bnd (report_packet_error t) (\<lambda>_. free_probe os p))"
  unfolding report_packet_error_def bnd_assoc by (intro spendings calms spends_print_free)

lemmas probe_uses = calm_probe_at spends_receive_probe spends_print_free spends_report_free

section \<open>Sending a probe\<close>

lemma ok_alloced:
  assumes "\<And>p. spends {p} p (f p)"
  shows "proc_ok (case pr of None \<Rightarrow> tracked n {} | Some (p, _) \<Rightarrow> tracked (n + 1) (insert p {}))
    (case pr of None \<Rightarrow> print_line l | Some (p, _) \<Rightarrow> f p) (\<lambda>_. tracked (n + 1) {})"
proof (cases pr)
  case None
  then show ?thesis by (simp add: ok_print)
next
  case (Some pp)
  then show ?thesis using spendsD [OF assms, of "n + 1" "fst pp"] by (cases pp) simp
qed

lemma ok_send_probe: "proc_ok (tracked n {}) (send_probe os param) (\<lambda>_. tracked (n + 1) {})"
proof -
  have p: "p \<in> {p}" for p :: nat by simp
  have set: "calm S (upd_probe p (\<lambda>x. x\<lparr>pr_remote_addr := a\<rparr>))" "calm S (upd_probe p (\<lambda>x. x\<lparr>pr_departure_time := t\<rparr>))"
    "calm S (upd_probe p (\<lambda>x. x\<lparr>pr_timeout_time := t\<rparr>))" "calm S (upd_probe p (\<lambda>x. x\<lparr>pr_socket := fd\<rparr>))" for S p a t fd
    by (rule calm_upd_probe; simp add: probe_ok_def)+
  show ?thesis
    unfolding send_probe_def Let_def
    by (rule ok_bnd [OF ok_alloc_probe], rule ok_alloced)
       (intro spendings calms calm_construct_loop set probe_uses p spends_calm [OF set(3)])
qed

section \<open>Receiving\<close>

lemma calm_found [calms]:
  assumes "\<And>ns p. found ns = Some p \<Longrightarrow> p \<in> fst ` set (outstanding_probes ns)"
  shows "calm {} (bnd get_ns (\<lambda>ns. case found ns of None \<Rightarrow> ret ()
      | Some p \<Rightarrow> receive_probe os p icmp_type remote_addr timestamp mpls))"
  unfolding calm_def using ok_receive_found [OF assms] by blast

lemma calm_find_and_receive [calms]:
  "calm {} (find_and_receive_probe os remote_addr timestamp icmp_type protocol i q mpls)"
  unfolding find_and_receive_probe_def by (rule calm_found) (rule find_probe_live)

lemma calm_inner_udp [calms]:
  "calm {} (handle_inner_udp_packet os remote_addr icmp_result buf off timestamp mpls)"
  unfolding handle_inner_udp_packet_def
  by (rule calm_found) (auto simp: udp_probe_def split: option.splits dest: find_probe_live)

lemma calm_handlers [calms]:
  "calm {} (handle_error_queue_packet os remote_addr icmp_result proto packet n timestamp)"
  "calm {} (handle_inner_ip4_packet os remote_addr icmp_result buf ip n timestamp mpls)"
  "calm {} (handle_inner_ip6_packet os remote_addr icmp_result buf ip n timestamp mpls)"
  unfolding handle_error_queue_packet_def handle_inner_ip4_packet_def handle_inner_ip6_packet_def Let_def
  by (intro calms)+

lemma calm_handle_received [calms]:
  "calm {} (handle_received_ip4_packet os remote_addr buf n timestamp)"
  "calm {} (handle_received_ip6_packet os remote_addr buf n timestamp)"
  unfolding handle_received_ip4_packet_def handle_received_ip6_packet_def
    handle_received_icmp4_packet_def handle_received_icmp6_packet_def Let_def
  by (intro calms)+

lemma calm_clear_error [calms]: "calm S (clear_error fuel os fd)"
  by (induction fuel) (auto intro!: calms)

lemma calm_recv_loop:
  assumes "\<And>addr buf n t. calm {} (handler addr buf n t)"
  shows "calm {} (recv_loop fuel os fd handler rs)"
proof (induction fuel arbitrary: rs)
  case (Suc fuel)
  then show ?case
    unfolding recv_loop.simps dispatch_message_def Let_def
    by (intro calms assms) simp_all
qed (simp add: calms)

lemma spends_probe_socket: "p \<in> S \<Longrightarrow> spends S p (receive_replies_from_probe_socket os p)"
  unfolding receive_replies_from_probe_socket_def Let_def
  by (intro spendings calms probe_uses) simp_all

text \<open>A loop over the outstanding probes whose body frees its own probe at most.\<close>

lemma ok_foreach_probe:
  assumes "\<And>p S. p \<in> S \<Longrightarrow> spends S p (body p)" and "distinct ps"
  shows "proc_ok (tracked n (set ps)) (foreach_probe ps body) (\<lambda>_. tracked n {})"
  using assms(2)
proof (induction ps)
  case (Cons p ps)
  then have s: "set (p # ps) - {p} = set ps" by auto
  have first: "proc_ok (tracked n (set (p # ps))) (body p) (\<lambda>_. tracked n (set ps))"
    using spendsD [OF assms(1), of p "set (p # ps)" n] unfolding s by simp
  have rest: "proc_ok (tracked n (set ps)) (foreach_probe ps body) (\<lambda>_. tracked n {})"
    using Cons by simp
  show ?case unfolding foreach_probe.simps by (rule ok_bnd [OF first rest])
qed (simp add: ok_ret)

lemma calm_foreach_outstanding:
  assumes "\<And>p S. p \<in> S \<Longrightarrow> spends S p (body p)"
  shows "calm {} (foreach_outstanding body)"
  unfolding calm_def foreach_outstanding_def
proof (intro allI ok_get_ns_bnd)
  fix n and ns :: net_state_t
  let ?ps = "map fst (outstanding_probes ns)"
  show "proc_ok (\<lambda>st. tracked n {} st \<and> net_state st = ns) (foreach_probe ?ps body) (\<lambda>_. tracked n {})"
  proof (cases "distinct ?ps")
    case True
    from ok_foreach_probe [OF assms this, of n] show ?thesis
      by (rule ok_weaken) (auto simp: tracked_def live_def)
  next
    case False
    then show ?thesis by (intro ok_false) (auto simp: tracked_def probes_ok_def)
  qed
qed

lemma calm_receive_replies [calms]: "calm {} (receive_replies fuel os)"
  unfolding receive_replies_def receive_replies_from_recv_socket_def Let_def
  by (intro calms calm_recv_loop calm_foreach_outstanding spends_probe_socket)

lemma calm_check_timeouts [calms]: "calm {} (check_probe_timeouts os)"
  unfolding check_probe_timeouts_def
  by (intro calms calm_foreach_outstanding spendings probe_uses)

section \<open>Commands\<close>

text \<open>A command is answered by one line, or becomes an outstanding probe.\<close>

lemma ok_dispatch_command:
  "proc_ok (tracked n {}) (dispatch_command os version command) (\<lambda>_. tracked (n + 1) {})"
proof -
  have check: "proc_ok (tracked n {}) (check_support_command version command) (\<lambda>_. tracked (n + 1) {})"
  proof (cases "find_parameter command ''feature''")
    case None
    then show ?thesis by (simp add: check_support_command_def ok_print)
  next
    case (Some feature)
    show ?thesis
      unfolding check_support_command_def Some option.case
      by (rule ok_bnd [OF calmD [OF calm_simple(2)] ok_print])
  qed
  have refused: "proc_ok (tracked n {}) (bnd (print_line l) (\<lambda>_. ret False))
      (\<lambda>ok. if ok then tracked n {} else tracked (n + 1) {})" for l
    by (rule ok_bnd [OF ok_print]) (simp add: ok_ret)
  have valid: "proc_ok (tracked n {}) (validate_probe_parameters param)
      (\<lambda>ok. if ok then tracked n {} else tracked (n + 1) {})" for param
    unfolding validate_probe_parameters_def
    by (rule ok_bnd [OF calmD [OF calm_simple(2)]]) (auto intro!: refused ok_ret)
  have send: "proc_ok (tracked n {}) (send_probe_command os command) (\<lambda>_. tracked (n + 1) {})"
  proof (cases "decode_arguments (zip (argument_name command) (argument_value command))
             (default_param (token command))")
    case None
    then show ?thesis by (simp add: send_probe_command_def ok_print)
  next
    case (Some param)
    show ?thesis
      unfolding send_probe_command_def Some option.case
      by (rule ok_bnd [OF valid]) (simp add: ok_send_probe ok_ret)
  qed
  show ?thesis by (simp add: dispatch_command_def ok_print check send)
qed

definition res_ok :: "('b \<Rightarrow> bool) \<Rightarrow> (string \<times> 'a) + 'b \<Rightarrow> bool" where
  "res_ok Q r = (case r of Inl (msg, _) \<Rightarrow> msg \<noteq> ''dangling probe'' | Inr x \<Rightarrow> Q x)"

lemma res_ok_simps [simp]:
  "res_ok Q (Inl (msg, st)) \<longleftrightarrow> msg \<noteq> ''dangling probe''" "res_ok Q (Inr x) \<longleftrightarrow> Q x"
  by (simp_all add: res_ok_def)

lemma res_ok_and_then:
  assumes "res_ok Q m" and "\<And>x. Q x \<Longrightarrow> res_ok R (f x)"
  shows "res_ok R (and_then m f)"
  using assms by (cases m) (auto simp: res_ok_def)

lemma proc_ok_res: "proc_ok P m Q \<longleftrightarrow> (\<forall>st. P st \<longrightarrow> res_ok (\<lambda>(x, st'). Q x st') (m st))"
  by (simp add: proc_ok_def res_ok_def)

lemma dispatch_line_tracked:
  assumes "tracked n {} st"
  shows "res_ok (tracked (n + 1) {}) (dispatch_line os version l st)"
proof -
  have "res_ok (tracked (n + 1) {}) (run m st)" if "proc_ok (tracked n {}) m (\<lambda>_. tracked (n + 1) {})" for m
    unfolding run_def
    by (rule res_ok_and_then [where Q = "\<lambda>(_, st'). tracked (n + 1) {} st'"])
       (use that assms in \<open>auto simp: proc_ok_res\<close>)
  then show ?thesis
    by (auto simp: dispatch_line_def ok_print ok_dispatch_command split: sum.split)
qed

lemma dispatch_loop_tracked:
  assumes "tracked n {} st"
  shows "res_ok (\<lambda>(rest, st'). rest = snd (lines_of buf)
           \<and> tracked (n + int (length (fst (lines_of buf)))) {} st') (dispatch_loop os version buf st)"
  using assms
proof (induction buf arbitrary: n st rule: lines_of.induct)
  case (1 buf)
  show ?case
  proof (cases "split_nl buf")
    case None
    then show ?thesis using "1.prems" by (simp add: dispatch_loop.simps [of os version buf] lines_of.simps [of buf])
  next
    case (Some lr)
    obtain l r where lr: "lr = (l, r)" by fastforce
    have "res_ok (\<lambda>(rest, st'). rest = snd (lines_of r) \<and> tracked (n + 1 + int (length (fst (lines_of r)))) {} st')
        (and_then (dispatch_line os version l st) (dispatch_loop os version r))"
      using res_ok_and_then [OF dispatch_line_tracked [OF "1.prems"] "1.IH" [OF Some [unfolded lr] refl]] .
    with Some lr show ?thesis
      by (simp add: dispatch_loop.simps [of os version buf] lines_of.simps [of buf] split_def Let_def ac_simps)
  qed
qed

definition lines_answered :: "string \<Rightarrow> nat" where
  "lines_answered buf = length (fst (lines_of buf))
     + (if INCOMING_SIZE - 1 \<le> length (snd (lines_of buf)) then 1 else 0)"

lemma ok_dispatch:
  "proc_ok (tracked n {}) (dispatch_proc os version buf) (\<lambda>_. tracked (n + int (lines_answered buf)) {})"
  unfolding proc_ok_res dispatch_proc_def dispatch_buffer_commands_def
proof (intro allI impI res_ok_and_then)
  fix st :: "'a pst" assume "tracked n {} st"
  then show "res_ok (\<lambda>(rest, st'). rest = snd (lines_of buf)
      \<and> tracked (n + int (length (fst (lines_of buf)))) {} st') (dispatch_loop os version buf st)"
    by (rule dispatch_loop_tracked)
qed (auto simp: lines_answered_def report_overflow_def tracked_def live_def)

section \<open>The program\<close>

lemma calm_wait [calms]: "calm S (wait_for_activity fuel os fd)"
proof -
  have "calm S (wait_loop k os fds)" for k fds
    by (induction k) (auto simp: get_next_probe_timeout_def intro!: calms split: prod.splits)
  then show ?thesis unfolding wait_for_activity_def by (intro calms)
qed

lemma calm_read_commands [calms]: "calm S (read_commands os fd buf)"
  unfolding read_commands_def Let_def by (intro calms) simp_all

lemma ok_table: "(\<And>n. proc_ok (tracked n {}) m (\<lambda>_ st. \<exists>k. tracked k {} st)) \<Longrightarrow> proc_ok table_ok m (\<lambda>_. table_ok)"
  unfolding proc_ok_res
proof (intro allI impI)
  fix st :: "'a pst"
  assume m: "\<And>n. \<forall>st. tracked n {} st \<longrightarrow> res_ok (\<lambda>(x, st'). \<exists>k. tracked k {} st') (m st)" and ok: "table_ok st"
  have "tracked (int (length (stdout_lines st)) + outstanding_probe_count (net_state st)) {} st"
    using ok by (simp add: tracked_def)
  with m have "res_ok (\<lambda>(x, st'). \<exists>k. tracked k {} st') (m st)" by blast
  then show "res_ok (\<lambda>(x, st'). table_ok st') (m st)"
    by (auto simp: res_ok_def tracked_def split: sum.splits)
qed

lemma calm_table: "calm {} m \<Longrightarrow> proc_ok table_ok m (\<lambda>_. table_ok)"
  by (rule ok_table) (auto dest: calmD intro: ok_weaken)

text \<open>One turn keeps the table; it ends the loop only when no probe is outstanding.\<close>

lemma table_bnd:
  "proc_ok table_ok m (\<lambda>_. table_ok) \<Longrightarrow> (\<And>x. proc_ok table_ok (f x) Q) \<Longrightarrow> proc_ok table_ok (bnd m f) Q"
  by (rule ok_bnd)

lemma table_prod: "(\<And>x y. proc_ok table_ok (f x y) Q) \<Longrightarrow> proc_ok table_ok (case v of (x, y) \<Rightarrow> f x y) Q"
  by (cases v) simp

lemma table_dispatch: "proc_ok table_ok (dispatch_proc os version buf) (\<lambda>_. table_ok)"
  by (rule ok_table) (auto intro: ok_weaken [OF ok_dispatch])

definition turn_ends :: "string \<times> bool \<times> bool \<Rightarrow> 'w pst \<Rightarrow> bool" where
  "turn_ends = (\<lambda>(buf, command_pipe_open, finished) st. table_ok st \<and>
     (finished \<longrightarrow> \<not> command_pipe_open \<and> outstanding_probes (net_state st) = []))"

lemma main_turn_ok: "proc_ok table_ok (main_turn fuel os version fd b) turn_ends"
proof -
  have last: "proc_ok table_ok (bnd get_ns (\<lambda>ns.
     ret (buf, command_pipe_open, \<not> command_pipe_open \<and> outstanding_probe_count ns = 0))) turn_ends"
    for buf command_pipe_open
    by (rule ok_get_ns_bnd, rule ok_ret) (auto simp: turn_ends_def probes_ok_def)
  show ?thesis
    unfolding main_turn_def
    by (cases b, simp only: prod.case)
       (intro table_prod table_bnd [OF calm_table [OF calm_wait]] table_bnd [OF calm_table [OF calm_receive_replies]]
          table_bnd [OF calm_table [OF calm_check_timeouts]] table_bnd [OF table_dispatch] last
          table_bnd [OF calm_table [OF calm_if]] calms)
qed

lemma main_loop_ok:
  "proc_ok table_ok (main_loop fuel os version fd b) (\<lambda>_ st. outstanding_probes (net_state st) = [])"
proof (induction fuel arbitrary: b)
  case (Suc fuel)
  have "proc_ok (turn_ends t) (case t of (buf, command_pipe_open, finished) \<Rightarrow>
      if finished then ret () else main_loop fuel os version fd (buf, command_pipe_open))
      (\<lambda>_ st. outstanding_probes (net_state st) = [])" for t
    using Suc by (cases t) (auto simp: turn_ends_def intro!: ok_ret intro: ok_weaken)
  then show ?case unfolding main_loop.simps by (rule ok_bnd [OF main_turn_ok])
qed (simp add: ok_error_exit)

text \<open>Opening the sockets.\<close>

lemma calm_upd_sockets [calms]:
  assumes "\<And>ns. probes_ok ns \<Longrightarrow> probes_ok (f ns) \<and> outstanding_probe_count (f ns) = outstanding_probe_count ns
      \<and> fst ` set (outstanding_probes (f ns)) = fst ` set (outstanding_probes ns)"
  shows "calm S (upd_ns f)"
  unfolding calm_def using ok_upd_ns [OF assms] by blast

lemma calm_close_all [calms]: "calm S (close_all os fds)"
  by (induction fds) (auto intro!: calms)

lemma calm_open_or_close [calms]:
  "calm S call \<Longrightarrow> (\<And>fd. calm S (k fd)) \<Longrightarrow> calm S (open_or_close os call opened k)"
  unfolding open_or_close_def by (intro calms)

lemma calm_open_sockets [calms]:
  "calm S (open_ip4_sockets_raw os)" "calm S (open_ip4_sockets_dgram os)"
  "calm S (open_ip6_sockets_raw os)" "calm S (open_ip6_sockets_dgram os)" "calm S (init_net_state os)"
  unfolding open_ip4_sockets_raw_def open_ip4_sockets_dgram_def open_ip6_sockets_raw_def
    open_ip6_sockets_dgram_def recverr_socket_def init_net_state_def set_socket_nonblocking_def
    check_sctp_support_def
  by (intro calms; simp add: probes_ok_def)+

lemma calm_state: "(\<And>w. calm S (f w)) \<Longrightarrow> calm S (\<lambda>st. f (world st) st)"
  by (simp add: calm_def proc_ok_def)

lemma calm_drop [calms]: "calm S (drop_elevated_permissions ids)"
proof -
  have "calm S (\<lambda>st. if id_euid ids (world st) \<noteq> id_uid ids (world st) \<or> id_egid ids (world st) \<noteq> id_gid ids (world st)
         then ret False st else bnd (sys (id_clear_caps ids)) (\<lambda>r. ret (r \<noteq> None)) st)"
    using calm_state [of S "\<lambda>w. if id_euid ids w \<noteq> id_uid ids w \<or> id_egid ids w \<noteq> id_gid ids w
         then ret False else bnd (sys (id_clear_caps ids)) (\<lambda>r. ret (r \<noteq> None))"]
    by (simp add: calms if_distrib [of "\<lambda>m. m _"])
  note last = calm_state [of S "\<lambda>w. bnd (sys (id_setuid ids (id_uid ids w))) (\<lambda>r. if r = None then ret False else _)",
      OF calm_bnd [OF calm_simple(5) calm_if [OF calm_simple(1) this]]]
  show ?thesis
    unfolding drop_elevated_permissions_def
    by (intro calm_state [of S "\<lambda>w. bnd (sys (id_setgid ids (id_gid ids w))) (\<lambda>r. if r = None then ret False else _)"]
        calm_bnd [OF calm_simple(5) calm_if [OF calm_simple(1) last]])
qed

text \<open>From the start the program uses no freed probe, and it returns with none outstanding.\<close>

lemma packet_main_ok:
  "proc_ok (\<lambda>_. True) (packet_main fuel os ids version fd) (\<lambda>_ st. outstanding_probes (net_state st) = [])"
proof -
  have start: "proc_ok (\<lambda>_. True) (upd_ns (\<lambda>_. zero_net_state\<lparr>np_next_sequence := MIN_PORT\<rparr>)) (\<lambda>_. table_ok)"
    by (simp add: proc_ok_def upd_ns_def zero_net_state_def probes_ok_def)
  have main: "proc_ok table_ok (main_loop fuel os version fd b) (\<lambda>_ st. outstanding_probes (net_state st) = [])" for b
    by (rule main_loop_ok)
  have buffer: "calm {} (init_command_buffer os fd)"
    unfolding init_command_buffer_def by (intro calms) simp_all
  have init: "proc_ok (\<lambda>_. True) (init_net_state_privileged os) (\<lambda>_. table_ok)"
    unfolding init_net_state_privileged_def
    by (intro ok_bnd [OF start] calm_table calms) simp_all
  show ?thesis
    unfolding packet_main_def
    by (rule ok_bnd [OF init], rule table_bnd [OF calm_table [OF calm_drop]])
       (auto intro!: ok_error_exit table_bnd [OF calm_table [OF calm_open_sockets(5)]]
          table_bnd [OF calm_table [OF buffer]] main)
qed

end
