(* ===== verification/MtrTypes.thy ===== *)
theory MtrTypes
  imports Inet
begin

text \<open>
  The data that \<open>mtr\<close>'s modules share: \<open>ui/mtr.h\<close> (limits, \<open>struct mtr_ctl\<close>,
  \<open>struct mplslen\<close>), the enumerations of \<open>ui/display.h\<close>, and the address operations
  \<open>addrcmp\<close> and \<open>addrcpy\<close> of \<open>ui/net.c\<close>. The configuration is a Linux build with
  IPv6, SCTP, \<open>SO_MARK\<close> and ipinfo. The rounding of floating point is a parameter, its
  documented behaviour stated by \<open>fp_ok\<close>.
\<close>

section \<open>Limits and enumerations\<close>

abbreviation (input) SAVED_PINGS :: nat where "SAVED_PINGS \<equiv> 200"
abbreviation (input) MAXPATH :: nat where "MAXPATH \<equiv> 8"
abbreviation (input) MaxHost :: nat where "MaxHost \<equiv> 256"
abbreviation (input) MAXPACKET :: int where "MAXPACKET \<equiv> 4470"
abbreviation (input) MINPACKET :: int where "MINPACKET \<equiv> 28"
abbreviation (input) MAXLABELS :: nat where "MAXLABELS \<equiv> 8"
abbreviation (input) MAXFLD :: nat where "MAXFLD \<equiv> 20"
abbreviation (input) MinPort :: int where "MinPort \<equiv> 1024"
abbreviation (input) MaxPort :: int where "MaxPort \<equiv> 65535"

datatype display = DisplayReport | DisplayCurses | DisplayGTK | DisplaySplit | DisplayRaw
  | DisplayXML | DisplayCSV | DisplayTXT | DisplayJSON

datatype action = ActionNone | ActionQuit | ActionReset | ActionDisplay | ActionClear
  | ActionPause | ActionResume | ActionMPLS | ActionDNS | ActionII | ActionAS
  | ActionScrollDown | ActionScrollUp

text \<open>The message of an \<open>error (EXIT_FAILURE, \<dots>)\<close> of the user interface.\<close>

type_synonym ui_exit = string

section \<open>Addresses\<close>

text \<open>\<open>ip_t\<close> is a \<open>struct in6_addr\<close>: sixteen bytes, of which an IPv4 address uses the
  first four.\<close>

type_synonym ip_t = "u8 list"

definition zero_ip :: ip_t where
  "zero_ip = replicate 16 0"

definition is_ip :: "ip_t \<Rightarrow> bool" where
  "is_ip a \<longleftrightarrow> length a = 16"

text \<open>\<open>addrcmp\<close> compares as \<open>memcmp\<close> does; for an unknown family it answers -1. The
  callers only test the result for zero.\<close>

fun memcmp :: "u8 list \<Rightarrow> u8 list \<Rightarrow> nat \<Rightarrow> int" where
  "memcmp a b 0 = 0"
| "memcmp (x # a) (y # b) (Suc n) =
     (if x < y then -1 else if y < x then 1 else memcmp a b n)"
| "memcmp a b (Suc n) = -1"

definition addrcmp :: "ip_t \<Rightarrow> ip_t \<Rightarrow> family \<Rightarrow> int" where
  "addrcmp a b af =
     (case af of AF_INET \<Rightarrow> memcmp a b 4 | AF_INET6 \<Rightarrow> memcmp a b 16 | AF_UNSPEC \<Rightarrow> -1)"

definition addrcpy :: "ip_t \<Rightarrow> u8 list \<Rightarrow> family \<Rightarrow> ip_t" where
  "addrcpy dst src af = take (addr_len af) src @ drop (addr_len af) dst"

lemma memcmp_eq_0: "n \<le> length a \<Longrightarrow> n \<le> length b \<Longrightarrow> memcmp a b n = 0 \<longleftrightarrow> take n a = take n b"
  by (induction a b n rule: memcmp.induct) auto

lemma addrcmp_eq_0:
  assumes "is_ip a" and "is_ip b" and "af \<noteq> AF_UNSPEC"
  shows "addrcmp a b af = 0 \<longleftrightarrow> take (addr_len af) a = take (addr_len af) b"
  using assms by (cases af) (simp_all add: addrcmp_def addr_len_def memcmp_eq_0 is_ip_def)

lemma memcmp_refl: "n \<le> length a \<Longrightarrow> memcmp a a n = 0"
  by (simp add: memcmp_eq_0)

lemma addrcmp_refl: "is_ip a \<Longrightarrow> af \<noteq> AF_UNSPEC \<Longrightarrow> addrcmp a a af = 0"
  by (simp add: addrcmp_eq_0)

lemma is_ip_addrcpy:
  "is_ip dst \<Longrightarrow> addr_len af \<le> length src \<Longrightarrow> is_ip (addrcpy dst src af)"
  by (cases af) (auto simp: is_ip_def addrcpy_def addr_len_def)

lemma is_ip_zero [simp]: "is_ip zero_ip"
  by (simp add: is_ip_def zero_ip_def)

lemma take_addrcpy:
  "addr_len af \<le> length src \<Longrightarrow> take (addr_len af) (addrcpy dst src af) = take (addr_len af) src"
  by (simp add: addrcpy_def)

text \<open>\<open>addrcpy\<close> makes its destination compare equal to its source.\<close>

lemma addrcmp_addrcpy:
  assumes "is_ip dst" and "is_ip src" and "af \<noteq> AF_UNSPEC"
  shows "addrcmp (addrcpy dst src af) src af = 0"
proof -
  have "addr_len af \<le> length src"
    using assms by (cases af) (auto simp: addr_len_def is_ip_def)
  with assms show ?thesis
    by (simp add: addrcmp_eq_0 is_ip_addrcpy take_addrcpy)
qed

section \<open>Floating point\<close>

text \<open>
  Values of type \<open>double\<close> and \<open>float\<close> are rationals; \<open>rnd\<close> and \<open>rndf\<close> round the
  exact result of an operation to them, \<open>pow\<close> and \<open>sqrt\<close> are those of the mathematics
  library, and \<open>strtod\<close> gives the value, whether \<open>errno\<close> was set, and the text at
  \<open>endptr\<close>. Conversion to an integer type truncates.
\<close>

record fp_env =
  rnd :: "rat \<Rightarrow> rat"
  rndf :: "rat \<Rightarrow> rat"
  fp_pow :: "rat \<Rightarrow> rat \<Rightarrow> rat"
  fp_sqrt :: "rat \<Rightarrow> rat"
  fp_strtod :: "string \<Rightarrow> rat \<times> bool \<times> string"

definition c_trunc :: "rat \<Rightarrow> int" where
  "c_trunc x = (if 0 \<le> x then \<lfloor>x\<rfloor> else \<lceil>x\<rceil>)"

text \<open>Rounding to double is monotone and exact on the integers of up to 53 bits.\<close>

abbreviation (input) FP_EXACT :: int where "FP_EXACT \<equiv> 9007199254740992"

definition fp_ok :: "fp_env \<Rightarrow> bool" where
  "fp_ok fp \<longleftrightarrow>
     (\<forall>x y. x \<le> y \<longrightarrow> - of_int FP_EXACT \<le> x \<longrightarrow> y \<le> of_int FP_EXACT \<longrightarrow> rnd fp x \<le> rnd fp y)
   \<and> (\<forall>n. \<bar>n\<bar> \<le> FP_EXACT \<longrightarrow> rnd fp (of_int n) = of_int n)"

lemma c_trunc_of_int [simp]: "c_trunc (of_int n) = n"
  by (simp add: c_trunc_def)

lemma c_trunc_mono:
  assumes "x \<le> y"
  shows "c_trunc x \<le> c_trunc y"
proof (cases "0 \<le> x \<or> \<not> 0 \<le> y")
  case True
  with assms show ?thesis by (auto simp: c_trunc_def intro: floor_mono ceiling_mono)
next
  case False
  have "\<lceil>x\<rceil> \<le> \<lfloor>y\<rfloor>"
    by (rule order_trans [of _ 0]) (use False in auto)
  with False show ?thesis by (simp add: c_trunc_def)
qed

lemma c_trunc_between: "of_int a \<le> x \<Longrightarrow> x \<le> of_int b \<Longrightarrow> a \<le> c_trunc x \<and> c_trunc x \<le> b"
  using c_trunc_mono [of "of_int a" x] c_trunc_mono [of x "of_int b"] by simp

text \<open>A rounded value stays between integers that enclose it.\<close>

lemma rnd_between:
  assumes "fp_ok fp" and "of_int a \<le> x" and "x \<le> of_int b" and "\<bar>a\<bar> \<le> FP_EXACT" and "\<bar>b\<bar> \<le> FP_EXACT"
  shows "of_int a \<le> rnd fp x \<and> rnd fp x \<le> of_int b"
proof -
  have m: "x \<le> y \<Longrightarrow> - of_int FP_EXACT \<le> x \<Longrightarrow> y \<le> of_int FP_EXACT \<Longrightarrow> rnd fp x \<le> rnd fp y" for x y
    using assms(1) by (simp add: fp_ok_def)
  have e: "rnd fp (of_int a) = of_int a" "rnd fp (of_int b) = of_int b"
    using assms by (simp_all add: fp_ok_def)
  have ra: "- of_int FP_EXACT \<le> (of_int a :: rat)" "(of_int a :: rat) \<le> of_int FP_EXACT"
    and rb: "- of_int FP_EXACT \<le> (of_int b :: rat)" "(of_int b :: rat) \<le> of_int FP_EXACT"
    using assms(4,5) by linarith+
  have "rnd fp (of_int a) \<le> rnd fp x"
    by (rule m) (use assms(2,3) ra rb in linarith)+
  moreover have "rnd fp x \<le> rnd fp (of_int b)"
    by (rule m) (use assms(2,3) ra rb in linarith)+
  ultimately show ?thesis by (simp add: e)
qed

section \<open>Shared structures\<close>

text \<open>\<open>struct mplslen\<close>: labels are \<open>unsigned long\<close>, the other fields are bytes.\<close>

record mplslen =
  mpls_label :: "64 word list"
  mpls_tc :: "u8 list"
  mpls_ttl :: "u8 list"
  mpls_s :: "u8 list"
  mpls_labels :: nat

definition zero_mpls :: mplslen where
  "zero_mpls = \<lparr>mpls_label = replicate MAXLABELS 0, mpls_tc = replicate MAXLABELS 0,
     mpls_ttl = replicate MAXLABELS 0, mpls_s = replicate MAXLABELS 0, mpls_labels = 0\<rparr>"

record mtr_ctl =
  MaxPing :: int
  WaitTime :: rat
  GraceTime :: rat
  Hostname :: string
  InterfaceName :: "string option"
  InterfaceAddress :: "string option"
  LocalHostname :: string
  ipinfo_no :: int
  ipinfo_max :: int
  cpacketsize :: int
  bitpattern :: int
  tos :: int
  mark :: int
  unspec_addr :: ip_t
  af :: family
  mtrtype :: int
  fstTTL :: int
  maxTTL :: int
  maxUnknown :: int
  remoteport :: int
  localport :: int
  probe_timeout :: int
  fld_active :: string
  display_mode :: int
  fld_index :: "char \<Rightarrow> int"
  available_options :: string
  display_offset :: int
  ForceMaxPing :: bool
  use_dns :: bool
  show_ips :: bool
  enablempls :: bool
  dns :: bool
  reportwide :: bool
  Interactive :: bool
  DisplayMode :: display

end
