(* ===== verification/CmdPipe.thy ===== *)
theory CmdPipe
  imports MtrTypes CmdParse LineBuffer
begin

text \<open>
  \<open>ui/cmdpipe.c\<close>: \<open>mtr\<close>'s side of the pipe to \<open>mtr-packet\<close>. It builds the text of
  probe requests, checks what the packet process supports, and reads the replies line by line,
  handing each completed probe to a callback. Messages of \<open>error (EXIT_FAILURE, \<dots>)\<close> are
  the left values of the results. System calls on the pipe are parameters.
\<close>

section \<open>Requests\<close>

abbreviation (input) COMMAND_BUFFER_SIZE :: int where "COMMAND_BUFFER_SIZE \<equiv> 4096"
abbreviation (input) PACKET_REPLY_BUFFER_SIZE :: nat where "PACKET_REPLY_BUFFER_SIZE \<equiv> 4096"

definition protocol_name :: "int \<Rightarrow> string option" where
  "protocol_name mtrtype' =
     (if mtrtype' = IPPROTO_ICMP then Some ''icmp''
      else if mtrtype' = IPPROTO_UDP then Some ''udp''
      else if mtrtype' = IPPROTO_TCP then Some ''tcp''
      else if mtrtype' = IPPROTO_SCTP then Some ''sctp''
      else None)"

definition construct_base_command ::
  "inet_env \<Rightarrow> mtr_ctl \<Rightarrow> int \<Rightarrow> int \<Rightarrow> ip_t \<Rightarrow> ip_t \<Rightarrow> ui_exit + string" where
  "construct_base_command env ctl buffer_size command_token address localaddress =
     (case inet_ntop env (af ctl) address of
        None \<Rightarrow> Inl ''invalid remote IP address''
      | Some ip_string \<Rightarrow>
     (case inet_ntop env (af ctl) localaddress of
        None \<Rightarrow> Inl ''invalid local IP address''
      | Some local_ip_string \<Rightarrow>
          (let (ip_type, local_ip_type) =
             (if af ctl = AF_INET6 then (''ip-6'', ''local-ip-6'') else (''ip-4'', ''local-ip-4''))
           in case protocol_name (mtrtype ctl) of
                None \<Rightarrow> Inl ''protocol unsupported by mtr-packet interface''
              | Some protocol \<Rightarrow>
                  Inr (snprintf buffer_size
                    (fmt_d command_token @ '' send-probe '' @ ip_type @ '' '' @ ip_string @ '' ''
                     @ local_ip_type @ '' '' @ local_ip_string @ '' protocol '' @ protocol)))))"

definition append_command_argument :: "string \<Rightarrow> int \<Rightarrow> string \<Rightarrow> int \<Rightarrow> string" where
  "append_command_argument command buffer_size name v =
     (let remaining_size = buffer_size - int (length command) - 1;
          argument = snprintf buffer_size ('' '' @ name @ '' '' @ fmt_d v)
      in strncat command argument remaining_size)"

text \<open>The text of a request, up to its newline. The routing mark is a \<open>uint32_t\<close> passed as
  an \<open>int\<close>.\<close>

definition probe_command_text ::
  "inet_env \<Rightarrow> mtr_ctl \<Rightarrow> ip_t \<Rightarrow> ip_t \<Rightarrow> int \<Rightarrow> int \<Rightarrow> int \<Rightarrow> ui_exit + string" where
  "probe_command_text env ctl address localaddress packet_size sequence' time_to_live =
     and_then (construct_base_command env ctl COMMAND_BUFFER_SIZE sequence' address localaddress)
       (\<lambda>command.
          (let append = (\<lambda>name v command. append_command_argument command COMMAND_BUFFER_SIZE name v);
               command = append ''size'' packet_size command;
               command = append ''bit-pattern'' (bitpattern ctl) command;
               command = append ''tos'' (tos ctl) command;
               command = append ''ttl'' time_to_live command;
               timeout = c_div (probe_timeout ctl) 1000000;
               command = append ''timeout'' timeout command;
               command = (if remoteport ctl \<noteq> 0 then append ''port'' (remoteport ctl) command
                          else command);
               command = (if localport ctl \<noteq> 0 then append ''local-port'' (localport ctl) command
                          else command);
               command = (if mark ctl \<noteq> 0 then append ''mark'' (to_int32 (mark ctl)) command
                          else command);
               remaining_size = COMMAND_BUFFER_SIZE - int (length command) - 1
           in Inr (strncat command [NL] remaining_size)))"

text \<open>\<open>send_probe_command\<close> writes that text; \<open>write_ok\<close> is whether \<open>write\<close> answers
  other than -1. The result is what was written.\<close>

definition send_probe_command ::
  "inet_env \<Rightarrow> (string \<Rightarrow> bool) \<Rightarrow> mtr_ctl \<Rightarrow> ip_t \<Rightarrow> ip_t \<Rightarrow> int \<Rightarrow> int \<Rightarrow> int \<Rightarrow> ui_exit + string" where
  "send_probe_command env write_ok ctl address localaddress packet_size sequence' time_to_live =
     and_then (probe_command_text env ctl address localaddress packet_size sequence' time_to_live)
       (\<lambda>command. if write_ok command then Inr command
                  else Inl ''mtr-packet command pipe write failure'')"

section \<open>Checking the packet process\<close>

text \<open>The pipe as an environment with a state of its own: \<open>write\<close> answers how much it wrote,
  \<open>read\<close> up to so many characters.\<close>

record 'w pipe_env =
  pipe_write :: "string \<Rightarrow> 'w \<Rightarrow> (errno + int) \<times> 'w"
  pipe_read :: "nat \<Rightarrow> 'w \<Rightarrow> (errno + string) \<times> 'w"

definition send_synchronous_command ::
  "'w pipe_env \<Rightarrow> string \<Rightarrow> 'w \<Rightarrow> (errno + command_t) \<times> 'w" where
  "send_synchronous_command pe cmd w =
     (case pipe_write pe cmd w of
        (Inl e, w) \<Rightarrow> (Inl e, w)
      | (Inr write_length, w) \<Rightarrow>
          if write_length \<noteq> int (length cmd) then (Inl EIO, w)
          else (case pipe_read pe (PACKET_REPLY_BUFFER_SIZE - 1) w of
                  (Inl e, w) \<Rightarrow> (Inl e, w)
                | (Inr reply, w) \<Rightarrow> (parse_command (cstr reply), w)))"

definition check_feature :: "'w pipe_env \<Rightarrow> string \<Rightarrow> 'w \<Rightarrow> errno option \<times> 'w" where
  "check_feature pe feature w =
     (let check_command = snprintf COMMAND_BUFFER_SIZE (''1 check-support feature '' @ feature @ [NL])
      in case send_synchronous_command pe check_command w of
           (Inl e, w) \<Rightarrow> (Some e, w)
         | (Inr reply, w) \<Rightarrow>
             if command_name reply = ''feature-support'' \<and> 1 \<le> argument_count reply
                \<and> argument_name reply ! 0 = ''support'' \<and> argument_value reply ! 0 = ''ok''
             then (None, w) else (Some ENOTSUP, w))"

text \<open>Checks in sequence: the first failure decides.\<close>

fun check_features :: "'w pipe_env \<Rightarrow> string list \<Rightarrow> 'w \<Rightarrow> errno option \<times> 'w" where
  "check_features pe [] w = (None, w)"
| "check_features pe (f # fs) w =
     (case check_feature pe f w of (Some e, w) \<Rightarrow> (Some e, w) | (None, w) \<Rightarrow> check_features pe fs w)"

text \<open>\<open>check_packet_features\<close>: \<open>None\<close> is success. An unknown address family fails before
  anything is sent, an unknown protocol after the check of the family.\<close>

definition check_packet_features :: "'w pipe_env \<Rightarrow> mtr_ctl \<Rightarrow> 'w \<Rightarrow> errno option \<times> 'w" where
  "check_packet_features pe ctl w =
     (case (if af ctl = AF_INET6 then check_feature pe ''ip-6'' w
            else if af ctl = AF_INET then check_feature pe ''ip-4'' w
            else (Some EINVAL, w)) of
        (Some e, w) \<Rightarrow> (Some e, w)
      | (None, w) \<Rightarrow>
     (case (case protocol_name (mtrtype ctl) of
              Some p \<Rightarrow> check_feature pe p w
            | None \<Rightarrow> (Some EINVAL, w)) of
        (Some e, w) \<Rightarrow> (Some e, w)
      | (None, w) \<Rightarrow> if mark ctl \<noteq> 0 then check_feature pe ''mark'' w else (None, w)))"

text \<open>The two checks at the end of \<open>open_command_pipe\<close>, after the fork.\<close>

definition open_checks :: "'w pipe_env \<Rightarrow> mtr_ctl \<Rightarrow> 'w \<Rightarrow> (ui_exit + unit) \<times> 'w" where
  "open_checks pe ctl w =
     (case check_feature pe ''send-probe'' w of
        (Some e, w) \<Rightarrow> (Inl ''Failure to start mtr-packet'', w)
      | (None, w) \<Rightarrow>
     (case check_packet_features pe ctl w of
        (Some e, w) \<Rightarrow> (Inl ''Packet type unsupported'', w)
      | (None, w) \<Rightarrow> (Inr (), w)))"

section \<open>Replies\<close>

text \<open>\<open>parse_mpls_values\<close>: the loop over a comma separated field. An invalid number or
  separator returns at once and leaves the label count as it was.\<close>

definition set_mpls_field :: "mplslen \<Rightarrow> nat \<Rightarrow> nat \<Rightarrow> int \<Rightarrow> mplslen" where
  "set_mpls_field m label_count label_field v =
     (if label_field = 0 then m\<lparr>mpls_label := (mpls_label m)[label_count := word_of_int v]\<rparr>
      else if label_field = 1 then m\<lparr>mpls_tc := (mpls_tc m)[label_count := word_of_int v]\<rparr>
      else if label_field = 2 then m\<lparr>mpls_s := (mpls_s m)[label_count := word_of_int v]\<rparr>
      else if label_field = 3 then m\<lparr>mpls_ttl := (mpls_ttl m)[label_count := word_of_int v]\<rparr>
      else m)"

function parse_mpls_loop :: "mplslen \<Rightarrow> string \<Rightarrow> nat \<Rightarrow> nat \<Rightarrow> mplslen" where
  "parse_mpls_loop mpls next_value label_count label_field =
     (if next_value = [] then mpls\<lparr>mpls_labels := label_count\<rparr>
      else (case scan_number next_value of
        None \<Rightarrow> mpls
      | Some (neg, n, end_of_value) \<Rightarrow>
          if end_of_value \<noteq> [] \<and> hd end_of_value \<noteq> CHR '','' then mpls
          else
            (let v = fst (strtol_int next_value);
                 mpls = set_mpls_field mpls label_count label_field v;
                 (label_field, label_count) =
                   (if 3 < label_field + 1 then (0, label_count + 1) else (label_field + 1, label_count))
             in if MAXLABELS \<le> label_count then mpls\<lparr>mpls_labels := label_count\<rparr>
                else parse_mpls_loop mpls (tl end_of_value) label_count label_field)))"
  by pat_completeness auto
termination
  by (relation "measure (\<lambda>(m, s, c, f). length s)") (auto dest!: scan_number_shorter)

declare parse_mpls_loop.simps [simp del]

definition parse_mpls_values :: "mplslen \<Rightarrow> string \<Rightarrow> mplslen" where
  "parse_mpls_values mpls value_str = parse_mpls_loop mpls value_str 0 0"

text \<open>The state of \<open>parse_reply_arguments\<close>: its results and its two flags.\<close>

record reply_args =
  round_trip_time :: int
  fromaddress :: ip_t
  ra_mpls :: mplslen
  found_round_trip :: bool
  found_ip :: bool

definition reply_argument :: "inet_env \<Rightarrow> mtr_ctl \<Rightarrow> string \<times> string \<Rightarrow> reply_args \<Rightarrow> reply_args" where
  "reply_argument env ctl = (\<lambda>(arg_name, arg_value) r.
     (let fam = (if af ctl = AF_INET6 then AF_INET6 else AF_INET);
          r = (if arg_name = (if af ctl = AF_INET6 then ''ip-6'' else ''ip-4'') then
                 (case inet_pton env fam arg_value of
                    Some b \<Rightarrow> r\<lparr>fromaddress := addrcpy (fromaddress r) b fam, found_ip := True\<rparr>
                  | None \<Rightarrow> r)
               else r);
          r = (if arg_name = ''round-trip-time'' then
                 (case strtol_int arg_value of (v, erange, _) \<Rightarrow>
                    r\<lparr>round_trip_time := v, found_round_trip := (found_round_trip r \<or> \<not> erange)\<rparr>)
               else r)
      in if arg_name = ''mpls'' then r\<lparr>ra_mpls := parse_mpls_values (ra_mpls r) arg_value\<rparr> else r))"

definition parse_reply_arguments :: "inet_env \<Rightarrow> mtr_ctl \<Rightarrow> command_t \<Rightarrow> reply_args" where
  "parse_reply_arguments env ctl reply =
     fold (reply_argument env ctl) (zip (argument_name reply) (argument_value reply))
       \<lparr>round_trip_time = 0, fromaddress = zero_ip, ra_mpls = zero_mpls,
        found_round_trip = False, found_ip = False\<rparr>"

definition handle_reply_errors :: "command_t \<Rightarrow> ui_exit + unit" where
  "handle_reply_errors reply =
     (let reply_name = command_name reply
      in if reply_name = ''probes-exhausted'' then Inl ''Probes exhausted''
         else if reply_name = ''invalid-argument'' then Inl ''mtr-packet reported invalid argument''
         else if reply_name = ''permission-denied'' then Inl ''Permission denied''
         else if reply_name = ''address-in-use'' then Inl ''Address in use''
         else if reply_name = ''address-not-available'' then Inl ''Address not available''
         else if reply_name = ''unexpected-error'' then Inl ''Unexpected mtr-packet error''
         else Inr ())"

text \<open>The callback: sequence number, error, labels, address and round trip time.\<close>

type_synonym 's reply_func = "int \<Rightarrow> int \<Rightarrow> mplslen \<Rightarrow> ip_t \<Rightarrow> int \<Rightarrow> 's \<Rightarrow> 's"

definition reply_error :: "string \<Rightarrow> int option" where
  "reply_error reply_name =
     (if reply_name = ''reply'' \<or> reply_name = ''ttl-expired'' then Some 0
      else if reply_name = ''no-route'' then Some (errno_num ENETUNREACH)
      else if reply_name = ''network-down'' then Some (errno_num ENETDOWN)
      else None)"

definition handle_command_reply ::
  "inet_env \<Rightarrow> mtr_ctl \<Rightarrow> 's reply_func \<Rightarrow> string \<Rightarrow> 's \<Rightarrow> ui_exit + 's" where
  "handle_command_reply env ctl reply_func reply_str s =
     (case parse_command reply_str of
        Inl e \<Rightarrow> Inl ''reply parse failure''
      | Inr reply \<Rightarrow>
          and_then (handle_reply_errors reply)
            (\<lambda>_. case reply_error (command_name reply) of
                   None \<Rightarrow> Inr s
                 | Some err \<Rightarrow>
                     (let r = parse_reply_arguments env ctl reply
                      in if found_ip r \<and> found_round_trip r then
                           Inr (reply_func (token reply) err (ra_mpls r) (fromaddress r)
                                  (round_trip_time r) s)
                         else Inr s)))"

text \<open>
  The reply buffer holds the characters in use; \<open>consume_loop\<close> is the loop of
  \<open>consume_reply_buffer\<close>, which ends by moving what is left to the front of the buffer, and
  discards it when it fills the buffer.
\<close>

function consume_loop ::
  "inet_env \<Rightarrow> mtr_ctl \<Rightarrow> 's reply_func \<Rightarrow> string \<Rightarrow> 's \<Rightarrow> ui_exit + (string \<times> 's)" where
  "consume_loop env ctl reply_func reply_start s =
     (case split_nl reply_start of
        None \<Rightarrow> Inr (reply_start, s)
      | Some (line, reply_start) \<Rightarrow>
          and_then (handle_command_reply env ctl reply_func line s)
            (consume_loop env ctl reply_func reply_start))"
  by pat_completeness auto
termination
  by (relation "measure (\<lambda>(e, c, f, b, s). length b)") (auto dest: split_nl_shorter)

declare consume_loop.simps [simp del]

definition consume_reply_buffer ::
  "inet_env \<Rightarrow> mtr_ctl \<Rightarrow> 's reply_func \<Rightarrow> string \<Rightarrow> 's \<Rightarrow> ui_exit + (string \<times> 's)" where
  "consume_reply_buffer env ctl reply_func reply_buffer s =
     and_then (consume_loop env ctl reply_func reply_buffer s)
       (\<lambda>(rest, s). Inr (if PACKET_REPLY_BUFFER_SIZE - 1 \<le> length rest then [] else rest, s))"

text \<open>\<open>handle_command_replies\<close>: \<open>available\<close> is the error of \<open>read\<close> or the characters in
  the pipe, of which the read takes what fits.\<close>

definition handle_command_replies ::
  "inet_env \<Rightarrow> mtr_ctl \<Rightarrow> 's reply_func \<Rightarrow> errno + string \<Rightarrow> string \<Rightarrow> 's \<Rightarrow> ui_exit + (string \<times> 's)" where
  "handle_command_replies env ctl reply_func available reply_buffer s =
     (case available of
        Inl e \<Rightarrow> if e = EAGAIN then Inr (reply_buffer, s) else Inl ''command reply read failure''
      | Inr stream \<Rightarrow>
          (let buffer_remaining = PACKET_REPLY_BUFFER_SIZE - length reply_buffer;
               received = take (buffer_remaining - 1) stream
           in if received = [] then Inl ''unexpected packet generator exit''
              else consume_reply_buffer env ctl reply_func (reply_buffer @ received) s))"

section \<open>The reply reader is a line reader\<close>

text \<open>One read of the pipe: the characters received are appended to the buffer and consumed.\<close>

definition receive_chunk ::
  "inet_env \<Rightarrow> mtr_ctl \<Rightarrow> 's reply_func \<Rightarrow> string \<Rightarrow> string \<times> 's \<Rightarrow> ui_exit + (string \<times> 's)" where
  "receive_chunk env ctl reply_func chunk = (\<lambda>(reply_buffer, s).
     consume_reply_buffer env ctl reply_func (reply_buffer @ chunk) s)"

interpretation reply_lines: line_reader "handle_command_reply env ctl reply_func"
  "consume_loop env ctl reply_func" "receive_chunk env ctl reply_func" id "PACKET_REPLY_BUFFER_SIZE - 1"
  for env ctl reply_func
proof
  fix buf l r s
  assume "split_nl buf = Some (l, r)"
  then show "consume_loop env ctl reply_func buf s
      = and_then (handle_command_reply env ctl reply_func l s) (consume_loop env ctl reply_func r)"
    by (simp add: consume_loop.simps [of env ctl reply_func buf s])
next
  fix buf s
  assume "split_nl buf = None"
  then show "consume_loop env ctl reply_func buf s = Inr (buf, s)"
    by (simp add: consume_loop.simps [of env ctl reply_func buf s])
next
  fix chunk buf s
  show "receive_chunk env ctl reply_func chunk (buf, s)
      = and_then (consume_loop env ctl reply_func (buf @ chunk) s)
         (\<lambda>(r, s'). Inr (if PACKET_REPLY_BUFFER_SIZE - 1 \<le> length r then ([], id s') else (r, s')))"
    unfolding receive_chunk_def consume_reply_buffer_def
    by (simp, rule and_then_cong) (simp add: split_def)
qed

text \<open>The buffer never fills up: there is always room for the next read, so a read of nothing
  is an end of file.\<close>

lemma consume_leaves_room:
  "consume_reply_buffer env ctl reply_func buf s = Inr (rest, s') \<Longrightarrow>
     length rest < PACKET_REPLY_BUFFER_SIZE - 1"
  by (auto simp: consume_reply_buffer_def and_then_Inr split: if_splits prod.splits)

lemma handle_replies_chunk:
  assumes "stream \<noteq> []" and "length reply_buffer < PACKET_REPLY_BUFFER_SIZE - 1"
  shows "handle_command_replies env ctl reply_func (Inr stream) reply_buffer s
    = receive_chunk env ctl reply_func
        (take (PACKET_REPLY_BUFFER_SIZE - 1 - length reply_buffer) stream) (reply_buffer, s)"
proof -
  have "take (PACKET_REPLY_BUFFER_SIZE - length reply_buffer - 1) stream \<noteq> []"
    using assms by simp
  moreover have "PACKET_REPLY_BUFFER_SIZE - length reply_buffer - 1
      = PACKET_REPLY_BUFFER_SIZE - 1 - length reply_buffer" by simp
  ultimately show ?thesis
    by (simp only: handle_command_replies_def receive_chunk_def Let_def sum.case prod.case if_False)
qed

text \<open>The address of a reply is always a whole \<open>ip_t\<close>.\<close>

lemma reply_argument_is_ip:
  assumes "inet_ok env" and "is_ip (fromaddress r)"
  shows "is_ip (fromaddress (reply_argument env ctl nv r))"
proof -
  have len: "length b = addr_len fam" if "inet_pton env fam t = Some b" for fam t b
    using assms(1) that unfolding inet_ok_def by blast
  show ?thesis
    using assms(2)
    by (auto simp: reply_argument_def Let_def split: prod.splits option.splits
        dest!: len intro!: is_ip_addrcpy)
qed

lemma parse_reply_is_ip:
  assumes "inet_ok env"
  shows "is_ip (fromaddress (parse_reply_arguments env ctl reply))"
proof -
  have "is_ip (fromaddress r) \<Longrightarrow> is_ip (fromaddress (fold (reply_argument env ctl) xs r))" for xs r
    by (induction xs arbitrary: r) (simp_all add: reply_argument_is_ip [OF assms])
  then show ?thesis by (simp add: parse_reply_arguments_def)
qed

section \<open>The text of a request\<close>

lemma nat_str_length: "n < 10 ^ Suc k \<Longrightarrow> length (nat_str n) \<le> Suc k"
proof (induction k arbitrary: n)
  case 0
  then show ?case by (subst nat_str.simps) simp
next
  case (Suc k)
  then have "n div 10 < 10 ^ Suc k" by (simp add: less_mult_imp_div_less)
  then have "length (nat_str (n div 10)) \<le> Suc k" by (rule Suc.IH)
  then show ?case by (subst nat_str.simps) simp
qed

lemma fmt_d_length:
  assumes "is_int32 n"
  shows "length (fmt_d n) \<le> 11"
proof -
  have "\<bar>n\<bar> < 10000000000" using assms unfolding is_int32_def by linarith
  then have "nat \<bar>n\<bar> < 10 ^ Suc 9" by simp
  then have "length (nat_str (nat \<bar>n\<bar>)) \<le> Suc 9" by (rule nat_str_length)
  then show ?thesis by (cases "n < 0") (simp_all add: fmt_d_def)
qed

lemma append_argument_fits:
  assumes "length command + 30 \<le> 4000" and "length name \<le> 12" and "is_int32 v"
  shows "append_command_argument command COMMAND_BUFFER_SIZE name v
           = command @ blank_words [name, fmt_d v]"
    and "length (command @ blank_words [name, fmt_d v]) \<le> length command + 30"
  using assms(1,2) fmt_d_length [OF assms(3)]
  by (simp_all add: append_command_argument_def strncat_def snprintf_def Let_def)

text \<open>The arguments of a request after its addresses and protocol, in their order.\<close>

definition request_values :: "mtr_ctl \<Rightarrow> int \<Rightarrow> int \<Rightarrow> (string \<times> int) list" where
  "request_values ctl packet_size time_to_live =
     [(''size'', packet_size), (''bit-pattern'', bitpattern ctl), (''tos'', tos ctl),
      (''ttl'', time_to_live), (''timeout'', c_div (probe_timeout ctl) 1000000)]
     @ (if remoteport ctl \<noteq> 0 then [(''port'', remoteport ctl)] else [])
     @ (if localport ctl \<noteq> 0 then [(''local-port'', localport ctl)] else [])
     @ (if mark ctl \<noteq> 0 then [(''mark'', to_int32 (mark ctl))] else [])"

definition request_args ::
  "mtr_ctl \<Rightarrow> string \<Rightarrow> string \<Rightarrow> string \<Rightarrow> int \<Rightarrow> int \<Rightarrow> (string \<times> string) list" where
  "request_args ctl ip_string local_ip_string protocol packet_size time_to_live =
     [(if af ctl = AF_INET6 then ''ip-6'' else ''ip-4'', ip_string),
      (if af ctl = AF_INET6 then ''local-ip-6'' else ''local-ip-4'', local_ip_string),
      (''protocol'', protocol)]
     @ map (\<lambda>(n, v). (n, fmt_d v)) (request_values ctl packet_size time_to_live)"

text \<open>A line of the protocol: token, name, and pairs of names and values.\<close>

definition protocol_line :: "int \<Rightarrow> string \<Rightarrow> (string \<times> string) list \<Rightarrow> string" where
  "protocol_line tok name args =
     fmt_d tok @ blank_words (name # concat (map (\<lambda>(n, v). [n, v]) args))"

definition ctl_in_range :: "mtr_ctl \<Rightarrow> bool" where
  "ctl_in_range ctl \<longleftrightarrow> is_int32 (bitpattern ctl) \<and> is_int32 (tos ctl)
     \<and> is_int32 (probe_timeout ctl) \<and> is_int32 (remoteport ctl) \<and> is_int32 (localport ctl)"

lemma is_int32_timeout: "is_int32 t \<Longrightarrow> is_int32 (c_div t 1000000)"
  using c_div_between [of 1000000 t] by (cases "0 \<le> t") (auto simp: is_int32_def)

lemma request_text_append:
  "protocol_line tok name (xs @ [(n, v)]) = protocol_line tok name xs @ blank_words [n, v]"
  by (simp add: protocol_line_def blank_words_append [of "[n, v]" "[]", symmetric]
      blank_words_append)

lemma base_command_text:
  assumes "inet_ntop env (af ctl) address = Some ip_string" and "is_addr_text ip_string"
    and "inet_ntop env (af ctl) localaddress = Some local_ip_string" and "is_addr_text local_ip_string"
    and "protocol_name (mtrtype ctl) = Some protocol" and "is_int32 tok"
  defines "t \<equiv> protocol_line tok ''send-probe''
      [(if af ctl = AF_INET6 then ''ip-6'' else ''ip-4'', ip_string),
       (if af ctl = AF_INET6 then ''local-ip-6'' else ''local-ip-4'', local_ip_string),
       (''protocol'', protocol)]"
  shows "construct_base_command env ctl COMMAND_BUFFER_SIZE tok address localaddress = Inr t \<and> length t \<le> 200"
proof -
  have p: "length protocol \<le> 4"
    using assms(5) by (auto simp: protocol_name_def split: if_splits)
  have i: "length ip_string < 46" "length local_ip_string < 46"
    using assms(2,4) by (auto simp: is_addr_text_def)
  have len: "length t \<le> 200"
    using p i fmt_d_length [OF assms(6)] by (simp add: t_def protocol_line_def)
  have "construct_base_command env ctl COMMAND_BUFFER_SIZE tok address localaddress
      = Inr (snprintf COMMAND_BUFFER_SIZE t)"
    using assms(1,3,5) by (simp add: construct_base_command_def t_def protocol_line_def)
  with len show ?thesis by (simp add: snprintf_def)
qed

lemma append_arguments_fit:
  assumes "length (protocol_line tok name args) + 30 * length vs \<le> 4000"
    and "\<forall>(n, v) \<in> set vs. length n \<le> 12 \<and> is_int32 v"
  shows "foldl (\<lambda>c (n, v). append_command_argument c COMMAND_BUFFER_SIZE n v)
      (protocol_line tok name args) vs = protocol_line tok name (args @ map (\<lambda>(n, v). (n, fmt_d v)) vs)
    \<and> length (protocol_line tok name (args @ map (\<lambda>(n, v). (n, fmt_d v)) vs))
      \<le> length (protocol_line tok name args) + 30 * length vs"
  using assms
proof (induction vs arbitrary: args)
  case Nil
  then show ?case by simp
next
  case (Cons nv vs)
  obtain n v where nv: "nv = (n, v)" by fastforce
  let ?l = "protocol_line tok name"
  have fits: "append_command_argument (?l args) COMMAND_BUFFER_SIZE n v = ?l (args @ [(n, fmt_d v)])"
    "length (?l (args @ [(n, fmt_d v)])) \<le> length (?l args) + 30"
    using append_argument_fits [of "?l args" n v] Cons.prems nv
    by (simp_all add: request_text_append)
  then have "length (?l (args @ [(n, fmt_d v)])) + 30 * length vs \<le> 4000"
    using Cons.prems(1) by simp
  from Cons.IH [OF this] Cons.prems(2) fits nv show ?case by simp
qed

lemma probe_command_text_eq:
  assumes "inet_ntop env (af ctl) address = Some ip_string" and "is_addr_text ip_string"
    and "inet_ntop env (af ctl) localaddress = Some local_ip_string" and "is_addr_text local_ip_string"
    and "protocol_name (mtrtype ctl) = Some protocol"
    and "is_int32 tok" and "is_int32 packet_size" and "is_int32 time_to_live" and "ctl_in_range ctl"
  shows "probe_command_text env ctl address localaddress packet_size tok time_to_live
    = Inr (protocol_line tok ''send-probe''
        (request_args ctl ip_string local_ip_string protocol packet_size time_to_live) @ [NL])"
proof -
  let ?app = "\<lambda>c (n, v). append_command_argument c COMMAND_BUFFER_SIZE n v"
  let ?base = "[(if af ctl = AF_INET6 then ''ip-6'' else ''ip-4'', ip_string),
       (if af ctl = AF_INET6 then ''local-ip-6'' else ''local-ip-4'', local_ip_string),
       (''protocol'', protocol)]"
  let ?l = "protocol_line tok ''send-probe''"
  let ?vs = "request_values ctl packet_size time_to_live"
  note base = base_command_text [OF assms(1-6)]
  have vs: "length ?vs \<le> 8" "\<forall>(n, v) \<in> set ?vs. length n \<le> 12 \<and> is_int32 v"
    using assms(7-9) by (auto simp: request_values_def ctl_in_range_def is_int32_timeout)
  have txteq: "foldl ?app (?l ?base) ?vs = ?l (?base @ map (\<lambda>(n, v). (n, fmt_d v)) ?vs)"
    and len: "length (?l (?base @ map (\<lambda>(n, v). (n, fmt_d v)) ?vs)) \<le> 440"
    using append_arguments_fit [OF _ vs(2), of tok "''send-probe''" ?base] base vs(1) by auto
  have "probe_command_text env ctl address localaddress packet_size tok time_to_live
      = Inr (strncat (foldl ?app (?l ?base) ?vs) [NL]
          (COMMAND_BUFFER_SIZE - int (length (foldl ?app (?l ?base) ?vs)) - 1))"
    using base by (simp add: probe_command_text_def request_values_def Let_def)
  also have "\<dots> = Inr (foldl ?app (?l ?base) ?vs @ [NL])"
    unfolding txteq using len by (simp add: strncat_fits)
  finally show ?thesis by (simp add: txteq request_args_def)
qed

end
