(* ===== verification/Net.thy ===== *)
theory Net
  imports CmdPipe
begin

text \<open>
  \<open>ui/net.c\<close>: the table of hops with their statistics, the table of probe sequence numbers,
  and the batches that send one probe to every hop. The arrays \<open>host\<close> and \<open>sequence\<close>
  are functions of the index; \<open>NetInv\<close> shows that the code only uses indices inside
  the C arrays. Lines for the raw display are logged as events. A probe request that was written
  to the pipe is appended to \<open>pipe_written\<close>.
\<close>

abbreviation (input) MinSequence :: int where "MinSequence \<equiv> 33000"
abbreviation (input) MaxSequence :: int where "MaxSequence \<equiv> 65536"

section \<open>State\<close>

record nethost =
  h_addr :: ip_t
  h_addrs :: "ip_t list"
  h_err :: int
  h_xmit :: int
  h_returned :: int
  h_sent :: int
  h_up :: int
  h_ssd :: int
  h_last :: int
  h_best :: int
  h_worst :: int
  h_avg :: int
  h_gmean :: int
  h_jitter :: int
  h_javg :: int
  h_jworst :: int
  h_jinta :: int
  h_transit :: int
  h_saved :: "int list"
  h_saved_seq_offset :: int
  h_mpls :: mplslen
  h_mplss :: "mplslen list"

record seq_entry =
  sq_index :: int
  sq_transit :: int
  sq_saved_seq :: int
  sq_time :: "int \<times> int"

datatype raw_event = RawXmit int int | RawHost int ip_t | RawPing int ip_t int int

record net =
  host :: "int \<Rightarrow> nethost"
  sequence :: "int \<Rightarrow> seq_entry"
  packetsize :: int
  batch_at :: int
  numhosts :: int
  next_sequence :: int
  remoteaddress :: ip_t
  sourceaddress :: ip_t
  pipe_written :: "string list"
  raw_log :: "raw_event list"

abbreviation upd_host :: "int \<Rightarrow> (nethost \<Rightarrow> nethost) \<Rightarrow> net \<Rightarrow> net" where
  "upd_host index f s \<equiv> s\<lparr>host := (host s)(index := f (host s index))\<rparr>"

abbreviation upd_seq :: "int \<Rightarrow> (seq_entry \<Rightarrow> seq_entry) \<Rightarrow> net \<Rightarrow> net" where
  "upd_seq q f s \<equiv> s\<lparr>sequence := (sequence s)(q := f (sequence s q))\<rparr>"

section \<open>The display hooks\<close>

text \<open>\<open>ui/display.c\<close> passes these events on in raw mode only.\<close>

definition display_raw :: "mtr_ctl \<Rightarrow> raw_event \<Rightarrow> net \<Rightarrow> net" where
  "display_raw ctl e s =
     (if DisplayMode ctl = DisplayRaw then s\<lparr>raw_log := raw_log s @ [e]\<rparr> else s)"

definition display_rawxmit :: "mtr_ctl \<Rightarrow> int \<Rightarrow> int \<Rightarrow> net \<Rightarrow> net" where
  "display_rawxmit ctl h q = display_raw ctl (RawXmit h q)"

definition display_rawhost :: "mtr_ctl \<Rightarrow> int \<Rightarrow> ip_t \<Rightarrow> net \<Rightarrow> net" where
  "display_rawhost ctl h a = display_raw ctl (RawHost h a)"

definition display_rawping :: "mtr_ctl \<Rightarrow> int \<Rightarrow> int \<Rightarrow> int \<Rightarrow> net \<Rightarrow> net" where
  "display_rawping ctl h msec q s = display_raw ctl (RawPing h (h_addr (host s h)) msec q) s"

section \<open>The saved pings\<close>

definition shift_saved :: "nethost \<Rightarrow> nethost" where
  "shift_saved h = h\<lparr>h_saved := tl (h_saved h) @ [-2], h_saved_seq_offset := h_saved_seq_offset h + 1\<rparr>"

definition net_save_increment :: "net \<Rightarrow> net" where
  "net_save_increment s =
     s\<lparr>host := (\<lambda>hop. if 0 \<le> hop \<and> hop < int MaxHost then shift_saved (host s hop) else host s hop)\<rparr>"

definition net_save_xmit :: "int \<Rightarrow> net \<Rightarrow> net" where
  "net_save_xmit hop s =
     (let s = (if h_saved (host s hop) ! (SAVED_PINGS - 1) \<noteq> -2 then net_save_increment s else s)
      in upd_host hop (\<lambda>h. h\<lparr>h_saved := (h_saved h)[SAVED_PINGS - 1 := -1]\<rparr>) s)"

definition net_save_return :: "int \<Rightarrow> int \<Rightarrow> int \<Rightarrow> net \<Rightarrow> net" where
  "net_save_return hop q ms s =
     (let idx = q - h_saved_seq_offset (host s hop)
      in if idx < 0 \<or> int SAVED_PINGS \<le> idx then s
         else upd_host hop (\<lambda>h. h\<lparr>h_saved := (h_saved h)[nat idx := ms]\<rparr>) s)"

section \<open>Sending\<close>

definition save_sequence :: "mtr_ctl \<Rightarrow> int \<Rightarrow> int \<Rightarrow> net \<Rightarrow> net" where
  "save_sequence ctl index q s =
     (let s = display_rawxmit ctl index q s;
          s = upd_host index (\<lambda>h. h\<lparr>h_xmit := h_xmit h + 1\<rparr>) s;
          s = upd_seq q (\<lambda>e. e\<lparr>sq_index := index, sq_transit := 1,
                sq_saved_seq := h_xmit (host s index), sq_time := (0, 0)\<rparr>) s;
          s = upd_host index (\<lambda>h. h\<lparr>h_transit := 1\<rparr>) s;
          s = (if h_sent (host s index) \<noteq> 0 then upd_host index (\<lambda>h. h\<lparr>h_up := 0\<rparr>) s else s);
          s = upd_host index (\<lambda>h. h\<lparr>h_sent := 1\<rparr>) s
      in net_save_xmit index s)"

definition new_sequence :: "mtr_ctl \<Rightarrow> int \<Rightarrow> net \<Rightarrow> int \<times> net" where
  "new_sequence ctl index s =
     (let q = next_sequence s;
          s = s\<lparr>next_sequence := next_sequence s + 1\<rparr>;
          s = (if MaxSequence \<le> next_sequence s then s\<lparr>next_sequence := MinSequence\<rparr> else s)
      in (q, save_sequence ctl index q s))"

text \<open>\<open>net_send_query\<close>: the size that is sent is the global \<open>packetsize\<close>, not the
  parameter.\<close>

definition net_send_query ::
  "inet_env \<Rightarrow> (string \<Rightarrow> bool) \<Rightarrow> mtr_ctl \<Rightarrow> int \<Rightarrow> int \<Rightarrow> net \<Rightarrow> ui_exit + net" where
  "net_send_query env write_ok ctl index packet_size s =
     (case new_sequence ctl index s of
        (q, s) \<Rightarrow>
          (let time_to_live = index + 1
           in and_then (send_probe_command env write_ok ctl (remoteaddress s) (sourceaddress s)
                         (packetsize s) q time_to_live)
                (\<lambda>written. Inr (s\<lparr>pipe_written := pipe_written s @ [written]\<rparr>))))"

section \<open>Replies\<close>

definition mark_sequence_complete :: "int \<Rightarrow> net \<Rightarrow> int \<times> net" where
  "mark_sequence_complete q s =
     (if q < 0 \<or> MaxSequence \<le> q then (-1, s)
      else if sq_transit (sequence s q) = 0 then (-1, s)
      else (sq_index (sequence s q), upd_seq q (\<lambda>e. e\<lparr>sq_transit := 0\<rparr>) s))"

text \<open>The search of \<open>net_process_ping\<close> for the address among a hop's paths: the first path
  that is this address or is free, or \<open>MAXPATH\<close>.\<close>

function find_path :: "mtr_ctl \<Rightarrow> ip_t list \<Rightarrow> ip_t \<Rightarrow> nat \<Rightarrow> nat" where
  "find_path ctl addrs addrcopy i =
     (if i < MAXPATH then
        if addrcmp (addrs ! i) addrcopy (af ctl) = 0 \<or> addrcmp (addrs ! i) (unspec_addr ctl) (af ctl) = 0
        then i else find_path ctl addrs addrcopy (Suc i)
      else i)"
  by pat_completeness auto
termination
  by (relation "measure (\<lambda>(c, as, a, i). MAXPATH - i)") auto

declare find_path.simps [simp del]

text \<open>The address part of \<open>net_process_ping\<close>.\<close>

definition record_address :: "mtr_ctl \<Rightarrow> int \<Rightarrow> mplslen \<Rightarrow> ip_t \<Rightarrow> net \<Rightarrow> net" where
  "record_address ctl index mpls addrcopy s =
     (let h = host s index
      in if addrcmp (h_addr h) (unspec_addr ctl) (af ctl) = 0 then
           (let s = upd_host index (\<lambda>h. h\<lparr>h_addr := addrcpy (h_addr h) addrcopy (af ctl),
                      h_mpls := mpls\<rparr>) s;
                s = display_rawhost ctl index (h_addr (host s index)) s
            in upd_host index (\<lambda>h. h\<lparr>
                 h_addrs := (h_addrs h)[0 := addrcpy (h_addrs h ! 0) addrcopy (af ctl)],
                 h_mplss := (h_mplss h)[0 := mpls]\<rparr>) s)
         else
           (let i = find_path ctl (h_addrs h) addrcopy 0
            in if i < MAXPATH \<and> addrcmp (h_addrs h ! i) addrcopy (af ctl) \<noteq> 0 then
                 (let s = upd_host index (\<lambda>h. h\<lparr>
                        h_addrs := (h_addrs h)[i := addrcpy (h_addrs h ! i) addrcopy (af ctl)],
                        h_mplss := (h_mplss h)[i := mpls]\<rparr>) s
                  in display_rawhost ctl index (h_addrs (host s index) ! i) s)
               else s))"

text \<open>The statistics part of \<open>net_process_ping\<close>, in its steps: the jitter against the
  last round trip time, the initial values at the first reply, the extremes, the running averages
  and the geometric mean.\<close>

definition stats_jitter :: "int \<Rightarrow> nethost \<Rightarrow> nethost" where
  "stats_jitter totusec h =
     (let j = totusec - h_last h
      in h\<lparr>h_jitter := (if j < 0 then - j else j), h_last := totusec\<rparr>)"

definition stats_first :: "int \<Rightarrow> nethost \<Rightarrow> nethost" where
  "stats_first totusec h =
     (if h_returned h < 1 then
        h\<lparr>h_best := totusec, h_worst := totusec, h_gmean := totusec, h_avg := 0, h_ssd := 0,
          h_jitter := 0, h_jworst := 0, h_jinta := 0\<rparr>
      else h)"

definition stats_extremes :: "int \<Rightarrow> nethost \<Rightarrow> nethost" where
  "stats_extremes totusec h =
     h\<lparr>h_best := (if totusec < h_best h then totusec else h_best h),
       h_worst := (if h_worst h < totusec then totusec else h_worst h),
       h_jworst := (if h_jworst h < h_jitter h then h_jitter h else h_jworst h)\<rparr>"

definition stats_averages :: "fp_env \<Rightarrow> int \<Rightarrow> nethost \<Rightarrow> nethost" where
  "stats_averages fp totusec h =
     (let n = h_returned h + 1;
          oldavg = h_avg h;
          avg = c_trunc (rnd fp (of_int oldavg + rnd fp (of_int (totusec - oldavg) / of_int n)));
          oldjavg = h_javg h
      in h\<lparr>h_returned := n, h_avg := avg,
           h_ssd := c_trunc (rnd fp (rnd fp (of_int (h_ssd h))
                      + rnd fp (of_int (totusec - oldavg) * of_int (totusec - avg)))),
           h_javg := oldjavg + c_div (h_jitter h - oldjavg) n,
           h_jinta := h_jinta h + (h_jitter h - (h_jinta h + 8) div 16)\<rparr>)"

definition stats_gmean :: "fp_env \<Rightarrow> int \<Rightarrow> nethost \<Rightarrow> nethost" where
  "stats_gmean fp totusec h =
     (if 1 < h_returned h then
        h\<lparr>h_gmean := c_trunc (rnd fp
           (fp_pow fp (of_int (h_gmean h))
              (rnd fp (rnd fp (of_int (h_returned h) - 1) / of_int (h_returned h)))
            * fp_pow fp (of_int totusec) (rnd fp (1 / of_int (h_returned h)))))\<rparr>
      else h)"

definition update_stats :: "fp_env \<Rightarrow> int \<Rightarrow> nethost \<Rightarrow> nethost" where
  "update_stats fp totusec h =
     stats_gmean fp totusec (stats_averages fp totusec
       (stats_extremes totusec (stats_first totusec (stats_jitter totusec h))))"

definition net_process_ping ::
  "fp_env \<Rightarrow> mtr_ctl \<Rightarrow> int \<Rightarrow> int \<Rightarrow> mplslen \<Rightarrow> ip_t \<Rightarrow> int \<Rightarrow> net \<Rightarrow> net" where
  "net_process_ping fp ctl q err mpls addr totusec s =
     (let addrcopy = addrcpy zero_ip addr (af ctl)
      in case mark_sequence_complete q s of (index, s) \<Rightarrow>
           if index < 0 then s
           else
             (let s = upd_host index (\<lambda>h. h\<lparr>h_err := err\<rparr>) s;
                  s = record_address ctl index mpls addrcopy s;
                  s = upd_host index (update_stats fp totusec) s;
                  s = upd_host index (\<lambda>h. h\<lparr>h_sent := 0, h_up := 1, h_transit := 0\<rparr>) s;
                  s = net_save_return index (sq_saved_seq (sequence s q)) totusec s
              in display_rawping ctl index totusec q s))"

text \<open>\<open>net_process_return\<close>: reply lines are handled with \<open>net_process_ping\<close> as the
  callback.\<close>

definition net_process_return ::
  "inet_env \<Rightarrow> fp_env \<Rightarrow> mtr_ctl \<Rightarrow> errno + string \<Rightarrow> string \<Rightarrow> net \<Rightarrow> ui_exit + (string \<times> net)" where
  "net_process_return env fp ctl available reply_buffer s =
     handle_command_replies env ctl (net_process_ping fp ctl) available reply_buffer s"

section \<open>Accessors\<close>

definition net_addr :: "net \<Rightarrow> int \<Rightarrow> ip_t" where "net_addr s hop = h_addr (host s hop)"
definition net_addrs :: "net \<Rightarrow> int \<Rightarrow> nat \<Rightarrow> ip_t" where "net_addrs s hop i = h_addrs (host s hop) ! i"
definition net_err :: "net \<Rightarrow> int \<Rightarrow> int" where "net_err s hop = h_err (host s hop)"

text \<open>\<open>net_mpls\<close> answers the first entry of \<open>mplss\<close>, not the field \<open>mpls\<close>.\<close>

definition net_mplss :: "net \<Rightarrow> int \<Rightarrow> nat \<Rightarrow> mplslen" where "net_mplss s hop i = h_mplss (host s hop) ! i"
definition net_mpls :: "net \<Rightarrow> int \<Rightarrow> mplslen" where "net_mpls s hop = net_mplss s hop 0"

definition net_loss :: "fp_env \<Rightarrow> net \<Rightarrow> int \<Rightarrow> int" where
  "net_loss fp s hop =
     (let h = host s hop
      in if h_xmit h - h_transit h = 0 then 0
         else c_trunc (rnd fp (1000 * rnd fp (100 -
                rnd fp (rnd fp (100 * of_int (h_returned h)) / of_int (h_xmit h - h_transit h))))))"

definition net_drop :: "net \<Rightarrow> int \<Rightarrow> int" where
  "net_drop s hop = (h_xmit (host s hop) - h_transit (host s hop)) - h_returned (host s hop)"

definition net_last :: "net \<Rightarrow> int \<Rightarrow> int" where "net_last s hop = h_last (host s hop)"
definition net_best :: "net \<Rightarrow> int \<Rightarrow> int" where "net_best s hop = h_best (host s hop)"
definition net_worst :: "net \<Rightarrow> int \<Rightarrow> int" where "net_worst s hop = h_worst (host s hop)"
definition net_avg :: "net \<Rightarrow> int \<Rightarrow> int" where "net_avg s hop = h_avg (host s hop)"
definition net_gmean :: "net \<Rightarrow> int \<Rightarrow> int" where "net_gmean s hop = h_gmean (host s hop)"

definition net_stdev :: "fp_env \<Rightarrow> net \<Rightarrow> int \<Rightarrow> int" where
  "net_stdev fp s hop =
     (let h = host s hop
      in if 1 < h_returned h
         then c_trunc (fp_sqrt fp (rnd fp (rnd fp (of_int (h_ssd h)) / (rnd fp (of_int (h_returned h) - 1)))))
         else 0)"

definition net_jitter :: "net \<Rightarrow> int \<Rightarrow> int" where "net_jitter s hop = h_jitter (host s hop)"
definition net_jworst :: "net \<Rightarrow> int \<Rightarrow> int" where "net_jworst s hop = h_jworst (host s hop)"
definition net_javg :: "net \<Rightarrow> int \<Rightarrow> int" where "net_javg s hop = h_javg (host s hop)"
definition net_jinta :: "net \<Rightarrow> int \<Rightarrow> int" where "net_jinta s hop = h_jinta (host s hop)"
definition net_returned :: "net \<Rightarrow> int \<Rightarrow> int" where "net_returned s hop = h_returned (host s hop)"
definition net_xmit :: "net \<Rightarrow> int \<Rightarrow> int" where "net_xmit s hop = h_xmit (host s hop)"
definition net_up :: "net \<Rightarrow> int \<Rightarrow> int" where "net_up s hop = h_up (host s hop)"
definition net_saved_pings :: "net \<Rightarrow> int \<Rightarrow> int list" where "net_saved_pings s hop = h_saved (host s hop)"

function net_max_loop :: "mtr_ctl \<Rightarrow> net \<Rightarrow> int \<Rightarrow> int \<Rightarrow> int" where
  "net_max_loop ctl s hop mx =
     (if hop < maxTTL ctl then
        if addrcmp (h_addr (host s hop)) (remoteaddress s) (af ctl) = 0 then hop + 1
        else if h_err (host s hop) \<noteq> 0 then hop + 1
        else net_max_loop ctl s (hop + 1)
               (if addrcmp (h_addr (host s hop)) (unspec_addr ctl) (af ctl) \<noteq> 0 then hop + 2 else mx)
      else if maxTTL ctl < mx then maxTTL ctl else mx)"
  by pat_completeness auto
termination
  by (relation "measure (\<lambda>(c, s, hop, m). nat (maxTTL c - hop))") auto

declare net_max_loop.simps [simp del]

definition net_max :: "mtr_ctl \<Rightarrow> net \<Rightarrow> int" where
  "net_max ctl s = net_max_loop ctl s 0 0"

definition net_min :: "mtr_ctl \<Rightarrow> int" where
  "net_min ctl = fstTTL ctl - 1"

section \<open>Batches\<close>

definition calc_deltatime :: "fp_env \<Rightarrow> net \<Rightarrow> rat \<Rightarrow> int" where
  "calc_deltatime fp s waittime =
     (let waittime = rndf fp (waittime / of_int (numhosts s))
      in c_trunc (rndf fp (1000000 * waittime)))"

definition net_end_transit :: "net \<Rightarrow> net" where
  "net_end_transit s =
     s\<lparr>host := (\<lambda>hop. if 0 \<le> hop \<and> hop < int MaxHost then (host s hop)\<lparr>h_transit := 0\<rparr> else host s hop)\<rparr>"

text \<open>At the start of a batch a random packet size and bit pattern are drawn where the options
  ask for them (\<open>r1\<close> and \<open>r2\<close> are the values of \<open>rand ()\<close>, up to \<open>RAND_MAX\<close>).\<close>

abbreviation (input) RAND_MAX :: int where "RAND_MAX \<equiv> 2147483647"

definition choose_packet ::
  "fp_env \<Rightarrow> int \<Rightarrow> int \<Rightarrow> mtr_ctl \<Rightarrow> net \<Rightarrow> mtr_ctl \<times> net" where
  "choose_packet fp r1 r2 ctl s =
     (if batch_at s < fstTTL ctl then
        (let s = s\<lparr>packetsize := (if cpacketsize ctl < 0
                     then MINPACKET + c_mod r1 (- cpacketsize ctl - MINPACKET)
                     else cpacketsize ctl)\<rparr>;
             ctl = (if bitpattern ctl < 0
                    then ctl\<lparr>bitpattern := - c_trunc (rnd fp (256 + rnd fp (255 *
                           rnd fp (of_int r2 / rnd fp (of_int RAND_MAX + 1 / 10)))))\<rparr>
                    else ctl)
         in (ctl, s))
      else (ctl, s))"

function count_unknown :: "mtr_ctl \<Rightarrow> net \<Rightarrow> int \<Rightarrow> int \<Rightarrow> int" where
  "count_unknown ctl s i n_unknown =
     (if i < batch_at s then
        (let n_unknown = (if addrcmp (h_addr (host s i)) (unspec_addr ctl) (af ctl) = 0
                          then n_unknown + 1 else n_unknown);
             n_unknown = (if addrcmp (h_addr (host s i)) (remoteaddress s) (af ctl) = 0
                          then int MaxHost else n_unknown)
         in count_unknown ctl s (i + 1) n_unknown)
      else n_unknown)"
  by pat_completeness auto
termination
  by (relation "measure (\<lambda>(c, s, i, n). nat (batch_at s - i))") auto

declare count_unknown.simps [simp del]

definition batch_done :: "mtr_ctl \<Rightarrow> net \<Rightarrow> bool" where
  "batch_done ctl s \<longleftrightarrow>
     addrcmp (h_addr (host s (batch_at s))) (remoteaddress s) (af ctl) = 0
     \<or> maxUnknown ctl < count_unknown ctl s (fstTTL ctl - 1) 0
     \<or> maxTTL ctl - 1 \<le> batch_at s"

text \<open>The result of \<open>net_send_batch\<close> is its return value, 1 when a batch is complete, with the
  options (the bit pattern may have been drawn) and the state.\<close>

text \<open>A packet size of -28 makes the remainder of the random number one by zero, which ends the program.\<close>

definition size_faults :: "mtr_ctl \<Rightarrow> net \<Rightarrow> bool" where
  "size_faults ctl s \<longleftrightarrow> batch_at s < fstTTL ctl \<and> cpacketsize ctl = - MINPACKET"

definition net_send_batch ::
  "inet_env \<Rightarrow> (string \<Rightarrow> bool) \<Rightarrow> fp_env \<Rightarrow> int \<Rightarrow> int \<Rightarrow> mtr_ctl \<Rightarrow> net
     \<Rightarrow> ui_exit + (int \<times> mtr_ctl \<times> net)" where
  "net_send_batch env write_ok fp r1 r2 ctl s =
     (if size_faults ctl s then Inl ''remainder by zero''
      else case choose_packet fp r1 r2 ctl s of (ctl, s) \<Rightarrow>
        and_then (net_send_query env write_ok ctl (batch_at s) \<bar>packetsize s\<bar> s)
          (\<lambda>s. Inr (if batch_done ctl s
                    then (1, ctl, s\<lparr>numhosts := batch_at s + 1, batch_at := fstTTL ctl - 1\<rparr>)
                    else (0, ctl, s\<lparr>batch_at := batch_at s + 1\<rparr>))))"

section \<open>Reset\<close>

definition template_host :: nethost where
  "template_host = \<lparr>h_addr = zero_ip, h_addrs = replicate MAXPATH zero_ip, h_err = 0, h_xmit = 0,
     h_returned = 0, h_sent = 0, h_up = 0, h_ssd = 0, h_last = 0, h_best = 0, h_worst = 0, h_avg = 0,
     h_gmean = 0, h_jitter = 0, h_javg = 0, h_jworst = 0, h_jinta = 0, h_transit = 0,
     h_saved = replicate SAVED_PINGS (-2), h_saved_seq_offset = 2 - int SAVED_PINGS,
     h_mpls = zero_mpls, h_mplss = replicate MAXPATH zero_mpls\<rparr>"

definition net_reset :: "mtr_ctl \<Rightarrow> net \<Rightarrow> net" where
  "net_reset ctl s =
     s\<lparr>batch_at := fstTTL ctl - 1, numhosts := 10,
       host := (\<lambda>hop. if 0 \<le> hop \<and> hop < int MaxHost then template_host else host s hop),
       sequence := (\<lambda>hop. if 0 \<le> hop \<and> hop < MaxSequence then (sequence s hop)\<lparr>sq_transit := 0\<rparr>
                         else sequence s hop)\<rparr>"

text \<open>\<open>net_reopen\<close> turns to a new target.\<close>

definition net_reopen ::
  "inet_env \<Rightarrow> (string \<Rightarrow> bool) \<Rightarrow> fp_env \<Rightarrow> int \<Rightarrow> int \<Rightarrow> family \<Rightarrow> u8 list \<Rightarrow> mtr_ctl \<Rightarrow> net
     \<Rightarrow> ui_exit + (mtr_ctl \<times> net)" where
  "net_reopen env write_ok fp r1 r2 h_addrtype new_addr ctl s =
     (if h_addrtype = AF_UNSPEC then Inl ''net_reopen bad address type''
      else (let s = net_reset ctl
                      (s\<lparr>remoteaddress := addrcpy (remoteaddress s) new_addr h_addrtype\<rparr>)
            in and_then (net_send_batch env write_ok fp r1 r2 ctl s) (\<lambda>(_, ctl, s). Inr (ctl, s))))"

end
