(* ===== verification/NetInv.thy ===== *)
theory NetInv
  imports Net
begin

text \<open>
  The invariants of \<open>ui/net.c\<close>: the statistics of a hop stay ordered and bounded, the
  counters of sent, returned and lost probes agree with the sequence table, batches stay between
  the first and the last TTL, and no array is indexed outside its bounds. They are proved for
  each operation and lifted to the reachable states of the step relation \<open>net_step\<close>, whose
  steps are what \<open>select_loop\<close> and \<open>main\<close> do with the module.
\<close>

section \<open>Fields after an update of the statistics\<close>

named_theorems stats_sel

lemmas stats_defs = update_stats_def stats_jitter_def stats_first_def stats_extremes_def
  stats_averages_def stats_gmean_def Let_def

lemma update_stats_other [stats_sel]:
  "h_addr (update_stats fp t h) = h_addr h" "h_addrs (update_stats fp t h) = h_addrs h"
  "h_err (update_stats fp t h) = h_err h" "h_xmit (update_stats fp t h) = h_xmit h"
  "h_transit (update_stats fp t h) = h_transit h" "h_saved (update_stats fp t h) = h_saved h"
  "h_saved_seq_offset (update_stats fp t h) = h_saved_seq_offset h"
  "h_mplss (update_stats fp t h) = h_mplss h" "h_sent (update_stats fp t h) = h_sent h"
  "h_returned (update_stats fp t h) = h_returned h + 1"
  "h_last (update_stats fp t h) = t"
  by (simp_all add: stats_defs)

lemma update_stats_best [stats_sel]:
  "h_best (update_stats fp t h) = (if h_returned h < 1 then t else min t (h_best h))"
  by (simp add: stats_defs)

lemma update_stats_worst [stats_sel]:
  "h_worst (update_stats fp t h) = (if h_returned h < 1 then t else max t (h_worst h))"
  by (simp add: stats_defs)

lemma update_stats_jitter [stats_sel]:
  "h_jitter (update_stats fp t h) = (if h_returned h < 1 then 0 else \<bar>t - h_last h\<bar>)"
  by (simp add: stats_defs)

lemma update_stats_jworst [stats_sel]:
  "h_jworst (update_stats fp t h) = (if h_returned h < 1 then 0 else max \<bar>t - h_last h\<bar> (h_jworst h))"
  by (simp add: stats_defs)

lemma update_stats_avg [stats_sel]:
  "h_avg (update_stats fp t h) =
     (let old = (if h_returned h < 1 then 0 else h_avg h)
      in c_trunc (rnd fp (of_int old + rnd fp (of_int (t - old) / of_int (h_returned h + 1)))))"
  by (simp add: stats_defs)

lemma update_stats_javg [stats_sel]:
  "h_javg (update_stats fp t h) = h_javg h
     + c_div ((if h_returned h < 1 then 0 else \<bar>t - h_last h\<bar>) - h_javg h) (h_returned h + 1)"
  by (simp add: stats_defs)

lemma update_stats_jinta [stats_sel]:
  "h_jinta (update_stats fp t h) =
     (let j = (if h_returned h < 1 then 0 else h_jinta h)
      in j + ((if h_returned h < 1 then 0 else \<bar>t - h_last h\<bar>) - (j + 8) div 16))"
  by (simp add: stats_defs)

section \<open>Statistics of a hop\<close>

text \<open>Round trip times lie between 0 and \<open>T\<close> microseconds. Before the first reply only
  \<open>javg\<close> has to be as the reset left it; afterwards the extremes enclose the last and the
  average value, and the jitter values are bounded by the worst jitter, which is bounded by the
  spread of the times.\<close>

definition stats_ok :: "int \<Rightarrow> nethost \<Rightarrow> bool" where
  "stats_ok T h \<longleftrightarrow>
     (if h_returned h < 1 then h_returned h = 0 \<and> h_javg h = 0
      else 0 \<le> h_best h \<and> h_best h \<le> h_last h \<and> h_last h \<le> h_worst h \<and> h_worst h \<le> T
        \<and> h_best h \<le> h_avg h \<and> h_avg h \<le> h_worst h
        \<and> 0 \<le> h_jitter h \<and> h_jitter h \<le> h_jworst h \<and> h_jworst h \<le> h_worst h - h_best h
        \<and> 0 \<le> h_javg h \<and> h_javg h \<le> h_jworst h
        \<and> 0 \<le> h_jinta h \<and> h_jinta h \<le> 16 * h_jworst h + 7)"

text \<open>A running average step stays between the old average and the new value.\<close>

lemma average_between:
  assumes "fp_ok fp" and "0 < n" and "0 \<le> old" "old \<le> INT_MAX" and "0 \<le> t" "t \<le> INT_MAX"
  shows "min old t \<le> c_trunc (rnd fp (of_int old + rnd fp (of_int (t - old) / of_int n)))"
    and "c_trunc (rnd fp (of_int old + rnd fp (of_int (t - old) / of_int n))) \<le> max old t"
proof -
  let ?q = "of_int (t - old) / of_int n :: rat"
  have n: "1 \<le> (of_int n :: rat)" using assms(2) by simp
  have quot: "of_int (min 0 d) \<le> of_int d / (of_int n :: rat)
      \<and> of_int d / (of_int n :: rat) \<le> of_int (max 0 d)" for d
  proof (cases "0 \<le> d")
    case True
    then have "of_int d / (of_int n :: rat) \<le> of_int d / 1"
      by (intro divide_left_mono) (use n in auto)
    with True n show ?thesis by (simp add: min_def max_def)
  next
    case False
    then have "of_int d / 1 \<le> of_int d / (of_int n :: rat)"
      by (intro divide_left_mono_neg) (use n in auto)
    moreover have "of_int d / (of_int n :: rat) \<le> 0"
      using False n by (simp add: divide_nonpos_pos)
    ultimately show ?thesis using False by (simp add: min_def max_def)
  qed
  then have q: "of_int (min 0 (t - old)) \<le> ?q" "?q \<le> of_int (max 0 (t - old))"
    by blast+
  have r: "of_int (min 0 (t - old)) \<le> rnd fp ?q \<and> rnd fp ?q \<le> of_int (max 0 (t - old))"
    by (rule rnd_between [OF assms(1) q]) (use assms in linarith)+
  then have s: "of_int (min old t) \<le> of_int old + rnd fp ?q \<and> of_int old + rnd fp ?q \<le> of_int (max old t)"
    by (cases "old \<le> t") (simp_all add: min_def max_def)
  have "of_int (min old t) \<le> rnd fp (of_int old + rnd fp ?q)
      \<and> rnd fp (of_int old + rnd fp ?q) \<le> of_int (max old t)"
    by (rule rnd_between [OF assms(1)]) (use s assms in auto)
  then show "min old t \<le> c_trunc (rnd fp (of_int old + rnd fp ?q))"
    and "c_trunc (rnd fp (of_int old + rnd fp ?q)) \<le> max old t"
    using c_trunc_between by blast+
qed

text \<open>The smoothed jitter estimate of RFC 1889 keeps below sixteen times the worst jitter.\<close>

lemma jinta_bounds:
  fixes j d w :: int
  assumes "0 \<le> j" "j \<le> 16 * w + 7" "0 \<le> d" "d \<le> w"
  shows "0 \<le> j + (d - (j + 8) div 16)" and "j + (d - (j + 8) div 16) \<le> 16 * w + 7"
proof -
  define k where "k = (j + 8) div 16"
  have "16 * k \<le> j + 8" "j + 8 < 16 * k + 16"
    unfolding k_def by linarith+
  with assms show "0 \<le> j + (d - (j + 8) div 16)" and "j + (d - (j + 8) div 16) \<le> 16 * w + 7"
    unfolding k_def [symmetric] by linarith+
qed

lemma stats_ok_update_stats:
  assumes fp: "fp_ok fp" and ok: "stats_ok T h" and t: "0 \<le> t" "t \<le> T" and T: "T \<le> INT_MAX"
  shows "stats_ok T (update_stats fp t h)"
proof (cases "h_returned h < 1")
  case True
  have avg: "h_avg (update_stats fp t h) = t"
    using True ok average_between [OF fp, of 1 0 t] t T fp
    by (simp add: stats_sel stats_ok_def fp_ok_def Let_def)
  have ext: "h_best (update_stats fp t h) = t" "h_worst (update_stats fp t h) = t"
    "h_jitter (update_stats fp t h) = 0" "h_jworst (update_stats fp t h) = 0"
    "h_jinta (update_stats fp t h) = 0" "h_javg (update_stats fp t h) = 0"
    using True ok by (simp_all add: stats_sel stats_ok_def Let_def c_div_def)
  show ?thesis using True ok t by (simp add: stats_ok_def stats_sel(1-11) avg ext)
next
  case False
  let ?h = "update_stats fp t h" and ?d = "\<bar>t - h_last h\<bar>"
  have i: "0 \<le> h_best h" "h_best h \<le> h_last h" "h_last h \<le> h_worst h" "h_worst h \<le> T"
    "h_best h \<le> h_avg h" "h_avg h \<le> h_worst h" "0 \<le> h_jitter h" "h_jitter h \<le> h_jworst h"
    "h_jworst h \<le> h_worst h - h_best h" "0 \<le> h_javg h" "h_javg h \<le> h_jworst h"
    "0 \<le> h_jinta h" "h_jinta h \<le> 16 * h_jworst h + 7"
    using ok False by (simp_all add: stats_ok_def)
  have n: "0 < h_returned h + 1" using False by simp
  have e: "h_best ?h = min t (h_best h)" "h_worst ?h = max t (h_worst h)" "h_jitter ?h = ?d"
    "h_jworst ?h = max ?d (h_jworst h)" "h_last ?h = t" "h_returned ?h = h_returned h + 1"
    using False by (simp_all add: stats_sel)
  have avg: "min (h_avg h) t \<le> h_avg ?h \<and> h_avg ?h \<le> max (h_avg h) t"
    using False average_between [OF fp n, of "h_avg h" t] i t T by (simp add: stats_sel Let_def)
  have javg: "0 \<le> h_javg ?h \<and> h_javg ?h \<le> max ?d (h_jworst h)"
  proof -
    have "h_javg ?h = h_javg h + c_div (?d - h_javg h) (h_returned h + 1)"
      using False by (simp add: stats_sel)
    then show ?thesis
      using c_div_between [OF n, of "?d - h_javg h"] i(10,11) by linarith
  qed
  have jinta: "0 \<le> h_jinta ?h \<and> h_jinta ?h \<le> 16 * max ?d (h_jworst h) + 7"
  proof -
    have "h_jinta ?h = h_jinta h + (?d - (h_jinta h + 8) div 16)"
      using False by (simp add: stats_sel Let_def)
    moreover have "h_jinta h \<le> 16 * max ?d (h_jworst h) + 7"
      by (rule order_trans [OF i(13)]) simp
    moreover have "0 \<le> ?d" "?d \<le> max ?d (h_jworst h)" by simp_all
    ultimately show ?thesis
      using jinta_bounds [of "h_jinta h" "max ?d (h_jworst h)" ?d] i(12) by simp
  qed
  have "0 \<le> h_best ?h" "h_best ?h \<le> t" "t \<le> h_worst ?h" "h_worst ?h \<le> T"
    "h_best ?h \<le> h_avg ?h" "h_avg ?h \<le> h_worst ?h" "?d \<le> h_worst ?h - h_best ?h"
    "h_jworst ?h \<le> h_worst ?h - h_best ?h"
    using i t avg unfolding e by linarith+
  then show ?thesis
    using False n javg jinta by (simp add: stats_ok_def e)
qed

section \<open>The paths of a hop\<close>

text \<open>An address counts up to the length of its family. \<open>keys\<close> lists the addresses of a
  hop; a free entry has the unspecified address. The known addresses are distinct, they precede
  the free entries, and the first of them is the hop's \<open>addr\<close>.\<close>

definition addr_key :: "mtr_ctl \<Rightarrow> ip_t \<Rightarrow> u8 list" where
  "addr_key ctl a = take (addr_len (af ctl)) a"

definition free_key :: "mtr_ctl \<Rightarrow> u8 list" where
  "free_key ctl = addr_key ctl (unspec_addr ctl)"

definition path_keys :: "mtr_ctl \<Rightarrow> nethost \<Rightarrow> u8 list list" where
  "path_keys ctl h = map (addr_key ctl) (h_addrs h)"

definition known_keys :: "mtr_ctl \<Rightarrow> nethost \<Rightarrow> u8 list list" where
  "known_keys ctl h = takeWhile (\<lambda>k. k \<noteq> free_key ctl) (path_keys ctl h)"

definition paths_ok :: "mtr_ctl \<Rightarrow> nethost \<Rightarrow> bool" where
  "paths_ok ctl h \<longleftrightarrow>
     is_ip (h_addr h) \<and> length (h_addrs h) = MAXPATH \<and> list_all is_ip (h_addrs h)
     \<and> length (h_mplss h) = MAXPATH
     \<and> distinct (known_keys ctl h)
     \<and> list_all (\<lambda>k. k = free_key ctl) (drop (length (known_keys ctl h)) (path_keys ctl h))
     \<and> addr_key ctl (h_addr h) = path_keys ctl h ! 0"

definition ctl_ok :: "mtr_ctl \<Rightarrow> bool" where
  "ctl_ok ctl \<longleftrightarrow> af ctl \<noteq> AF_UNSPEC \<and> unspec_addr ctl = zero_ip
     \<and> 1 \<le> fstTTL ctl \<and> fstTTL ctl \<le> maxTTL ctl \<and> maxTTL ctl \<le> 255"

lemma addrcmp_key:
  "ctl_ok ctl \<Longrightarrow> is_ip a \<Longrightarrow> is_ip b \<Longrightarrow> addrcmp a b (af ctl) = 0 \<longleftrightarrow> addr_key ctl a = addr_key ctl b"
  by (simp add: addrcmp_eq_0 addr_key_def ctl_ok_def)

lemma addr_key_addrcpy:
  "is_ip a \<Longrightarrow> addr_key ctl (addrcpy d a (af ctl)) = addr_key ctl a"
  unfolding addr_key_def by (rule take_addrcpy) (auto simp: is_ip_def addr_len_def split: family.splits)

lemma is_ip_addrcpy_ip: "is_ip d \<Longrightarrow> is_ip a \<Longrightarrow> is_ip (addrcpy d a fam)"
  by (rule is_ip_addrcpy) (auto simp: is_ip_def addr_len_def split: family.splits)

text \<open>The search stops at the first entry with the wanted or the free key.\<close>

lemma find_path_spec:
  assumes "ctl_ok ctl" and "list_all is_ip addrs" and "length addrs = MAXPATH" and "is_ip a" and "i \<le> MAXPATH"
  shows "i \<le> find_path ctl addrs a i \<and> find_path ctl addrs a i \<le> MAXPATH
    \<and> (\<forall>j. i \<le> j \<and> j < find_path ctl addrs a i \<longrightarrow>
          addr_key ctl (addrs ! j) \<noteq> addr_key ctl a \<and> addr_key ctl (addrs ! j) \<noteq> free_key ctl)
    \<and> (find_path ctl addrs a i < MAXPATH \<longrightarrow>
          addr_key ctl (addrs ! find_path ctl addrs a i) = addr_key ctl a
          \<or> addr_key ctl (addrs ! find_path ctl addrs a i) = free_key ctl)"
  using assms(5)
proof (induction "MAXPATH - i" arbitrary: i)
  case 0
  then have i: "i = MAXPATH" by simp
  have "find_path ctl addrs a MAXPATH = MAXPATH" by (simp add: find_path.simps [of ctl addrs a MAXPATH])
  then show ?case unfolding i by auto
next
  case (Suc n)
  then have i: "i < MAXPATH" by simp
  have ip: "is_ip (addrs ! i)" "is_ip (unspec_addr ctl)"
    using assms i by (auto simp: list_all_length ctl_ok_def)
  have stop: "(addrcmp (addrs ! i) a (af ctl) = 0 \<or> addrcmp (addrs ! i) (unspec_addr ctl) (af ctl) = 0)
      \<longleftrightarrow> addr_key ctl (addrs ! i) = addr_key ctl a \<or> addr_key ctl (addrs ! i) = free_key ctl"
    using addrcmp_key [OF assms(1) ip(1)] assms(4) ip(2) by (simp add: free_key_def)
  show ?case
  proof (cases "addr_key ctl (addrs ! i) = addr_key ctl a \<or> addr_key ctl (addrs ! i) = free_key ctl")
    case True
    with stop i have e: "find_path ctl addrs a i = i"
      by (simp only: find_path.simps [of ctl addrs a i] if_True)
    show ?thesis unfolding e using True i by auto
  next
    case False
    with stop i have e: "find_path ctl addrs a i = find_path ctl addrs a (Suc i)"
      by (simp only: find_path.simps [of ctl addrs a i] if_True if_False)
    have "n = MAXPATH - Suc i" "Suc i \<le> MAXPATH" using Suc.hyps i by simp_all
    note ih = Suc.hyps(1) [OF this]
    show ?thesis
      unfolding e using ih False by (metis Suc_leD Suc_leI le_neq_implies_less)
  qed
qed

text \<open>Writing a new key into the first free place keeps the list in order.\<close>

lemma known_insert:
  fixes u :: "'a"
  defines "kn \<equiv> \<lambda>ks. takeWhile (\<lambda>k. k \<noteq> u) ks"
  assumes "distinct (kn ks)" and "list_all (\<lambda>k. k = u) (drop (length (kn ks)) ks)"
    and "i < length ks" and "\<forall>j < i. ks ! j \<noteq> u \<and> ks ! j \<noteq> key" and "ks ! i = u" and "key \<noteq> u"
  shows "kn (ks[i := key]) = kn ks @ [key] \<and> distinct (kn ks @ [key])
    \<and> list_all (\<lambda>k. k = u) (drop (length (kn ks @ [key])) (ks[i := key]))"
proof -
  have take: "kn ks = take i ks"
  proof -
    show ?thesis
      unfolding kn_def by (rule takeWhile_eq_take_P_nth) (use assms(5,6) in auto)
  qed
  have len: "length (kn ks) = i" using take assms(4) by simp
  have free: "\<forall>k \<in> set (drop (Suc i) ks). k = u"
    using assms(3) unfolding len list_all_iff
    by (meson in_mono le_Suc_eq order_refl set_drop_subset_set_drop)
  have upd: "ks[i := key] = take i ks @ key # drop (Suc i) ks"
    using assms(4) by (rule upd_conv_take_nth_drop)
  have "takeWhile (\<lambda>k. k \<noteq> u) (drop (Suc i) ks) = []"
    using free by (cases "drop (Suc i) ks") auto
  moreover have ne: "\<forall>x \<in> set (take i ks). x \<noteq> u \<and> x \<noteq> key"
    using assms(4,5) by (metis in_set_conv_nth length_take min.strict_boundedE nth_take)
  ultimately have "kn (ks[i := key]) = kn ks @ [key]"
    unfolding upd take by (simp add: kn_def assms(7))
  moreover have "key \<notin> set (kn ks)"
    unfolding take using ne by blast
  moreover have "drop (Suc i) (ks[i := key]) = drop (Suc i) ks"
    using assms(4) by (simp add: upd)
  ultimately show ?thesis
    using assms(2) free len by (simp add: list_all_iff)
qed

section \<open>The state invariant\<close>

definition hop_ok :: "mtr_ctl \<Rightarrow> nethost \<Rightarrow> bool" where
  "hop_ok ctl h \<longleftrightarrow> paths_ok ctl h \<and> length (h_saved h) = SAVED_PINGS
     \<and> (h_transit h = 0 \<or> h_transit h = 1) \<and> 0 \<le> h_returned h
     \<and> h_returned h + h_transit h \<le> h_xmit h"

text \<open>The probes in flight to a hop are the open entries of the sequence table.\<close>

definition open_probes :: "(int \<Rightarrow> seq_entry) \<Rightarrow> int \<Rightarrow> int set" where
  "open_probes sq hop = {q \<in> {0..<MaxSequence}. sq_transit (sq q) \<noteq> 0 \<and> sq_index (sq q) = hop}"

definition net_ok :: "mtr_ctl \<Rightarrow> net \<Rightarrow> bool" where
  "net_ok ctl s \<longleftrightarrow>
     (\<forall>hop \<in> {0..<int MaxHost}. hop_ok ctl (host s hop)
        \<and> h_returned (host s hop) + int (card (open_probes (sequence s) hop)) \<le> h_xmit (host s hop))
     \<and> (\<forall>q \<in> {0..<MaxSequence}. sq_transit (sequence s q) \<noteq> 0 \<longrightarrow>
          0 \<le> sq_index (sequence s q) \<and> sq_index (sequence s q) < int MaxHost)
     \<and> 0 \<le> batch_at s \<and> batch_at s \<le> 254 \<and> 1 \<le> numhosts s \<and> numhosts s \<le> 255
     \<and> MinSequence \<le> next_sequence s \<and> next_sequence s < MaxSequence
     \<and> is_ip (remoteaddress s) \<and> is_ip (sourceaddress s)"

lemma finite_open_probes [simp]: "finite (open_probes sq hop)"
  by (rule finite_subset [of _ "{0..<MaxSequence}"]) (auto simp: open_probes_def)

lemma open_probes_send:
  "card (open_probes (sq(q := \<lparr>sq_index = index, sq_transit = 1, sq_saved_seq = x, sq_time = t\<rparr>)) hop)
     \<le> card (open_probes sq hop) + (if hop = index then 1 else 0)"
proof -
  let ?e = "\<lparr>sq_index = index, sq_transit = 1, sq_saved_seq = x, sq_time = t\<rparr>"
  have "open_probes (sq(q := ?e)) hop \<subseteq> (if hop = index then insert q (open_probes sq hop) else open_probes sq hop)"
    by (auto simp: open_probes_def)
  then have "card (open_probes (sq(q := ?e)) hop)
      \<le> card (if hop = index then insert q (open_probes sq hop) else open_probes sq hop)"
    by (rule card_mono [rotated]) simp
  then show ?thesis using card_insert_le_m1 by (auto simp: card_insert_if split: if_splits)
qed

lemma open_probes_complete:
  assumes "q \<in> open_probes sq hop"
  shows "open_probes (sq(q := (sq q)\<lparr>sq_transit := 0\<rparr>)) h = open_probes sq h - (if h = hop then {q} else {})"
  using assms by (auto simp: open_probes_def)

section \<open>What the operations change\<close>

text \<open>\<open>same_but_saved\<close>: the saved pings may be shifted; nothing else of the hop changes.\<close>

definition same_but_saved :: "nethost \<Rightarrow> nethost \<Rightarrow> bool" where
  "same_but_saved h h' \<longleftrightarrow>
     h' = h\<lparr>h_saved := h_saved h', h_saved_seq_offset := h_saved_seq_offset h'\<rparr>
     \<and> (length (h_saved h) = SAVED_PINGS \<longrightarrow> length (h_saved h') = SAVED_PINGS)"

lemma same_but_saved_refl [simp]: "same_but_saved h h"
  by (simp add: same_but_saved_def)

lemma same_but_saved_shift: "same_but_saved h (shift_saved h)"
  by (simp add: same_but_saved_def shift_saved_def)

lemma same_but_saved_update:
  "same_but_saved h h' \<Longrightarrow> same_but_saved h (h'\<lparr>h_saved := (h_saved h')[i := v]\<rparr>)"
  by (cases h; cases h') (simp add: same_but_saved_def)

lemma same_but_saved_sel:
  assumes "same_but_saved h h'"
  shows "h_addr h' = h_addr h" "h_addrs h' = h_addrs h" "h_err h' = h_err h" "h_xmit h' = h_xmit h"
    "h_returned h' = h_returned h" "h_best h' = h_best h" "h_last h' = h_last h"
    "h_worst h' = h_worst h" "h_avg h' = h_avg h" "h_jitter h' = h_jitter h" "h_jworst h' = h_jworst h"
    "h_javg h' = h_javg h" "h_jinta h' = h_jinta h" "h_transit h' = h_transit h" "h_mplss h' = h_mplss h"
    "length (h_saved h) = SAVED_PINGS \<Longrightarrow> length (h_saved h') = SAVED_PINGS"
  using assms by (cases h; cases h'; simp add: same_but_saved_def)+

lemma same_but_saved_ok:
  assumes "same_but_saved h h'"
  shows "hop_ok ctl h \<Longrightarrow> hop_ok ctl h'" and "stats_ok T h \<Longrightarrow> stats_ok T h'"
  using same_but_saved_sel [OF assms]
  by (simp_all add: hop_ok_def paths_ok_def path_keys_def known_keys_def stats_ok_def)

lemma net_save_xmit_host: "same_but_saved (host s hop) (host (net_save_xmit index s) hop)"
  by (auto simp: net_save_xmit_def net_save_increment_def Let_def
      intro!: same_but_saved_update same_but_saved_shift)

lemma net_save_xmit_other:
  "sequence (net_save_xmit index s) = sequence s" "batch_at (net_save_xmit index s) = batch_at s"
  "numhosts (net_save_xmit index s) = numhosts s" "next_sequence (net_save_xmit index s) = next_sequence s"
  "remoteaddress (net_save_xmit index s) = remoteaddress s"
  "sourceaddress (net_save_xmit index s) = sourceaddress s"
  by (simp_all add: net_save_xmit_def net_save_increment_def Let_def)

lemma net_save_return_host: "same_but_saved (host s hop) (host (net_save_return index q t s) hop)"
  by (auto simp: net_save_return_def Let_def intro!: same_but_saved_update)

lemma net_save_return_other:
  "sequence (net_save_return index q t s) = sequence s" "batch_at (net_save_return index q t s) = batch_at s"
  "numhosts (net_save_return index q t s) = numhosts s" "next_sequence (net_save_return index q t s) = next_sequence s"
  "remoteaddress (net_save_return index q t s) = remoteaddress s"
  "sourceaddress (net_save_return index q t s) = sourceaddress s"
  by (simp_all add: net_save_return_def Let_def)

lemma display_raw_simps [simp]:
  "host (display_raw ctl e s) = host s" "sequence (display_raw ctl e s) = sequence s"
  "batch_at (display_raw ctl e s) = batch_at s" "numhosts (display_raw ctl e s) = numhosts s"
  "next_sequence (display_raw ctl e s) = next_sequence s"
  "remoteaddress (display_raw ctl e s) = remoteaddress s"
  "sourceaddress (display_raw ctl e s) = sourceaddress s"
  "packetsize (display_raw ctl e s) = packetsize s" "pipe_written (display_raw ctl e s) = pipe_written s"
  by (simp_all add: display_raw_def)

lemmas display_defs = display_rawxmit_def display_rawhost_def display_rawping_def

text \<open>The invariant only depends on these parts of the state.\<close>

lemma net_ok_frame:
  assumes "net_ok ctl s" and "\<And>hop. same_but_saved (host s hop) (host s' hop)"
    and "sequence s' = sequence s" and "batch_at s' = batch_at s" and "numhosts s' = numhosts s"
    and "next_sequence s' = next_sequence s" and "remoteaddress s' = remoteaddress s"
    and "sourceaddress s' = sourceaddress s"
  shows "net_ok ctl s'"
  using assms(1) same_but_saved_ok(1) [OF assms(2), of ctl] same_but_saved_sel [OF assms(2)]
  unfolding net_ok_def assms(3-8) by metis

section \<open>Every operation keeps the invariant\<close>

definition sent_host :: "nethost \<Rightarrow> nethost" where
  "sent_host h = h\<lparr>h_xmit := h_xmit h + 1, h_transit := 1,
     h_up := (if h_sent h \<noteq> 0 then 0 else h_up h), h_sent := 1\<rparr>"

lemma save_sequence_eq:
  "save_sequence ctl index q s = net_save_xmit index ((display_rawxmit ctl index q s)
     \<lparr>sequence := (sequence s)(q := \<lparr>sq_index = index, sq_transit = 1,
         sq_saved_seq = h_xmit (host s index) + 1, sq_time = (0, 0)\<rparr>),
      host := (host s)(index := sent_host (host s index))\<rparr>)"
proof -
  have e: "sq\<lparr>sq_index := a, sq_transit := b, sq_saved_seq := c, sq_time := d\<rparr>
      = \<lparr>sq_index = a, sq_transit = b, sq_saved_seq = c, sq_time = d\<rparr>" for sq :: seq_entry and a b c d
    by (cases sq) simp
  show ?thesis
    by (cases "h_sent (host s index) = 0")
      (simp_all add: save_sequence_def Let_def e sent_host_def display_defs)
qed

lemma hop_ok_sent: "hop_ok ctl h \<Longrightarrow> hop_ok ctl (sent_host h)"
  by (auto simp: hop_ok_def sent_host_def paths_ok_def path_keys_def known_keys_def)

lemma save_sequence_ok:
  assumes "net_ok ctl s" and "0 \<le> index" "index < int MaxHost"
  shows "net_ok ctl (save_sequence ctl index q s)"
proof -
  let ?seq = "(sequence s)(q := \<lparr>sq_index = index, sq_transit = 1,
         sq_saved_seq = h_xmit (host s index) + 1, sq_time = (0, 0)\<rparr>)"
  let ?s = "(display_rawxmit ctl index q s)
     \<lparr>sequence := ?seq, host := (host s)(index := sent_host (host s index))\<rparr>"
  have hops: "hop_ok ctl (host ?s hop)
      \<and> h_returned (host ?s hop) + int (card (open_probes ?seq hop)) \<le> h_xmit (host ?s hop)"
    if hop: "hop \<in> {0..<int MaxHost}" for hop
  proof -
    have "hop_ok ctl (host s hop)"
      "h_returned (host s hop) + int (card (open_probes (sequence s) hop)) \<le> h_xmit (host s hop)"
      using assms(1) hop by (simp_all add: net_ok_def)
    moreover have "card (open_probes ?seq hop) \<le> card (open_probes (sequence s) hop) + (if hop = index then 1 else 0)"
      by (rule open_probes_send)
    ultimately show ?thesis
      by (cases "hop = index") (simp_all add: hop_ok_sent, simp_all add: sent_host_def)
  qed
  have "net_ok ctl ?s"
    using assms hops by (auto simp: net_ok_def display_defs)
  then show ?thesis
    unfolding save_sequence_eq
    by (rule net_ok_frame [OF _ net_save_xmit_host]) (simp_all only: net_save_xmit_other)
qed

lemma new_sequence_ok:
  assumes "net_ok ctl s" and "0 \<le> index" "index < int MaxHost" and "new_sequence ctl index s = (q, s')"
  shows "net_ok ctl s' \<and> q = next_sequence s \<and> batch_at s' = batch_at s
    \<and> remoteaddress s' = remoteaddress s \<and> sourceaddress s' = sourceaddress s
    \<and> packetsize s' = packetsize s"
proof -
  let ?n = "if MaxSequence \<le> next_sequence s + 1 then MinSequence else next_sequence s + 1"
  let ?s = "s\<lparr>next_sequence := ?n\<rparr>"
  have e: "s' = save_sequence ctl index q ?s" "q = next_sequence s"
    using assms(4) by (auto simp: new_sequence_def Let_def split: if_splits)
  have "net_ok ctl ?s" using assms(1) by (auto simp: net_ok_def)
  then show ?thesis
    using save_sequence_ok [of ctl ?s index q] assms(2,3)
    by (simp add: e) (simp add: save_sequence_eq net_save_xmit_def net_save_increment_def Let_def display_defs)
qed

text \<open>Recording the address of a reply keeps the paths in order.\<close>

lemma paths_ok_first:
  assumes "paths_ok ctl h" and "ctl_ok ctl" and "is_ip a" and "addr_key ctl (h_addr h) = free_key ctl"
    and "is_ip x"
  shows "paths_ok ctl (h\<lparr>h_addr := addrcpy x a (af ctl), h_mpls := m,
      h_addrs := (h_addrs h)[0 := addrcpy (h_addrs h ! 0) a (af ctl)], h_mplss := (h_mplss h)[0 := m]\<rparr>)"
proof -
  let ?K = "addr_key ctl a" and ?F = "free_key ctl"
  have len: "length (h_addrs h) = MAXPATH" and ips: "list_all is_ip (h_addrs h)"
    and first: "path_keys ctl h ! 0 = ?F"
    and free: "list_all (\<lambda>k. k = ?F) (drop (length (known_keys ctl h)) (path_keys ctl h))"
    using assms(1,4) unfolding paths_ok_def by auto
  have ip0: "is_ip (h_addrs h ! 0)" using len ips by (simp add: list_all_length)
  obtain k ks where keys: "path_keys ctl h = k # ks"
    using len by (cases "path_keys ctl h") (auto simp: path_keys_def)
  have k: "k = ?F" using first keys by simp
  have ks: "\<forall>k' \<in> set ks. k' = ?F"
    using free by (simp add: known_keys_def keys k list_all_iff)
  let ?h = "h\<lparr>h_addr := addrcpy x a (af ctl), h_mpls := m,
      h_addrs := (h_addrs h)[0 := addrcpy (h_addrs h ! 0) a (af ctl)], h_mplss := (h_mplss h)[0 := m]\<rparr>"
  have pk: "path_keys ctl ?h = ?K # ks"
    using keys by (simp add: map_update path_keys_def addr_key_addrcpy assms(3))
  have "takeWhile (\<lambda>k. k \<noteq> ?F) ks = []" using ks by (cases ks) auto
  then have kn: "known_keys ctl ?h = (if ?K = ?F then [] else [?K])"
    unfolding known_keys_def pk by simp
  have ip': "list_all is_ip ((h_addrs h)[0 := addrcpy (h_addrs h ! 0) a (af ctl)])"
    using ips is_ip_addrcpy_ip [OF ip0 assms(3)]
    by (auto simp: list_all_iff dest: set_update_subset_insert [THEN subsetD])
  have fr: "list_all (\<lambda>k. k = ?F) (drop (length (known_keys ctl ?h)) (path_keys ctl ?h))"
    unfolding kn pk using ks by (simp add: list_all_iff)
  have "addr_key ctl (h_addr ?h) = path_keys ctl ?h ! 0" "distinct (known_keys ctl ?h)"
    unfolding kn pk by (simp_all add: addr_key_addrcpy assms(3))
  moreover have "is_ip (h_addr ?h)" "length (h_mplss ?h) = MAXPATH" "length (h_addrs ?h) = MAXPATH"
    using assms(1,3,5) by (simp_all add: is_ip_addrcpy_ip paths_ok_def)
  ultimately show ?thesis
    using ip' fr unfolding paths_ok_def by simp
qed

lemma paths_ok_next:
  assumes "paths_ok ctl h" and "ctl_ok ctl" and "is_ip a" and "addr_key ctl (h_addr h) \<noteq> free_key ctl"
    and "i = find_path ctl (h_addrs h) a 0" and "i < MAXPATH" and "addr_key ctl (h_addrs h ! i) \<noteq> addr_key ctl a"
  shows "paths_ok ctl (h\<lparr>h_addrs := (h_addrs h)[i := addrcpy (h_addrs h ! i) a (af ctl)],
      h_mplss := (h_mplss h)[i := m]\<rparr>)"
    and "known_keys ctl (h\<lparr>h_addrs := (h_addrs h)[i := addrcpy (h_addrs h ! i) a (af ctl)],
      h_mplss := (h_mplss h)[i := m]\<rparr>) = known_keys ctl h @ [addr_key ctl a]"
proof -
  let ?h = "h\<lparr>h_addrs := (h_addrs h)[i := addrcpy (h_addrs h ! i) a (af ctl)], h_mplss := (h_mplss h)[i := m]\<rparr>"
  let ?K = "addr_key ctl a" and ?F = "free_key ctl" and ?ks = "path_keys ctl h"
  have p: "is_ip (h_addr h)" "length (h_addrs h) = MAXPATH" "list_all is_ip (h_addrs h)"
    "length (h_mplss h) = MAXPATH" "distinct (known_keys ctl h)"
    "list_all (\<lambda>k. k = ?F) (drop (length (known_keys ctl h)) ?ks)" "addr_key ctl (h_addr h) = ?ks ! 0"
    using assms(1) by (simp_all add: paths_ok_def)
  note fp = find_path_spec [OF assms(2) p(3,2) assms(3), of 0, folded assms(5)]
  have nth: "j < MAXPATH \<Longrightarrow> ?ks ! j = addr_key ctl (h_addrs h ! j)" for j
    using p(2) by (simp add: path_keys_def)
  have at_i: "?ks ! i = ?F" and before: "\<forall>j < i. ?ks ! j \<noteq> ?F \<and> ?ks ! j \<noteq> ?K"
    using fp assms(6,7) nth by auto
  have pos: "0 < i"
    using at_i assms(4) p(7) by (cases i) auto
  have K: "?K \<noteq> ?F" using at_i assms(6,7) nth by metis
  have upd: "path_keys ctl ?h = ?ks[i := ?K]"
    by (simp add: path_keys_def map_update addr_key_addrcpy assms(3))
  have len: "i < length ?ks" using p(2) assms(6) by (simp add: path_keys_def)
  note kn = known_insert [of ?F ?ks i ?K, folded known_keys_def, OF p(5,6) len before at_i K]
  have known: "known_keys ctl ?h = takeWhile (\<lambda>k. k \<noteq> ?F) (?ks[i := ?K])"
    by (simp add: known_keys_def upd)
  show "known_keys ctl ?h = known_keys ctl h @ [?K]"
    unfolding known using kn by blast
  have ipi: "is_ip (h_addrs h ! i)" using p(2,3) assms(6) by (simp add: list_all_length)
  have "list_all is_ip ((h_addrs h)[i := addrcpy (h_addrs h ! i) a (af ctl)])"
    using p(3) is_ip_addrcpy_ip [OF ipi assms(3)]
    by (auto simp: list_all_iff dest: set_update_subset_insert [THEN subsetD])
  then show "paths_ok ctl ?h"
    unfolding paths_ok_def known upd using p kn pos by simp
qed

lemma record_address_other:
  "sequence (record_address ctl index m a s) = sequence s" "batch_at (record_address ctl index m a s) = batch_at s"
  "numhosts (record_address ctl index m a s) = numhosts s"
  "next_sequence (record_address ctl index m a s) = next_sequence s"
  "remoteaddress (record_address ctl index m a s) = remoteaddress s"
  "sourceaddress (record_address ctl index m a s) = sourceaddress s"
  "hop \<noteq> index \<Longrightarrow> host (record_address ctl index m a s) hop = host s hop"
  "h_xmit (host (record_address ctl index m a s) index) = h_xmit (host s index)"
  "h_returned (host (record_address ctl index m a s) index) = h_returned (host s index)"
  "h_transit (host (record_address ctl index m a s) index) = h_transit (host s index)"
  "h_saved (host (record_address ctl index m a s) index) = h_saved (host s index)"
  "h_saved_seq_offset (host (record_address ctl index m a s) index) = h_saved_seq_offset (host s index)"
  "h_err (host (record_address ctl index m a s) index) = h_err (host s index)"
  "stats_ok T (host (record_address ctl index m a s) index) = stats_ok T (host s index)"
  by (simp_all add: record_address_def Let_def display_defs stats_ok_def)

lemma record_address_paths:
  assumes "paths_ok ctl (host s index)" and "ctl_ok ctl" and "is_ip a"
  shows "paths_ok ctl (host (record_address ctl index m a s) index)"
proof -
  let ?h = "host s index" and ?i = "find_path ctl (h_addrs (host s index)) a 0"
  have ip: "is_ip (h_addr ?h)" "is_ip (unspec_addr ctl)"
    using assms by (auto simp: paths_ok_def ctl_ok_def)
  have first: "addrcmp (h_addr ?h) (unspec_addr ctl) (af ctl) = 0 \<longleftrightarrow> addr_key ctl (h_addr ?h) = free_key ctl"
    using addrcmp_key [OF assms(2) ip] by (simp add: free_key_def)
  have nxt: "?i < MAXPATH \<Longrightarrow>
      addrcmp (h_addrs ?h ! ?i) a (af ctl) \<noteq> 0 \<longleftrightarrow> addr_key ctl (h_addrs ?h ! ?i) \<noteq> addr_key ctl a"
    by (subst addrcmp_key [OF assms(2) _ assms(3)]) (use assms(1) in \<open>auto simp: paths_ok_def list_all_length\<close>)
  show ?thesis
  proof (cases "addr_key ctl (h_addr ?h) = free_key ctl")
    case True
    note p = paths_ok_first [OF assms(1,2,3) True ip(1), of m]
    have "host (record_address ctl index m a s) index
        = ?h\<lparr>h_addr := addrcpy (h_addr ?h) a (af ctl), h_mpls := m,
             h_addrs := (h_addrs ?h)[0 := addrcpy (h_addrs ?h ! 0) a (af ctl)], h_mplss := (h_mplss ?h)[0 := m]\<rparr>"
      using True first by (cases "host s index") (simp add: record_address_def Let_def display_defs)
    with p show ?thesis by simp
  next
    case False
    show ?thesis
    proof (cases "?i < MAXPATH \<and> addr_key ctl (h_addrs ?h ! ?i) \<noteq> addr_key ctl a")
      case True
      then have i: "?i < MAXPATH" "addr_key ctl (h_addrs ?h ! ?i) \<noteq> addr_key ctl a" by simp_all
      note p = paths_ok_next(1) [OF assms(1,2,3) False refl i, of m]
      have "host (record_address ctl index m a s) index
          = ?h\<lparr>h_addrs := (h_addrs ?h)[?i := addrcpy (h_addrs ?h ! ?i) a (af ctl)], h_mplss := (h_mplss ?h)[?i := m]\<rparr>"
        using False first i nxt [OF i(1)] by (simp add: record_address_def Let_def display_defs)
      with p show ?thesis by simp
    next
      case no: False
      have "record_address ctl index m a s = s"
        using False first no nxt by (auto simp: record_address_def Let_def)
      with assms(1) show ?thesis by simp
    qed
  qed
qed

lemma record_address_hop_ok:
  assumes "hop_ok ctl (host s hop)" and "ctl_ok ctl" and "is_ip a"
  shows "hop_ok ctl (host (record_address ctl index m a s) hop)"
proof (cases "hop = index")
  case True
  have "paths_ok ctl (host (record_address ctl index m a s) index)"
    using record_address_paths assms True by (auto simp: hop_ok_def)
  with True assms(1) show ?thesis by (simp add: hop_ok_def record_address_other)
next
  case False
  with assms(1) show ?thesis by (simp add: record_address_other)
qed

text \<open>A reply whose sequence number is not in flight changes nothing; one that is in flight
  goes through these steps.\<close>

definition in_flight :: "net \<Rightarrow> int \<Rightarrow> bool" where
  "in_flight s q \<longleftrightarrow> 0 \<le> q \<and> q < MaxSequence \<and> sq_transit (sequence s q) \<noteq> 0"

lemma ping_ignored: "\<not> in_flight s q \<Longrightarrow> net_process_ping fp ctl q e m a t s = s"
  by (auto simp: in_flight_def net_process_ping_def mark_sequence_complete_def)

definition close_probe :: "int \<Rightarrow> int \<Rightarrow> net \<Rightarrow> net" where
  "close_probe q e s =
     s\<lparr>sequence := (sequence s)(q := (sequence s q)\<lparr>sq_transit := 0\<rparr>),
       host := (host s)(sq_index (sequence s q) := (host s (sq_index (sequence s q)))\<lparr>h_err := e\<rparr>)\<rparr>"

definition answered :: "fp_env \<Rightarrow> int \<Rightarrow> nethost \<Rightarrow> nethost" where
  "answered fp t h = (update_stats fp t h)\<lparr>h_sent := 0, h_up := 1, h_transit := 0\<rparr>"

lemma ping_steps:
  assumes "in_flight s q" and "0 \<le> sq_index (sequence s q)"
  defines "index \<equiv> sq_index (sequence s q)"
  shows "net_process_ping fp ctl q e m a t s = display_rawping ctl index t q
      (net_save_return index (sq_saved_seq (sequence s q)) t (upd_host index (answered fp t)
         (record_address ctl index m (addrcpy zero_ip a (af ctl)) (close_probe q e s))))"
  using assms(1,2)
  by (simp add: net_process_ping_def mark_sequence_complete_def in_flight_def Let_def answered_def
      close_probe_def index_def record_address_other)

lemma hop_ok_answered:
  assumes "hop_ok ctl h" and "h_returned h + 1 \<le> h_xmit h"
  shows "hop_ok ctl (answered fp t h)"
  using assms by (simp add: hop_ok_def paths_ok_def path_keys_def known_keys_def answered_def stats_sel)

lemma answered_counts [simp]:
  "h_returned (answered fp t h) = h_returned h + 1" "h_xmit (answered fp t h) = h_xmit h"
  by (simp_all add: answered_def stats_sel)

lemma hop_ok_err: "hop_ok ctl (h\<lparr>h_err := e\<rparr>) = hop_ok ctl h"
  by (simp add: hop_ok_def paths_ok_def path_keys_def known_keys_def)

lemma net_process_ping_ok:
  assumes "net_ok ctl s" and "ctl_ok ctl" and "is_ip a"
  shows "net_ok ctl (net_process_ping fp ctl q e m a t s)"
proof (cases "in_flight s q")
  case False
  with assms(1) show ?thesis by (simp add: ping_ignored)
next
  case True
  define index where "index = sq_index (sequence s q)"
  let ?s1 = "close_probe q e s"
  let ?s2 = "record_address ctl index m (addrcpy zero_ip a (af ctl)) ?s1"
  let ?s3 = "upd_host index (answered fp t) ?s2"
  have ix: "0 \<le> index" "index < int MaxHost" and q: "q \<in> open_probes (sequence s) index"
    using assms(1) True by (auto simp: net_ok_def in_flight_def index_def open_probes_def)
  have ip: "is_ip (addrcpy zero_ip a (af ctl))" using assms(3) by (simp add: is_ip_addrcpy_ip)
  have hops: "hop_ok ctl (host ?s3 hop)
      \<and> h_returned (host ?s3 hop) + int (card (open_probes (sequence ?s3) hop)) \<le> h_xmit (host ?s3 hop)"
    if hop: "hop \<in> {0..<int MaxHost}" for hop
  proof -
    have ok: "hop_ok ctl (host s hop)"
      and cnt: "h_returned (host s hop) + int (card (open_probes (sequence s) hop)) \<le> h_xmit (host s hop)"
      using assms(1) hop by (simp_all add: net_ok_def)
    have op: "open_probes (sequence ?s3) hop = open_probes (sequence s) hop - (if hop = index then {q} else {})"
      using open_probes_complete [OF q] by (simp add: record_address_other close_probe_def)
    have "hop_ok ctl (host ?s1 hop)" using ok by (auto simp: close_probe_def hop_ok_err)
    then have ok2: "hop_ok ctl (host ?s2 hop)"
      by (rule record_address_hop_ok [OF _ assms(2) ip])
    show ?thesis
    proof (cases "hop = index")
      case True
      have c: "h_returned (host ?s2 hop) = h_returned (host s hop)" "h_xmit (host ?s2 hop) = h_xmit (host s hop)"
        using True by (simp_all add: record_address_other close_probe_def)
      have "0 < card (open_probes (sequence s) hop)"
        using q True by (simp add: card_gt_0_iff) blast
      moreover from this have "card (open_probes (sequence ?s3) hop) = card (open_probes (sequence s) hop) - 1"
        unfolding op using q True by (simp add: card_Diff_singleton)
      ultimately have "h_returned (host ?s2 hop) + 1 \<le> h_xmit (host ?s2 hop)"
        "h_returned (host s hop) + 1 + int (card (open_probes (sequence ?s3) hop)) \<le> h_xmit (host s hop)"
        using cnt c by linarith+
      then show ?thesis using hop_ok_answered [OF ok2] True c by simp
    next
      case False
      then show ?thesis using ok2 cnt op by (auto simp: record_address_other close_probe_def)
    qed
  qed
  have idx: "\<forall>q' \<in> {0..<MaxSequence}. sq_transit (sequence ?s3 q') \<noteq> 0 \<longrightarrow>
      0 \<le> sq_index (sequence ?s3 q') \<and> sq_index (sequence ?s3 q') < int MaxHost"
    using assms(1) by (simp add: net_ok_def record_address_other close_probe_def)
  have "net_ok ctl ?s3"
    using assms(1) hops idx unfolding net_ok_def by (simp add: record_address_other close_probe_def)
  then have "net_ok ctl (net_save_return index (sq_saved_seq (sequence s q)) t ?s3)"
    by (rule net_ok_frame [OF _ net_save_return_host]) (simp_all only: net_save_return_other)
  then show ?thesis
    unfolding ping_steps [OF True ix(1) [unfolded index_def], folded index_def]
    by (rule net_ok_frame) (simp_all add: display_defs)
qed

lemma net_process_ping_stats:
  assumes "fp_ok fp" and "T \<le> INT_MAX" and "0 \<le> t" "t \<le> T" and "stats_ok T (host s hop)"
  shows "stats_ok T (host (net_process_ping fp ctl q e m a t s) hop)"
proof (cases "in_flight s q \<and> 0 \<le> sq_index (sequence s q)")
  case False
  with assms(5) show ?thesis
    by (auto simp: ping_ignored net_process_ping_def mark_sequence_complete_def Let_def in_flight_def)
next
  case True
  define index where "index = sq_index (sequence s q)"
  let ?s2 = "record_address ctl index m (addrcpy zero_ip a (af ctl)) (close_probe q e s)"
  have "stats_ok T (host (close_probe q e s) hop)"
    using assms(5) by (auto simp: close_probe_def stats_ok_def)
  then have s2: "stats_ok T (host ?s2 hop)"
    by (cases "hop = index") (simp_all add: record_address_other)
  have "stats_ok T (host (upd_host index (answered fp t) ?s2) hop)"
  proof (cases "hop = index")
    case True
    have "stats_ok T (answered fp t (host ?s2 hop)) = stats_ok T (update_stats fp t (host ?s2 hop))"
      by (simp add: answered_def stats_ok_def)
    also have "\<dots>" by (rule stats_ok_update_stats [OF assms(1) s2 assms(3,4,2)])
    finally show ?thesis using True by simp
  qed (use s2 in simp)
  then have "stats_ok T (host (net_save_return index (sq_saved_seq (sequence s q)) t
      (upd_host index (answered fp t) ?s2)) hop)"
    by (rule same_but_saved_ok(2) [OF net_save_return_host])
  then show ?thesis
    using ping_steps [of s q fp ctl e m a t, folded index_def] True
    by (simp add: index_def display_defs)
qed

text \<open>Options that keep the address family keep the invariant.\<close>

lemma net_ok_options:
  assumes "af ctl' = af ctl" and "unspec_addr ctl' = unspec_addr ctl"
  shows "net_ok ctl' s = net_ok ctl s"
proof -
  have "addr_key ctl' = addr_key ctl" using assms by (intro ext) (simp add: addr_key_def)
  then have "hop_ok ctl' = hop_ok ctl"
    using assms by (intro ext) (simp add: hop_ok_def paths_ok_def path_keys_def known_keys_def free_key_def)
  then show ?thesis by (simp add: net_ok_def)
qed

lemma choose_packet_other:
  assumes "choose_packet fp r1 r2 ctl s = (ctl', s')"
  shows "ctl' = ctl\<lparr>bitpattern := bitpattern ctl'\<rparr>" and "s' = s\<lparr>packetsize := packetsize s'\<rparr>"
  using assms by (auto simp: choose_packet_def Let_def split: if_splits)

lemma net_send_query_ok:
  assumes "net_ok ctl s" and "0 \<le> index" "index < int MaxHost"
    and "net_send_query env write_ok ctl index sz s = Inr s'"
  shows "net_ok ctl s' \<and> batch_at s' = batch_at s \<and> remoteaddress s' = remoteaddress s"
proof -
  obtain q s1 where n: "new_sequence ctl index s = (q, s1)" by fastforce
  have "\<exists>w. s' = s1\<lparr>pipe_written := w\<rparr>"
    using assms(4) n by (auto simp: net_send_query_def Let_def and_then_Inr)
  then show ?thesis
    using new_sequence_ok [OF assms(1,2,3) n] by (auto simp: net_ok_def)
qed

lemma net_send_batch_ok:
  assumes "net_ok ctl s" and "ctl_ok ctl" and "net_send_batch env write_ok fp r1 r2 ctl s = Inr (v, ctl', s')"
  shows "net_ok ctl' s' \<and> ctl_ok ctl' \<and> af ctl' = af ctl"
proof -
  obtain c1 s1 where c: "choose_packet fp r1 r2 ctl s = (c1, s1)" by fastforce
  note co = choose_packet_other [OF c]
  have c1: "ctl_ok c1" "af c1 = af ctl" "unspec_addr c1 = unspec_addr ctl" "ctl_ok c1"
    using assms(2) by (subst co(1); simp add: ctl_ok_def)+
  have "net_ok c1 s" using assms(1) net_ok_options [OF c1(2,3)] by simp
  then have s1: "net_ok c1 s1" "batch_at s1 = batch_at s"
    by (subst co(2), simp add: net_ok_def, subst co(2), simp)
  have b: "0 \<le> batch_at s1" "batch_at s1 < int MaxHost" using s1(1) by (simp_all add: net_ok_def)
  from assms(3) c obtain s2 where s2: "net_send_query env write_ok c1 (batch_at s1) \<bar>packetsize s1\<bar> s1 = Inr s2"
    and r: "(v, ctl', s') = (if batch_done c1 s2
                    then (1, c1, s2\<lparr>numhosts := batch_at s2 + 1, batch_at := fstTTL c1 - 1\<rparr>)
                    else (0, c1, s2\<lparr>batch_at := batch_at s2 + 1\<rparr>))"
    by (auto simp: net_send_batch_def and_then_Inr split: if_splits)
  have ok: "net_ok c1 s2" using net_send_query_ok [OF s1(1) b s2] by simp
  show ?thesis
  proof (cases "batch_done c1 s2")
    case True
    with r ok c1 show ?thesis by (auto simp: net_ok_def ctl_ok_def)
  next
    case False
    then have "batch_at s2 < maxTTL c1 - 1" by (auto simp: batch_done_def)
    with False r ok c1 show ?thesis by (auto simp: net_ok_def ctl_ok_def)
  qed
qed

lemma hop_ok_template: "ctl_ok ctl \<Longrightarrow> hop_ok ctl template_host"
proof -
  assume "ctl_ok ctl"
  then have "free_key ctl = addr_key ctl zero_ip" by (simp add: ctl_ok_def free_key_def)
  moreover from this have "known_keys ctl template_host = []"
    by (simp add: known_keys_def path_keys_def template_host_def takeWhile_eq_Nil_iff)
  ultimately show ?thesis
    by (simp add: hop_ok_def paths_ok_def) (simp add: template_host_def path_keys_def list_all_iff)
qed

lemma net_reset_ok:
  assumes "ctl_ok ctl" and "is_ip (remoteaddress s)" and "is_ip (sourceaddress s)"
    and "MinSequence \<le> next_sequence s" and "next_sequence s < MaxSequence"
  shows "net_ok ctl (net_reset ctl s)"
proof -
  have "open_probes (sequence (net_reset ctl s)) hop = {}" for hop
    by (auto simp: open_probes_def net_reset_def)
  moreover have "h_returned template_host = 0" "h_xmit template_host = 0"
    by (simp_all add: template_host_def)
  ultimately show ?thesis
    using assms hop_ok_template [OF assms(1)]
    unfolding net_ok_def by (simp add: ctl_ok_def) (simp add: net_reset_def)
qed

lemma net_ok_reset: "net_ok ctl s \<Longrightarrow> ctl_ok ctl \<Longrightarrow> net_ok ctl (net_reset ctl s)"
  by (rule net_reset_ok) (simp_all add: net_ok_def)

lemma net_end_transit_ok: "net_ok ctl s \<Longrightarrow> net_ok ctl (net_end_transit s)"
  by (auto simp: net_ok_def net_end_transit_def hop_ok_def paths_ok_def path_keys_def known_keys_def)

lemma net_process_return_ok:
  assumes "net_ok ctl s" and "ctl_ok ctl" and "inet_ok env"
    and "net_process_return env fp ctl available buf s = Inr (buf', s')"
  shows "net_ok ctl s'"
proof -
  have line: "net_ok ctl s2" if "handle_command_reply env ctl (net_process_ping fp ctl) l s1 = Inr s2"
    and "net_ok ctl s1" for l s1 s2
    using that(1) net_process_ping_ok [OF that(2) assms(2) parse_reply_is_ip [OF assms(3)]] that(2)
    by (fastforce simp: handle_command_reply_def Let_def and_then_Inr
        split: sum.split_asm option.split_asm if_split_asm)
  have "consume_loop env ctl (net_process_ping fp ctl) b s = Inr (r, s') \<Longrightarrow> net_ok ctl s'" for b r
    by (rule reply_lines.drain_keeps [where P = "net_ok ctl"]) (use line assms(1) in auto)
  then have "consume_reply_buffer env ctl (net_process_ping fp ctl) b s = Inr (r, s') \<Longrightarrow> net_ok ctl s'" for b r
    by (auto simp: consume_reply_buffer_def and_then_Inr)
  then show ?thesis
    using assms(1,4) unfolding net_process_return_def handle_command_replies_def Let_def
    by (simp split: sum.split_asm if_split_asm)
qed

lemma net_reopen_ok:
  assumes "net_ok ctl s" and "ctl_ok ctl" and "af ctl = fam" and "addr_len fam \<le> length a"
    and "net_reopen env write_ok fp r1 r2 fam a ctl s = Inr (ctl', s')"
  shows "net_ok ctl' s' \<and> ctl_ok ctl' \<and> af ctl' = af ctl"
proof -
  let ?s = "net_reset ctl (s\<lparr>remoteaddress := addrcpy (remoteaddress s) a fam\<rparr>)"
  have "net_ok ctl ?s"
    by (rule net_reset_ok) (use assms in \<open>simp_all add: net_ok_def is_ip_addrcpy\<close>)
  moreover have "\<exists>v. net_send_batch env write_ok fp r1 r2 ctl ?s = Inr (v, ctl', s')"
    using assms(5) by (auto simp: net_reopen_def Let_def and_then_Inr split: if_splits)
  ultimately show ?thesis using net_send_batch_ok assms(2) by blast
qed

section \<open>Reachable states\<close>

text \<open>A run of the program as this module sees it: it starts in \<open>net_open\<close>, and then batches
  are sent, replies are read, the display resets the table, turns to another target or changes
  the options, and a cycle ends, in any order.\<close>

type_synonym net_config = "mtr_ctl \<times> string \<times> net"

inductive net_step :: "inet_env \<Rightarrow> fp_env \<Rightarrow> net_config \<Rightarrow> net_config \<Rightarrow> bool"
  for env :: inet_env and fp :: fp_env where
  step_batch: "net_send_batch env write_ok fp r1 r2 ctl s = Inr (v, ctl', s') \<Longrightarrow>
     net_step env fp (ctl, buf, s) (ctl', buf, s')"
| step_return: "net_process_return env fp ctl available buf s = Inr (buf', s') \<Longrightarrow>
     net_step env fp (ctl, buf, s) (ctl, buf', s')"
| step_reset: "net_step env fp (ctl, buf, s) (ctl, buf, net_reset ctl s)"
| step_end: "net_step env fp (ctl, buf, s) (ctl, buf, net_end_transit s)"
| step_reopen: "net_reopen env write_ok fp r1 r2 (af ctl) a ctl s = Inr (ctl', s') \<Longrightarrow>
     addr_len (af ctl) \<le> length a \<Longrightarrow> net_step env fp (ctl, buf, s) (ctl', buf, s')"
| step_options: "ctl_ok ctl' \<Longrightarrow> af ctl' = af ctl \<Longrightarrow> net_step env fp (ctl, buf, s) (ctl', buf, s)"

inductive net_reach :: "inet_env \<Rightarrow> fp_env \<Rightarrow> net_config \<Rightarrow> bool"
  for env :: inet_env and fp :: fp_env where
  reach_open: "ctl_ok ctl \<Longrightarrow> is_ip (remoteaddress s) \<Longrightarrow> is_ip (sourceaddress s) \<Longrightarrow>
     next_sequence s = MinSequence \<Longrightarrow> net_reach env fp (ctl, [], net_reset ctl s)"
| reach_step: "net_reach env fp c \<Longrightarrow> net_step env fp c c' \<Longrightarrow> net_reach env fp c'"

inductive_cases net_stepE: "net_step env fp (ctl, buf, s) c'"

lemma net_step_ok:
  assumes "net_step env fp c c'" and "inet_ok env"
    and "case c of (ctl, buf, s) \<Rightarrow> ctl_ok ctl \<and> net_ok ctl s"
  shows "case c' of (ctl, buf, s) \<Rightarrow> ctl_ok ctl \<and> net_ok ctl s"
  using assms(1,3)
proof (cases rule: net_step.cases)
  case (step_batch write_ok r1 r2 ctl s v ctl' s' buf)
  then have "net_ok ctl s" "ctl_ok ctl" using assms(3) by simp_all
  from net_send_batch_ok [OF this step_batch(3)] show ?thesis by (simp add: step_batch(2))
next
  case (step_return ctl available buf s buf' s')
  then have "net_ok ctl s" "ctl_ok ctl" using assms(3) by simp_all
  with net_process_return_ok [OF this assms(2) step_return(3)] show ?thesis by (simp add: step_return(2))
next
  case (step_reset ctl buf s)
  then have "net_ok ctl (net_reset ctl s)" "ctl_ok ctl"
    using assms(3) net_ok_reset by simp_all
  then show ?thesis by (simp add: step_reset(2))
next
  case (step_end ctl buf s)
  then have "net_ok ctl (net_end_transit s)" "ctl_ok ctl" using assms(3) net_end_transit_ok by simp_all
  then show ?thesis by (simp add: step_end(2))
next
  case (step_reopen write_ok r1 r2 ctl a s ctl' s' buf)
  then have "net_ok ctl s" "ctl_ok ctl" using assms(3) by simp_all
  from net_reopen_ok [OF this refl step_reopen(4,3)] show ?thesis by (simp add: step_reopen(2))
next
  case (step_options ctl' ctl buf s)
  then have "unspec_addr ctl' = unspec_addr ctl" "net_ok ctl s" using assms(3) by (simp_all add: ctl_ok_def)
  then have "net_ok ctl' s" using step_options net_ok_options by blast
  then show ?thesis using step_options by simp
qed

lemma net_reach_ok:
  assumes "net_reach env fp c" and "inet_ok env"
  shows "case c of (ctl, buf, s) \<Rightarrow> ctl_ok ctl \<and> net_ok ctl s"
  using assms(1)
proof induction
  case (reach_open ctl s)
  then show ?case by (auto intro: net_reset_ok)
next
  case (reach_step c c')
  then show ?case using net_step_ok assms(2) by blast
qed

end
