(* ===== verification/Utils.thy ===== *)
theory Utils
  imports MtrTypes
begin

text \<open>
  \<open>ui/utils.c\<close> and \<open>ui/utils.h\<close>: trimming of strings, checked conversion of option
  arguments to numbers, bounded copies. \<open>strtok\<close> and \<open>fgets\<close> of the C library, which
  \<open>ui/mtr.c\<close> uses on the same texts, are here as well. A conversion that fails prints a
  message and exits (\<open>Inl\<close>).
\<close>

section \<open>Trimming\<close>

definition trim_char :: "char \<Rightarrow> char \<Rightarrow> bool" where
  "trim_char c x \<longleftrightarrow> isspace x \<or> (c \<noteq> NUL \<and> x = c)"

text \<open>The loop from the right: \<open>len\<close> characters are left.\<close>

fun trim_right :: "char \<Rightarrow> string \<Rightarrow> nat \<Rightarrow> nat" where
  "trim_right c str 0 = 0"
| "trim_right c str (Suc len) =
     (if trim_char c (str ! len) then trim_right c str len else Suc len)"

definition trim :: "string \<Rightarrow> char \<Rightarrow> string" where
  "trim str c =
     (let str = dropWhile (trim_char c) str
      in take (trim_right c str (length str)) str)"

lemma trim_right_le: "trim_right c str len \<le> len"
  by (induction len) auto

lemma trim_right_stops:
  "trim_right c str len = 0 \<or> \<not> trim_char c (str ! (trim_right c str len - 1))"
  by (induction len) auto

lemma trim_right_blank:
  "trim_right c str len \<le> i \<Longrightarrow> i < len \<Longrightarrow> trim_char c (str ! i)"
  by (induction len) (auto simp: less_Suc_eq split: if_splits)

text \<open>What is cut off at either end consists of trimmed characters only, and what remains
  neither begins nor ends with one.\<close>

lemma trim_spec:
  obtains a b where "str = a @ trim str c @ b"
    and "\<forall>x \<in> set a. trim_char c x" and "\<forall>x \<in> set b. trim_char c x"
    and "trim str c = [] \<or> \<not> trim_char c (hd (trim str c)) \<and> \<not> trim_char c (last (trim str c))"
proof -
  let ?a = "takeWhile (trim_char c) str" and ?s = "dropWhile (trim_char c) str"
  let ?n = "trim_right c ?s (length ?s)"
  have t: "trim str c = take ?n ?s" by (simp add: trim_def Let_def)
  have "str = ?a @ trim str c @ drop ?n ?s"
    unfolding t by simp
  moreover have "\<forall>x \<in> set ?a. trim_char c x"
    by (metis set_takeWhileD)
  moreover have "\<forall>x \<in> set (drop ?n ?s). trim_char c x"
    using trim_right_blank [of c ?s "length ?s"] by (auto simp: in_set_conv_nth)
  moreover have "trim str c = [] \<or> \<not> trim_char c (hd (trim str c)) \<and> \<not> trim_char c (last (trim str c))"
  proof (cases "?n = 0 \<or> ?s = []")
    case True
    then show ?thesis unfolding t by auto
  next
    case False
    have n: "?n \<le> length ?s" by (rule trim_right_le)
    have "\<not> trim_char c (hd ?s)" using False hd_dropWhile by blast
    moreover have "hd (trim str c) = hd ?s" unfolding t using False by (simp add: hd_take)
    moreover have "last (trim str c) = ?s ! (?n - 1)"
      unfolding t using False n by (subst last_conv_nth) auto
    moreover have "\<not> trim_char c (?s ! (?n - 1))"
      using trim_right_stops [of c ?s "length ?s"] False by blast
    ultimately show ?thesis by simp
  qed
  ultimately show ?thesis by (rule that)
qed

section \<open>Numbers\<close>

datatype strto_type = STRTO_INT | STRTO_U32INT

definition strtonum_or_err :: "string \<Rightarrow> string \<Rightarrow> strto_type \<Rightarrow> ui_exit + int" where
  "strtonum_or_err str errmesg type =
     (let fail = Inl (errmesg @ '': '' @ str)
      in if str = [] then fail
         else (case strtoul str of (num, erange, end) \<Rightarrow>
           if \<not> erange \<and> end \<noteq> str \<and> end = [] then
             (case type of
                STRTO_INT \<Rightarrow> if num < INT_MAX then Inr (to_int32 num) else fail
              | STRTO_U32INT \<Rightarrow> if num < UINT32_MAX then Inr (to_int32 num) else fail)
           else fail))"

definition strtofloat_or_err :: "fp_env \<Rightarrow> string \<Rightarrow> string \<Rightarrow> ui_exit + rat" where
  "strtofloat_or_err fp str errmesg =
     (let fail = Inl (errmesg @ '': '' @ str)
      in if str = [] then fail
         else (case fp_strtod fp str of (num, erange, end) \<Rightarrow>
           if \<not> erange \<and> end \<noteq> str \<and> end = [] then Inr (rndf fp num) else fail))"

lemma strtoul_nonneg: "strtoul s = (n, e, r) \<Longrightarrow> 0 \<le> n"
  by (auto simp: strtoul_def split: option.splits if_splits)

lemma strtonum_int:
  "strtonum_or_err str m STRTO_INT = Inr n \<Longrightarrow> 0 \<le> n \<and> n < INT_MAX"
  using strtoul_nonneg [of str]
  by (auto simp: strtonum_or_err_def Let_def to_int32_id is_int32_def split: if_splits prod.splits)

lemma strtonum_u32: "strtonum_or_err str m STRTO_U32INT = Inr n \<Longrightarrow> is_int32 n"
  by (auto simp: strtonum_or_err_def Let_def split: if_splits prod.splits)

section \<open>Copies and lines\<close>

definition xstrncpy :: "string \<Rightarrow> int \<Rightarrow> string" where
  "xstrncpy src n = take (nat (n - 1)) src"

text \<open>\<open>strtok\<close>: leading delimiters are skipped; the token ends at the next delimiter, which is
  consumed.\<close>

definition strtok :: "string \<Rightarrow> string \<Rightarrow> (string \<times> string) option" where
  "strtok delims s =
     (case dropWhile (\<lambda>c. c \<in> set delims) s of
        [] \<Rightarrow> None
      | t \<Rightarrow> Some (takeWhile (\<lambda>c. c \<notin> set delims) t, tl (dropWhile (\<lambda>c. c \<notin> set delims) t)))"

lemma strtok_shorter: "strtok delims s = Some (t, r) \<Longrightarrow> length r < length s"
proof -
  assume "strtok delims s = Some (t, r)"
  then obtain c cs where d: "dropWhile (\<lambda>c. c \<in> set delims) s = c # cs"
    and r: "r = tl (dropWhile (\<lambda>c. c \<notin> set delims) (c # cs))"
    by (auto simp: strtok_def split: list.splits)
  have "c \<notin> set delims" using d by (metis hd_dropWhile list.distinct(1) list.sel(1))
  then have "length r \<le> length cs"
    using r length_dropWhile_le [of "\<lambda>c. c \<notin> set delims" cs] by simp
  moreover have "length (c # cs) \<le> length s"
    using d by (metis length_dropWhile_le)
  ultimately show ?thesis by simp
qed

text \<open>\<open>fgets\<close> of a file: at most \<open>n - 1\<close> characters, up to and with a newline; nothing is
  the end of the file.\<close>

fun fgets :: "nat \<Rightarrow> string \<Rightarrow> (string \<times> string)" where
  "fgets 0 s = ([], s)"
| "fgets (Suc n) [] = ([], [])"
| "fgets (Suc n) (c # cs) =
     (if c = NL then ([c], cs) else (let (l, r) = fgets n cs in (c # l, r)))"

lemma fgets_append: "fgets n s = (l, r) \<Longrightarrow> s = l @ r"
  by (induction n s arbitrary: l r rule: fgets.induct) (auto split: if_splits prod.splits)

lemma fgets_nonempty: "(l, r) = fgets n s \<Longrightarrow> 0 < n \<Longrightarrow> s \<noteq> [] \<Longrightarrow> length r < length s"
  using fgets_append [of n s l r] by (cases n; cases s) (auto split: if_splits prod.splits)

lemma fgets_line:
  "NL \<notin> set l \<Longrightarrow> length l < n \<Longrightarrow> fgets n (l @ NL # r) = (l @ [NL], r)"
  by (induction l arbitrary: n) (auto simp: gr0_conv_Suc Suc_less_eq2)

end
