(* ===== verification/MtrOptions.thy ===== *)
theory MtrOptions
  imports Utils
begin

text \<open>
  The configuration of \<open>mtr\<close>: the defaults that \<open>main\<close> of \<open>ui/mtr.c\<close> sets, the display
  fields, and the handling of every command line option by \<open>parse_arg\<close>. The sequence of
  options comes from \<open>getopt_long\<close>; here it is a list of option characters
  with their arguments, which \<open>CmdLine\<close> gets from the arguments. Files are the function \<open>files\<close> from names to contents, and the list of
  target names is the linked list \<open>names_t\<close>.
\<close>

section \<open>Fields and defaults\<close>

text \<open>The keys of \<open>data_fields\<close> with the titles of their columns and their widths.\<close>

definition data_fields :: "(char \<times> string \<times> nat) list" where
  "data_fields =
     [(CHR '' '', '' '', 1), (CHR ''L'', ''Loss%'', 6), (CHR ''D'', ''Drop'', 5), (CHR ''R'', ''Rcv'', 6),
      (CHR ''S'', ''Snt'', 6), (CHR ''N'', ''Last'', 6), (CHR ''B'', ''Best'', 6), (CHR ''A'', ''Avg'', 6),
      (CHR ''W'', ''Wrst'', 6), (CHR ''V'', ''StDev'', 6), (CHR ''G'', ''Gmean'', 6), (CHR ''J'', ''Jttr'', 5),
      (CHR ''M'', ''Javg'', 5), (CHR ''X'', ''Jmax'', 5), (CHR ''I'', ''Jint'', 5)]"

fun index_fields :: "(char \<times> string \<times> nat) list \<Rightarrow> int \<Rightarrow> (char \<Rightarrow> int) \<Rightarrow> string \<Rightarrow> (char \<Rightarrow> int) \<times> string" where
  "index_fields [] i idx available = (idx, available)"
| "index_fields ((key, _) # fs) i idx available =
     index_fields fs (i + 1) (idx(key := i)) (available @ [key])"

definition init_fld_options :: "mtr_ctl \<Rightarrow> mtr_ctl" where
  "init_fld_options ctl =
     (case index_fields data_fields 0 (\<lambda>_. -1) [] of
        (idx, available) \<Rightarrow> ctl\<lparr>fld_index := idx, available_options := available @ ''_''\<rparr>)"

text \<open>The values of \<open>main\<close> before the options are read; the display is the one that
  \<open>display_detect\<close> chose.\<close>

definition default_ctl :: "display \<Rightarrow> mtr_ctl" where
  "default_ctl detected =
     \<lparr>MaxPing = 10, WaitTime = 1, GraceTime = 5, Hostname = [], InterfaceName = None,
      InterfaceAddress = None, LocalHostname = [], ipinfo_no = -1, ipinfo_max = -1,
      cpacketsize = 64, bitpattern = 0, tos = 0, mark = 0, unspec_addr = zero_ip, af = AF_UNSPEC,
      mtrtype = IPPROTO_ICMP, fstTTL = 1, maxTTL = 30, maxUnknown = 12, remoteport = 0,
      localport = 0, probe_timeout = 10 * 1000000, fld_active = xstrncpy ''LS NABWV'' (2 * int MAXFLD),
      display_mode = 0, fld_index = (\<lambda>_. 0), available_options = [], display_offset = 0,
      ForceMaxPing = False, use_dns = True, show_ips = False, enablempls = False, dns = True,
      reportwide = False, Interactive = True, DisplayMode = detected\<rparr>"

section \<open>The list of target names\<close>

fun append_to_names :: "string list \<Rightarrow> string \<Rightarrow> string list" where
  "append_to_names [] item = [item]"
| "append_to_names (n # ns) item = n # append_to_names ns item"

lemma append_to_names_eq: "append_to_names ns item = ns @ [item]"
  by (induction ns) auto

text \<open>The lines of a file, in pieces of at most 511 characters.\<close>

function read_names :: "string list \<Rightarrow> string \<Rightarrow> string list" where
  "read_names names content =
     (if content = [] then names
      else (case fgets 511 content of (line, rest) \<Rightarrow>
              read_names (append_to_names names (trim (cstr line) NUL)) rest))"
  by pat_completeness auto
termination
  by (relation "measure (\<lambda>(n, c). length c)")
    (auto dest: fgets_nonempty)

declare read_names.simps [simp del]

definition read_from_file :: "(string \<Rightarrow> string option) \<Rightarrow> string list \<Rightarrow> string \<Rightarrow> ui_exit + string list" where
  "read_from_file files names filename =
     (case files filename of
        None \<Rightarrow> Inl (''open '' @ filename)
      | Some content \<Rightarrow> Inr (read_names names content))"

text \<open>\<open>read_link_names\<close> fills two arrays of twenty entries from \<open>linknames.txt\<close>. \<open>None\<close>
  stands for the uses of a null pointer and of an entry beyond the arrays that the code does not
  exclude: the file cannot be opened, a line lacks the address or the name, there are more than
  twenty lines.\<close>

function read_links :: "(string \<times> string) list \<Rightarrow> string \<Rightarrow> (string \<times> string) list option" where
  "read_links links content =
     (if content = [] then Some links
      else (case fgets 511 content of (buf, rest) \<Rightarrow>
        (case strtok [CHR 0x09] (trim (cstr buf) NUL) of
           None \<Rightarrow> None
         | Some (linkaddr, line) \<Rightarrow>
        (case strtok [CHR 0x09] line of
           None \<Rightarrow> None
         | Some (linkname, _) \<Rightarrow>
             if length links < 20 then read_links (links @ [(linkaddr, linkname)]) rest else None))))"
  by pat_completeness auto
termination
  by (relation "measure (\<lambda>(n, c). length c)")
    (auto dest: fgets_nonempty)

declare read_links.simps [simp del]

definition read_link_names :: "(string \<Rightarrow> string option) \<Rightarrow> (string \<times> string) list option" where
  "read_link_names files =
     (case files ''linknames.txt'' of None \<Rightarrow> None | Some content \<Rightarrow> read_links [] content)"

section \<open>The options\<close>

datatype option_code = Opt char | OptDisplayMode

definition int_arg :: "string \<Rightarrow> (int \<Rightarrow> ui_exit + mtr_ctl) \<Rightarrow> ui_exit + mtr_ctl" where
  "int_arg optarg f = and_then (strtonum_or_err optarg ''invalid argument'' STRTO_INT) f"

text \<open>The options that choose the display.\<close>

definition display_option :: "char \<Rightarrow> mtr_ctl \<Rightarrow> mtr_ctl option" where
  "display_option c ctl =
     (if c = CHR ''r'' then Some (ctl\<lparr>DisplayMode := DisplayReport\<rparr>)
      else if c = CHR ''w'' then Some (ctl\<lparr>reportwide := True, DisplayMode := DisplayReport\<rparr>)
      else if c = CHR ''t'' then Some (ctl\<lparr>DisplayMode := DisplayCurses\<rparr>)
      else if c = CHR ''g'' then Some (ctl\<lparr>DisplayMode := DisplayGTK\<rparr>)
      else if c = CHR ''p'' then Some (ctl\<lparr>DisplayMode := DisplaySplit\<rparr>)
      else if c = CHR ''l'' then Some (ctl\<lparr>DisplayMode := DisplayRaw\<rparr>)
      else if c = CHR ''C'' then Some (ctl\<lparr>DisplayMode := DisplayCSV\<rparr>)
      else if c = CHR ''j'' then Some (ctl\<lparr>DisplayMode := DisplayJSON\<rparr>)
      else if c = CHR ''x'' then Some (ctl\<lparr>DisplayMode := DisplayXML\<rparr>)
      else None)"

text \<open>The options that only set a flag, a name or the address family.\<close>

definition flag_option :: "char \<Rightarrow> string \<Rightarrow> mtr_ctl \<Rightarrow> mtr_ctl option" where
  "flag_option c optarg ctl =
     (if c = CHR ''I'' then Some (ctl\<lparr>InterfaceName := Some optarg\<rparr>)
      else if c = CHR ''a'' then Some (ctl\<lparr>InterfaceAddress := Some optarg\<rparr>)
      else if c = CHR ''e'' then Some (ctl\<lparr>enablempls := True\<rparr>)
      else if c = CHR ''n'' then Some (ctl\<lparr>dns := False\<rparr>)
      else if c = CHR ''b'' then Some (ctl\<lparr>show_ips := True\<rparr>)
      else if c = CHR ''4'' then Some (ctl\<lparr>af := AF_INET\<rparr>)
      else if c = CHR ''6'' then Some (ctl\<lparr>af := AF_INET6\<rparr>)
      else if c = CHR ''z'' then Some (ctl\<lparr>ipinfo_no := 0\<rparr>)
      else None)"

definition set_first_ttl :: "int \<Rightarrow> mtr_ctl \<Rightarrow> mtr_ctl" where
  "set_first_ttl n ctl =
     (let ctl = ctl\<lparr>fstTTL := n\<rparr>;
          ctl = (if maxTTL ctl < fstTTL ctl then ctl\<lparr>fstTTL := maxTTL ctl\<rparr> else ctl)
      in if fstTTL ctl < 1 then ctl\<lparr>fstTTL := 1\<rparr> else ctl)"

definition set_max_ttl :: "int \<Rightarrow> mtr_ctl \<Rightarrow> mtr_ctl" where
  "set_max_ttl n ctl =
     (let ctl = ctl\<lparr>maxTTL := n\<rparr>;
          ctl = (if int MaxHost - 1 < maxTTL ctl then ctl\<lparr>maxTTL := int MaxHost - 1\<rparr> else ctl);
          ctl = (if maxTTL ctl < 1 then ctl\<lparr>maxTTL := 1\<rparr> else ctl)
      in if maxTTL ctl < fstTTL ctl then ctl\<lparr>fstTTL := maxTTL ctl\<rparr> else ctl)"

text \<open>The options with a number. The timeout is multiplied as an \<open>int\<close>.\<close>

definition number_option :: "char \<Rightarrow> string \<Rightarrow> mtr_ctl \<Rightarrow> (ui_exit + mtr_ctl) option" where
  "number_option c optarg ctl =
     (if c = CHR ''c'' then Some (int_arg optarg (\<lambda>n. Inr (ctl\<lparr>MaxPing := n, ForceMaxPing := True\<rparr>)))
      else if c = CHR ''s'' then Some (int_arg optarg (\<lambda>n. Inr (ctl\<lparr>cpacketsize := n\<rparr>)))
      else if c = CHR ''f'' then Some (int_arg optarg (\<lambda>n. Inr (set_first_ttl n ctl)))
      else if c = CHR ''m'' then Some (int_arg optarg (\<lambda>n. Inr (set_max_ttl n ctl)))
      else if c = CHR ''U'' then
        Some (int_arg optarg (\<lambda>n. Inr (ctl\<lparr>maxUnknown := (if n < 1 then 1 else n)\<rparr>)))
      else if c = CHR ''B'' then
        Some (int_arg optarg (\<lambda>n. Inr (ctl\<lparr>bitpattern := (if 255 < n then -1 else n)\<rparr>)))
      else if c = CHR ''Q'' then
        Some (int_arg optarg (\<lambda>n. Inr (ctl\<lparr>tos := (if 255 < n \<or> n < 0 then 0 else n)\<rparr>)))
      else if c = CHR ''P'' then
        Some (int_arg optarg (\<lambda>n. if n < 1 \<or> MaxPort < n then Inl (''Illegal port number: '' @ fmt_d n)
                                 else Inr (ctl\<lparr>remoteport := n\<rparr>)))
      else if c = CHR ''L'' then
        Some (int_arg optarg (\<lambda>n. if n < MinPort \<or> MaxPort < n then Inl (''Illegal port number: '' @ fmt_d n)
                                 else Inr (ctl\<lparr>localport := n\<rparr>)))
      else if c = CHR ''Z'' then
        Some (int_arg optarg (\<lambda>n. Inr (ctl\<lparr>probe_timeout := to_int32 (n * 1000000)\<rparr>)))
      else if c = CHR ''y'' then
        Some (int_arg optarg (\<lambda>n. if n < 0 \<or> 4 < n then Inl (''value '' @ fmt_d n @ '' out of range (0 - 4)'')
                                 else Inr (ctl\<lparr>ipinfo_no := n\<rparr>)))
      else if c = CHR ''M'' then
        Some (and_then (strtonum_or_err optarg ''invalid argument'' STRTO_U32INT)
                (\<lambda>n. Inr (ctl\<lparr>mark := n mod 4294967296\<rparr>)))
      else None)"

text \<open>The options that choose the protocol exclude one another.\<close>

definition set_protocol :: "int \<Rightarrow> bool \<Rightarrow> mtr_ctl \<Rightarrow> ui_exit + mtr_ctl" where
  "set_protocol proto needs_port ctl =
     (if mtrtype ctl \<noteq> IPPROTO_ICMP then Inl ''-u , -T and -S are mutually exclusive''
      else (let ctl = (if needs_port \<and> remoteport ctl = 0 then ctl\<lparr>remoteport := 80\<rparr> else ctl)
            in Inr (ctl\<lparr>mtrtype := proto\<rparr>)))"

definition protocol_option :: "char \<Rightarrow> mtr_ctl \<Rightarrow> (ui_exit + mtr_ctl) option" where
  "protocol_option c ctl =
     (if c = CHR ''u'' then Some (set_protocol IPPROTO_UDP False ctl)
      else if c = CHR ''T'' then Some (set_protocol IPPROTO_TCP True ctl)
      else if c = CHR ''S'' then Some (set_protocol IPPROTO_SCTP True ctl)
      else None)"

definition set_fields :: "string \<Rightarrow> mtr_ctl \<Rightarrow> ui_exit + mtr_ctl" where
  "set_fields optarg ctl =
     (if MAXFLD < length optarg then Inl (''Too many fields: '' @ optarg)
      else (case filter (\<lambda>c. c \<notin> set (available_options ctl)) optarg of
              c # _ \<Rightarrow> Inl (''Unknown field identifier: '' @ [c])
            | [] \<Rightarrow> Inr (ctl\<lparr>fld_active := xstrncpy optarg (2 * int MAXFLD)\<rparr>)))"

text \<open>The options with a duration. \<open>running_as_root\<close> is the test of the user id.\<close>

definition set_interval :: "fp_env \<Rightarrow> bool \<Rightarrow> string \<Rightarrow> mtr_ctl \<Rightarrow> ui_exit + mtr_ctl" where
  "set_interval fp running_as_root optarg ctl =
     and_then (strtofloat_or_err fp optarg ''invalid argument'')
       (\<lambda>t. if t \<le> 0 then Inl ''wait time must be positive''
            else if \<not> running_as_root \<and> t < 1
              then Inl ''non-root users cannot request an interval < 1.0 seconds''
            else Inr (ctl\<lparr>WaitTime := t\<rparr>))"

definition set_grace :: "fp_env \<Rightarrow> string \<Rightarrow> mtr_ctl \<Rightarrow> ui_exit + mtr_ctl" where
  "set_grace fp optarg ctl =
     and_then (strtofloat_or_err fp optarg ''invalid argument'')
       (\<lambda>t. if t \<le> 0 then Inl ''wait time must be positive'' else Inr (ctl\<lparr>GraceTime := t\<rparr>))"

definition set_display_mode :: "string \<Rightarrow> mtr_ctl \<Rightarrow> ui_exit + mtr_ctl" where
  "set_display_mode optarg ctl =
     int_arg optarg (\<lambda>n. if 2 < n then Inl (''value out of range (0 - 2): '' @ optarg)
                        else Inr (ctl\<lparr>display_mode := n\<rparr>))"

text \<open>One option of the loop in \<open>parse_arg\<close>; \<open>-h\<close>, \<open>-v\<close> and an unknown option end the
  program.\<close>

record options_env =
  oe_fp :: fp_env
  oe_root :: bool
  oe_files :: "string \<Rightarrow> string option"

definition parse_option ::
  "options_env \<Rightarrow> option_code \<times> string \<Rightarrow> mtr_ctl \<times> string list \<Rightarrow> ui_exit + (mtr_ctl \<times> string list)" where
  "parse_option oe = (\<lambda>(opt, optarg) (ctl, names).
     (let ok = (\<lambda>r. and_then r (\<lambda>ctl. Inr (ctl, names)))
      in case opt of
           OptDisplayMode \<Rightarrow> ok (set_display_mode optarg ctl)
         | Opt c \<Rightarrow>
             if c = CHR ''F'' then
               and_then (read_from_file (oe_files oe) names optarg) (\<lambda>names. Inr (ctl, names))
             else if c = CHR ''o'' then ok (set_fields optarg ctl)
             else if c = CHR ''i'' then ok (set_interval (oe_fp oe) (oe_root oe) optarg ctl)
             else if c = CHR ''G'' then ok (set_grace (oe_fp oe) optarg ctl)
             else (case display_option c ctl of Some ctl \<Rightarrow> Inr (ctl, names) | None \<Rightarrow>
                  (case flag_option c optarg ctl of Some ctl \<Rightarrow> Inr (ctl, names) | None \<Rightarrow>
                  (case number_option c optarg ctl of Some r \<Rightarrow> ok r | None \<Rightarrow>
                  (case protocol_option c ctl of Some r \<Rightarrow> ok r | None \<Rightarrow> Inl ''usage''))))))"

fun parse_options ::
  "options_env \<Rightarrow> (option_code \<times> string) list \<Rightarrow> mtr_ctl \<times> string list \<Rightarrow> ui_exit + (mtr_ctl \<times> string list)" where
  "parse_options oe [] st = Inr st"
| "parse_options oe (opt # opts) st = and_then (parse_option oe opt st) (parse_options oe opts)"

definition not_interactive :: "display \<Rightarrow> bool" where
  "not_interactive d \<longleftrightarrow> d \<in> {DisplayReport, DisplayTXT, DisplayJSON, DisplayXML, DisplayRaw, DisplayCSV}"

definition parse_arg ::
  "options_env \<Rightarrow> (option_code \<times> string) list \<Rightarrow> mtr_ctl \<times> string list \<Rightarrow> ui_exit + (mtr_ctl \<times> string list)" where
  "parse_arg oe opts st =
     and_then (parse_options oe opts st)
       (\<lambda>(ctl, names). Inr (if not_interactive (DisplayMode ctl) then ctl\<lparr>Interactive := False\<rparr> else ctl, names))"

text \<open>\<open>parse_mtr_options\<close> cuts the variable \<open>MTR_OPTIONS\<close> into at most 127 arguments.\<close>

function split_options :: "nat \<Rightarrow> string \<Rightarrow> string list" where
  "split_options argc string =
     (case strtok [CHR '' '', CHR 0x09] string of
        None \<Rightarrow> []
      | Some (p, rest) \<Rightarrow> if argc < 128 then p # split_options (argc + 1) rest else [])"
  by pat_completeness auto
termination
  by (relation "measure (\<lambda>(n, s). length s)") (auto dest: strtok_shorter)

declare split_options.simps [simp del]

definition parse_mtr_options ::
  "options_env \<Rightarrow> (string list \<Rightarrow> (option_code \<times> string) list) \<Rightarrow> string option
     \<Rightarrow> mtr_ctl \<times> string list \<Rightarrow> ui_exit + (mtr_ctl \<times> string list)" where
  "parse_mtr_options oe getopt_long string st =
     (case string of
        None \<Rightarrow> Inr st
      | Some s \<Rightarrow> parse_arg oe (getopt_long (''mtr'' # split_options 1 s)) st)"

text \<open>The start of \<open>main\<close>, up to the list of targets.\<close>

definition configure ::
  "options_env \<Rightarrow> (string list \<Rightarrow> (option_code \<times> string) list) \<Rightarrow> display \<Rightarrow> string option
     \<Rightarrow> (option_code \<times> string) list \<Rightarrow> string list \<Rightarrow> ui_exit + (mtr_ctl \<times> string list)" where
  "configure oe getopt_long detected env_options opts operands =
     (let ctl = init_fld_options (default_ctl detected)
      in and_then (parse_mtr_options oe getopt_long env_options (ctl, []))
           (\<lambda>st. and_then (parse_arg oe opts st)
           (\<lambda>(ctl, names).
              (let names = foldl append_to_names names operands
               in Inr (ctl, if names = [] then append_to_names names ''localhost'' else names)))))"

section \<open>What the options guarantee\<close>

text \<open>The values every accepted command line gives. They bound what is sent to \<open>mtr-packet\<close>
  and what the display and the hop table index with.\<close>

definition options_ok :: "mtr_ctl \<Rightarrow> bool" where
  "options_ok ctl \<longleftrightarrow>
     1 \<le> fstTTL ctl \<and> fstTTL ctl \<le> maxTTL ctl \<and> maxTTL ctl < int MaxHost
     \<and> 1 \<le> maxUnknown ctl \<and> 0 \<le> MaxPing ctl
     \<and> 0 \<le> cpacketsize ctl \<and> cpacketsize ctl < INT_MAX \<and> -1 \<le> bitpattern ctl \<and> bitpattern ctl \<le> 255
     \<and> 0 \<le> tos ctl \<and> tos ctl \<le> 255 \<and> 0 \<le> mark ctl \<and> mark ctl \<le> UINT32_MAX
     \<and> 0 \<le> remoteport ctl \<and> remoteport ctl \<le> MaxPort
     \<and> (localport ctl = 0 \<or> MinPort \<le> localport ctl \<and> localport ctl \<le> MaxPort)
     \<and> mtrtype ctl \<in> {IPPROTO_ICMP, IPPROTO_UDP, IPPROTO_TCP, IPPROTO_SCTP}
     \<and> (mtrtype ctl \<in> {IPPROTO_TCP, IPPROTO_SCTP} \<longrightarrow> remoteport ctl \<noteq> 0)
     \<and> is_int32 (probe_timeout ctl) \<and> -1 \<le> ipinfo_no ctl \<and> ipinfo_no ctl \<le> 4
     \<and> 0 \<le> display_mode ctl \<and> display_mode ctl \<le> 2 \<and> 0 < WaitTime ctl \<and> 0 < GraceTime ctl
     \<and> length (fld_active ctl) \<le> MAXFLD \<and> set (fld_active ctl) \<subseteq> set (available_options ctl)
     \<and> unspec_addr ctl = zero_ip"

lemma int_arg_Inr: "int_arg a f = Inr r \<Longrightarrow> \<exists>n. 0 \<le> n \<and> n < INT_MAX \<and> f n = Inr r"
  by (auto simp: int_arg_def and_then_Inr dest: strtonum_int)

text \<open>Setting one option to a value in its range keeps all of them in range.\<close>

named_theorems opt_upd

lemma options_upd_flags [opt_upd]:
  "options_ok (ctl\<lparr>DisplayMode := d\<rparr>) = options_ok ctl" "options_ok (ctl\<lparr>reportwide := b\<rparr>) = options_ok ctl"
  "options_ok (ctl\<lparr>InterfaceName := i\<rparr>) = options_ok ctl" "options_ok (ctl\<lparr>InterfaceAddress := i\<rparr>) = options_ok ctl"
  "options_ok (ctl\<lparr>enablempls := b\<rparr>) = options_ok ctl" "options_ok (ctl\<lparr>dns := b\<rparr>) = options_ok ctl"
  "options_ok (ctl\<lparr>show_ips := b\<rparr>) = options_ok ctl" "options_ok (ctl\<lparr>af := f\<rparr>) = options_ok ctl"
  "options_ok (ctl\<lparr>ForceMaxPing := b\<rparr>) = options_ok ctl" "options_ok (ctl\<lparr>Interactive := b\<rparr>) = options_ok ctl"
  by (simp_all add: options_ok_def)

lemma options_upd_numbers [opt_upd]:
  assumes "options_ok ctl"
  shows "0 \<le> n \<Longrightarrow> options_ok (ctl\<lparr>MaxPing := n\<rparr>)"
    and "0 \<le> n \<Longrightarrow> n < INT_MAX \<Longrightarrow> options_ok (ctl\<lparr>cpacketsize := n\<rparr>)"
    and "1 \<le> n \<Longrightarrow> options_ok (ctl\<lparr>maxUnknown := n\<rparr>)"
    and "-1 \<le> n \<Longrightarrow> n \<le> 255 \<Longrightarrow> options_ok (ctl\<lparr>bitpattern := n\<rparr>)"
    and "0 \<le> n \<Longrightarrow> n \<le> 255 \<Longrightarrow> options_ok (ctl\<lparr>tos := n\<rparr>)"
    and "1 \<le> n \<Longrightarrow> n \<le> MaxPort \<Longrightarrow> options_ok (ctl\<lparr>remoteport := n\<rparr>)"
    and "MinPort \<le> n \<Longrightarrow> n \<le> MaxPort \<Longrightarrow> options_ok (ctl\<lparr>localport := n\<rparr>)"
    and "is_int32 n \<Longrightarrow> options_ok (ctl\<lparr>probe_timeout := n\<rparr>)"
    and "0 \<le> n \<Longrightarrow> n \<le> 4 \<Longrightarrow> options_ok (ctl\<lparr>ipinfo_no := n\<rparr>)"
    and "0 \<le> n \<Longrightarrow> n \<le> UINT32_MAX \<Longrightarrow> options_ok (ctl\<lparr>mark := n\<rparr>)"
    and "0 \<le> n \<Longrightarrow> n \<le> 2 \<Longrightarrow> options_ok (ctl\<lparr>display_mode := n\<rparr>)"
    and "0 < t \<Longrightarrow> options_ok (ctl\<lparr>WaitTime := t\<rparr>)" and "0 < t \<Longrightarrow> options_ok (ctl\<lparr>GraceTime := t\<rparr>)"
    and "length f \<le> MAXFLD \<Longrightarrow> set f \<subseteq> set (available_options ctl) \<Longrightarrow> options_ok (ctl\<lparr>fld_active := f\<rparr>)"
    and "options_ok (set_first_ttl n ctl)" and "options_ok (set_max_ttl n ctl)"
  using assms
  by (simp_all only: options_ok_def mtr_ctl.simps)
    (simp_all add: set_first_ttl_def set_max_ttl_def Let_def)

text \<open>A fallible setting keeps them: if it succeeds, the new options are in range.\<close>

abbreviation sets_ok :: "ui_exit + mtr_ctl \<Rightarrow> bool" where
  "sets_ok \<equiv> pred_sum (\<lambda>_. True) options_ok"

lemma sets_ok_int_arg:
  "(\<And>n. 0 \<le> n \<Longrightarrow> n < INT_MAX \<Longrightarrow> sets_ok (f n)) \<Longrightarrow> sets_ok (int_arg a f)"
  by (cases "strtonum_or_err a ''invalid argument'' STRTO_INT") (auto simp: int_arg_def dest: strtonum_int)

lemma sets_ok_and_then: "(\<And>n. sets_ok (f n)) \<Longrightarrow> sets_ok (and_then r f)"
  by (cases r) simp_all

lemma display_option_ok: "options_ok ctl \<Longrightarrow> pred_option options_ok (display_option c ctl)"
  by (simp add: display_option_def opt_upd)

lemma flag_option_ok: "options_ok ctl \<Longrightarrow> pred_option options_ok (flag_option c a ctl)"
  by (simp add: flag_option_def opt_upd)

lemma number_option_ok: "options_ok ctl \<Longrightarrow> pred_option sets_ok (number_option c a ctl)"
  by (simp add: number_option_def sets_ok_int_arg sets_ok_and_then opt_upd)

lemma protocol_option_ok: "options_ok ctl \<Longrightarrow> pred_option sets_ok (protocol_option c ctl)"
  by (simp add: protocol_option_def set_protocol_def Let_def options_ok_def)

lemma set_fields_ok: "options_ok ctl \<Longrightarrow> sets_ok (set_fields a ctl)"
  by (auto simp: set_fields_def xstrncpy_def filter_empty_conv intro!: opt_upd split: list.split)

lemma set_times_ok:
  assumes "options_ok ctl"
  shows "sets_ok (set_interval fp is_root a ctl)" and "sets_ok (set_grace fp a ctl)"
    and "sets_ok (set_display_mode a ctl)"
  using assms unfolding set_interval_def set_grace_def set_display_mode_def
  by (intro sets_ok_and_then sets_ok_int_arg; simp add: opt_upd)+

lemma parse_option_ok:
  assumes "parse_option oe opt (ctl, names) = Inr (ctl', names')" and "options_ok ctl"
  shows "options_ok ctl'"
proof -
  have ok: "sets_ok r \<Longrightarrow> and_then r (\<lambda>ctl. Inr (ctl, ns)) = Inr (ctl', names') \<Longrightarrow> options_ok ctl'" for r ns
    by (cases r) simp_all
  note groups = display_option_ok [OF assms(2)] flag_option_ok [OF assms(2)] number_option_ok [OF assms(2)]
    protocol_option_ok [OF assms(2)]
  obtain oc a where opt: "opt = (oc, a)" by fastforce
  show ?thesis
  proof (cases oc)
    case OptDisplayMode
    with assms(1) opt show ?thesis
      using ok [OF set_times_ok(3) [OF assms(2), of a], of names] by (simp add: parse_option_def)
  next
    case (Opt c)
    have other: "options_ok ctl'"
      if "(case display_option c ctl of Some ctl \<Rightarrow> Inr (ctl, names) | None \<Rightarrow>
          (case flag_option c a ctl of Some ctl \<Rightarrow> Inr (ctl, names) | None \<Rightarrow>
          (case number_option c a ctl of Some r \<Rightarrow> and_then r (\<lambda>ctl. Inr (ctl, names)) | None \<Rightarrow>
          (case protocol_option c ctl of Some r \<Rightarrow> and_then r (\<lambda>ctl. Inr (ctl, names))
             | None \<Rightarrow> Inl ''usage'')))) = Inr (ctl', names')"
      using that groups(1) [of c] groups(2) [of c a] groups(3) [of c a] groups(4) [of c] ok [of _ names]
      by (cases "display_option c ctl"; cases "flag_option c a ctl"; cases "number_option c a ctl";
          cases "protocol_option c ctl"; simp)
    show ?thesis
      using assms(1) opt Opt ok set_fields_ok [OF assms(2), of a]
        set_times_ok(1) [OF assms(2), of "oe_fp oe" "oe_root oe" a] set_times_ok(2) [OF assms(2), of "oe_fp oe" a]
        other assms(2)
      by (auto simp: parse_option_def Let_def and_then_Inr split: if_split_asm)
  qed
qed

lemma parse_options_ok:
  "parse_options oe opts (ctl, names) = Inr (ctl', names') \<Longrightarrow> options_ok ctl \<Longrightarrow> options_ok ctl'"
  by (induction opts arbitrary: ctl names) (auto simp: and_then_Inr dest: parse_option_ok)

lemma parse_arg_ok:
  "parse_arg oe opts (ctl, names) = Inr (ctl', names') \<Longrightarrow> options_ok ctl \<Longrightarrow> options_ok ctl'"
  by (auto simp: parse_arg_def and_then_Inr opt_upd dest!: parse_options_ok split: if_split_asm)

lemma default_ok: "options_ok (init_fld_options (default_ctl d))"
  by (simp add: options_ok_def init_fld_options_def data_fields_def default_ctl_def xstrncpy_def
      is_int32_def)

lemma configure_ok:
  assumes "configure oe getopt_long detected env_options opts operands = Inr (ctl, names)"
  shows "options_ok ctl"
proof -
  obtain c0 n0 c1 n1 where "parse_mtr_options oe getopt_long env_options
      (init_fld_options (default_ctl detected), []) = Inr (c0, n0)"
    and 1: "parse_arg oe opts (c0, n0) = Inr (c1, n1)" and "ctl = c1"
    using assms by (auto simp: configure_def Let_def and_then_Inr)
  then have "options_ok c0"
    using default_ok by (auto simp: parse_mtr_options_def intro: parse_arg_ok split: option.split_asm)
  with parse_arg_ok [OF 1] show ?thesis by (simp add: \<open>ctl = c1\<close>)
qed

text \<open>There is always a target.\<close>

lemma configure_names:
  "configure oe getopt_long detected env_options opts operands = Inr (ctl, names) \<Longrightarrow> names \<noteq> []"
  by (auto simp: configure_def Let_def and_then_Inr append_to_names_eq split: if_split_asm)

text \<open>Short lines of a file become the trimmed names, in order.\<close>

lemma read_names_lines:
  assumes "\<forall>l \<in> set ls. NL \<notin> set l \<and> no_nul l \<and> length l < 511"
  shows "read_names names (concat (map (\<lambda>l. l @ [NL]) ls)) = names @ map (\<lambda>l. trim (l @ [NL]) NUL) ls"
  using assms
proof (induction ls arbitrary: names)
  case Nil
  then show ?case by (simp add: read_names.simps)
next
  case (Cons l ls)
  have f: "fgets 511 (l @ NL # concat (map (\<lambda>l. l @ [NL]) ls)) = (l @ [NL], concat (map (\<lambda>l. l @ [NL]) ls))"
    by (rule fgets_line) (use Cons.prems in auto)
  have c: "cstr (l @ [NL]) = l @ [NL]" using Cons.prems by (intro cstr_id) auto
  show ?case
    using Cons by (simp add: read_names.simps [of names] f c append_to_names_eq)
qed

end
