(* ===== verification/Samples.thy ===== *)
theory Samples
  imports PacketMain NetInv MtrOptions
begin

text \<open>
  Concrete instances of the parameters, at which the properties are applied: a text form of
  addresses with two letters for each byte, exact arithmetic, an operating system without traffic,
  and the option structure that \<open>main\<close> builds.
\<close>

section \<open>Addresses\<close>

definition letter :: "nat \<Rightarrow> char" where
  "letter n = char_of (65 + n)"

definition unletter :: "char \<Rightarrow> nat" where
  "unletter c = of_char c - 65"

fun byte_text :: "u8 list \<Rightarrow> string" where
  "byte_text [] = []"
| "byte_text (b # bs) = letter (unat b div 16) # letter (unat b mod 16) # byte_text bs"

fun text_bytes :: "string \<Rightarrow> u8 list" where
  "text_bytes (c # d # cs) = of_nat (16 * unletter c + unletter d) # text_bytes cs"
| "text_bytes _ = []"

definition sample_inet :: inet_env where
  "sample_inet = \<lparr>inet_ntop = (\<lambda>fam b. if fam = AF_UNSPEC then None else Some (byte_text (take (addr_len fam) b))),
     inet_pton = (\<lambda>fam s. if length (text_bytes s) = addr_len fam then Some (text_bytes s) else None)\<rparr>"

lemma unletter_letter: "n < 16 \<Longrightarrow> unletter (letter n) = n"
  by (simp add: unletter_def letter_def)

lemma text_bytes_text: "text_bytes (byte_text b) = b"
proof (induction b)
  case (Cons x b)
  have "unat x < 256" using unsigned_less [of x, where ?'a = nat] by simp
  then have "unat x div 16 < 16" by simp
  then show ?case using Cons by (simp add: unletter_letter)
qed simp

lemma of_char_letter: "n < 16 \<Longrightarrow> of_char (letter n) = 65 + n"
  by (simp add: letter_def)

lemma letter_printable: "n < 16 \<Longrightarrow> \<not> isspace (letter n) \<and> letter n \<noteq> NUL"
  using of_char_letter [of n] by (auto simp: isspace_def)

lemma byte_text_printable: "c \<in> set (byte_text b) \<Longrightarrow> \<not> isspace c \<and> c \<noteq> NUL"
proof (induction b)
  case (Cons x b)
  have "unat x < 256" using unsigned_less [of x, where ?'a = nat] by simp
  then have "unat x div 16 < 16" "unat x mod 16 < 16" by simp_all
  then show ?case using Cons letter_printable by auto
qed simp

lemma length_byte_text [simp]: "length (byte_text b) = 2 * length b"
  by (induction b) auto

lemma sample_inet_ok: "inet_ok sample_inet"
  unfolding inet_ok_def
proof (intro conjI allI impI)
  fix fam b assume fam: "fam \<noteq> AF_UNSPEC" and len: "addr_len fam \<le> length (b :: u8 list)"
  have "addr_len fam \<le> 16" "0 < addr_len fam" using fam by (cases fam; simp add: addr_len_def)+
  moreover have "byte_text (take (addr_len fam) b) \<noteq> []"
    using len \<open>0 < addr_len fam\<close> by (metis length_byte_text length_take list.size(3) min.absorb2 mult_is_0 not_less0 zero_neq_numeral)
  ultimately have "is_addr_text (byte_text (take (addr_len fam) b))"
    using len by (auto simp: is_addr_text_def dest: byte_text_printable)
  then show "\<exists>s. inet_ntop sample_inet fam b = Some s \<and> is_addr_text s
      \<and> inet_pton sample_inet fam s = Some (take (addr_len fam) b)"
    using fam len by (simp add: sample_inet_def text_bytes_text)
qed (auto simp: sample_inet_def split: if_splits)

section \<open>Arithmetic\<close>

definition exact_fp :: fp_env where
  "exact_fp = \<lparr>rnd = id, rndf = id, fp_pow = (\<lambda>x y. x), fp_sqrt = id, fp_strtod = (\<lambda>s. (1, False, []))\<rparr>"

lemma exact_fp_ok: "fp_ok exact_fp"
  by (simp add: fp_ok_def exact_fp_def)

section \<open>An operating system without traffic\<close>

definition quiet_os :: "unit os" where
  "quiet_os = \<lparr>os_pid = 4242, os_inet = sample_inet, os_uninit = zero_sockaddr,
     os_uninit_bytes = replicate 9000 0,
     os_malloc = (\<lambda>w. (True, w)),
     os_socket = (\<lambda>_ _ _ w. (Inr 5, w)),
     os_close = (\<lambda>_ w. w),
     os_getfl = (\<lambda>_ w. (Inr 0, w)),
     os_set_nonblock = (\<lambda>_ _ w. (Inr (), w)),
     os_setsockopt = (\<lambda>_ _ _ w. (Inr (), w)),
     os_bind = (\<lambda>_ _ w. (Inr (), w)),
     os_connect = (\<lambda>_ _ w. (Inr (), w)),
     os_getsockname = (\<lambda>_ w. (Inr zero_sockaddr, w)),
     os_sendto = (\<lambda>_ bytes _ w. (Inr (int (length bytes)), w)),
     os_recvmsg = (\<lambda>_ _ w. (Inl EAGAIN, w)),
     os_so_error = (\<lambda>_ w. (Inr None, w)),
     os_so_protocol = (\<lambda>_ w. (Inr 1, w)),
     os_gettimeofday = (\<lambda>w. (Inr (Timeval 1000 0), w)),
     os_writable = (\<lambda>_ w. (Inr False, w)),
     os_select = (\<lambda>_ _ _ _ w. (Inr (), w)),
     os_read = (\<lambda>_ _ w. (Inr [], w))\<rparr>"

text \<open>The state after the raw IPv4 sockets are open.\<close>

definition raw4_ns :: net_state_t where
  "raw4_ns = zero_net_state\<lparr>np_next_sequence := MIN_PORT, ip4_present := True, ip4_socket_raw := True,
     ip4_send_socket := 5, ip4_recv_socket := 6\<rparr>"

definition raw4_pst :: "unit pst" where
  "raw4_pst = \<lparr>net_state = raw4_ns, stdout_lines = [], errno_var = EINTR, world = ()\<rparr>"

lemma raw4_ok: "probes_ok raw4_ns"
  by (simp add: raw4_ns_def zero_net_state_def probes_ok_def)

end
