(* ===== verification/PacketProps.thy ===== *)
theory PacketProps
  imports PacketInv Samples
begin

text \<open>
  The properties of \<open>mtr-packet\<close>: the account of commands and answers, and the wait for the
  next timeout.
\<close>

section \<open>Every command is answered once\<close>


text \<open>C1: Dispatching the command buffer answers every complete line once: the reply lines
  printed and the probes outstanding together grow by the number of lines in the buffer, and by one
  more when an overflowing buffer is reported. Each command turns into a line at once or into an
  outstanding probe, and the table of probes stays well formed.\<close>

theorem commands_answered_once:
  assumes "probes_ok (net_state st)"
    and "dispatch_buffer_commands os version buf st = Inr (rest, st')"
  shows "probes_ok (net_state st') \<and>
    int (length (stdout_lines st')) + outstanding_probe_count (net_state st')
      = int (length (stdout_lines st)) + outstanding_probe_count (net_state st) + int (lines_answered buf)"
proof -
  let ?n = "int (length (stdout_lines st)) + outstanding_probe_count (net_state st)"
  have "tracked ?n {} st" using assms(1) by (simp add: tracked_def)
  from proc_okD [OF ok_dispatch this assms(2) [folded dispatch_proc_def]] show ?thesis
    by (simp add: tracked_def)
qed

definition sample_commands :: string where
  "sample_commands = ''1 check-support feature ip-4'' @ [NL] @ ''7 fly'' @ [NL] @ ''8 se''"

theorem commands_answered_once_witness:
  "case dispatch_buffer_commands quiet_os ''0.92'' sample_commands raw4_pst of
     Inl _ \<Rightarrow> False
   | Inr (rest, st') \<Rightarrow> rest = ''8 se''
       \<and> int (length (stdout_lines st')) + outstanding_probe_count (net_state st') = 2"
proof -
  let ?r = "dispatch_buffer_commands quiet_os ''0.92'' sample_commands raw4_pst"
  have "case ?r of Inl _ \<Rightarrow> False | Inr (rest, st') \<Rightarrow> rest = ''8 se''"
    by code_simp
  then obtain st' where r: "?r = Inr (''8 se'', st')" by (auto split: sum.splits)
  have "lines_answered sample_commands = 2" by code_simp
  then show ?thesis
    using commands_answered_once [OF _ r] raw4_ok unfolding r
    by (simp add: raw4_pst_def raw4_ns_def zero_net_state_def)
qed

text \<open>Receiving replies answers probes and nothing else: reading the sockets, in whatever
  order packets and errors arrive, turns outstanding probes into reply lines one for one. No packet
  makes a line without a probe, and no probe is lost without a line.\<close>

theorem replies_answer_probes:
  assumes "probes_ok (net_state st)" and "receive_replies fuel os st = Inr ((), st')"
  shows "probes_ok (net_state st') \<and>
    int (length (stdout_lines st')) + outstanding_probe_count (net_state st')
      = int (length (stdout_lines st)) + outstanding_probe_count (net_state st)"
proof -
  let ?n = "int (length (stdout_lines st)) + outstanding_probe_count (net_state st)"
  have "tracked ?n {} st" using assms(1) by (simp add: tracked_def)
  from proc_okD [OF calmD [OF calm_receive_replies] this assms(2)] show ?thesis
    by (simp add: tracked_def)
qed

theorem replies_answer_probes_witness:
  "case receive_replies 3 quiet_os raw4_pst of Inl _ \<Rightarrow> False
   | Inr (_, st') \<Rightarrow> int (length (stdout_lines st')) + outstanding_probe_count (net_state st') = 0"
proof -
  have "case receive_replies 3 quiet_os raw4_pst of Inl _ \<Rightarrow> False | Inr _ \<Rightarrow> True" by code_simp
  then obtain st' where r: "receive_replies 3 quiet_os raw4_pst = Inr ((), st')"
    by (auto split: sum.splits)
  show ?thesis
    using replies_answer_probes [OF _ r] raw4_ok unfolding r
    by (simp add: raw4_pst_def raw4_ns_def zero_net_state_def)
qed

end
