(* ===== verification/Timeouts.thy ===== *)
theory Timeouts
  imports Samples
begin

text \<open>
  Timeouts of probes: what \<open>check_probe_timeouts\<close> reports and keeps, and how long
  \<open>wait_for_activity\<close> may sleep (\<open>packet/probe_unix.c\<close>, \<open>packet/wait_unix.c\<close>).
\<close>

definition expired :: "timeval \<Rightarrow> nat \<times> probe_t \<Rightarrow> bool" where
  "expired now pp \<longleftrightarrow> pr_timeout_time (snd pp) < now"

definition no_reply_line :: "nat \<times> probe_t \<Rightarrow> string" where
  "no_reply_line pp = fmt_d (pr_token (snd pp)) @ '' no-reply''"

text \<open>Freeing a probe of the list takes it out.\<close>

lemma free_probe_eq:
  assumes "outstanding_probes (net_state st) = kept @ (p, x) # rest"
    and "distinct (map fst (kept @ (p, x) # rest))"
  shows "\<exists>st'. free_probe os p st = Inr ((), st') \<and> outstanding_probes (net_state st') = kept @ rest
    \<and> stdout_lines st' = stdout_lines st"
proof -
  have m: "map_of (kept @ (p, x) # rest) p = Some x"
    using assms(2) by (intro map_of_is_SomeI) auto
  have "\<forall>y. (p, y) \<notin> set kept" "\<forall>y. (p, y) \<notin> set rest"
    using assms(2) by (auto simp: image_iff)
  then have "filter (\<lambda>(q, _). q \<noteq> p) kept = kept" "filter (\<lambda>(q, _). q \<noteq> p) rest = rest"
    unfolding filter_id_conv by auto
  then have f: "filter (\<lambda>(q, _). q \<noteq> p) (kept @ (p, x) # rest) = kept @ rest"
    by simp
  show ?thesis
    using m f by (cases "pr_socket x = 0")
      (auto simp: free_probe_def probe_at_def proc_defs assms(1) remove_probe_def platform_free_probe_def
        simp del: map_of_append filter_append)
qed

lemma timeouts_loop:
  assumes "outstanding_probes (net_state st) = kept @ rest" and "distinct (map fst (kept @ rest))"
  shows "\<exists>st'. foreach_probe (map fst rest) (\<lambda>p. bnd (probe_at p) (\<lambda>probe.
       when' (compare_timeval (pr_timeout_time probe) now < 0)
         (bnd (print_line (fmt_d (pr_token probe) @ '' no-reply'')) (\<lambda>_. free_probe os p)))) st = Inr ((), st')
     \<and> outstanding_probes (net_state st') = kept @ filter (\<lambda>pp. \<not> expired now pp) rest
     \<and> stdout_lines st' = stdout_lines st @ map no_reply_line (filter (expired now) rest)"
  using assms
proof (induction rest arbitrary: kept st)
  case Nil
  then show ?case by (simp add: ret_def)
next
  case (Cons pp rest)
  obtain p x where pp: "pp = (p, x)" by fastforce
  have m: "map_of (kept @ (p, x) # rest) p = Some x"
    using Cons.prems(2) pp by (intro map_of_is_SomeI) auto
  then have at: "probe_at p st = Inr (x, st)"
    by (simp add: probe_at_def proc_defs Cons.prems(1) pp del: map_of_append)
  show ?case
  proof (cases "pr_timeout_time x < now")
    case True
    let ?st = "st\<lparr>stdout_lines := stdout_lines st @ [no_reply_line pp]\<rparr>"
    have "outstanding_probes (net_state ?st) = kept @ (p, x) # rest" using Cons.prems(1) pp by simp
    from free_probe_eq [OF this] Cons.prems(2) pp obtain st1 where
      free: "free_probe os p ?st = Inr ((), st1)" and out: "outstanding_probes (net_state st1) = kept @ rest"
      and lines: "stdout_lines st1 = stdout_lines st @ [no_reply_line pp]"
      by fastforce
    from Cons.IH [OF out] Cons.prems(2) obtain st' where
      "foreach_probe (map fst rest) (\<lambda>p. bnd (probe_at p) (\<lambda>probe.
         when' (compare_timeval (pr_timeout_time probe) now < 0)
         (bnd (print_line (fmt_d (pr_token probe) @ '' no-reply'')) (\<lambda>_. free_probe os p)))) st1 = Inr ((), st')"
      and "outstanding_probes (net_state st') = kept @ filter (\<lambda>pp. \<not> expired now pp) rest"
      and "stdout_lines st' = stdout_lines st1 @ map no_reply_line (filter (expired now) rest)"
      by auto
    moreover have "expired now pp" "no_reply_line pp = fmt_d (pr_token x) @ '' no-reply''"
      using True by (simp_all add: pp expired_def no_reply_line_def)
    ultimately show ?thesis
      using True free lines at by (simp add: pp bnd_def when'_def print_line_def)
  next
    case False
    have "outstanding_probes (net_state st) = (kept @ [pp]) @ rest" using Cons.prems(1) by simp
    from Cons.IH [OF this] Cons.prems(2) show ?thesis
      using False at by (simp add: pp bnd_def when'_def ret_def expired_def)
  qed
qed

text \<open>C7: Checking the timeouts, when the clock can be read, always returns. It prints the line
  ``no-reply'' with its token for each probe whose time is up, in the order of the list, and keeps
  exactly the others.\<close>

theorem timeouts_exact:
  assumes "probes_ok (net_state st)" and "os_gettimeofday os (world st) = (Inr now, w)"
  shows "\<exists>st'. check_probe_timeouts os st = Inr ((), st')
    \<and> outstanding_probes (net_state st')
        = filter (\<lambda>pp. \<not> expired now pp) (outstanding_probes (net_state st))
    \<and> stdout_lines st'
        = stdout_lines st @ map no_reply_line (filter (expired now) (outstanding_probes (net_state st)))"
proof -
  have "distinct (map fst (outstanding_probes (net_state st)))"
    using assms(1) by (simp add: probes_ok_def)
  then show ?thesis
    using timeouts_loop [of "st\<lparr>world := w\<rparr>" "[]" "outstanding_probes (net_state st)" now os] assms(2)
    by (simp add: check_probe_timeouts_def gettimeofday_def foreach_outstanding_def bnd_def sys_def
        get_ns_def ret_def)
qed

definition sample_probes :: "(nat \<times> probe_t) list" where
  "sample_probes =
     [(3, zero_probe\<lparr>pr_sequence := 33002, pr_token := 12, pr_timeout_time := Timeval 1005 0\<rparr>),
      (2, zero_probe\<lparr>pr_sequence := 33001, pr_token := 11, pr_timeout_time := Timeval 999 999999\<rparr>),
      (1, zero_probe\<lparr>pr_sequence := 33000, pr_token := 10, pr_timeout_time := Timeval 1000 0\<rparr>)]"

definition busy_pst :: "unit pst" where
  "busy_pst = raw4_pst\<lparr>net_state := raw4_ns\<lparr>outstanding_probe_count := 3,
     outstanding_probes := sample_probes\<rparr>\<rparr>"

lemma busy_ok: "probes_ok (net_state busy_pst)"
  by (simp add: busy_pst_def raw4_pst_def raw4_ns_def zero_net_state_def probes_ok_def probe_ok_def
      sample_probes_def)

theorem timeouts_exact_witness:
  "\<exists>st'. check_probe_timeouts quiet_os busy_pst = Inr ((), st')
    \<and> map fst (outstanding_probes (net_state st')) = [3, 1] \<and> stdout_lines st' = [''11 no-reply'']"
proof -
  have clock: "os_gettimeofday quiet_os (world busy_pst) = (Inr (Timeval 1000 0), ())"
    by (simp add: quiet_os_def)
  have e: "map fst (filter (\<lambda>pp. \<not> expired (Timeval 1000 0) pp) sample_probes) = [3, 1]"
    "map no_reply_line (filter (expired (Timeval 1000 0)) sample_probes) = [''11 no-reply'']"
    by code_simp+
  have p: "outstanding_probes (net_state busy_pst) = sample_probes" "stdout_lines busy_pst = []"
    by (simp_all add: busy_pst_def raw4_pst_def)
  show ?thesis
    using timeouts_exact [OF busy_ok clock] unfolding p using e by (metis append_Nil)
qed

section \<open>The next timeout\<close>

definition time_left :: "timeval \<Rightarrow> probe_t \<Rightarrow> int" where
  "time_left now probe = max 0 (usecs (pr_timeout_time probe) - usecs now)"

lemma remaining_time_spec:
  assumes "normalized now" and "normalized (pr_timeout_time probe)"
  shows "normalized (remaining_time now probe) \<and> usecs (remaining_time now probe) = time_left now probe"
proof -
  let ?t = "Timeval (tv_sec (pr_timeout_time probe) - tv_sec now) (tv_usec (pr_timeout_time probe) - tv_usec now)"
  have "\<bar>tv_usec ?t\<bar> \<le> 1000000 * 2147483647" using assms by (simp add: normalized_def abs_le_iff)
  from normalize_timeval_spec [OF this] show ?thesis
    by (simp add: remaining_time_def time_left_def usecs_def algebra_simps)
qed

lemma sooner_min: "sooner now probe acc = Some (case acc of None \<Rightarrow> remaining_time now probe
    | Some t \<Rightarrow> min (remaining_time now probe) t)"
  by (auto simp: sooner_def min_def Let_def split: option.splits)

lemma fold_sooner:
  "fold (\<lambda>(_, probe). sooner now probe) ps (Some t)
    = Some (Min (insert t (remaining_time now ` snd ` set ps)))"
proof (induction ps arbitrary: t)
  case (Cons p ps)
  have "Min (insert (min u t) A) = Min (insert t (insert u A))" if "finite A" for u t and A :: "timeval set"
    using that by (cases "A = {}") (auto simp: min.assoc min.commute min.left_commute)
  then show ?case using Cons by (cases p) (simp add: sooner_min)
qed simp

lemma next_timeout_eq:
  "next_timeout now ns = (if outstanding_probes ns = [] then None
     else Some (Min (remaining_time now ` snd ` set (outstanding_probes ns))))"
proof (cases "outstanding_probes ns")
  case (Cons p ps)
  then show ?thesis
    by (cases p) (simp add: next_timeout_def sooner_min [of _ _ None] fold_sooner)
qed (simp add: next_timeout_def)

lemma Min_image_usecs:
  assumes "finite A" and "A \<noteq> {}" and "\<forall>t \<in> A. normalized t"
  shows "Min A \<in> A \<and> usecs (Min A) = Min (usecs ` A)"
proof -
  have m: "Min A \<in> A" using assms by simp
  have "usecs (Min A) \<le> usecs t" if "t \<in> A" for t
  proof -
    have "Min A \<le> t" using that assms(1) by simp
    then show ?thesis
      using usecs_less [of t "Min A"] assms(3) m that by (metis leD linorder_le_less_linear)
  qed
  then have "Min (usecs ` A) = usecs (Min A)"
    using m assms(1) by (intro Min_eqI) auto
  with m show ?thesis by simp
qed

text \<open>The time that \<open>wait_for_activity\<close> gives \<open>select\<close> is the time until the first
  outstanding probe times out, and zero when one has timed out already: no wait is longer than the
  time of any probe, and there is none without a probe. The time is normalised, so the assertion
  before the wait (seconds not negative) never fails.\<close>

theorem next_timeout_soonest:
  assumes "normalized now" and "\<forall>pp \<in> set (outstanding_probes ns). normalized (pr_timeout_time (snd pp))"
  shows "case next_timeout now ns of
      None \<Rightarrow> outstanding_probes ns = []
    | Some t \<Rightarrow> outstanding_probes ns \<noteq> [] \<and> normalized t
        \<and> usecs t = Min (time_left now ` snd ` set (outstanding_probes ns))"
proof (cases "outstanding_probes ns = []")
  case False
  let ?A = "remaining_time now ` snd ` set (outstanding_probes ns)"
  have ne: "finite ?A" "?A \<noteq> {}" using False by auto
  have n: "\<forall>t \<in> ?A. normalized t" using remaining_time_spec [OF assms(1)] assms(2) by auto
  have u: "usecs ` ?A = time_left now ` snd ` set (outstanding_probes ns)"
    unfolding image_image using remaining_time_spec [OF assms(1)] assms(2) by (intro image_cong) auto
  show ?thesis
    using Min_image_usecs [OF ne n] bspec [OF n] unfolding u by (simp add: next_timeout_eq False del: Min_in)
qed (simp add: next_timeout_eq)

theorem next_timeout_soonest_witness:
  "next_timeout (Timeval 999 0) (net_state busy_pst) \<noteq> None
    \<and> usecs (the (next_timeout (Timeval 999 0) (net_state busy_pst))) = 999999"
proof -
  have n: "normalized (Timeval 999 0)"
    "\<forall>pp \<in> set (outstanding_probes (net_state busy_pst)). normalized (pr_timeout_time (snd pp))"
    by (simp_all add: normalized_def busy_pst_def sample_probes_def)
  have "time_left (Timeval 999 0) ` snd ` set (outstanding_probes (net_state busy_pst)) = {6000000, 999999, 1000000}"
    by (simp add: busy_pst_def sample_probes_def time_left_def usecs_def)
  then show ?thesis
    using next_timeout_soonest [OF n] by (auto simp: busy_pst_def sample_probes_def split: option.splits)
qed

end
