(* ===== verification/Matching.thy ===== *)
theory Matching
  imports PacketInv Samples
begin

text \<open>
  Matching replies to probes. What \<open>packet/construct_unix.c\<close> puts into a packet is what
  \<open>packet/deconstruct_unix.c\<close> looks for in an echo reply or in the packet that an ICMP error
  quotes, and which bytes of the buffer the handlers look at.
\<close>

section \<open>Sequence numbers\<close>

text \<open>The probe that waits for a sequence number.\<close>

definition awaited :: "int \<Rightarrow> net_state_t \<Rightarrow> nat option" where
  "awaited q ns = map_option fst (find (\<lambda>(_, x). pr_sequence x = q) (outstanding_probes ns))"

lemma word16_inject:
  "0 \<le> a \<Longrightarrow> a \<le> 65535 \<Longrightarrow> 0 \<le> b \<Longrightarrow> b \<le> 65535 \<Longrightarrow> (word_of_int a :: u16) = word_of_int b \<longleftrightarrow> a = b"
  by (simp add: word_of_int_eq_iff take_bit_eq_mod)

lemma find_probe_sent:
  assumes "probes_ok ns" and "0 \<le> q" and "q \<le> 65535"
    and "protocol = IPPROTO_ICMP \<Longrightarrow> i = htons (word_of_int (os_pid os))"
  shows "find_probe os protocol i (htons (word_of_int q)) ns = awaited q ns"
proof -
  have "(case pp of (_, x) \<Rightarrow> htons (word_of_int (pr_sequence x)) = htons (word_of_int q))
      = (case pp of (_, x) \<Rightarrow> pr_sequence x = q)" if "pp \<in> set (outstanding_probes ns)" for pp
  proof (cases pp)
    case (Pair p x)
    then have "probe_ok x" using that assms(1) by (auto simp: probes_ok_def)
    then show ?thesis using word16_inject [of "pr_sequence x" q] assms(2,3) by (simp add: Pair probe_ok_def)
  qed
  then have "find (\<lambda>(_, x). htons (word_of_int (pr_sequence x)) = htons (word_of_int q)) (outstanding_probes ns)
      = find (\<lambda>(_, x). pr_sequence x = q) (outstanding_probes ns)"
    by (intro find_cong) (auto split: prod.splits)
  then show ?thesis using assms(4) by (auto simp: find_probe_def awaited_def)
qed

lemma find_icmp_sent:
  "probes_ok ns \<Longrightarrow> 0 \<le> q \<Longrightarrow> q \<le> 65535 \<Longrightarrow>
     find_probe os IPPROTO_ICMP (htons (word_of_int (os_pid os))) (htons (word_of_int q)) ns = awaited q ns"
  by (rule find_probe_sent) simp_all

lemma bnd_return [simp]: "bnd m ret = m"
proof
  fix st
  show "bnd m ret st = m st" by (cases "m st") (auto simp: bnd_def ret_def)
qed

lemma take_nth: "take n xs = take n ys \<Longrightarrow> i < n \<Longrightarrow> n \<le> length xs \<Longrightarrow> n \<le> length ys \<Longrightarrow> xs ! i = ys ! i"
  by (metis nth_take)

section \<open>Echo replies\<close>





section \<open>Packets that answer an IPv4 probe\<close>

text \<open>The handler on a raw socket, for the two kinds of message.\<close>

lemma raw4_echo:
  assumes "ip4_socket_raw (net_state st)" and "28 \<le> n" and "buf ! 9 = 1" and "buf ! 20 = 0"
  shows "handle_received_ip4_packet os addr buf n t st
    = find_and_receive_probe os addr t ICMP_ECHOREPLY IPPROTO_ICMP (load16 buf 24) (load16 buf 26)
        (decode_mpls_labels buf 20 (n - 20) MAX_MPLS_LABELS) st"
proof -
  have "bnd get_ns f st = f (net_state st) st" for f :: "net_state_t \<Rightarrow> (unit, 'a) proc"
    by (simp add: bnd_def get_ns_def)
  then show ?thesis
    using assms by (simp add: handle_received_ip4_packet_def handle_received_icmp4_packet_def when'_def Let_def)
qed


lemma find_and_receive_eq:
  assumes "find_probe os protocol i q (net_state st) = Some p"
  shows "find_and_receive_probe os addr t icmp_type protocol i q mpls st
    = receive_probe os p icmp_type addr (Some t) mpls st"
  using assms by (simp add: find_and_receive_probe_def bnd_def get_ns_def)

section \<open>The properties\<close>

lemma length_raw_datagram:
  assumes "ip4_socket_raw ns" and "28 \<le> length buffer" and "4 \<le> length (sin_addr src)" and "4 \<le> length (sin_addr dest)"
  shows "length (construct_ip4_datagram os q buffer n src dest param ns) = length buffer"
proof -
  obtain dstport srcport ck where ports: "set_udp_ports os q param = (dstport, srcport, ck)"
    by (metis prod_cases3)
  show ?thesis
    using assms udp_header_fields(1) [OF _ ports]
    by (simp add: construct_ip4_datagram_def construct_udp4_header_def packet_fields Let_def)
qed

text \<open>Echo replies find their probe. When a raw ICMP probe was built for sequence number
  \<open>q\<close>, and an ICMP echo reply arrives that carries the identifier and sequence fields of that
  packet, the answer is recorded for the probe that has \<open>q\<close>, as a reply of the sender.\<close>

theorem echo_reply_finds_probe:
  assumes "probes_ok (net_state st)" and "ip4_socket_raw (net_state st)" and "awaited q (net_state st) = Some p"
    and "0 \<le> q" and "q \<le> 65535" and "pp_protocol param = IPPROTO_ICMP"
    and "28 \<le> length buffer" and "4 \<le> length (sin_addr src)" and "4 \<le> length (sin_addr dest)"
    and "sent = construct_ip4_datagram os q buffer packet_size src dest param (net_state st)"
    and "28 \<le> n" and "reply ! 9 = 1" and "reply ! 20 = 0"
    and "load16 reply 24 = load16 sent 24" and "load16 reply 26 = load16 sent 26"
  shows "handle_received_ip4_packet os addr reply n t st
    = receive_probe os p ICMP_ECHOREPLY addr (Some t) (decode_mpls_labels reply 20 (n - 20) MAX_MPLS_LABELS) st"
proof -
  let ?p = "construct_ip4_header (net_state st) buffer packet_size src dest param"
  have s: "sent = construct_icmp4_header os (net_state st) q ?p"
    using assms(2,6,10) by (simp add: construct_ip4_datagram_def)
  have len: "20 + 8 \<le> length ?p" using assms(7-9) by (simp add: packet_fields)
  have "load16 sent 24 = htons (word_of_int (os_pid os))" "load16 sent 26 = htons (word_of_int q)"
    using icmp4_fields(3,4) [OF _ len, of "net_state st" os q] assms(2) by (simp_all add: s)
  then have "find_probe os IPPROTO_ICMP (load16 reply 24) (load16 reply 26) (net_state st) = Some p"
    using find_icmp_sent [OF assms(1,4,5), of os] assms(3,14,15) by simp
  then show ?thesis
    using raw4_echo [OF assms(2,11-13)] by (simp add: find_and_receive_eq)
qed

text \<open>A probe with sequence number 33000, its packet, and the reply to it.\<close>

definition sample_param :: "int \<Rightarrow> probe_param_t" where
  "sample_param protocol = (default_param 10)\<lparr>pp_ip_version := 4, pp_protocol := protocol\<rparr>"

definition sample_addr :: sockaddr where
  "sample_addr = \<lparr>ss_family = AF_INET, sin_port = 0, sin_addr = [127, 0, 0, 1]\<rparr>"

definition waiting_ns :: net_state_t where
  "waiting_ns = raw4_ns\<lparr>outstanding_probe_count := 1, outstanding_probes := [(1, zero_probe\<lparr>pr_sequence := 33000\<rparr>)]\<rparr>"

definition waiting_pst :: "unit pst" where
  "waiting_pst = raw4_pst\<lparr>net_state := waiting_ns\<rparr>"

lemma waiting_ok: "probes_ok (net_state waiting_pst)" "ip4_socket_raw (net_state waiting_pst)"
    "awaited 33000 (net_state waiting_pst) = Some 1"
  by (simp_all add: waiting_pst_def waiting_ns_def raw4_ns_def zero_net_state_def probes_ok_def
      probe_ok_def awaited_def)

definition sample_sent :: "int \<Rightarrow> u8 list" where
  "sample_sent protocol = construct_ip4_datagram quiet_os 33000 (replicate 28 0) 28 sample_addr sample_addr
     (sample_param protocol) (net_state waiting_pst)"

lemma length_sample_sent: "length (sample_sent protocol) = 28"
  using length_raw_datagram [OF waiting_ok(2), of "replicate 28 0" sample_addr sample_addr]
  by (simp add: sample_sent_def sample_addr_def)

definition sample_reply :: "u8 list" where
  "sample_reply = put 9 [1] (replicate 24 0) @ drop 24 (sample_sent IPPROTO_ICMP)"

theorem echo_reply_finds_probe_witness:
  "handle_received_ip4_packet quiet_os sample_addr sample_reply 28 (Timeval 1000 5) waiting_pst
    = receive_probe quiet_os 1 ICMP_ECHOREPLY sample_addr (Some (Timeval 1000 5)) [] waiting_pst"
proof -
  have same: "sample_reply ! (24 + i) = sample_sent IPPROTO_ICMP ! (24 + i)" if "i < 4" for i
    using that length_sample_sent by (simp add: sample_reply_def nth_append length_put)
  have head: "sample_reply ! i = put 9 [1] (replicate 24 0) ! i" if "i < 24" for i
    using that by (simp add: sample_reply_def nth_append length_put)
  have l: "load16 sample_reply 24 = load16 (sample_sent IPPROTO_ICMP) 24"
    "load16 sample_reply 26 = load16 (sample_sent IPPROTO_ICMP) 26"
    using same [of 0] same [of 1] same [of 2] same [of 3] by (simp_all add: load16_def)
  have "sample_reply ! 9 = 1" "sample_reply ! 20 = 0"
    using head [of 9] head [of 20] by (simp_all add: nth_put)
  from echo_reply_finds_probe [OF waiting_ok _ _ _ _ _ _ sample_sent_def _ this l]
  show ?thesis by (simp add: sample_param_def sample_addr_def decode_mpls_labels_def default_param_def)
qed


definition sample_error :: "u8 list" where
  "sample_error = put 20 [11] (put 9 [1] (replicate 28 0)) @ sample_sent IPPROTO_UDP"


section \<open>What the handlers read\<close>

text \<open>Two buffers that agree on the bytes received, and have at least those.\<close>

definition same_bytes :: "nat \<Rightarrow> u8 list \<Rightarrow> u8 list \<Rightarrow> bool" where
  "same_bytes n buf buf' \<longleftrightarrow> take n buf = take n buf' \<and> n \<le> length buf \<and> n \<le> length buf'"

lemma same_nth: "same_bytes n buf buf' \<Longrightarrow> i < n \<Longrightarrow> buf ! i = buf' ! i"
  by (metis nth_take same_bytes_def)

lemma same_load: "same_bytes n buf buf' \<Longrightarrow> i + 1 < n \<Longrightarrow> load16 buf i = load16 buf' i"
  using same_nth [of n buf buf' i] same_nth [of n buf buf' "i + 1"] by (simp add: load16_def)

lemma decode_mpls_object_same:
  assumes "same_bytes n buf buf'" and "obj + len \<le> n"
  shows "decode_mpls_object buf obj len k = decode_mpls_object buf' obj len k"
proof -
  have "decode_mpls_label buf (obj + 4 + 4 * i) = decode_mpls_label buf' (obj + 4 + 4 * i)"
    if "i < (len - 4) div 4" for i
  proof -
    have "4 * i + 4 \<le> len - 4" using that by linarith
    then have "obj + 4 + 4 * i + 3 < n" using assms(2) by linarith
    then have "buf ! (obj + 4 + 4 * i) = buf' ! (obj + 4 + 4 * i)"
      "buf ! (obj + 4 + 4 * i + 1) = buf' ! (obj + 4 + 4 * i + 1)"
      "buf ! (obj + 4 + 4 * i + 2) = buf' ! (obj + 4 + 4 * i + 2)"
      "buf ! (obj + 4 + 4 * i + 3) = buf' ! (obj + 4 + 4 * i + 3)"
      by (auto intro!: same_nth [OF assms(1)])
    then show ?thesis by (simp only: decode_mpls_label_def)
  qed
  then show ?thesis by (simp add: decode_mpls_object_def Let_def)
qed

lemma mpls_objects_same:
  assumes "same_bytes n buf buf'" and "obj + r \<le> n"
  shows "mpls_objects buf obj r k = mpls_objects buf' obj r k"
  using assms(2)
proof (induction r arbitrary: obj rule: less_induct)
  case (less r)
  show ?case
  proof (cases "r < 4")
    case False
    have l: "load16 buf obj = load16 buf' obj" "buf ! (obj + 2) = buf' ! (obj + 2)" "buf ! (obj + 3) = buf' ! (obj + 3)"
      using False less.prems by (auto intro!: same_load [OF assms(1)] same_nth [OF assms(1)])
    let ?len = "unat (htons (load16 buf' obj))"
    show ?thesis
    proof (cases "r < ?len \<or> ?len < 4")
      case False
      then have "mpls_objects buf (obj + ?len) (r - ?len) k = mpls_objects buf' (obj + ?len) (r - ?len) k"
        using less by auto
      moreover have "decode_mpls_object buf obj ?len k = decode_mpls_object buf' obj ?len k"
        using False less.prems by (intro decode_mpls_object_same [OF assms(1)]) simp
      ultimately show ?thesis
        by (simp only: mpls_objects.simps [of buf obj] mpls_objects.simps [of buf' obj] l Let_def)
    qed (simp add: mpls_objects.simps [of buf obj] mpls_objects.simps [of buf' obj] l Let_def)
  qed (simp add: mpls_objects.simps [of buf obj] mpls_objects.simps [of buf' obj])
qed

lemma decode_mpls_labels_same:
  assumes "same_bytes n buf buf'" and "icmp + nat len \<le> n"
  shows "decode_mpls_labels buf icmp len k = decode_mpls_labels buf' icmp len k"
proof (cases "len < int ORIG_ICMP_EXT")
  case False
  then have "buf ! (icmp + ICMP_HEADER + 128) = buf' ! (icmp + ICMP_HEADER + 128)"
    using assms(2) by (intro same_nth [OF assms(1)]) linarith
  moreover have "mpls_objects buf (icmp + ICMP_HEADER + 128 + 4) (nat len - ORIG_ICMP_EXT) k
      = mpls_objects buf' (icmp + ICMP_HEADER + 128 + 4) (nat len - ORIG_ICMP_EXT) k"
    using False assms(2) by (intro mpls_objects_same [OF assms(1)]) linarith
  ultimately show ?thesis by (simp only: decode_mpls_labels_def Let_def)
qed (simp add: decode_mpls_labels_def)

lemma handle_inner_ip4_same:
  assumes "same_bytes n buf buf'" and "ip + nat len \<le> n" and "20 \<le> len"
  shows "handle_inner_ip4_packet os addr result buf ip len t mpls = handle_inner_ip4_packet os addr result buf' ip len t mpls"
proof -
  have p: "buf ! (ip + 9) = buf' ! (ip + 9)"
    using assms(2,3) by (intro same_nth [OF assms(1)]) linarith
  have l: "load16 buf (ip + 20 + i) = load16 buf' (ip + 20 + i)" if "28 \<le> len" "i < 7" for i
    using that assms(2) by (intro same_load [OF assms(1)]) linarith
  have u: "udp_probe os buf (ip + 20) = udp_probe os buf' (ip + 20)" if len: "28 \<le> len"
  proof
    fix ns
    have "load16 buf (ip + 20 + 2) = load16 buf' (ip + 20 + 2)" "load16 buf (ip + 20 + 6) = load16 buf' (ip + 20 + 6)"
      "load16 buf (ip + 20) = load16 buf' (ip + 20)"
      using l [OF len, of 2] l [OF len, of 6] l [OF len, of 0] by simp_all
    then show "udp_probe os buf (ip + 20) ns = udp_probe os buf' (ip + 20) ns" by (simp only: udp_probe_def)
  qed
  show ?thesis
  proof (cases "28 \<le> len")
    case True
    have "load16 buf (ip + 20 + 4) = load16 buf' (ip + 20 + 4)" "load16 buf (ip + 20 + 6) = load16 buf' (ip + 20 + 6)"
      "load16 buf (ip + 20) = load16 buf' (ip + 20)"
      using l [OF True, of 4] l [OF True, of 6] l [OF True, of 0] by simp_all
    then show ?thesis
      by (simp only: handle_inner_ip4_packet_def Let_def p handle_inner_udp_packet_def u [OF True])
  next
    case False
    then show ?thesis unfolding handle_inner_ip4_packet_def Let_def p by simp
  qed
qed

text \<open>C11: On a raw IPv4 socket the handling of a packet depends on the bytes received alone: with
  any two buffers that agree on those bytes, and whatever an earlier packet left behind them, the
  same replies are printed and the state becomes the same. So no read of the parser goes beyond the
  packet, for any packet of any length.\<close>

theorem raw4_reads_packet_only:
  assumes "ip4_socket_raw (net_state st)" and "take n buf = take n buf'"
    and "n \<le> length buf" and "n \<le> length buf'"
  shows "handle_received_ip4_packet os addr buf (int n) t st = handle_received_ip4_packet os addr buf' (int n) t st"
proof -
  have same: "same_bytes n buf buf'" using assms by (simp add: same_bytes_def)
  have get: "bnd get_ns f st = f (net_state st) st" for f :: "net_state_t \<Rightarrow> (unit, 'a) proc"
    by (simp add: bnd_def get_ns_def)
  have "handle_received_icmp4_packet os addr buf 20 (int n - 20) t st
      = handle_received_icmp4_packet os addr buf' 20 (int n - 20) t st" if n: "28 \<le> n"
  proof -
    have b: "buf ! 20 = buf' ! 20" "buf ! 21 = buf' ! 21" "load16 buf 24 = load16 buf' 24" "load16 buf 26 = load16 buf' 26"
      using n by (auto intro!: same_nth [OF same] same_load [OF same])
    have m: "decode_mpls_labels buf 20 (int n - 20) 8 = decode_mpls_labels buf' 20 (int n - 20) 8"
      using n by (intro decode_mpls_labels_same [OF same]) simp
    have i: "handle_inner_ip4_packet os addr result buf 28 (int n - 28) t mpls
        = handle_inner_ip4_packet os addr result buf' 28 (int n - 28) t mpls" if "48 \<le> n" for result mpls
      using that by (intro handle_inner_ip4_same [OF same]) simp_all
    show ?thesis
    proof (cases "48 \<le> n")
      case True
      then show ?thesis using assms(1) b m i by (simp add: handle_received_icmp4_packet_def get Let_def)
    next
      case False
      then show ?thesis using assms(1) b m by (simp add: handle_received_icmp4_packet_def get Let_def)
    qed
  qed
  moreover have "buf ! 9 = buf' ! 9" if "28 \<le> n"
    using that by (intro same_nth [OF same]) simp
  ultimately show ?thesis
    using assms(1) by (simp add: handle_received_ip4_packet_def get Let_def)
qed

theorem raw4_reads_packet_only_witness:
  "handle_received_ip4_packet quiet_os sample_addr (sample_error @ [1, 2, 3]) (int 56) (Timeval 1000 5) waiting_pst
    = handle_received_ip4_packet quiet_os sample_addr (sample_error @ [9, 9, 9, 9]) (int 56) (Timeval 1000 5) waiting_pst"
proof -
  have "length sample_error = 56"
    by (simp add: sample_error_def length_put length_sample_sent)
  then show ?thesis
    by (intro raw4_reads_packet_only) (simp_all add: waiting_ok)
qed

text \<open>C12: The handler of ICMPv6 packets looks at the type before it looks at the length. An
  empty packet is handled as the echo reply that an earlier packet left in the buffer: it answers
  whatever probe waits for the identifier and the sequence number that are still there.\<close>

theorem ip6_reads_stale_bytes:
  assumes "buf ! 0 = 129" and "find_probe os IPPROTO_ICMP (load16 buf 4) (load16 buf 6) (net_state st) = Some p"
  shows "handle_received_ip6_packet os addr buf 0 t st = receive_probe os p ICMP_ECHOREPLY addr (Some t) [] st"
  using assms
  by (simp add: handle_received_ip6_packet_def handle_received_icmp6_packet_def when'_def Let_def
      decode_mpls_labels_def find_and_receive_eq)

definition stale_buffer :: "u8 list" where
  "stale_buffer = [129, 0, 0, 0] @ bytes16 (htons (word_of_int (os_pid quiet_os))) @ bytes16 (htons (word_of_int 33000))"

theorem ip6_reads_stale_bytes_witness:
  "handle_received_ip6_packet quiet_os sample_addr stale_buffer 0 (Timeval 1000 5) waiting_pst
    = receive_probe quiet_os 1 ICMP_ECHOREPLY sample_addr (Some (Timeval 1000 5)) [] waiting_pst"
proof (rule ip6_reads_stale_bytes)
  have "load16 stale_buffer 4 = htons (word_of_int (os_pid quiet_os))" "load16 stale_buffer 6 = htons (word_of_int 33000)"
    using load16_bytes16 [of "htons (word_of_int (os_pid quiet_os))"] load16_bytes16 [of "htons (word_of_int 33000)"]
    by (simp_all add: stale_buffer_def load16_def bytes16_def)
  then show "find_probe quiet_os IPPROTO_ICMP (load16 stale_buffer 4) (load16 stale_buffer 6) (net_state waiting_pst) = Some 1"
    using find_icmp_sent [OF waiting_ok(1), of 33000 quiet_os] waiting_ok(3) by simp
qed (simp add: stale_buffer_def)

text \<open>C13: A fixed destination port is taken for a sequence number first. When the port that the
  user chose is the sequence number of another outstanding probe, the quoted packet of any UDP probe
  is credited to that probe and not to its own.\<close>

theorem fixed_port_misattributed:
  assumes "probes_ok ns" and "0 < pp_dest_port param" and "pp_dest_port param \<le> 65535"
    and "awaited (pp_dest_port param) ns = Some other"
    and "off + 8 \<le> length buffer"
  shows "udp_probe os (udp_header os q param off n buffer) off ns = Some other"
proof -
  obtain srcport ck where ports: "set_udp_ports os q param = (htons (word_of_int (pp_dest_port param)), srcport, ck)"
    using assms(2) by (cases "pp_local_port param = 0") (auto simp: set_udp_ports_def)
  show ?thesis
    using udp_header_fields(3) [OF assms(5) ports] find_probe_sent [OF assms(1), of "pp_dest_port param" IPPROTO_UDP 0 os]
      assms(2-4)
    by (simp add: udp_probe_def)
qed

text \<open>Probe 1 with sequence number 33000 is credited to probe 2, which has 33434.\<close>

theorem fixed_port_misattributed_witness:
  "udp_probe quiet_os (udp_header quiet_os 33000 ((sample_param IPPROTO_UDP)\<lparr>pp_dest_port := 33434\<rparr>) 0 8 (replicate 8 0)) 0
     (waiting_ns\<lparr>outstanding_probe_count := 2,
        outstanding_probes := (2, zero_probe\<lparr>pr_sequence := 33434\<rparr>) # outstanding_probes waiting_ns\<rparr>) = Some 2"
  by (rule fixed_port_misattributed)
     (simp_all add: waiting_ns_def raw4_ns_def zero_net_state_def probes_ok_def probe_ok_def awaited_def)

end
