(* ===== verification/Protocol.thy ===== *)
theory Protocol
  imports CmdPipe Command MtrOptions Samples
begin

text \<open>
  The protocol between the two programs: what \<open>mtr\<close> writes is read back by \<open>mtr-packet\<close>
  with the same meaning, and what \<open>mtr-packet\<close> prints is read back by \<open>mtr\<close>. The first
  half concerns requests (\<open>ui/cmdpipe.c\<close> to \<open>packet/command.c\<close>), the second replies
  (\<open>packet/probe.c\<close> to \<open>ui/cmdpipe.c\<close>).
\<close>

section \<open>Lines of the protocol\<close>

definition args_ok :: "(string \<times> string) list \<Rightarrow> bool" where
  "args_ok args \<longleftrightarrow> (\<forall>(n, v) \<in> set args. is_word n \<and> is_word v \<and> no_nul n \<and> no_nul v)
     \<and> length args \<le> MAX_COMMAND_ARGUMENTS"

definition line_command :: "int \<Rightarrow> string \<Rightarrow> (string \<times> string) list \<Rightarrow> command_t" where
  "line_command tok name args =
     \<lparr>token = tok, command_name = name, argument_count = length args, argument_name = map fst args,
      argument_value = map snd args\<rparr>"

lemma parse_arguments_pairs:
  assumes "argument_count c + length args \<le> MAX_COMMAND_ARGUMENTS"
  shows "parse_arguments (concat (map (\<lambda>(n, v). [n, v]) args)) c
    = Inr (c\<lparr>argument_name := argument_name c @ map fst args, argument_value := argument_value c @ map snd args,
        argument_count := argument_count c + length args\<rparr>)"
  using assms
proof (induction args arbitrary: c)
  case (Cons a args)
  then show ?case by (cases a) simp
qed simp

lemma no_nul_blank_words: "no_nul (blank_words ws) \<longleftrightarrow> (\<forall>w \<in> set ws. no_nul w)"
  by (induction ws) auto

lemma parse_protocol_line:
  assumes "is_int32 tok" and "is_word name" and "no_nul name" and "args_ok args"
  shows "parse_command (protocol_line tok name args) = Inr (line_command tok name args)"
proof -
  let ?ws = "name # concat (map (\<lambda>(n, v). [n, v]) args)"
  have w: "\<forall>w \<in> set ?ws. is_word w \<and> no_nul w" using assms by (auto simp: args_ok_def)
  have len: "length (concat (map (\<lambda>(n, v). [n, v]) args)) = 2 * length args"
    by (induction args) auto
  have nul: "no_nul (protocol_line tok name args)"
    using w by (simp add: protocol_line_def no_nul_blank_words)
  have l: "words (protocol_line tok name args) = fmt_d tok # ?ws"
    unfolding protocol_line_def by (rule words_line) (use w in simp_all)
  have n: "strtol (fmt_d tok) = (tok, False, [])" "to_int32 tok = tok"
    using strtol_fmt_d [of "[]" tok] assms(1) by (simp_all add: is_int32_def to_int32_id)
  have "parse_arguments (concat (map (\<lambda>(n, v). [n, v]) args)) (zero_command\<lparr>token := tok, command_name := name\<rparr>)
      = Inr (line_command tok name args)"
    using parse_arguments_pairs [of "zero_command\<lparr>token := tok, command_name := name\<rparr>" args] assms(4)
    by (simp add: line_command_def zero_command_def args_ok_def)
  then have "parse_tokens (fmt_d tok # ?ws) = Inr (line_command tok name args)"
    by (simp add: parse_tokens_def n)
  then show ?thesis
    using len assms(4) by (simp add: parse_command_words [OF nul] l args_ok_def MAX_COMMAND_TOKENS_def)
qed

lemma split_protocol_line:
  assumes "is_word name" and "no_nul name" and "args_ok args"
  shows "split_nl (protocol_line tok name args @ [NL]) = Some (protocol_line tok name args, [])"
proof (rule split_nl_append)
  let ?ws = "name # concat (map (\<lambda>(n, v). [n, v]) args)"
  have nl: "isspace NL" by (simp add: isspace_def)
  have w: "\<forall>w \<in> set ?ws. is_word w \<and> no_nul w" using assms by (auto simp: args_ok_def)
  then show "no_nul (protocol_line tok name args)"
    by (simp add: protocol_line_def no_nul_blank_words)
  have "NL \<notin> set (blank_words ws)" if "\<forall>w \<in> set ws. is_word w" for ws
    using that nl by (induction ws) (auto simp: is_word_def)
  then have "NL \<notin> set (blank_words ?ws)" using w by blast
  moreover have "NL \<notin> set (fmt_d tok)" using fmt_d_not_space nl by blast
  ultimately show "NL \<notin> set (protocol_line tok name args)" by (simp add: protocol_line_def)
qed

section \<open>Requests\<close>

text \<open>The parameters that a request stands for.\<close>

definition request_param :: "mtr_ctl \<Rightarrow> string \<Rightarrow> string \<Rightarrow> int \<Rightarrow> int \<Rightarrow> int \<Rightarrow> probe_param_t" where
  "request_param ctl ip_string local_ip_string tok packet_size time_to_live =
     \<lparr>pp_ip_version = (if af ctl = AF_INET6 then 6 else 4), pp_command_token = tok,
      pp_remote_address = Some ip_string, pp_local_address = Some local_ip_string,
      pp_protocol = mtrtype ctl, pp_dest_port = remoteport ctl, pp_local_port = localport ctl,
      pp_type_of_service = tos ctl, pp_routing_mark = to_int32 (mark ctl), pp_ttl = time_to_live,
      pp_packet_size = packet_size, pp_bit_pattern = bitpattern ctl,
      pp_timeout = c_div (probe_timeout ctl) 1000000, pp_is_probing_byte_order = False\<rparr>"

lemma decode_arguments_append:
  "decode_arguments (xs @ ys) param = Option.bind (decode_arguments xs param) (decode_arguments ys)"
  by (induction xs arbitrary: param) (auto simp: bind_assoc [symmetric] split: Option.bind_splits)

lemma decode_request:
  assumes "protocol_name (mtrtype ctl) = Some protocol" and "af ctl \<noteq> AF_UNSPEC"
    and "is_int32 packet_size" and "is_int32 time_to_live" and "ctl_in_range ctl"
    and "localport ctl = 0 \<or> MinPort \<le> localport ctl" and "is_int32 (to_int32 (mark ctl))"
    and "mark ctl = 0 \<longleftrightarrow> to_int32 (mark ctl) = 0"
  shows "decode_arguments (request_args ctl ip_string local_ip_string protocol packet_size time_to_live)
    (default_param tok) = Some (request_param ctl ip_string local_ip_string tok packet_size time_to_live)"
proof -
  have p: "protocol_number protocol = Some (mtrtype ctl)"
    using assms(1) by (auto simp: protocol_name_def protocol_number_def split: if_splits)
  have num: "number_arg (fmt_d v) f = f v" if "is_int32 v" for v f
    using that by (simp add: number_arg_def strtol_int_fmt_d)
  have base: "decode_arguments [(if af ctl = AF_INET6 then ''ip-6'' else ''ip-4'', ip_string),
      (if af ctl = AF_INET6 then ''local-ip-6'' else ''local-ip-4'', local_ip_string),
      (''protocol'', protocol)] (default_param tok)
    = Some ((default_param tok)\<lparr>pp_ip_version := (if af ctl = AF_INET6 then 6 else 4),
        pp_remote_address := Some ip_string, pp_local_address := Some local_ip_string, pp_protocol := mtrtype ctl\<rparr>)"
    by (simp add: decode_probe_argument_def p)
  have r: "is_int32 (bitpattern ctl)" "is_int32 (tos ctl)" "is_int32 (c_div (probe_timeout ctl) 1000000)"
    "is_int32 (remoteport ctl)" "is_int32 (localport ctl)"
    using assms(5) by (simp_all add: ctl_in_range_def is_int32_timeout)
  show ?thesis
    unfolding request_args_def decode_arguments_append base
    using num [OF r(1)] num [OF r(2)] num [OF r(3)] num [OF r(4)] num [OF r(5)] num [OF assms(3)] num [OF assms(4)]
      num [OF assms(7)] assms(6,8)
    by (simp add: request_values_def decode_arguments_append decode_probe_argument_def request_param_def default_param_def) linarith
qed

lemma to_int32_zero:
  assumes "0 \<le> m" and "m \<le> UINT32_MAX"
  shows "to_int32 m = 0 \<longleftrightarrow> m = 0"
proof -
  define q where "q = (m + 2147483648) div 4294967296"
  have e: "to_int32 m = m - 4294967296 * q"
    unfolding to_int32_def q_def minus_mult_div_eq_mod [symmetric] by (rule diff_eq_eq [THEN iffD2]) linarith
  have "0 \<le> q" unfolding q_def using assms(1) by (intro pos_imp_zdiv_nonneg_iff [THEN iffD2]) simp_all
  then consider "q = 0" | "1 \<le> q" by linarith
  then have "to_int32 m \<noteq> 0" if "m \<noteq> 0" using e assms that by cases linarith+
  then show ?thesis by (auto simp: to_int32_def)
qed

lemma keywords_ok:
  "list_all (\<lambda>n. is_word n \<and> no_nul n) [''ip-4'', ''ip-6'', ''local-ip-4'', ''local-ip-6'', ''protocol'', ''size'',
     ''bit-pattern'', ''tos'', ''ttl'', ''timeout'', ''port'', ''local-port'', ''mark'', ''round-trip-time'', ''mpls'']"
  by (simp add: is_word_def isspace_def)

lemma request_args_ok:
  assumes "is_addr_text a" and "is_addr_text b" and "protocol_name (mtrtype ctl) = Some protocol"
  shows "args_ok (request_args ctl a b protocol n ttl)"
proof -
  have t: "is_word s \<and> no_nul s" if "is_addr_text s" for s
    using that by (auto simp: is_addr_text_def is_word_def no_nul_def)
  have p: "is_word protocol \<and> no_nul protocol"
    using assms(3) by (auto simp: protocol_name_def is_word_def isspace_def split: if_splits)
  show ?thesis
    using t [OF assms(1)] t [OF assms(2)] p keywords_ok
    by (simp add: args_ok_def request_args_def request_values_def MAX_COMMAND_ARGUMENTS_def)
qed

text \<open>C3: \<open>mtr-packet\<close> understands every request of \<open>mtr\<close>. The text that
  \<open>send_probe_command\<close> of \<open>ui/cmdpipe.c\<close> writes is one line that fits its buffer, which
  \<open>parse_command\<close> accepts and \<open>decode_probe_argument\<close> decodes, without an invalid
  argument, to the parameters that were meant: the token, both addresses, the protocol, the size,
  the bit pattern, the type of service, the time to live, the timeout, the ports and the mark.\<close>

theorem request_understood:
  assumes "inet_ok env" and "af ctl \<noteq> AF_UNSPEC" and "is_ip address" and "is_ip localaddress"
    and "protocol_name (mtrtype ctl) = Some protocol"
    and "is_int32 tok" and "is_int32 packet_size" and "is_int32 time_to_live" and "ctl_in_range ctl"
    and "localport ctl = 0 \<or> MinPort \<le> localport ctl" and "0 \<le> mark ctl" and "mark ctl \<le> UINT32_MAX"
  shows "\<exists>line command ip_string local_ip_string.
    probe_command_text env ctl address localaddress packet_size tok time_to_live = Inr (line @ [NL])
    \<and> split_nl (line @ [NL]) = Some (line, [])
    \<and> parse_command line = Inr command \<and> command_name command = ''send-probe'' \<and> token command = tok
    \<and> decode_arguments (zip (argument_name command) (argument_value command)) (default_param (token command))
        = Some (request_param ctl ip_string local_ip_string tok packet_size time_to_live)
    \<and> inet_pton env (af ctl) ip_string = Some (take (addr_len (af ctl)) address)
    \<and> inet_pton env (af ctl) local_ip_string = Some (take (addr_len (af ctl)) localaddress)"
proof -
  have len: "addr_len (af ctl) \<le> length address" "addr_len (af ctl) \<le> length localaddress"
    using assms(3,4) by (auto simp: is_ip_def addr_len_def split: family.split)
  obtain a where a: "inet_ntop env (af ctl) address = Some a" "is_addr_text a"
    "inet_pton env (af ctl) a = Some (take (addr_len (af ctl)) address)"
    using inet_ok_ntop [OF assms(1,2) len(1)] .
  obtain b where b: "inet_ntop env (af ctl) localaddress = Some b" "is_addr_text b"
    "inet_pton env (af ctl) b = Some (take (addr_len (af ctl)) localaddress)"
    using inet_ok_ntop [OF assms(1,2) len(2)] .
  let ?args = "request_args ctl a b protocol packet_size time_to_live"
  let ?line = "protocol_line tok ''send-probe'' ?args"
  have ok: "args_ok ?args" by (rule request_args_ok [OF a(2) b(2) assms(5)])
  have name: "is_word ''send-probe''" "no_nul ''send-probe''" by (simp_all add: is_word_def isspace_def)
  have cmd: "parse_command ?line = Inr (line_command tok ''send-probe'' ?args)"
    by (rule parse_protocol_line [OF assms(6) name ok])
  have "zip (map fst ?args) (map snd ?args) = ?args" by (rule zip_map_fst_snd)
  moreover have "decode_arguments ?args (default_param tok) = Some (request_param ctl a b tok packet_size time_to_live)"
    using assms(10-12) to_int32_zero by (intro decode_request [OF assms(5,2,7-9)]) auto
  ultimately have "decode_arguments (zip (argument_name (line_command tok ''send-probe'' ?args))
      (argument_value (line_command tok ''send-probe'' ?args))) (default_param tok)
      = Some (request_param ctl a b tok packet_size time_to_live)"
    by (simp add: line_command_def)
  with cmd a b probe_command_text_eq [OF a(1,2) b(1,2) assms(5-9)] split_protocol_line [OF name ok]
  show ?thesis
    by (intro exI [of _ ?line] exI [of _ "line_command tok ''send-probe'' ?args"] exI [of _ a] exI [of _ b])
       (simp add: line_command_def)
qed

definition sample_ctl :: mtr_ctl where
  "sample_ctl = (default_ctl DisplayReport)\<lparr>af := AF_INET, mtrtype := IPPROTO_UDP, localport := 40000, mark := 4294967295\<rparr>"

theorem request_understood_witness:
  "\<exists>line command ip_string local_ip_string.
    probe_command_text sample_inet sample_ctl (replicate 16 127) zero_ip 64 33000 3 = Inr (line @ [NL])
    \<and> parse_command line = Inr command
    \<and> decode_arguments (zip (argument_name command) (argument_value command)) (default_param (token command))
        = Some (request_param sample_ctl ip_string local_ip_string 33000 64 3)"
proof -
  have "probe_timeout sample_ctl = 10000000" "localport sample_ctl = 40000" by (simp_all add: sample_ctl_def default_ctl_def)
  from request_understood [OF sample_inet_ok, of sample_ctl "replicate 16 127" zero_ip "''udp''" 33000 64 3]
  show ?thesis
    by (auto simp: sample_ctl_def default_ctl_def is_ip_def zero_ip_def protocol_name_def is_int32_def ctl_in_range_def)
qed

section \<open>Replies\<close>

text \<open>The labels as \<open>mtr\<close> keeps them.\<close>

definition store_label :: "nat \<Rightarrow> mpls_label_t \<Rightarrow> mplslen \<Rightarrow> mplslen" where
  "store_label i l m = m\<lparr>
     mpls_label := (mpls_label m)[i := word_of_int (uint (ml_label l))],
     mpls_tc := (mpls_tc m)[i := word_of_int (uint (ml_traffic_class l))],
     mpls_s := (mpls_s m)[i := word_of_int (uint (ml_bottom_of_stack l))],
     mpls_ttl := (mpls_ttl m)[i := word_of_int (uint (ml_ttl l))]\<rparr>"

fun store_labels :: "nat \<Rightarrow> mpls_label_t list \<Rightarrow> mplslen \<Rightarrow> mplslen" where
  "store_labels i [] m = m\<lparr>mpls_labels := i\<rparr>"
| "store_labels i (l # ls) m = store_labels (Suc i) ls (store_label i l m)"

definition label_ok :: "mpls_label_t \<Rightarrow> bool" where
  "label_ok l \<longleftrightarrow> uint (ml_label l) < 1048576"

fun label_texts :: "mpls_label_t list \<Rightarrow> string" where
  "label_texts [] = []"
| "label_texts [l] = mpls_text l"
| "label_texts (l # ls) = mpls_text l @ '','' @ label_texts ls"

lemma mpls_loop_step:
  assumes "is_int32 v" and "rest = [] \<or> hd rest = CHR '',''"
  shows "parse_mpls_loop m (fmt_d v @ rest) k f =
    (let m = set_mpls_field m k f v;
         (f, k) = (if 3 < f + 1 then (0, k + 1) else (f + 1, k))
     in if MAXLABELS \<le> k then m\<lparr>mpls_labels := k\<rparr> else parse_mpls_loop m (tl rest) k f)"
proof -
  have r: "rest = [] \<or> \<not> is_digit (hd rest)" using assms(2) by (auto simp: is_digit_def)
  have "strtol_int (fmt_d v @ rest) = (v, False, rest)"
    using strtol_fmt_d [OF r, of v] assms(1) by (simp add: strtol_int_def is_int32_def to_int32_id)
  moreover have "scan_number (fmt_d v @ rest) = Some (v < 0, nat \<bar>v\<bar>, rest)" by (rule scan_number_fmt_d [OF r])
  moreover have "(fmt_d v @ rest = []) = False" "(rest \<noteq> [] \<and> hd rest \<noteq> CHR '','') = False" using assms(2) by auto
  ultimately show ?thesis
    by (simp only: parse_mpls_loop.simps [of m "fmt_d v @ rest" k f] option.case prod.case if_False Let_def fst_conv)
qed

lemma mpls_loop_label:
  assumes "label_ok l" and "rest = [] \<or> hd rest = CHR '',''" and "k < MAXLABELS"
  shows "parse_mpls_loop m (mpls_text l @ rest) k 0 =
    (if MAXLABELS \<le> Suc k then (store_label k l m)\<lparr>mpls_labels := Suc k\<rparr>
     else parse_mpls_loop (store_label k l m) (tl rest) (Suc k) 0)"
proof -
  have b: "0 \<le> uint b \<and> uint b < 256" for b :: u8 using unsigned_less [of b] by simp
  have "0 \<le> uint (ml_label l)" by simp
  with assms(1) have "is_int32 (uint (ml_label l))" unfolding label_ok_def is_int32_def by linarith
  moreover have "is_int32 (uint b)" for b :: u8 using b [of b] unfolding is_int32_def by linarith
  ultimately have i: "is_int32 (uint (ml_label l))" "is_int32 (uint (ml_traffic_class l))"
    "is_int32 (uint (ml_bottom_of_stack l))" "is_int32 (uint (ml_ttl l))"
    by blast+
  show ?thesis
    using assms(2,3)
    by (simp add: mpls_text_def to_int32_id [OF i(1)] mpls_loop_step i set_mpls_field_def store_label_def Let_def)
qed

lemma parse_labels:
  assumes "list_all label_ok ls" and "ls \<noteq> []" and "k + length ls \<le> MAXLABELS"
  shows "parse_mpls_loop m (label_texts ls) k 0 = store_labels k ls m"
  using assms
proof (induction ls arbitrary: k m rule: label_texts.induct)
  case (2 l)
  then show ?case
    using mpls_loop_label [of l "[]" k m]
    by (simp add: parse_mpls_loop.simps [of _ "[]"])
next
  case (3 l l2 ls)
  then show ?case
    using mpls_loop_label [of l "'','' @ label_texts (l2 # ls)" k m] by simp
qed simp

lemma is_int32_byte: "is_int32 (uint (b :: u8))"
proof -
  have "0 \<le> uint b \<and> uint b < 256" using unsigned_less [of b] by simp
  then show ?thesis unfolding is_int32_def by linarith
qed

lemma mpls_text_length: "length (mpls_text l) \<le> 47"
  using fmt_d_length [of "to_int32 (uint (ml_label l))"] fmt_d_length [OF is_int32_byte [of "ml_traffic_class l"]]
    fmt_d_length [OF is_int32_byte [of "ml_bottom_of_stack l"]] fmt_d_length [OF is_int32_byte [of "ml_ttl l"]]
  by (simp add: mpls_text_def)

lemma format_mpls_rest:
  assumes "0 < i" and "48 * int (length ls) < n"
  shows "format_mpls_loop i str n ls = str @ concat (map (\<lambda>l. '','' @ mpls_text l) ls)"
  using assms
proof (induction ls arbitrary: i str n)
  case (Cons l ls)
  have "length (mpls_text l) \<le> 47" by (rule mpls_text_length)
  then have "snprintf (n - 1) (mpls_text l) = mpls_text l" "take (nat (n - 1)) '','' = '',''"
    and "48 * int (length ls) < n - 1 - int (length (mpls_text l))"
    using Cons.prems by (simp_all add: snprintf_def)
  then show ?case
    using Cons.IH [of "Suc i" "n - 1 - int (length (mpls_text l))"] Cons.prems(1) by (simp add: Let_def)
qed simp

lemma label_texts_rest: "label_texts (l # ls) = mpls_text l @ concat (map (\<lambda>l. '','' @ mpls_text l) ls)"
  by (induction ls arbitrary: l) simp_all

lemma format_mpls_eq:
  assumes "length ls \<le> 8"
  shows "format_mpls_string RESPONSE_SIZE ls = label_texts ls"
proof (cases ls)
  case (Cons l ls')
  have "length (mpls_text l) \<le> 47" by (rule mpls_text_length)
  then have "snprintf RESPONSE_SIZE (mpls_text l) = mpls_text l"
    and "48 * int (length ls') < RESPONSE_SIZE - int (length (mpls_text l))"
    using assms Cons by (simp_all add: snprintf_def)
  then show ?thesis
    by (simp add: Cons format_mpls_string_def format_mpls_rest label_texts_rest)
qed (simp add: format_mpls_string_def)

lemma label_texts_length:
  assumes "length ls \<le> 8"
  shows "length (label_texts ls) \<le> 400"
proof (cases ls)
  case (Cons l ls')
  have "length (concat (map (\<lambda>l. '','' @ mpls_text l) ls')) \<le> 48 * length ls'" for ls'
  proof (induction ls')
    case (Cons a ls')
    then show ?case using mpls_text_length [of a] by simp
  qed simp
  from this [of ls'] mpls_text_length [of l] assms Cons show ?thesis
    by (simp add: label_texts_rest)
qed simp

definition answer_args :: "string \<Rightarrow> string \<Rightarrow> int \<Rightarrow> mpls_label_t list \<Rightarrow> (string \<times> string) list" where
  "answer_args ip_argument ip_text rtt mpls =
     [(ip_argument, ip_text), (''round-trip-time'', fmt_d rtt)]
     @ (if mpls = [] then [] else [(''mpls'', label_texts mpls)])"

lemma response_text_line:
  assumes "is_int32 tok" and "length result \<le> 20" and "length ip_argument \<le> 10" and "length ip_text < 46"
    and "is_int32 rtt" and "length mpls \<le> 8"
  shows "response_text tok result ip_argument ip_text rtt mpls
    = protocol_line tok result (answer_args ip_argument ip_text rtt mpls)"
proof -
  let ?t = "fmt_d tok @ '' '' @ result @ '' '' @ ip_argument @ '' '' @ ip_text @ '' round-trip-time '' @ fmt_d rtt"
  have len: "length ?t \<le> 200" using fmt_d_length [OF assms(1)] fmt_d_length [OF assms(5)] assms(2-4) by simp
  have s: "snprintf RESPONSE_SIZE (fmt_d tok @ '' '' @ result @ '' '' @ ip_argument @ '' '' @ ip_text
      @ '' round-trip-time '' @ fmt_d (to_int32 rtt)) = ?t"
    using len by (simp add: snprintf_def to_int32_id [OF assms(5)])
  have "response_text tok result ip_argument ip_text rtt mpls
      = (if mpls = [] then ?t else ?t @ '' mpls '' @ label_texts mpls)"
    unfolding response_text_def s Let_def format_mpls_eq [OF assms(6)]
    using len label_texts_length [OF assms(6)] by (simp add: strncat_fits)
  then show ?thesis
    by (simp add: protocol_line_def answer_args_def)
qed

lemma label_texts_word:
  assumes "ls \<noteq> []"
  shows "is_word (label_texts ls) \<and> no_nul (label_texts ls)"
proof -
  have comma: "\<not> isspace (CHR '','')" by (simp add: isspace_def)
  have one: "is_word (mpls_text l) \<and> no_nul (mpls_text l)" for l
    using is_word_fmt_d comma by (auto simp: mpls_text_def is_word_def)
  then show ?thesis
    using assms comma by (induction ls rule: label_texts.induct) (auto simp: is_word_def)
qed

lemma answer_args_ok:
  assumes "is_addr_text ip_text" and "ip_argument = ''ip-4'' \<or> ip_argument = ''ip-6''"
  shows "args_ok (answer_args ip_argument ip_text rtt mpls)"
proof -
  have "is_word ip_text \<and> no_nul ip_text"
    using assms(1) by (auto simp: is_addr_text_def is_word_def no_nul_def)
  then show ?thesis
    using assms(2) keywords_ok label_texts_word [of mpls]
    by (auto simp: args_ok_def answer_args_def MAX_COMMAND_ARGUMENTS_def)
qed

lemma parse_answer:
  assumes "af ctl \<noteq> AF_UNSPEC" and "inet_pton env (af ctl) ip_text = Some a" and "is_int32 rtt"
    and "list_all label_ok mpls" and "length mpls \<le> MAXLABELS"
  shows "parse_reply_arguments env ctl (line_command tok result
      (answer_args (if af ctl = AF_INET6 then ''ip-6'' else ''ip-4'') ip_text rtt mpls))
    = \<lparr>round_trip_time = rtt, fromaddress = addrcpy zero_ip a (af ctl),
       ra_mpls = (if mpls = [] then zero_mpls else store_labels 0 mpls zero_mpls),
       found_round_trip = True, found_ip = True\<rparr>"
proof -
  have m: "parse_mpls_values zero_mpls (label_texts mpls) = store_labels 0 mpls zero_mpls" if "mpls \<noteq> []"
    using parse_labels [OF assms(4) that, of 0] assms(5) by (simp add: parse_mpls_values_def)
  have fam: "(if af ctl = AF_INET6 then AF_INET6 else AF_INET) = af ctl" using assms(1) by (cases "af ctl") auto
  show ?thesis
    using assms(1,2) m fam
    by (cases "af ctl") (simp_all add: parse_reply_arguments_def line_command_def answer_args_def
        reply_argument_def Let_def strtol_int_fmt_d [OF assms(3)])
qed

text \<open>C4: \<open>mtr\<close> understands every reply of \<open>mtr-packet\<close>. The line that
  \<open>respond_to_probe\<close> prints for a probe, with up to eight MPLS labels, makes
  \<open>handle_command_reply\<close> call its callback with the token as sequence number, the error of the
  result (none for a reply or an expired time to live, unreachable for no route), the address, the
  round trip time and the labels that were printed.\<close>

theorem reply_understood:
  assumes "inet_ok env" and "af ctl \<noteq> AF_UNSPEC" and "addr_len (af ctl) \<le> length addr"
    and "inet_ntop env (af ctl) addr = Some ip_text"
    and "result_name icmp_type = Some result" and "is_int32 tok" and "is_int32 rtt"
    and "list_all label_ok mpls" and "length mpls \<le> MAXLABELS"
  shows "handle_command_reply env ctl f
      (response_text tok result (if af ctl = AF_INET6 then ''ip-6'' else ''ip-4'') ip_text rtt mpls) s
    = Inr (f tok (if icmp_type = ICMP_DEST_UNREACH then errno_num ENETUNREACH else 0)
        (if mpls = [] then zero_mpls else store_labels 0 mpls zero_mpls)
        (addrcpy zero_ip (take (addr_len (af ctl)) addr) (af ctl)) rtt s)"
proof -
  obtain t where "inet_ntop env (af ctl) addr = Some t" "is_addr_text t"
    "inet_pton env (af ctl) t = Some (take (addr_len (af ctl)) addr)"
    using inet_ok_ntop [OF assms(1-3)] .
  then have t: "is_addr_text ip_text" "inet_pton env (af ctl) ip_text = Some (take (addr_len (af ctl)) addr)"
    using assms(4) by simp_all
  let ?ip = "if af ctl = AF_INET6 then ''ip-6'' else ''ip-4''"
  let ?args = "answer_args ?ip ip_text rtt mpls"
  have r: "is_word result \<and> no_nul result \<and> length result \<le> 20
      \<and> reply_error result = Some (if icmp_type = ICMP_DEST_UNREACH then errno_num ENETUNREACH else 0)
      \<and> handle_reply_errors (line_command tok result ?args) = Inr ()"
    using assms(5) by (auto simp: result_name_def is_word_def isspace_def reply_error_def handle_reply_errors_def
        line_command_def Let_def split: if_splits)
  have txteq: "response_text tok result ?ip ip_text rtt mpls = protocol_line tok result ?args"
    using t(1) r assms(6,7,9) by (intro response_text_line) (simp_all add: is_addr_text_def)
  have "parse_command (protocol_line tok result ?args) = Inr (line_command tok result ?args)"
    using r t(1) by (intro parse_protocol_line [OF assms(6)] answer_args_ok) simp_all
  then show ?thesis
    unfolding txteq using r parse_answer [OF assms(2) t(2) assms(7-9), of tok result]
    by (simp add: handle_command_reply_def Let_def line_command_def [of tok])
qed

text \<open>A reply with two labels.\<close>

definition sample_labels :: "mpls_label_t list" where
  "sample_labels = [\<lparr>ml_label = 16005, ml_traffic_class = 0, ml_bottom_of_stack = 0, ml_ttl = 1\<rparr>,
     \<lparr>ml_label = 299776, ml_traffic_class = 5, ml_bottom_of_stack = 1, ml_ttl = 254\<rparr>]"

theorem reply_understood_witness:
  "handle_command_reply sample_inet sample_ctl (\<lambda>q e m a rtt s. (q, e, mpls_labels m, take 4 a, rtt) # s)
      (response_text 33000 ''ttl-expired'' ''ip-4'' (byte_text [127, 0, 0, 1]) 1234 sample_labels) []
    = Inr [(33000, 0, 2, [127, 0, 0, 1], 1234)]"
proof -
  have c: "af sample_ctl = AF_INET" by (simp add: sample_ctl_def)
  have n: "inet_ntop sample_inet (af sample_ctl) [127, 0, 0, 1] = Some (byte_text [127, 0, 0, 1])"
    by (simp add: c sample_inet_def addr_len_def del: byte_text.simps)
  from reply_understood [OF sample_inet_ok _ _ n, of ICMP_TIME_EXCEEDED "''ttl-expired''" 33000 1234 sample_labels
      "\<lambda>q e m a rtt s. (q, e, mpls_labels m, take 4 a, rtt) # s" "[]"]
  show ?thesis
    by (simp add: c addr_len_def result_name_def is_int32_def sample_labels_def label_ok_def addrcpy_def store_label_def)
qed

end
