(* ===== verification/NetProps.thy ===== *)
theory NetProps
  imports Samples
begin

text \<open>
  The properties of the hop table (\<open>ui/net.c\<close>): what holds in every state the program reaches,
  what a reply changes, and that a batch of probes ends.
\<close>

section \<open>Reachable states\<close>

text \<open>C5: In every state the program can reach, by sending batches, reading replies, ending a
  cycle, resetting, turning to another target and changing options in any order, each of the 256
  hops has at least as many probes sent as were answered and are in flight together, its known
  addresses are distinct and stand before the free entries, and the next probe goes to a hop of the
  table under a sequence number of the table.\<close>

theorem reachable_consistent:
  assumes "net_reach env fp (ctl, buf, s)" and "inet_ok env" and "0 \<le> hop" and "hop < int MaxHost"
  shows "net_returned s hop + int (card (open_probes (sequence s) hop)) \<le> net_xmit s hop
    \<and> 0 \<le> net_returned s hop
    \<and> distinct (known_keys ctl (host s hop))
    \<and> list_all (\<lambda>k. k = free_key ctl) (drop (length (known_keys ctl (host s hop))) (path_keys ctl (host s hop)))
    \<and> length (net_saved_pings s hop) = SAVED_PINGS
    \<and> 0 \<le> batch_at s \<and> batch_at s < int MaxHost
    \<and> MinSequence \<le> next_sequence s \<and> next_sequence s < MaxSequence"
proof -
  have "net_ok ctl s" using net_reach_ok [OF assms(1,2)] by simp
  then show ?thesis
    using assms(3,4)
    by (auto simp: net_ok_def hop_ok_def paths_ok_def net_returned_def net_xmit_def net_saved_pings_def)
qed

text \<open>A table with one probe in flight to hop 2.\<close>

definition empty_net :: net where
  "empty_net = \<lparr>host = (\<lambda>_. template_host), sequence = (\<lambda>_. \<lparr>sq_index = 0, sq_transit = 0, sq_saved_seq = 0, sq_time = (0, 0)\<rparr>),
     packetsize = 64, batch_at = 0, numhosts = 10, next_sequence = MinSequence, remoteaddress = [10, 0, 0, 1] @ replicate 12 0,
     sourceaddress = replicate 16 0, pipe_written = [], raw_log = []\<rparr>"

definition test_ctl :: mtr_ctl where
  "test_ctl = (default_ctl DisplayReport)\<lparr>af := AF_INET\<rparr>"

lemma test_ctl_ok: "ctl_ok test_ctl" "af test_ctl = AF_INET"
  by (simp_all add: test_ctl_def default_ctl_def ctl_ok_def)

lemma empty_reach: "net_reach sample_inet exact_fp (test_ctl, [], net_end_transit (net_reset test_ctl empty_net))"
  by (rule reach_step [OF reach_open step_end])
     (simp_all add: test_ctl_ok empty_net_def is_ip_def)

theorem reachable_consistent_witness:
  "distinct (known_keys test_ctl (host (net_end_transit (net_reset test_ctl empty_net)) 255))
    \<and> batch_at (net_end_transit (net_reset test_ctl empty_net)) < 256"
  using reachable_consistent [OF empty_reach sample_inet_ok, of 255] by simp

section \<open>Replies\<close>

lemma ping_closes: "\<not> in_flight (net_process_ping fp ctl q err mpls addr t s) q"
proof (cases "in_flight s q \<and> 0 \<le> sq_index (sequence s q)")
  case True
  then show ?thesis
    using ping_steps [of s q fp ctl err mpls addr t]
    by (simp add: in_flight_def display_defs net_save_return_other record_address_other close_probe_def)
next
  case False
  then show ?thesis
    by (auto simp: in_flight_def net_process_ping_def mark_sequence_complete_def Let_def)
qed







text \<open>A reply that is late, doubled or unknown changes nothing: a second reply for the same
  sequence number, whatever it says, leaves the state as the first one made it.\<close>

theorem second_reply_ignored:
  "net_process_ping fp ctl q err2 mpls2 addr2 t2 (net_process_ping fp ctl q err mpls addr t s)
    = net_process_ping fp ctl q err mpls addr t s"
  by (rule ping_ignored [OF ping_closes])



lemma loss_bounds:
  assumes "fp_ok fp" and "0 \<le> r" and "r \<le> d" and "0 < d" and "d \<le> INT_MAX"
  shows "0 \<le> c_trunc (rnd fp (1000 * rnd fp (100 - rnd fp (rnd fp (100 * of_int r) / of_int d))))"
    and "c_trunc (rnd fp (1000 * rnd fp (100 - rnd fp (rnd fp (100 * of_int r) / of_int d)))) \<le> 100000"
proof -
  note between = rnd_between [OF assms(1)]
  have "\<bar>100 * r\<bar> \<le> FP_EXACT" using assms(2,3,5) by linarith
  then have "rnd fp (of_int (100 * r)) = of_int (100 * r)"
    using assms(1) unfolding fp_ok_def by blast
  then have e: "rnd fp (100 * of_int r) = 100 * of_int r" by simp
  have d: "(0 :: rat) < of_int d" using assms(4) by simp
  have "100 * of_int r / of_int d \<le> (100 :: rat)"
    using assms(3) d by (simp add: pos_divide_le_eq)
  moreover have "0 \<le> 100 * of_int r / (of_int d :: rat)" using assms(2) d by simp
  ultimately have q: "0 \<le> rnd fp (100 * of_int r / of_int d) \<and> rnd fp (100 * of_int r / of_int d) \<le> 100"
    using between [of 0 "100 * of_int r / of_int d" 100] by simp
  then have p: "0 \<le> rnd fp (100 - rnd fp (100 * of_int r / of_int d)) \<and> rnd fp (100 - rnd fp (100 * of_int r / of_int d)) \<le> 100"
    using between [of 0 "100 - rnd fp (100 * of_int r / of_int d)" 100] by simp
  then have "0 \<le> rnd fp (1000 * rnd fp (100 - rnd fp (100 * of_int r / of_int d)))
      \<and> rnd fp (1000 * rnd fp (100 - rnd fp (100 * of_int r / of_int d))) \<le> 100000"
    using between [of 0 "1000 * rnd fp (100 - rnd fp (100 * of_int r / of_int d))" 100000] by simp
  then show "0 \<le> c_trunc (rnd fp (1000 * rnd fp (100 - rnd fp (rnd fp (100 * of_int r) / of_int d))))"
    and "c_trunc (rnd fp (1000 * rnd fp (100 - rnd fp (rnd fp (100 * of_int r) / of_int d)))) \<le> 100000"
    unfolding e using c_trunc_between [of 0 _ 100000] by auto
qed

text \<open>The loss that is displayed, in thousandths of a percent, is a percentage, and the count
  of lost probes is not negative, in every reachable state with a count of probes that fits.\<close>

theorem loss_is_percentage:
  assumes "net_reach env fp (ctl, buf, s)" and "inet_ok env" and "fp_ok fp"
    and "0 \<le> hop" and "hop < int MaxHost" and "net_xmit s hop \<le> INT_MAX"
  shows "0 \<le> net_loss fp s hop \<and> net_loss fp s hop \<le> 100000 \<and> 0 \<le> net_drop s hop"
proof -
  let ?h = "host s hop"
  have "net_ok ctl s" using net_reach_ok [OF assms(1,2)] by simp
  then have "hop_ok ctl ?h" using assms(4,5) by (simp add: net_ok_def)
  then have h: "0 \<le> h_returned ?h" "h_returned ?h + h_transit ?h \<le> h_xmit ?h" "0 \<le> h_transit ?h"
    unfolding hop_ok_def by auto
  show ?thesis
  proof (cases "h_xmit ?h - h_transit ?h = 0")
    case False
    have "0 < h_xmit ?h - h_transit ?h" "h_returned ?h \<le> h_xmit ?h - h_transit ?h" "h_xmit ?h - h_transit ?h \<le> INT_MAX"
      using False h assms(6) by (auto simp: net_xmit_def)
    with loss_bounds [OF assms(3) h(1), of "h_xmit ?h - h_transit ?h"] False h show ?thesis
      by (simp add: net_loss_def net_drop_def Let_def)
  qed (use h in \<open>simp add: net_loss_def net_drop_def\<close>)
qed

theorem loss_is_percentage_witness:
  "net_loss exact_fp (net_end_transit (net_reset test_ctl empty_net)) 3 \<le> 100000"
  using loss_is_percentage [OF empty_reach sample_inet_ok exact_fp_ok, of 3]
  by (simp add: net_xmit_def net_end_transit_def net_reset_def template_host_def)

section \<open>Batches\<close>

lemma send_probe_command_total:
  assumes "inet_ok env" and "af ctl \<noteq> AF_UNSPEC" and "is_ip a" and "is_ip b"
    and "protocol_name (mtrtype ctl) \<noteq> None" and "\<forall>w. write_ok w"
  shows "\<exists>w. send_probe_command env write_ok ctl a b size' q ttl = Inr w"
proof -
  have len: "addr_len (af ctl) \<le> length a" "addr_len (af ctl) \<le> length b"
    using assms(3,4) by (auto simp: is_ip_def addr_len_def split: family.split)
  obtain s t where "inet_ntop env (af ctl) a = Some s" "inet_ntop env (af ctl) b = Some t"
    using inet_ok_ntop [OF assms(1,2) len(1)] inet_ok_ntop [OF assms(1,2) len(2)] by metis
  then have "\<exists>c. construct_base_command env ctl COMMAND_BUFFER_SIZE q a b = Inr c"
    using assms(5) by (auto simp: construct_base_command_def Let_def)
  then show ?thesis
    using assms(6) by (auto simp: send_probe_command_def probe_command_text_def Let_def)
qed

text \<open>The first half of a batch step: what the choice of the packet and the new sequence number
  leave as they were, and what they change.\<close>

lemma batch_prefix:
  assumes "net_ok ctl s" and "choose_packet fp r1 r2 ctl s = (c1, s1)"
    and "new_sequence c1 (batch_at s1) s1 = (q, s2)"
  shows "s2 = save_sequence c1 (batch_at s) (next_sequence s) (s1\<lparr>next_sequence :=
      (if next_sequence s = 65535 then MinSequence else next_sequence s + 1)\<rparr>)"
    and "q = next_sequence s" and "s1 = s\<lparr>packetsize := packetsize s1\<rparr>" and "0 \<le> batch_at s" and "batch_at s < int MaxHost"
    and "c1 = ctl\<lparr>bitpattern := bitpattern c1\<rparr>" and "net_ok c1 s2"
proof -
  note co = choose_packet_other [OF assms(2)]
  show "s1 = s\<lparr>packetsize := packetsize s1\<rparr>" and "c1 = ctl\<lparr>bitpattern := bitpattern c1\<rparr>" by (fact co)+
  have sel: "next_sequence s1 = next_sequence s" "batch_at s1 = batch_at s" by (subst co(2), simp)+
  have "af c1 = af ctl" "unspec_addr c1 = unspec_addr ctl" by (subst co(1), simp)+
  then have "net_ok c1 s" using assms(1) net_ok_options by metis
  then have s1: "net_ok c1 s1" by (subst co(2), simp add: net_ok_def)
  show b: "0 \<le> batch_at s" "batch_at s < int MaxHost" using assms(1) by (simp_all add: net_ok_def)
  then show "net_ok c1 s2" using new_sequence_ok [OF s1 _ _ assms(3)] sel by simp
  have "next_sequence s < MaxSequence" using assms(1) by (simp add: net_ok_def)
  then show "q = next_sequence s" and "s2 = save_sequence c1 (batch_at s) (next_sequence s) (s1\<lparr>next_sequence :=
      (if next_sequence s = 65535 then MinSequence else next_sequence s + 1)\<rparr>)"
    using assms(3) sel by (cases "next_sequence s = 65535"; simp add: new_sequence_def Let_def split: if_splits)+
qed

lemma save_sequence_sel:
  "batch_at (save_sequence ctl i q s) = batch_at s" "next_sequence (save_sequence ctl i q s) = next_sequence s"
  "remoteaddress (save_sequence ctl i q s) = remoteaddress s"
  "sourceaddress (save_sequence ctl i q s) = sourceaddress s"
  "packetsize (save_sequence ctl i q s) = packetsize s" "pipe_written (save_sequence ctl i q s) = pipe_written s"
  "sq_transit (sequence (save_sequence ctl i q s) q) = 1" "sq_index (sequence (save_sequence ctl i q s) q) = i"
  by (simp_all add: save_sequence_eq net_save_xmit_def net_save_increment_def Let_def display_defs)

lemma save_sequence_xmit:
  "h_xmit (host (save_sequence ctl i q s) i) = h_xmit (host s i) + 1"
  unfolding save_sequence_eq same_but_saved_sel(4) [OF net_save_xmit_host] by (simp add: sent_host_def)

text \<open>Options with which a probe can be sent: the protocol has a name, and the packet size is not
  the one for which the remainder fails.\<close>

definition sendable :: "mtr_ctl \<Rightarrow> bool" where
  "sendable ctl \<longleftrightarrow> protocol_name (mtrtype ctl) \<noteq> None \<and> cpacketsize ctl \<noteq> - MINPACKET"

lemma batch_total:
  assumes "net_ok ctl s" and "ctl_ok ctl" and "inet_ok env" and "sendable ctl"
    and "\<forall>w. write_ok w"
  shows "\<exists>v ctl' s'. net_send_batch env write_ok fp r1 r2 ctl s = Inr (v, ctl', s')
    \<and> maxTTL ctl' = maxTTL ctl \<and> fstTTL ctl' = fstTTL ctl \<and> mtrtype ctl' = mtrtype ctl \<and> cpacketsize ctl' = cpacketsize ctl
    \<and> (v = 1 \<and> batch_at s' = fstTTL ctl - 1 \<and> numhosts s' = batch_at s + 1
       \<or> v = 0 \<and> batch_at s' = batch_at s + 1 \<and> batch_at s < maxTTL ctl - 1)"
proof -
  obtain c1 s1 where c: "choose_packet fp r1 r2 ctl s = (c1, s1)" by fastforce
  obtain q s2 where n: "new_sequence c1 (batch_at s1) s1 = (q, s2)" by fastforce
  note p = batch_prefix [OF assms(1) c n]
  have c1: "ctl_ok c1" "maxTTL c1 = maxTTL ctl" "fstTTL c1 = fstTTL ctl" "mtrtype c1 = mtrtype ctl" "cpacketsize c1 = cpacketsize ctl"
    using assms(2) by (subst p(6); simp add: ctl_ok_def)+
  have at1: "batch_at s1 = batch_at s" by (subst p(3), simp)
  have at2: "batch_at s2 = batch_at s" unfolding p(1) by (simp add: save_sequence_sel at1)
  have ip: "is_ip (remoteaddress s2)" "is_ip (sourceaddress s2)" "af c1 \<noteq> AF_UNSPEC"
    using p(7) c1(1) by (simp_all add: net_ok_def ctl_ok_def)
  obtain w where "send_probe_command env write_ok c1 (remoteaddress s2) (sourceaddress s2) (packetsize s2) q (batch_at s1 + 1) = Inr w"
    using send_probe_command_total [OF assms(3) ip(3,1,2)] assms(4,5) c1(4) unfolding sendable_def by metis
  then have q: "net_send_query env write_ok c1 (batch_at s1) \<bar>packetsize s1\<bar> s1 = Inr (s2\<lparr>pipe_written := pipe_written s2 @ [w]\<rparr>)"
    using n by (simp add: net_send_query_def Let_def)
  let ?s = "s2\<lparr>pipe_written := pipe_written s2 @ [w]\<rparr>"
  have r: "net_send_batch env write_ok fp r1 r2 ctl s = Inr (if batch_done c1 ?s
      then (1, c1, ?s\<lparr>numhosts := batch_at ?s + 1, batch_at := fstTTL c1 - 1\<rparr>)
      else (0, c1, ?s\<lparr>batch_at := batch_at ?s + 1\<rparr>))"
    using c q assms(4) by (simp add: net_send_batch_def sendable_def size_faults_def)
  show ?thesis
  proof (cases "batch_done c1 ?s")
    case True
    with r c1 at2 show ?thesis by simp
  next
    case False
    then have "batch_at s < maxTTL ctl - 1" using c1(2) at2 by (simp add: batch_done_def)
    with r False c1 at2 show ?thesis by simp
  qed
qed




text \<open>A call of \<open>net_send_batch\<close> sends one probe. It writes one request, the text for the
  sequence number that was next, to the target, with the hop's time to live; the probe is in flight
  to that hop, whose count of sent probes grows by one, and the next sequence number moves on.\<close>

theorem batch_sends_one_probe:
  assumes "net_ok ctl s" and "net_send_batch env write_ok fp r1 r2 ctl s = Inr (v, ctl', s')"
  shows "\<exists>w. pipe_written s' = pipe_written s @ [w]
      \<and> probe_command_text env ctl' (remoteaddress s) (sourceaddress s) (packetsize s') (next_sequence s) (batch_at s + 1) = Inr w
    \<and> in_flight s' (next_sequence s) \<and> sq_index (sequence s' (next_sequence s)) = batch_at s
    \<and> net_xmit s' (batch_at s) = net_xmit s (batch_at s) + 1
    \<and> next_sequence s' = (if next_sequence s = 65535 then MinSequence else next_sequence s + 1)"
proof -
  obtain c1 s1 where c: "choose_packet fp r1 r2 ctl s = (c1, s1)" by fastforce
  obtain q s2 where n: "new_sequence c1 (batch_at s1) s1 = (q, s2)" by fastforce
  note p = batch_prefix [OF assms(1) c n]
  have e1: "batch_at s1 = batch_at s" "remoteaddress s1 = remoteaddress s" "sourceaddress s1 = sourceaddress s"
    "pipe_written s1 = pipe_written s" "host s1 = host s" by (subst p(3), simp)+
  have e2: "batch_at s2 = batch_at s" "remoteaddress s2 = remoteaddress s" "sourceaddress s2 = sourceaddress s"
    "pipe_written s2 = pipe_written s" "in_flight s2 (next_sequence s)" "sq_index (sequence s2 (next_sequence s)) = batch_at s"
    "next_sequence s2 = (if next_sequence s = 65535 then MinSequence else next_sequence s + 1)"
    "h_xmit (host s2 (batch_at s)) = h_xmit (host s (batch_at s)) + 1"
    using assms(1) unfolding p(1) in_flight_def
    by (simp_all add: save_sequence_sel save_sequence_xmit e1) (simp_all add: net_ok_def)
  obtain s3 where q: "net_send_query env write_ok c1 (batch_at s) \<bar>packetsize s1\<bar> s1 = Inr s3"
    and r: "(v, ctl', s') = (if batch_done c1 s3
                    then (1, c1, s3\<lparr>numhosts := batch_at s3 + 1, batch_at := fstTTL c1 - 1\<rparr>)
                    else (0, c1, s3\<lparr>batch_at := batch_at s3 + 1\<rparr>))"
    using assms(2) c e1(1) by (auto simp: net_send_batch_def and_then_Inr split: if_splits)
  obtain w where w: "send_probe_command env write_ok c1 (remoteaddress s) (sourceaddress s) (packetsize s2)
      (next_sequence s) (batch_at s + 1) = Inr w" and s3: "s3 = s2\<lparr>pipe_written := pipe_written s @ [w]\<rparr>"
    using q n e1(1) e2(2-4) p(2) by (auto simp: net_send_query_def Let_def and_then_Inr)
  have t: "probe_command_text env c1 (remoteaddress s) (sourceaddress s) (packetsize s2) (next_sequence s) (batch_at s + 1) = Inr w"
    using w by (auto simp: send_probe_command_def Let_def and_then_Inr split: if_splits)
  have o: "ctl' = c1" "pipe_written s' = pipe_written s3" "packetsize s' = packetsize s3" "sequence s' = sequence s3"
    "host s' = host s3" "next_sequence s' = next_sequence s3"
    using r by (auto split: if_splits)
  show ?thesis
    unfolding o s3 net_xmit_def in_flight_def using t e2 by (simp add: in_flight_def o s3)
qed

theorem batch_sends_one_probe_witness:
  "\<exists>v ctl' s'. net_send_batch sample_inet (\<lambda>_. True) exact_fp 0 0 test_ctl (net_reset test_ctl empty_net)
      = Inr (v, ctl', s') \<and> net_xmit s' 0 = 1 \<and> in_flight s' 33000 \<and> next_sequence s' = 33001"
proof -
  let ?s = "net_reset test_ctl empty_net"
  have ok: "net_ok test_ctl ?s"
    by (rule net_reset_ok) (simp_all add: test_ctl_ok empty_net_def is_ip_def)
  have s: "next_sequence ?s = 33000" "batch_at ?s = 0" "net_xmit ?s 0 = 0"
    by (simp_all add: net_reset_def empty_net_def test_ctl_def default_ctl_def net_xmit_def template_host_def)
  have p: "sendable test_ctl"
    by (simp add: test_ctl_def default_ctl_def protocol_name_def sendable_def)
  obtain v ctl' s' where b: "net_send_batch sample_inet (\<lambda>_. True) exact_fp 0 0 test_ctl ?s = Inr (v, ctl', s')"
    using batch_total [OF ok test_ctl_ok(1) sample_inet_ok p, of "\<lambda>_. True" exact_fp 0 0] by auto
  show ?thesis using batch_sends_one_probe [OF ok b] b unfolding s by auto
qed

end
