(* ===== verification/PacketBytes.thy ===== *)
theory PacketBytes
  imports Deconstruct Samples
begin

text \<open>
  The bytes on the wire: checksums that a receiver accepts, the size of what is sent, and the MPLS
  extension of an ICMP error (RFC 4884, RFC 4950), which \<open>decode_mpls_labels\<close> of
  \<open>packet/deconstruct_unix.c\<close> reads back as it was written.
\<close>

section \<open>Checksums\<close>

text \<open>C18: A receiver accepts the checksum of an echo request. Over the ICMP part of the datagram
  that is built, with the checksum in its place, the one's complement sum comes out as it has to
  (the checksum function gives zero), for raw and datagram sockets, any payload of up to 65535
  bytes and any sequence number; and the sequence number and the identifier are in their fields.\<close>

theorem echo_request_verifies:
  assumes "pp_protocol param = IPPROTO_ICMP" and "off = (if ip4_socket_raw ns then 20 else 0)"
    and "off + 8 \<le> length buffer" and "length buffer \<le> 65535"
    and "4 \<le> length (sin_addr src)" and "4 \<le> length (sin_addr dest)"
    and "sent = construct_ip4_datagram os q buffer packet_size src dest param ns"
  shows "compute_checksum (drop off sent) = 0 \<and> length sent = length buffer
    \<and> sent ! off = 8 \<and> load16 sent (off + 4) = htons (word_of_int (os_pid os))
    \<and> load16 sent (off + 6) = htons (word_of_int q)"
proof -
  let ?p = "if ip4_socket_raw ns then construct_ip4_header ns buffer packet_size src dest param else buffer"
  have len: "length ?p = length buffer"
    using assms(2-6) ip4_header_fields(1) [of buffer src dest ns packet_size param] by auto
  have sent: "sent = construct_icmp4_header os ns q ?p"
    using assms(1,7) by (simp add: construct_ip4_datagram_def)
  show ?thesis
    using icmp4_checksum_verifies [OF assms(2), of ?p os q] icmp4_fields(1-4) [OF assms(2), of ?p os q]
      assms(3,4) unfolding sent len by simp
qed

theorem echo_request_verifies_witness:
  "compute_checksum (drop 20 (construct_ip4_datagram quiet_os 33000 (replicate 64 7) 64
      (zero_sockaddr\<lparr>sin_addr := [10, 0, 0, 1]\<rparr>) (zero_sockaddr\<lparr>sin_addr := [10, 0, 0, 2]\<rparr>)
      (default_param 5 \<lparr>pp_protocol := IPPROTO_ICMP\<rparr>) raw4_ns)) = 0"
  using echo_request_verifies [of "default_param 5 \<lparr>pp_protocol := IPPROTO_ICMP\<rparr>" 20 raw4_ns "replicate 64 7",
      OF _ _ _ _ _ _ refl, of "zero_sockaddr\<lparr>sin_addr := [10, 0, 0, 1]\<rparr>" "zero_sockaddr\<lparr>sin_addr := [10, 0, 0, 2]\<rparr>"
      quiet_os 33000 64]
  by (simp add: raw4_ns_def)

section \<open>MPLS extensions\<close>

text \<open>The objects of an extension as a router writes them: length, class, type and payload; a
  label stack entry is 20 bits of label, 3 of traffic class, the bottom of stack bit and the time
  to live.\<close>

definition extension_object :: "u8 \<times> u8 \<times> u8 list \<Rightarrow> u8 list" where
  "extension_object = (\<lambda>(cls, ty, payload).
     bytes16 (htons (of_nat (4 + length payload))) @ [cls, ty] @ payload)"

definition label_bytes :: "mpls_label_t \<Rightarrow> u8 list" where
  "label_bytes m =
     [ucast (drop_bit 12 (ml_label m)), ucast (drop_bit 4 (ml_label m)),
      push_bit 4 (ucast (ml_label m)) OR push_bit 1 (ml_traffic_class m) OR ml_bottom_of_stack m, ml_ttl m]"

definition label_fits :: "mpls_label_t \<Rightarrow> bool" where
  "label_fits m \<longleftrightarrow> take_bit 20 (ml_label m) = ml_label m
     \<and> take_bit 3 (ml_traffic_class m) = ml_traffic_class m
     \<and> take_bit 1 (ml_bottom_of_stack m) = ml_bottom_of_stack m"

lemma length_label_bytes [simp]: "length (label_bytes m) = 4"
  by (simp add: label_bytes_def)

lemma length_extension_object: "length (extension_object (c, t, p)) = 4 + length p"
  by (simp add: extension_object_def bytes16_def)

lemma label_word:
  fixes l :: u32 and t :: u8 and s :: u8
  assumes "take_bit 20 l = l" and "take_bit 3 t = t" and "take_bit 1 s = s"
    and b: "b = push_bit 4 (ucast l) OR push_bit 1 t OR s"
  shows "push_bit 12 (ucast (ucast (drop_bit 12 l) :: u8)) OR push_bit 4 (ucast (ucast (drop_bit 4 l) :: u8))
      OR ucast (drop_bit 4 b) = l"
    and "drop_bit 1 (b AND 0x0E) = t" and "b AND 1 = s"
proof -
  have l: "bit l n \<Longrightarrow> n < 20" for n by (metis assms(1) bit_take_bit_iff)
  have t: "bit t n \<Longrightarrow> n < 3" for n by (metis assms(2) bit_take_bit_iff)
  have s: "bit s n \<Longrightarrow> n < 1" for n by (metis assms(3) bit_take_bit_iff)
  have b_bit: "bit b n \<longleftrightarrow> n < 8 \<and> (4 \<le> n \<and> bit l (n - 4) \<or> 1 \<le> n \<and> bit t (n - 1) \<or> bit s n)" for n
    unfolding b using s [of n] t [of "n - 1"]
    by (auto simp only: bit_or_iff bit_push_bit_iff bit_unsigned_iff possible_bit_word) auto
  have "(0x0E :: u8) = push_bit 1 (mask 3)" by (simp add: mask_eq_exp_minus_1)
  then have E: "bit (0x0E :: u8) n \<longleftrightarrow> 1 \<le> n \<and> n < 4" for n
    by (simp only: bit_push_bit_iff bit_mask_iff possible_bit_word) auto
  have O: "bit (1 :: u8) n \<longleftrightarrow> n < 1" for n by (simp add: bit_1_iff)
  show "push_bit 12 (ucast (ucast (drop_bit 12 l) :: u8)) OR push_bit 4 (ucast (ucast (drop_bit 4 l) :: u8))
      OR ucast (drop_bit 4 b) = l"
  proof (rule bit_word_eqI)
    fix n assume n: "n < LENGTH(32)"
    show "bit (push_bit 12 (ucast (ucast (drop_bit 12 l) :: u8)) OR push_bit 4 (ucast (ucast (drop_bit 4 l) :: u8))
      OR ucast (drop_bit 4 b) :: u32) n = bit l n"
      using l [of n] t [of "4 + n - 1"] s [of "4 + n"] n
      by (cases "n < 4"; cases "n < 12")
        (simp_all only: bit_or_iff bit_push_bit_iff bit_drop_bit_eq bit_unsigned_iff possible_bit_word b_bit comp_def, auto)
  qed
  show "drop_bit 1 (b AND 0x0E) = t"
  proof (rule bit_word_eqI)
    fix n assume "n < LENGTH(8)"
    show "bit (drop_bit 1 (b AND 0x0E)) n = bit t n"
      using t [of n] s [of "Suc n"]
      by (simp only: bit_drop_bit_eq bit_and_iff b_bit E comp_def) auto
  qed
  show "b AND 1 = s"
  proof (rule bit_word_eqI)
    fix n assume "n < LENGTH(8)"
    show "bit (b AND 1) n = bit s n"
      using s [of n] by (simp only: bit_and_iff b_bit O) auto
  qed
qed
lemma decode_label:
  assumes "label_fits m" and "take 4 (drop i buf) = label_bytes m" and "i + 4 \<le> length buf"
  shows "decode_mpls_label buf i = m"
proof -
  have n: "buf ! (i + k) = label_bytes m ! k" if "k < 4" for k
    using that assms(2,3) by (metis add_leD1 nth_drop nth_take)
  have "buf ! i = label_bytes m ! 0" "buf ! (i + 1) = label_bytes m ! 1" "buf ! (i + 2) = label_bytes m ! 2"
    "buf ! (i + 3) = label_bytes m ! 3"
    using n [of 0] n [of 1] n [of 2] n [of 3] by simp_all
  note b = this [unfolded label_bytes_def, simplified]
  have "take_bit 20 (ml_label m) = ml_label m" "take_bit 3 (ml_traffic_class m) = ml_traffic_class m"
    "take_bit 1 (ml_bottom_of_stack m) = ml_bottom_of_stack m"
    using assms(1) by (simp_all add: label_fits_def)
  note w = label_word [OF this refl]
  show ?thesis
    unfolding decode_mpls_label_def using b w by (cases m) (simp add: label_bytes_def)
qed

lemma decode_labels:
  assumes "\<forall>m \<in> set ms. label_fits m" and "drop (obj + 4) buf = concat (map label_bytes ms) @ rest"
    and "obj + 4 \<le> length buf"
  shows "decode_mpls_object buf obj (4 + 4 * length ms) c = take c ms"
proof -
  have len: "length (concat (map label_bytes xs)) = 4 * length xs" for xs
    by (induction xs) simp_all
  have one: "decode_mpls_label buf (obj + 4 + 4 * i) = ms ! i" if i: "i < length ms" for i
  proof (rule decode_label)
    show "label_fits (ms ! i)" using assms(1) i by simp
    have "drop (obj + 4 + 4 * i) buf = drop (4 * i) (concat (map label_bytes ms) @ rest)"
      using assms(2) by (metis add.commute drop_drop)
    also have "ms = take i ms @ ms ! i # drop (Suc i) ms" using i by (rule id_take_nth_drop)
    also have "drop (4 * i) (concat (map label_bytes (take i ms @ ms ! i # drop (Suc i) ms)) @ rest)
        = label_bytes (ms ! i) @ concat (map label_bytes (drop (Suc i) ms)) @ rest"
      using len [of "take i ms"] i by simp
    finally have d: "drop (obj + 4 + 4 * i) buf = label_bytes (ms ! i) @ concat (map label_bytes (drop (Suc i) ms)) @ rest" .
    then show "take 4 (drop (obj + 4 + 4 * i) buf) = label_bytes (ms ! i)" by simp
    have "4 \<le> length (drop (obj + 4 + 4 * i) buf)" unfolding d by simp
    then show "obj + 4 + 4 * i + 4 \<le> length buf" by simp
  qed
  show ?thesis
    by (rule nth_equalityI) (simp_all add: decode_mpls_object_def one)
qed

definition other_object :: "u8 \<times> u8 \<times> u8 list \<Rightarrow> bool" where
  "other_object = (\<lambda>(cls, ty, payload). (cls \<noteq> 1 \<or> ty \<noteq> 1) \<and> length payload \<le> 65531)"

definition mpls_object :: "mpls_label_t list \<Rightarrow> u8 list" where
  "mpls_object ms = extension_object (1, 1, concat (map label_bytes ms))"

lemma object_header:
  assumes "drop i buf = extension_object (cls, ty, payload) @ rest" and "length payload \<le> 65531"
    and "i \<le> length buf"
  shows "unat (htons (load16 buf i)) = 4 + length payload" and "buf ! (i + 2) = cls" and "buf ! (i + 3) = ty"
    and "drop (i + 4) buf = payload @ rest"
proof -
  let ?w = "htons (of_nat (4 + length payload)) :: u16"
  have n: "buf ! (i + k) = (extension_object (cls, ty, payload) @ rest) ! k" for k
    using assms(1,3) by (metis nth_drop)
  have d: "drop i buf = bytes16 ?w @ [cls, ty] @ payload @ rest"
    using assms(1) by (simp add: extension_object_def)
  have "load16 buf i = ?w"
    using n [of 0] n [of 1] load16_bytes16 [of ?w]
    by (simp add: load16_def extension_object_def bytes16_def)
  then show "unat (htons (load16 buf i)) = 4 + length payload"
    using assms(2) by (simp add: unsigned_of_nat take_bit_nat_eq_self del: of_nat_add)
  show "buf ! (i + 2) = cls" and "buf ! (i + 3) = ty"
    using n [of 2] n [of 3] by (simp_all add: extension_object_def bytes16_def)
  have "drop (i + 4) buf = drop 4 (drop i buf)" by (simp add: add.commute)
  then show "drop (i + 4) buf = payload @ rest" unfolding d by (simp add: bytes16_def)
qed

lemma decode_objects:
  assumes "\<forall>ob \<in> set others. other_object ob" and "\<forall>m \<in> set ms. label_fits m" and "length ms \<le> 16382"
    and "drop obj buf = concat (map extension_object others) @ mpls_object ms @ rest"
    and "n = length (drop obj buf)" and "obj \<le> length buf"
  shows "mpls_objects buf obj n c = take c ms"
  using assms(1,4,5,6)
proof (induction others arbitrary: obj n)
  case Nil
  have len: "length (concat (map label_bytes ms)) = 4 * length ms" for ms
    by (induction ms) simp_all
  note h = object_header [OF Nil(2) [unfolded mpls_object_def, simplified] _ Nil(4), unfolded len]
  have h: "unat (htons (load16 buf obj)) = 4 + 4 * length ms" "buf ! (obj + 2) = 1" "buf ! (obj + 3) = 1"
    "drop (obj + 4) buf = concat (map label_bytes ms) @ rest"
    using h assms(3) by simp_all
  have n: "4 + 4 * length ms \<le> n"
    using Nil(2,3) by (simp add: mpls_object_def length_extension_object len)
  then have "obj + 4 \<le> length buf" using Nil(3) by simp
  from decode_labels [OF assms(2) h(4) this]
  show ?case using n h(1-3) by (subst mpls_objects.simps) (simp add: Let_def)
next
  case (Cons ob others)
  obtain cls ty payload where ob: "ob = (cls, ty, payload)" using prod_cases3 by blast
  have ok: "cls \<noteq> 1 \<or> ty \<noteq> 1" "length payload \<le> 65531"
    using Cons.prems(1) by (auto simp: ob other_object_def)
  let ?rest = "concat (map extension_object others) @ mpls_object ms @ rest"
  have d: "drop obj buf = extension_object (cls, ty, payload) @ ?rest"
    using Cons.prems(2) by (simp add: ob)
  note h = object_header [OF d ok(2) Cons.prems(4)]
  have n: "4 + length payload \<le> n"
    using d Cons.prems(3) by (simp add: length_extension_object)
  have "drop (obj + (4 + length payload)) buf = drop (length payload) (drop (obj + 4) buf)"
    by (simp add: ac_simps)
  then have r: "drop (obj + (4 + length payload)) buf = ?rest" unfolding h(4) by simp
  have "mpls_objects buf (obj + (4 + length payload)) (n - (4 + length payload)) c = take c ms"
  proof (rule Cons.IH)
    have n': "n = length buf - obj" using Cons.prems(3) by simp
    then show "n - (4 + length payload) = length (drop (obj + (4 + length payload)) buf)" by simp
    show "obj + (4 + length payload) \<le> length buf" using n n' Cons.prems(4) by linarith
  qed (use Cons.prems(1) r in auto)
  then show ?case using n ok(1) h(1-3) by (subst mpls_objects.simps) (auto simp: Let_def)
qed

text \<open>C19: The labels that a router appends to an ICMP error are read back. When the packet has 128
  bytes of the original datagram, an extension header of version 2, any extension objects of other
  classes and then an MPLS object, \<open>decode_mpls_labels\<close> gives the labels of that object, in order,
  up to the number that fits the array of the caller.\<close>

theorem mpls_labels_read_back:
  assumes "\<forall>ob \<in> set others. other_object ob" and "\<forall>m \<in> set ms. label_fits m" and "length ms \<le> 16382"
    and "length original = 128" and "version AND 0xF0 = 0x20"
    and "packet = before @ header @ original @ [version, r, c1, c2]
          @ concat (map extension_object others) @ mpls_object ms"
    and "length header = 8"
  shows "decode_mpls_labels packet (length before) (int (length packet) - int (length before)) k = take k ms"
proof -
  let ?obj = "length before + 140"
  let ?ext = "concat (map extension_object others) @ mpls_object ms"
  have d: "drop ?obj packet = concat (map extension_object others) @ mpls_object ms @ []"
    using assms(4,6,7) by simp
  have v: "packet ! (length before + 136) = version"
    using assms(4,6,7) by (simp add: nth_append)
  have len: "length packet = ?obj + length ?ext" using assms(4,6,7) by simp
  have "mpls_objects packet ?obj (length (drop ?obj packet)) k = take k ms"
    by (rule decode_objects [OF assms(1-3) d refl]) (use len in simp)
  moreover have "nat (int (length packet) - int (length before)) - 140 = length (drop ?obj packet)"
    using len by simp
  ultimately show ?thesis
    using v assms(5) len by (simp add: decode_mpls_labels_def ac_simps)
qed

theorem mpls_labels_read_back_witness:
  "decode_mpls_labels ([] @ replicate 8 0 @ replicate 128 0 @ [0x20, 0, 0, 0]
      @ concat (map extension_object [(2, 1, [7, 7])]) @ mpls_object [\<lparr>ml_label = 100, ml_traffic_class = 1, ml_bottom_of_stack = 1, ml_ttl = 5\<rparr>])
      0 154 8 = [\<lparr>ml_label = 100, ml_traffic_class = 1, ml_bottom_of_stack = 1, ml_ttl = 5\<rparr>]"
  using mpls_labels_read_back [of "[(2, 1, [7, 7])]" "[\<lparr>ml_label = 100, ml_traffic_class = 1, ml_bottom_of_stack = 1, ml_ttl = 5\<rparr>]"
      "replicate 128 0" "0x20" _ "[]" "replicate 8 0" 0 0 0 8, OF _ _ _ _ _ refl]
  by (simp add: other_object_def label_fits_def length_extension_object mpls_object_def take_bit_eq_mod)

end
