(* ===== verification/StreamProps.thy ===== *)
theory StreamProps
  imports CmdPipe Command Samples
begin

text \<open>
  The byte streams between the two processes: a line is handled the same way however the pipe cuts
  the stream into reads, and the tokenizer finds the words of a line.
\<close>

section \<open>Replies\<close>

text \<open>The reads of the reply pipe, as the kernel may serve them: of the rest of the stream the first
  \<open>n\<close> characters are in the pipe when \<open>select\<close> reports it as readable, and the read takes what
  fits into the buffer.\<close>

primrec reply_reads ::
  "inet_env \<Rightarrow> mtr_ctl \<Rightarrow> 's reply_func \<Rightarrow> nat list \<Rightarrow> string \<Rightarrow> string \<times> 's \<Rightarrow> ui_exit + (string \<times> string \<times> 's)" where
  "reply_reads env ctl f [] = (\<lambda>stream (buf, s). Inr (stream, buf, s))"
| "reply_reads env ctl f (n # ns) = (\<lambda>stream (buf, s).
     (let fits = take (PACKET_REPLY_BUFFER_SIZE - 1 - length buf) (take n stream)
      in if fits = [] then reply_reads env ctl f ns stream (buf, s)
         else and_then (handle_command_replies env ctl f (Inr (take n stream)) buf s)
                (reply_reads env ctl f ns (drop (length fits) stream))))"

lemma short_lines_append: "short_lines n k (r @ t) \<Longrightarrow> short_lines n k r"
proof (induction r arbitrary: k)
  case Nil
  then show ?case by (cases t) auto
qed (auto split: if_splits)

lemma take_drop_length: "take k xs @ drop (length (take k xs)) xs = xs"
  by (cases "k \<le> length xs") auto

lemma reply_reads_chunks:
  assumes "reply_reads env ctl f ns stream (buf, s) = Inr (rest, buf', s')"
    and "length buf < PACKET_REPLY_BUFFER_SIZE - 1"
  shows "\<exists>chunks. stream = concat chunks @ rest
    \<and> fold_res (receive_chunk env ctl f) chunks (buf, s) = Inr (buf', s')"
  using assms
proof (induction ns arbitrary: stream buf s)
  case Nil
  then have "stream = concat [] @ rest \<and> fold_res (receive_chunk env ctl f) [] (buf, s) = Inr (buf', s')"
    by simp
  then show ?case by blast
next
  case (Cons n ns)
  let ?fits = "take (PACKET_REPLY_BUFFER_SIZE - 1 - length buf) (take n stream)"
  show ?case
  proof (cases "?fits = []")
    case True
    then have "reply_reads env ctl f ns stream (buf, s) = Inr (rest, buf', s')"
      using Cons.prems(1) unfolding reply_reads.simps Let_def by simp
    then show ?thesis by (rule Cons.IH [OF _ Cons.prems(2)])
  next
    case False
    then have "take n stream \<noteq> []" by auto
    note h = handle_replies_chunk [OF this Cons.prems(2), of env ctl f s]
    obtain b1 s1 where c: "receive_chunk env ctl f ?fits (buf, s) = Inr (b1, s1)"
      and r: "reply_reads env ctl f ns (drop (length ?fits) stream) (b1, s1) = Inr (rest, buf', s')"
      using Cons.prems(1) False by (auto simp only: reply_reads.simps prod.case Let_def if_False h and_then_Inr)
    have "length b1 < PACKET_REPLY_BUFFER_SIZE - 1"
      using c consume_leaves_room by (auto simp only: receive_chunk_def prod.case)
    from Cons.IH [OF r this] obtain chunks where
      "drop (length ?fits) stream = concat chunks @ rest"
      "fold_res (receive_chunk env ctl f) chunks (b1, s1) = Inr (buf', s')" by blast
    moreover have "stream = ?fits @ drop (length ?fits) stream"
      by (simp only: take_take take_drop_length)
    ultimately have "stream = concat (?fits # chunks) @ rest
        \<and> fold_res (receive_chunk env ctl f) (?fits # chunks) (buf, s) = Inr (buf', s')"
      using c by (simp only: concat.simps append_assoc fold_res.simps) simp
    then show ?thesis by blast
  qed
qed

text \<open>The replies of \<open>mtr-packet\<close> reach \<open>mtr\<close> whole and in order, however the pipe cuts the
  stream. After any sequence of reads, of whatever sizes, of a stream in which no line outgrows the
  buffer, exactly the complete lines of the part that was read have been handled, in order, each
  once, and the buffer holds the beginning of the line that is not complete yet.\<close>

theorem replies_any_reads:
  assumes "no_nul stream" and "short_lines (PACKET_REPLY_BUFFER_SIZE - 1) 0 stream"
    and "reply_reads env ctl f ns stream ([], s) = Inr (rest, buf, s')"
  shows "\<exists>done'. stream = done' @ rest \<and> buf = snd (lines_of done')
    \<and> fold_res (handle_command_reply env ctl f) (fst (lines_of done')) s = Inr s'"
proof -
  obtain chunks where c: "stream = concat chunks @ rest"
    "fold_res (receive_chunk env ctl f) chunks ([], s) = Inr (buf, s')"
    using reply_reads_chunks [OF assms(3)] by auto
  have "no_nul (concat chunks)" using assms(1) c(1) by simp
  moreover have "short_lines (PACKET_REPLY_BUFFER_SIZE - 1) 0 ([] @ concat chunks)"
    using short_lines_append assms(2) c(1) by (metis append_Nil)
  ultimately have "consume_loop env ctl f (concat chunks) s = Inr (buf, s')"
    using reply_lines.feeds_concat [of "[]" chunks env ctl f s] c(2) by simp
  then show ?thesis
    using c(1) by (auto simp: reply_lines.drain_lines and_then_Inr)
qed

theorem replies_any_reads_witness:
  "\<exists>done'. ''1 x'' @ [NL] @ ''2 y'' = done' @ ''y'' \<and> ''2 '' = snd (lines_of done')
    \<and> fold_res (handle_command_reply sample_inet (default_ctl DisplayReport) (\<lambda>q e m a t s. s + 1)) (fst (lines_of done')) 5 = Inr (5 :: nat)"
proof (rule replies_any_reads)
  show "reply_reads sample_inet (default_ctl DisplayReport) (\<lambda>q e m a t s. s + 1) [2, 4] (''1 x'' @ [NL] @ ''2 y'') ([], 5)
      = Inr (''y'', ''2 '', 5 :: nat)"
    by (simp add: handle_command_replies_def Let_def consume_reply_buffer_def consume_loop.simps handle_command_reply_def
        parse_command_words no_nul_def isspace_def MAX_COMMAND_TOKENS_def MAX_COMMAND_ARGUMENTS_def parse_tokens_def
        strtol_int_def strtol_def scan_number_def scan_sign_def scan_unsigned_def is_digit_def digit_val_def
        zero_command_def handle_reply_errors_def reply_error_def to_int32_def)
qed (simp_all add: no_nul_def)

section \<open>Commands\<close>

text \<open>C15: Commands are dispatched whole and in order, however the input is cut. When a stream of
  commands arrives in any chunks, each appended to the buffer and dispatched, and no line outgrows
  the buffer, the effect and the rest that stays in the buffer are those of dispatching the
  complete lines of the stream one after the other.\<close>

theorem commands_any_chunks:
  fixes os :: "'w os"
  assumes "no_nul (concat chunks)" and "short_lines (INCOMING_SIZE - 1) 0 (concat chunks)"
  shows "fold_res (\<lambda>chunk (buf, st). dispatch_buffer_commands os version (buf @ chunk) st) chunks ([], st)
    = and_then (fold_res (dispatch_line os version) (fst (lines_of (concat chunks))) st)
        (\<lambda>st'. Inr (snd (lines_of (concat chunks)), st'))"
proof -
  have "(\<lambda>chunk (buf, st). dispatch_buffer_commands os version (buf @ chunk) st) = accept_chunk os version"
    by (intro ext) (auto simp: accept_chunk_def)
  then show ?thesis
    using command_lines.feeds_concat [of "[]" chunks os version st] assms
    by (simp add: command_lines.drain_lines)
qed

theorem commands_any_chunks_witness:
  "fold_res (\<lambda>chunk (buf, st). dispatch_buffer_commands quiet_os ''0.9'' (buf @ chunk) st) [''1 che'', ''ck'' @ [NL] @ ''2''] ([], raw4_pst)
    = and_then (fold_res (dispatch_line quiet_os ''0.9'') [''1 check''] raw4_pst) (\<lambda>st'. Inr (''2'', st'))"
  using commands_any_chunks [of "[''1 che'', ''ck'' @ [NL] @ ''2'']" quiet_os "''0.9''" raw4_pst]
  by (simp add: no_nul_def lines_of.simps)

section \<open>Words\<close>

text \<open>C16: The tokenizer, which cuts the command buffer in place and keeps positions, finds the words
  of the line: \<open>parse_command\<close> succeeds or fails as reading the list of blank-separated words
  does, and a line of more words than the token array holds is refused.\<close>

theorem parse_command_reads_words:
  assumes "no_nul s"
  shows "parse_command s =
     (if length (words s) \<le> MAX_COMMAND_TOKENS then parse_tokens (words s) else Inl EINVAL)"
  by (rule parse_command_words [OF assms])

theorem parse_command_reads_words_witness:
  "parse_command ''12 send-probe ip-4 10.0.0.1'' = parse_tokens (words ''12 send-probe ip-4 10.0.0.1'')
    \<and> words ''12 send-probe ip-4 10.0.0.1'' = [''12'', ''send-probe'', ''ip-4'', ''10.0.0.1'']"
  using parse_command_reads_words [of "''12 send-probe ip-4 10.0.0.1''"]
  by (simp add: no_nul_def isspace_def MAX_COMMAND_TOKENS_def MAX_COMMAND_ARGUMENTS_def)

end
