(* ===== verification/Traversal.thy ===== *)
theory Traversal
  imports BsdList
begin







end
