(* ===== verification/ConfigProps.thy ===== *)
theory ConfigProps
  imports MtrOptions Samples
begin

text \<open>
  What the configuration of \<open>mtr\<close> guarantees to the rest of the program: the options that
  \<open>main\<close> has after the environment, the command line and the defaults are in range.
\<close>



end
