(* ===== verification/Dns.thy ===== *)
theory Dns
  imports NetInv Utils
begin

text \<open>
  \<open>ui/dns.c\<close>: the cache of host names. A name is looked up at most once: the first lookup of an
  address writes a request to the resolver process and answers with the text of the address; when
  the resolver's line arrives, \<open>dns_ack\<close> stores the name, which later lookups answer. The
  resolver's \<open>getnameinfo\<close> is a parameter. The linked list \<open>results\<close> is a list, newest first.
\<close>

section \<open>State\<close>

record dns_state =
  results :: "(ip_t \<times> string option) list"
  todns :: "string list"
  dns_errors :: "string list"

definition empty_dns :: dns_state where
  "empty_dns = \<lparr>results = [], todns = [], dns_errors = []\<rparr>"

section \<open>Addresses as text\<close>

definition strlongip :: "inet_env \<Rightarrow> mtr_ctl \<Rightarrow> ip_t \<Rightarrow> string option" where
  "strlongip env ctl ip = inet_ntop env (af ctl) ip"

text \<open>\<open>%s\<close> of a string that may be \<open>NULL\<close>, as the GNU library prints it.\<close>

definition c_text :: "string option \<Rightarrow> string" where
  "c_text s = (case s of None \<Rightarrow> ''(null)'' | Some t \<Rightarrow> t)"

text \<open>\<open>longipstr\<close> stores into \<open>dst\<close> when the text is an address.\<close>

definition longipstr :: "inet_env \<Rightarrow> string \<Rightarrow> ip_t \<Rightarrow> family \<Rightarrow> ip_t" where
  "longipstr env s dst fam =
     (case inet_pton env fam s of None \<Rightarrow> dst | Some b \<Rightarrow> b @ drop (length b) dst)"

definition set_sockaddr_ip :: "mtr_ctl \<Rightarrow> ip_t \<Rightarrow> family \<times> ip_t" where
  "set_sockaddr_ip ctl ip =
     (if af ctl = AF_UNSPEC then (AF_UNSPEC, zero_ip) else (af ctl, addrcpy zero_ip ip (af ctl)))"

section \<open>The resolver process\<close>

text \<open>The child that handles one line: what it writes back, if \<open>getnameinfo\<close> finds a name.
  \<open>uninit\<close> is what its local address holds.\<close>

definition resolve_line ::
  "inet_env \<Rightarrow> (family \<times> ip_t \<Rightarrow> string option) \<Rightarrow> ip_t \<Rightarrow> mtr_ctl \<Rightarrow> string \<Rightarrow> string option" where
  "resolve_line env getnameinfo uninit ctl buf =
     (let buf = take (length (cstr buf) - 1) (cstr buf);
          host = longipstr env buf uninit (af ctl)
      in case getnameinfo (set_sockaddr_ip ctl host) of
           None \<Rightarrow> None
         | Some hostname \<Rightarrow>
             Some (snprintf 1073 (c_text (strlongip env ctl host) @ '' '' @ hostname @ [NL])))"

section \<open>The cache\<close>

definition findip :: "mtr_ctl \<Rightarrow> ip_t \<Rightarrow> (ip_t \<times> string option) list \<Rightarrow> (ip_t \<times> string option) option" where
  "findip ctl ip rs = find (\<lambda>(t, _). addrcmp ip t (af ctl) = 0) rs"

text \<open>The assignment to the name of the entry that \<open>findip\<close> returned.\<close>

fun set_name :: "mtr_ctl \<Rightarrow> ip_t \<Rightarrow> string \<Rightarrow> (ip_t \<times> string option) list \<Rightarrow> (ip_t \<times> string option) list" where
  "set_name ctl ip name [] = []"
| "set_name ctl ip name ((t, n) # rs) =
     (if addrcmp ip t (af ctl) = 0 then (t, Some name) # rs else (t, n) # set_name ctl ip name rs)"

definition dns_lookup2 ::
  "inet_env \<Rightarrow> (string \<Rightarrow> bool) \<Rightarrow> mtr_ctl \<Rightarrow> ip_t \<Rightarrow> dns_state \<Rightarrow> string option \<times> dns_state" where
  "dns_lookup2 env write_ok ctl ip st =
     (case findip ctl ip (results st) of
        Some (_, Some name) \<Rightarrow> (Some name, st)
      | Some (_, None) \<Rightarrow> (strlongip env ctl ip, st)
      | None \<Rightarrow>
          (let st = st\<lparr>results := (ip, None) # results st\<rparr>;
               buf = snprintf 47 (c_text (strlongip env ctl ip) @ [NL]);
               st = (if write_ok buf then st\<lparr>todns := todns st @ [buf]\<rparr>
                     else st\<lparr>dns_errors := dns_errors st @ [''couldn't write to resolver process'']\<rparr>)
           in (strlongip env ctl ip, st)))"

definition dns_lookup ::
  "inet_env \<Rightarrow> (string \<Rightarrow> bool) \<Rightarrow> mtr_ctl \<Rightarrow> ip_t \<Rightarrow> dns_state \<Rightarrow> string option \<times> dns_state" where
  "dns_lookup env write_ok ctl ip st =
     (if \<not> dns ctl \<or> \<not> use_dns ctl then (None, st) else dns_lookup2 env write_ok ctl ip st)"

text \<open>The local variables of \<open>dns_ack\<close> keep their values when \<open>sscanf\<close> or \<open>inet_pton\<close> store
  nothing.\<close>

record ack_vars =
  ack_host :: string
  ack_name :: string
  ack_ip :: ip_t

definition scan_answer :: "string \<Rightarrow> ack_vars \<Rightarrow> ack_vars" where
  "scan_answer buf v =
     (case words (cstr buf) of
        [] \<Rightarrow> v
      | [h] \<Rightarrow> v\<lparr>ack_host := h\<rparr>
      | h # n # _ \<Rightarrow> v\<lparr>ack_host := h, ack_name := n\<rparr>)"

definition ack_line :: "inet_env \<Rightarrow> mtr_ctl \<Rightarrow> string \<Rightarrow> ack_vars \<times> dns_state \<Rightarrow> ack_vars \<times> dns_state" where
  "ack_line env ctl buf = (\<lambda>(v, st).
     (let v = scan_answer buf v;
          v = v\<lparr>ack_ip := longipstr env (ack_host v) (ack_ip v) (af ctl)\<rparr>
      in (v, case findip ctl (ack_ip v) (results st) of
               Some _ \<Rightarrow> st\<lparr>results := set_name ctl (ack_ip v) (ack_name v) (results st)\<rparr>
             | None \<Rightarrow> st\<lparr>dns_errors := dns_errors st @ [''dns_ack: Couldn't find host '' @ ack_host v]\<rparr>)))"

text \<open>The loop reads lines until the pipe is empty.\<close>

function ack_loop :: "inet_env \<Rightarrow> mtr_ctl \<Rightarrow> string \<Rightarrow> ack_vars \<times> dns_state \<Rightarrow> ack_vars \<times> dns_state" where
  "ack_loop env ctl input vst =
     (if input = [] then vst
      else (case fgets 2047 input of (buf, rest) \<Rightarrow> ack_loop env ctl rest (ack_line env ctl buf vst)))"
  by pat_completeness auto
termination
  by (relation "measure (\<lambda>(e, c, i, v). length i)") (auto dest: fgets_nonempty)

declare ack_loop.simps [simp del]

definition dns_ack :: "inet_env \<Rightarrow> ack_vars \<Rightarrow> mtr_ctl \<Rightarrow> string \<Rightarrow> dns_state \<Rightarrow> dns_state" where
  "dns_ack env uninit ctl input st = snd (ack_loop env ctl input (uninit, st))"

text \<open>\<open>dns_waitfd6\<close> says that there is no second resolver.\<close>

definition dns_waitfd6 :: int where "dns_waitfd6 = -1"

section \<open>The cache as a map\<close>

definition dns_map :: "mtr_ctl \<Rightarrow> dns_state \<Rightarrow> ip_t \<Rightarrow> string option option" where
  "dns_map ctl st ip = map_of (map (\<lambda>(t, n). (addr_key ctl t, n)) (results st)) (addr_key ctl ip)"

definition dns_ok :: "mtr_ctl \<Rightarrow> dns_state \<Rightarrow> bool" where
  "dns_ok ctl st \<longleftrightarrow> (\<forall>(t, _) \<in> set (results st). is_ip t)"

lemma findip_map:
  assumes "ctl_ok ctl" and "is_ip ip" and "\<forall>(t, _) \<in> set rs. is_ip t"
  shows "map_option snd (findip ctl ip rs) = map_of (map (\<lambda>(t, n). (addr_key ctl t, n)) rs) (addr_key ctl ip)"
  using assms(3)
proof (induction rs)
  case (Cons r rs)
  then show ?case
    using addrcmp_key [OF assms(1,2), of "fst r"] by (cases r) (auto simp: findip_def)
qed (simp add: findip_def)

lemma findip_dns_map:
  assumes "ctl_ok ctl" and "is_ip ip" and "dns_ok ctl st"
  shows "map_option snd (findip ctl ip (results st)) = dns_map ctl st ip"
  using findip_map [OF assms(1,2)] assms(3) by (simp add: dns_map_def dns_ok_def)

lemma set_name_map:
  assumes "ctl_ok ctl" and "is_ip ip" and "\<forall>(t, _) \<in> set rs. is_ip t"
  shows "map_of (map (\<lambda>(t, n). (addr_key ctl t, n)) (set_name ctl ip name rs)) k
      = (let m = map_of (map (\<lambda>(t, n). (addr_key ctl t, n)) rs)
         in if k = addr_key ctl ip \<and> m k \<noteq> None then Some (Some name) else m k)"
  using assms(3)
proof (induction rs)
  case (Cons r rs)
  then show ?case
    using addrcmp_key [OF assms(1,2), of "fst r"] by (cases r) (auto simp: Let_def split: if_splits)
qed simp

lemma set_name_ips: "map fst (set_name ctl ip name rs) = map fst rs"
  by (induction rs) auto

lemma dns_ok_fst: "dns_ok ctl st \<longleftrightarrow> (\<forall>t \<in> set (map fst (results st)). is_ip t)"
  by (auto simp: dns_ok_def)

section \<open>The interface\<close>

text \<open>What the displays rely on: a lookup answers the name that is known, or a text of its own; it
  makes the address known as asked and changes nothing else; an answer names an address that was
  asked, and only that.\<close>

locale name_cache =
  fixes valid :: "'s \<Rightarrow> bool"
    and same :: "'k \<Rightarrow> 'k \<Rightarrow> bool"
    and key_ok :: "'k \<Rightarrow> bool"
    and known :: "'s \<Rightarrow> 'k \<Rightarrow> 'n option option"
    and look :: "'k \<Rightarrow> 's \<Rightarrow> 'n \<times> 's"
    and answer :: "'k \<Rightarrow> 'n \<Rightarrow> 's \<Rightarrow> 's"
    and plain :: "'k \<Rightarrow> 'n"
  assumes look_valid: "valid s \<Longrightarrow> key_ok k \<Longrightarrow> valid (snd (look k s))"
    and look_result: "valid s \<Longrightarrow> key_ok k \<Longrightarrow>
          fst (look k s) = (case known s k of Some (Some n) \<Rightarrow> n | _ \<Rightarrow> plain k)"
    and look_known: "valid s \<Longrightarrow> key_ok k \<Longrightarrow> key_ok j \<Longrightarrow> known (snd (look k s)) j =
          (if same j k \<and> known s j = None then Some None else known s j)"
    and answer_valid: "valid s \<Longrightarrow> key_ok k \<Longrightarrow> valid (answer k n s)"
    and answer_known: "valid s \<Longrightarrow> key_ok k \<Longrightarrow> key_ok j \<Longrightarrow> known (answer k n s) j =
          (if same j k \<and> known s j \<noteq> None then Some (Some n) else known s j)"
    and same_refl: "same k k"
begin

text \<open>After a lookup and its answer the lookup gives the name.\<close>

lemma look_answer_look:
  assumes "valid s" and "key_ok k"
  shows "fst (look k (answer k n (snd (look k s)))) = n"
proof -
  let ?s1 = "snd (look k s)" and ?s2 = "answer k n (snd (look k s))"
  have "valid ?s1" "known ?s1 k \<noteq> None"
    using assms look_valid look_known [OF assms assms(2)] same_refl by auto
  then have "valid ?s2" "known ?s2 k = Some (Some n)"
    using answer_valid answer_known [OF \<open>valid ?s1\<close> assms(2) assms(2)] assms(2) same_refl by auto
  then show ?thesis using look_result assms(2) by simp
qed

text \<open>Lookups of any addresses keep every name that is known.\<close>

lemma lookups_keep:
  assumes "valid s" and "list_all key_ok ks" and "key_ok k" and "known s k = Some (Some n)"
  shows "fst (look k (fold (\<lambda>j s. snd (look j s)) ks s)) = n"
  using assms
proof (induction ks arbitrary: s)
  case Nil
  then show ?case using look_result by simp
next
  case (Cons j ks)
  then show ?case using look_valid look_known by simp
qed

end

text \<open>The model's cache is one: \<open>lookup_text\<close> is \<open>dns_lookup2\<close> with its result as text, and
  \<open>store_answer\<close> the assignment of \<open>dns_ack\<close>.\<close>

definition lookup_text ::
  "inet_env \<Rightarrow> (string \<Rightarrow> bool) \<Rightarrow> mtr_ctl \<Rightarrow> ip_t \<Rightarrow> dns_state \<Rightarrow> string \<times> dns_state" where
  "lookup_text env write_ok ctl ip st = (case dns_lookup2 env write_ok ctl ip st of (t, st) \<Rightarrow> (c_text t, st))"

definition store_answer :: "mtr_ctl \<Rightarrow> ip_t \<Rightarrow> string \<Rightarrow> dns_state \<Rightarrow> dns_state" where
  "store_answer ctl ip name st = st\<lparr>results := set_name ctl ip name (results st)\<rparr>"

lemma lookup2_results:
  "results (snd (dns_lookup2 env write_ok ctl ip st)) =
     (if findip ctl ip (results st) = None then (ip, None) # results st else results st)"
  by (auto simp: dns_lookup2_def Let_def split: option.splits)

lemma lookup2_map:
  assumes "ctl_ok ctl" and "is_ip ip" and "dns_ok ctl st"
  shows "dns_ok ctl (snd (dns_lookup2 env write_ok ctl ip st))"
    and "dns_map ctl (snd (dns_lookup2 env write_ok ctl ip st)) j =
      (if addr_key ctl j = addr_key ctl ip \<and> dns_map ctl st j = None then Some None else dns_map ctl st j)"
    and "fst (dns_lookup2 env write_ok ctl ip st) =
      (case dns_map ctl st ip of Some (Some n) \<Rightarrow> Some n | _ \<Rightarrow> strlongip env ctl ip)"
proof -
  note f = findip_dns_map [OF assms]
  show "dns_ok ctl (snd (dns_lookup2 env write_ok ctl ip st))"
    using assms(2,3) by (auto simp: dns_ok_def lookup2_results)
  have "findip ctl ip (results st) = None \<longleftrightarrow> dns_map ctl st ip = None"
    using f by (metis option.map_disc_iff)
  then show "dns_map ctl (snd (dns_lookup2 env write_ok ctl ip st)) j =
      (if addr_key ctl j = addr_key ctl ip \<and> dns_map ctl st j = None then Some None else dns_map ctl st j)"
    by (auto simp: dns_map_def lookup2_results)
  show "fst (dns_lookup2 env write_ok ctl ip st) =
      (case dns_map ctl st ip of Some (Some n) \<Rightarrow> Some n | _ \<Rightarrow> strlongip env ctl ip)"
    unfolding f [symmetric] by (auto simp: dns_lookup2_def Let_def split: option.splits)
qed

lemma store_answer_map:
  assumes "ctl_ok ctl" and "is_ip ip" and "dns_ok ctl st"
  shows "dns_ok ctl (store_answer ctl ip name st)"
    and "dns_map ctl (store_answer ctl ip name st) j =
      (if addr_key ctl j = addr_key ctl ip \<and> dns_map ctl st j \<noteq> None then Some (Some name) else dns_map ctl st j)"
proof -
  show "dns_ok ctl (store_answer ctl ip name st)"
    using assms(3) by (simp add: dns_ok_fst store_answer_def set_name_ips)
  show "dns_map ctl (store_answer ctl ip name st) j =
      (if addr_key ctl j = addr_key ctl ip \<and> dns_map ctl st j \<noteq> None then Some (Some name) else dns_map ctl st j)"
    using set_name_map [OF assms(1,2), of "results st" name "addr_key ctl j"] assms(3)
    unfolding dns_map_def store_answer_def by (simp add: dns_ok_def Let_def)
qed

lemma lookup_text_sel:
  "snd (lookup_text env write_ok ctl ip st) = snd (dns_lookup2 env write_ok ctl ip st)"
  "fst (lookup_text env write_ok ctl ip st) = c_text (fst (dns_lookup2 env write_ok ctl ip st))"
  by (simp_all add: lookup_text_def split: prod.split)

interpretation dns_cache: name_cache "\<lambda>st. ctl_ok ctl \<and> dns_ok ctl st"
    "\<lambda>a b. addr_key ctl a = addr_key ctl b" is_ip "dns_map ctl" "lookup_text env write_ok ctl"
    "store_answer ctl" "\<lambda>ip. c_text (strlongip env ctl ip)" for ctl env write_ok
proof
  fix st ip j name
  assume st: "ctl_ok ctl \<and> dns_ok ctl st" and ip: "is_ip ip"
  then have ok: "ctl_ok ctl" "dns_ok ctl st" by auto
  note l = lookup2_map [OF ok(1) ip ok(2), of env write_ok]
  show "ctl_ok ctl \<and> dns_ok ctl (snd (lookup_text env write_ok ctl ip st))"
    using l(1) ok(1) by (simp add: lookup_text_sel)
  show "fst (lookup_text env write_ok ctl ip st) =
      (case dns_map ctl st ip of Some (Some n) \<Rightarrow> n | _ \<Rightarrow> c_text (strlongip env ctl ip))"
    unfolding lookup_text_sel l(3) by (simp add: c_text_def split: option.split)
  show "dns_map ctl (snd (lookup_text env write_ok ctl ip st)) j =
      (if addr_key ctl j = addr_key ctl ip \<and> dns_map ctl st j = None then Some None else dns_map ctl st j)"
    unfolding lookup_text_sel by (rule l(2))
  note a = store_answer_map [OF ok(1) ip ok(2), of name]
  show "ctl_ok ctl \<and> dns_ok ctl (store_answer ctl ip name st)" using a(1) ok(1) by simp
  show "dns_map ctl (store_answer ctl ip name st) j =
      (if addr_key ctl j = addr_key ctl ip \<and> dns_map ctl st j \<noteq> None then Some (Some name) else dns_map ctl st j)"
    by (rule a(2))
qed (rule refl)

end
