(* ===== verification/DnsProps.thy ===== *)
theory DnsProps
  imports Dns Samples
begin

text \<open>
  The properties of the name cache (\<open>ui/dns.c\<close>): a name makes its way from the resolver into the
  display, and no address is asked twice.
\<close>

definition sample_v4 :: mtr_ctl where
  "sample_v4 = (default_ctl DisplayReport)\<lparr>af := AF_INET\<rparr>"

lemma sample_v4_ok: "ctl_ok sample_v4"
  by (simp add: sample_v4_def default_ctl_def ctl_ok_def)

section \<open>A name arrives\<close>

lemma line_words:
  assumes "is_word a" and "is_word b"
  shows "words (a @ '' '' @ b @ [NL]) = [a, b]"
proof -
  have "words (b @ [NL]) = [b]" using words_of_word [OF assms(2), of "[NL]"] by simp
  then show ?thesis using words_of_word [OF assms(1), of "'' '' @ b @ [NL]"] by simp
qed

lemma addr_text_word: "is_addr_text s \<Longrightarrow> is_word s \<and> no_nul s \<and> NL \<notin> set s \<and> length s < 46"
  unfolding is_addr_text_def is_word_def no_nul_def using isspace_NL by blast

lemma ip_family_len: "is_ip a \<Longrightarrow> addr_len (af ctl) \<le> length a"
  by (auto simp: is_ip_def addr_len_def split: family.split)

lemma addr_key_longip:
  assumes "inet_pton env (af ctl) s = Some (addr_key ctl ip)" and "is_ip ip" and "is_ip dst"
  shows "is_ip (longipstr env s dst (af ctl))" and "addr_key ctl (longipstr env s dst (af ctl)) = addr_key ctl ip"
proof -
  have l: "length (addr_key ctl ip) = addr_len (af ctl)" "addr_len (af ctl) \<le> length dst"
    using ip_family_len [OF assms(2), of ctl] ip_family_len [OF assms(3), of ctl] by (simp_all add: addr_key_def)
  have e: "longipstr env s dst (af ctl) = addr_key ctl ip @ drop (addr_len (af ctl)) dst"
    using assms(1) l(1) by (simp add: longipstr_def)
  show "is_ip (longipstr env s dst (af ctl))" using l assms(3) unfolding e by (simp add: is_ip_def)
  show "addr_key ctl (longipstr env s dst (af ctl)) = addr_key ctl ip"
    using l(1) unfolding e addr_key_def [of ctl "_ @ _"] by simp
qed

lemma resolver_answers:
  assumes "inet_ok env" and "ctl_ok ctl" and "is_ip ip" and "is_ip uninit"
    and "is_addr_text t" and "inet_pton env (af ctl) t = Some (addr_key ctl ip)"
    and "getnameinfo (af ctl, addrcpy zero_ip ip (af ctl)) = Some hostname" and "length hostname \<le> 1024"
  shows "\<exists>s. is_addr_text s \<and> inet_pton env (af ctl) s = Some (addr_key ctl ip)
    \<and> resolve_line env getnameinfo uninit ctl (t @ [NL]) = Some (s @ '' '' @ hostname @ [NL])"
proof -
  have t: "cstr (t @ [NL]) = t @ [NL]" using addr_text_word [OF assms(5)] by (simp add: cstr_id)
  let ?h = "longipstr env t uninit (af ctl)"
  have h: "is_ip ?h" "addr_key ctl ?h = addr_key ctl ip"
    using addr_key_longip [OF assms(6,3,4)] by simp_all
  have fam: "af ctl \<noteq> AF_UNSPEC" using assms(2) by (simp add: ctl_ok_def)
  obtain s where s: "inet_ntop env (af ctl) ?h = Some s" "is_addr_text s"
    "inet_pton env (af ctl) s = Some (take (addr_len (af ctl)) ?h)"
    using inet_ok_ntop [OF assms(1) fam ip_family_len [OF h(1)]] by metis
  have "addrcpy zero_ip ?h (af ctl) = addrcpy zero_ip ip (af ctl)"
    using h(2) by (simp add: addrcpy_def addr_key_def)
  then have "set_sockaddr_ip ctl ?h = (af ctl, addrcpy zero_ip ip (af ctl))"
    using fam by (simp add: set_sockaddr_ip_def)
  moreover have "snprintf 1073 (s @ '' '' @ hostname @ [NL]) = s @ '' '' @ hostname @ [NL]"
    using addr_text_word [OF s(2)] assms(8) by (simp add: snprintf_fits)
  ultimately have "resolve_line env getnameinfo uninit ctl (t @ [NL]) = Some (s @ '' '' @ hostname @ [NL])"
    using t s(1) assms(7) by (simp add: resolve_line_def strlongip_def c_text_def)
  then show ?thesis using s h(2) by (auto simp: addr_key_def)
qed

lemma ack_stores:
  assumes "ctl_ok ctl" and "dns_ok ctl st" and "is_ip ip" and "is_ip (ack_ip v)" and "dns_map ctl st ip \<noteq> None"
    and "is_addr_text s" and "inet_pton env (af ctl) s = Some (addr_key ctl ip)"
    and "is_word hostname" and "no_nul hostname" and "length hostname \<le> 1024"
  shows "\<exists>a. is_ip a \<and> addr_key ctl a = addr_key ctl ip
    \<and> dns_ack env v ctl (s @ '' '' @ hostname @ [NL]) st = store_answer ctl a hostname st"
proof -
  let ?line = "s @ '' '' @ hostname @ [NL]" and ?a = "longipstr env s (ack_ip v) (af ctl)"
  have s: "is_word s" "no_nul s" "NL \<notin> set s" "length s < 46" using addr_text_word [OF assms(6)] by auto
  have "NL \<notin> set hostname" using assms(8) by (auto simp: is_word_def)
  then have "fgets 2047 ((s @ '' '' @ hostname) @ NL # []) = ((s @ '' '' @ hostname) @ [NL], [])"
    by (intro fgets_line) (use s assms(10) in auto)
  then have f: "fgets 2047 ?line = (?line, [])" by simp
  have "cstr ?line = ?line" by (rule cstr_id) (use s assms(9) in auto)
  then have "scan_answer ?line v = v\<lparr>ack_host := s, ack_name := hostname\<rparr>"
    using line_words [OF s(1) assms(8)] by (simp only: scan_answer_def) simp
  moreover have a: "is_ip ?a" "addr_key ctl ?a = addr_key ctl ip"
    using addr_key_longip [OF assms(7,3,4)] by simp_all
  moreover obtain r where "findip ctl ?a (results st) = Some r"
    using findip_dns_map [OF assms(1) a(1) assms(2)] assms(5) a(2)
    by (cases "findip ctl ?a (results st)") (auto simp: dns_map_def)
  ultimately have "ack_line env ctl ?line (v, st)
      = (v\<lparr>ack_host := s, ack_name := hostname, ack_ip := ?a\<rparr>, store_answer ctl ?a hostname st)"
    by (simp add: ack_line_def store_answer_def Let_def)
  then have "dns_ack env v ctl ?line st = store_answer ctl ?a hostname st"
    unfolding dns_ack_def
    by (subst ack_loop.simps, simp only: f prod.case) (simp add: ack_loop.simps [of env ctl "[]"])
  with a show ?thesis by blast
qed

text \<open>C20: A host name arrives. The first lookup of an address answers with its text and writes one
  request; the resolver process reads that request as the same address and, when the system knows
  a name (of up to 1024 characters without blanks), answers a line which \<open>dns_ack\<close> stores for that
  address; from then on the lookup answers the name and asks no more.\<close>

theorem name_arrives:
  assumes "inet_ok env" and "ctl_ok ctl" and "dns_ok ctl st" and "is_ip ip" and "dns_map ctl st ip = None"
    and "is_ip uninit" and "is_ip (ack_ip v)" and "write_ok = (\<lambda>_. True)"
    and "getnameinfo (af ctl, addrcpy zero_ip ip (af ctl)) = Some hostname"
    and "is_word hostname" and "no_nul hostname" and "length hostname \<le> 1024"
    and "dns_lookup2 env write_ok ctl ip st = (text', st1)"
  shows "\<exists>request answer st2. text' = inet_ntop env (af ctl) ip \<and> todns st1 = todns st @ [request]
    \<and> resolve_line env getnameinfo uninit ctl request = Some answer
    \<and> dns_ack env v ctl answer st1 = st2 \<and> dns_lookup2 env write_ok ctl ip st2 = (Some hostname, st2)"
proof -
  have fam: "af ctl \<noteq> AF_UNSPEC" using assms(2) by (simp add: ctl_ok_def)
  obtain t where t: "inet_ntop env (af ctl) ip = Some t" "is_addr_text t"
    "inet_pton env (af ctl) t = Some (addr_key ctl ip)"
    using inet_ok_ntop [OF assms(1) fam ip_family_len [OF assms(4)]] unfolding addr_key_def by metis
  have none: "findip ctl ip (results st) = None"
    using findip_dns_map [OF assms(2,4,3)] assms(5) by simp
  have r: "snprintf 47 (t @ [NL]) = t @ [NL]" using addr_text_word [OF t(2)] by (simp add: snprintf_fits)
  have l: "text' = Some t" "todns st1 = todns st @ [t @ [NL]]"
    using assms(8,13) none t(1) r by (auto simp: dns_lookup2_def strlongip_def c_text_def Let_def)
  note m = lookup2_map [OF assms(2,4,3), of env write_ok, unfolded assms(13), simplified]
  have st1: "dns_ok ctl st1" "dns_map ctl st1 ip \<noteq> None" using m(1) m(2) [of ip] assms(5) by simp_all
  obtain s where s: "is_addr_text s" "inet_pton env (af ctl) s = Some (addr_key ctl ip)"
    "resolve_line env getnameinfo uninit ctl (t @ [NL]) = Some (s @ '' '' @ hostname @ [NL])"
    using resolver_answers [where getnameinfo = getnameinfo and hostname = hostname, OF assms(1,2,4,6) t(2,3) assms(9,12)] by blast
  obtain a where a: "is_ip a" "addr_key ctl a = addr_key ctl ip"
    "dns_ack env v ctl (s @ '' '' @ hostname @ [NL]) st1 = store_answer ctl a hostname st1"
    using ack_stores [OF assms(2) st1(1) assms(4,7) st1(2) s(1,2) assms(10-12)] by blast
  let ?st2 = "store_answer ctl a hostname st1"
  note sa = store_answer_map [OF assms(2) a(1) st1(1), of hostname]
  have "dns_map ctl ?st2 ip = Some (Some hostname)" using sa(2) [of ip] a(2) st1(2) by simp
  then have "map_option snd (findip ctl ip (results ?st2)) = Some (Some hostname)"
    using findip_dns_map [OF assms(2,4) sa(1)] by simp
  then have "dns_lookup2 env write_ok ctl ip ?st2 = (Some hostname, ?st2)"
    by (auto simp: dns_lookup2_def)
  then show ?thesis using l t(1) s(3) a(3) by auto
qed

theorem name_arrives_witness:
  "\<exists>request answer st2. resolve_line sample_inet (\<lambda>_. Some ''gw'') zero_ip sample_v4 request = Some answer
    \<and> dns_lookup2 sample_inet (\<lambda>_. True) sample_v4 zero_ip st2 = (Some ''gw'', st2)"
proof -
  obtain t st1 where l: "dns_lookup2 sample_inet (\<lambda>_. True) sample_v4 zero_ip empty_dns = (t, st1)" by fastforce
  show ?thesis
    using name_arrives [OF sample_inet_ok sample_v4_ok, of empty_dns zero_ip zero_ip
        "\<lparr>ack_host = [], ack_name = [], ack_ip = zero_ip\<rparr>" "\<lambda>_. True" "\<lambda>_. Some ''gw''" "''gw''", OF _ _ _ _ _ refl _ _ _ _ l]
    by (simp add: dns_ok_def empty_dns_def dns_map_def is_word_def isspace_def) blast
qed

section \<open>One request for each address\<close>

datatype dns_op = LookUp ip_t | Answers string

definition dns_step :: "inet_env \<Rightarrow> ack_vars \<Rightarrow> mtr_ctl \<Rightarrow> dns_op \<Rightarrow> dns_state \<Rightarrow> dns_state" where
  "dns_step env v ctl op st =
     (case op of LookUp ip \<Rightarrow> snd (dns_lookup2 env (\<lambda>_. True) ctl ip st) | Answers input \<Rightarrow> dns_ack env v ctl input st)"

definition asks_ok :: "inet_env \<Rightarrow> mtr_ctl \<Rightarrow> dns_state \<Rightarrow> bool" where
  "asks_ok env ctl st \<longleftrightarrow> dns_ok ctl st
     \<and> distinct (map (addr_key ctl) (map fst (results st)))
     \<and> todns st = map (\<lambda>ip. snprintf 47 (c_text (strlongip env ctl ip) @ [NL])) (rev (map fst (results st)))"

lemma ack_loop_frame:
  "map fst (results (snd (ack_loop env ctl input vst))) = map fst (results (snd vst))
    \<and> todns (snd (ack_loop env ctl input vst)) = todns (snd vst)"
proof (induction env ctl input vst rule: ack_loop.induct)
  case (1 env ctl input vst)
  have line: "map fst (results (snd (ack_line env ctl b vst))) = map fst (results (snd vst))
      \<and> todns (snd (ack_line env ctl b vst)) = todns (snd vst)" for b
    by (auto simp: ack_line_def Let_def set_name_ips split: prod.split option.split)
  show ?case
  proof (cases "input = []")
    case True
    then show ?thesis by (simp add: ack_loop.simps [of env ctl "[]"])
  next
    case False
    obtain b r where b: "fgets 2047 input = (b, r)" by fastforce
    then show ?thesis
      using "1.IH" [OF False b [symmetric]] line [of b] False
      by (simp add: ack_loop.simps [of env ctl input])
  qed
qed

lemma asks_ok_step:
  assumes "ctl_ok ctl" and "asks_ok env ctl st" and "\<forall>ip. op = LookUp ip \<longrightarrow> is_ip ip"
  shows "asks_ok env ctl (dns_step env v ctl op st)"
proof (cases op)
  case (LookUp ip)
  then have ip: "is_ip ip" using assms(3) by simp
  have ok: "dns_ok ctl st" using assms(2) by (simp add: asks_ok_def)
  have new: "findip ctl ip (results st) = None \<longleftrightarrow> addr_key ctl ip \<notin> set (map (addr_key ctl) (map fst (results st)))"
  proof -
    have "findip ctl ip (results st) = None \<longleftrightarrow> dns_map ctl st ip = None"
      using findip_dns_map [OF assms(1) ip ok] by (metis option.map_disc_iff)
    then show ?thesis by (simp add: dns_map_def map_of_eq_None_iff image_image split_def)
  qed
  show ?thesis
    using assms(2) ip new unfolding LookUp dns_step_def asks_ok_def
    by (auto simp: dns_lookup2_def dns_ok_def Let_def split: option.split)
next
  case (Answers input)
  then show ?thesis
    using assms(2) ack_loop_frame [of env ctl input "(v, st)"]
    by (simp add: dns_step_def dns_ack_def asks_ok_def dns_ok_fst)
qed

text \<open>No address is asked twice. After any sequence of lookups and of input from the resolver,
  whatever that is, the requests written are different from one another, one for each address in
  the cache.\<close>

theorem asked_once:
  assumes "inet_ok env" and "ctl_ok ctl" and "\<forall>ip. LookUp ip \<in> set ops \<longrightarrow> is_ip ip"
  shows "distinct (todns (fold (dns_step env v ctl) ops empty_dns))
    \<and> length (todns (fold (dns_step env v ctl) ops empty_dns)) = length (results (fold (dns_step env v ctl) ops empty_dns))"
proof -
  let ?st = "fold (dns_step env v ctl) ops empty_dns"
  have "asks_ok env ctl st \<Longrightarrow> \<forall>ip. LookUp ip \<in> set os \<longrightarrow> is_ip ip \<Longrightarrow> asks_ok env ctl (fold (dns_step env v ctl) os st)" for os st
  proof (induction os arbitrary: st)
    case (Cons a os)
    then have "asks_ok env ctl (dns_step env v ctl a st)" by (intro asks_ok_step [OF assms(2)]) auto
    with Cons show ?case by simp
  qed simp
  moreover have "asks_ok env ctl empty_dns" by (simp add: asks_ok_def empty_dns_def dns_ok_def)
  ultimately have ok: "asks_ok env ctl ?st" using assms(3) by blast
  have inj: "addr_key ctl a = addr_key ctl b" if a: "is_ip a" and b: "is_ip b"
    and e: "snprintf 47 (c_text (strlongip env ctl a) @ [NL]) = snprintf 47 (c_text (strlongip env ctl b) @ [NL])" for a b
  proof -
    have fam: "af ctl \<noteq> AF_UNSPEC" using assms(2) by (simp add: ctl_ok_def)
    obtain s where s: "inet_ntop env (af ctl) a = Some s" "is_addr_text s" "inet_pton env (af ctl) s = Some (addr_key ctl a)"
      using inet_ok_ntop [OF assms(1) fam ip_family_len [OF a]] unfolding addr_key_def by metis
    obtain t where t: "inet_ntop env (af ctl) b = Some t" "is_addr_text t" "inet_pton env (af ctl) t = Some (addr_key ctl b)"
      using inet_ok_ntop [OF assms(1) fam ip_family_len [OF b]] unfolding addr_key_def by metis
    have "s = t" using e s t addr_text_word [OF s(2)] addr_text_word [OF t(2)]
      by (simp add: strlongip_def c_text_def snprintf_fits)
    then show ?thesis using s(3) t(3) by simp
  qed
  have "distinct (map (addr_key ctl) (map fst (results ?st)))" using ok by (simp only: asks_ok_def)
  then have d: "distinct (map fst (results ?st))" "inj_on (addr_key ctl) (set (map fst (results ?st)))"
    by (simp_all only: distinct_map [of "addr_key ctl"])
  have "inj_on (\<lambda>ip. snprintf 47 (c_text (strlongip env ctl ip) @ [NL])) (set (map fst (results ?st)))"
  proof (rule inj_onI)
    fix a b assume ab: "a \<in> set (map fst (results ?st))" "b \<in> set (map fst (results ?st))"
      and e: "snprintf 47 (c_text (strlongip env ctl a) @ [NL]) = snprintf 47 (c_text (strlongip env ctl b) @ [NL])"
    have "is_ip a" "is_ip b" using ok ab by (auto simp: asks_ok_def dns_ok_fst)
    from inj [OF this e] have "addr_key ctl a = addr_key ctl b" .
    moreover have "inj_on (addr_key ctl) (set (map fst (results ?st)))"
      by (rule d(2))
    ultimately show "a = b" using ab by (auto dest: inj_onD)
  qed
  then have "distinct (map (\<lambda>ip. snprintf 47 (c_text (strlongip env ctl ip) @ [NL])) (rev (map fst (results ?st))))"
    using d(1) by (simp only: distinct_map distinct_rev set_rev)
  moreover have "todns ?st = map (\<lambda>ip. snprintf 47 (c_text (strlongip env ctl ip) @ [NL])) (rev (map fst (results ?st)))"
    using ok by (simp only: asks_ok_def)
  ultimately show ?thesis by simp
qed

theorem asked_once_witness:
  "distinct (todns (fold (dns_step sample_inet \<lparr>ack_host = [], ack_name = [], ack_ip = zero_ip\<rparr> sample_v4)
      [LookUp zero_ip, Answers ''x y'', LookUp (replicate 16 1), LookUp zero_ip] empty_dns))"
  using asked_once [OF sample_inet_ok sample_v4_ok, of "[LookUp zero_ip, Answers ''x y'', LookUp (replicate 16 1), LookUp zero_ip]"
      "\<lparr>ack_host = [], ack_name = [], ack_ip = zero_ip\<rparr>"]
  by (auto simp: is_ip_def zero_ip_def)

end
