(* ===== verification/Display.thy ===== *)
theory Display
  imports Dns
begin

text \<open>
  \<open>ui/display.c\<close> and \<open>ui/raw.c\<close>: the choice of the display, and the raw display, which prints one
  line for each probe sent, address learnt and reply received. \<open>Net\<close> logs these events in the order
  of the calls; \<open>raw_event\<close> here is what \<open>raw.c\<close> prints for one of them. The curses and GTK displays
  are in \<open>Curses\<close>, \<open>CursesDraw\<close> and \<open>Gtk\<close>; which of them is asked to draw is the value of \<open>screen\<close>.
\<close>

section \<open>The displays\<close>

definition display_detect :: "bool option \<Rightarrow> display" where
  "display_detect gtk_detect = (if gtk_detect = Some True then DisplayGTK else DisplayCurses)"

datatype screen = CursesRedraw | SplitRedraw | GtkRedraw | NoRedraw

definition display_redraw :: "mtr_ctl \<Rightarrow> screen" where
  "display_redraw ctl =
     (case DisplayMode ctl of DisplayCurses \<Rightarrow> CursesRedraw | DisplaySplit \<Rightarrow> SplitRedraw
      | DisplayGTK \<Rightarrow> GtkRedraw | _ \<Rightarrow> NoRedraw)"

datatype keyboard = CursesKey | SplitKey | GtkKey | NoKey

text \<open>Which display handles a key; without one the action is 0, \<open>ActionNone\<close>.\<close>

definition display_keyaction :: "(keyboard \<Rightarrow> action) \<Rightarrow> mtr_ctl \<Rightarrow> action" where
  "display_keyaction keyaction ctl =
     (case DisplayMode ctl of DisplayCurses \<Rightarrow> keyaction CursesKey | DisplaySplit \<Rightarrow> keyaction SplitKey
      | DisplayGTK \<Rightarrow> keyaction GtkKey | _ \<Rightarrow> ActionNone)"

definition display_clears :: "mtr_ctl \<Rightarrow> bool" where
  "display_clears ctl \<longleftrightarrow> DisplayMode ctl = DisplayCurses"

definition host_error_to_string :: "(int \<Rightarrow> string) \<Rightarrow> int \<Rightarrow> string" where
  "host_error_to_string strerror err =
     (if err = errno_num ENETUNREACH then ''no route to host''
      else if err = errno_num ENETDOWN then ''network down''
      else if err = 0 then ''waiting for reply'' else strerror err)"

section \<open>The raw display\<close>

text \<open>\<open>havename\<close> is the static array of \<open>raw_rawping\<close>; \<open>raw_out\<close> are the lines printed.\<close>

record raw_state =
  havename :: "int \<Rightarrow> int"
  raw_out :: "string list"

definition raw_rawxmit :: "int \<Rightarrow> int \<Rightarrow> raw_state \<Rightarrow> raw_state" where
  "raw_rawxmit hop seq r = r\<lparr>raw_out := raw_out r @ [''x '' @ fmt_d hop @ '' '' @ fmt_d seq]\<rparr>"

definition raw_rawping ::
  "inet_env \<Rightarrow> (string \<Rightarrow> bool) \<Rightarrow> mtr_ctl \<Rightarrow> int \<Rightarrow> ip_t \<Rightarrow> int \<Rightarrow> int
     \<Rightarrow> raw_state \<times> dns_state \<Rightarrow> raw_state \<times> dns_state" where
  "raw_rawping env write_ok ctl hop addr msec seq = (\<lambda>(r, st).
     (let (r, st) =
            (if dns ctl \<and> havename r hop = 0 then
               (case dns_lookup2 env write_ok ctl addr st of
                  (Some name, st) \<Rightarrow>
                    (r\<lparr>havename := (havename r)(hop := havename r hop + 1),
                       raw_out := raw_out r @ [''d '' @ fmt_d hop @ '' '' @ name]\<rparr>, st)
                | (None, st) \<Rightarrow> (r, st))
             else (r, st))
      in (r\<lparr>raw_out := raw_out r @ [''p '' @ fmt_d hop @ '' '' @ fmt_d msec @ '' '' @ fmt_d seq]\<rparr>, st)))"

definition raw_rawhost :: "inet_env \<Rightarrow> mtr_ctl \<Rightarrow> int \<Rightarrow> ip_t \<Rightarrow> raw_state \<Rightarrow> raw_state" where
  "raw_rawhost env ctl hop addr r =
     r\<lparr>raw_out := raw_out r @ [''h '' @ fmt_d hop @ '' '' @ c_text (strlongip env ctl addr)]\<rparr>"

text \<open>The events of \<open>Net\<close> in raw mode.\<close>

fun raw_print ::
  "inet_env \<Rightarrow> (string \<Rightarrow> bool) \<Rightarrow> mtr_ctl \<Rightarrow> raw_event \<Rightarrow> raw_state \<times> dns_state \<Rightarrow> raw_state \<times> dns_state" where
  "raw_print env write_ok ctl (RawXmit hop seq) (r, st) = (raw_rawxmit hop seq r, st)"
| "raw_print env write_ok ctl (RawHost hop addr) (r, st) = (raw_rawhost env ctl hop addr r, st)"
| "raw_print env write_ok ctl (RawPing hop addr msec seq) (r, st) = raw_rawping env write_ok ctl hop addr msec seq (r, st)"

text \<open>A hop is named at most once: \<open>havename\<close> never falls, and no name is printed where it is
  set.\<close>

lemma raw_print_havename:
  "0 \<le> havename r h \<Longrightarrow> havename r h \<le> havename (fst (raw_print env write_ok ctl e (r, st))) h"
  by (cases e) (auto simp: raw_rawxmit_def raw_rawhost_def raw_rawping_def Let_def split: prod.split option.split)

lemma raw_rawping_named:
  "havename r hop \<noteq> 0 \<Longrightarrow> raw_rawping env write_ok ctl hop addr msec seq (r, st) =
     (r\<lparr>raw_out := raw_out r @ [''p '' @ fmt_d hop @ '' '' @ fmt_d msec @ '' '' @ fmt_d seq]\<rparr>, st)"
  by (simp add: raw_rawping_def)

end
