(* ===== verification/Split.thy ===== *)
theory Split
  imports Display
begin

text \<open>
  \<open>ui/split.c\<close>: the split display prints only the rows that changed since the last redraw, for
  another program that shows them. \<open>Lines\<close> is what was printed last for each row, \<open>LineCount\<close> the
  number of rows. The theory has the receiving program as well: it keeps a row for each number,
  replaces it when a line for it arrives and drops it when ``-'' and its number arrive.
\<close>

abbreviation (input) MAX_LINE_COUNT :: nat where "MAX_LINE_COUNT \<equiv> 256"
abbreviation (input) MAX_LINE_SIZE :: int where "MAX_LINE_SIZE \<equiv> 256"

record split_state =
  Lines :: "string list"
  LineCount :: int
  split_out :: "string list"

definition split_open :: "split_state \<Rightarrow> split_state" where
  "split_open s = s\<lparr>LineCount := -1, Lines := replicate MAX_LINE_COUNT (xstrncpy ''???'' MAX_LINE_SIZE)\<rparr>"

text \<open>The first loop: rows beyond \<open>max\<close> are deleted, the last first.\<close>

function delete_rows :: "int \<Rightarrow> int \<Rightarrow> split_state \<Rightarrow> split_state" where
  "delete_rows mx i s =
     (if mx < i then delete_rows mx (i - 1) (s\<lparr>split_out := split_out s @ [''-'' @ fmt_d i], LineCount := LineCount s - 1\<rparr>)
      else s)"
  by pat_completeness auto
termination
  by (relation "measure (\<lambda>(m, i, s). nat (i - m))") auto

declare delete_rows.simps [simp del]

text \<open>The text of one row; a name is looked up for a known address.\<close>

definition new_line ::
  "inet_env \<Rightarrow> (string \<Rightarrow> bool) \<Rightarrow> fp_env \<Rightarrow> mtr_ctl \<Rightarrow> net \<Rightarrow> int \<Rightarrow> dns_state \<Rightarrow> string \<times> dns_state" where
  "new_line env write_ok fp ctl net at' st =
     (let addr = net_addr net at'
      in if addrcmp addr (unspec_addr ctl) (af ctl) \<noteq> 0 then
           (case dns_lookup env write_ok ctl addr st of (found, st) \<Rightarrow>
              (let ip = c_text (strlongip env ctl addr);
                   name = (case found of Some n \<Rightarrow> n | None \<Rightarrow> ip);
                   name = (if show_ips ctl then snprintf 256 (name @ '' '' @ ip) else name)
               in (snprintf MAX_LINE_SIZE (name @ '' '' @ fmt_d (net_loss fp net at') @ '' '' @ fmt_d (net_returned net at')
                      @ '' '' @ fmt_d (net_xmit net at') @ '' '' @ fmt_d (c_div (net_best net at') 1000)
                      @ '' '' @ fmt_d (c_div (net_avg net at') 1000) @ '' '' @ fmt_d (c_div (net_worst net at') 1000)), st)))
         else (snprintf MAX_LINE_SIZE ''???'', st))"

definition put_row :: "nat \<Rightarrow> string \<Rightarrow> split_state \<Rightarrow> split_state" where
  "put_row at' newLine s =
     (if newLine = Lines s ! at' then s
      else s\<lparr>split_out := split_out s @ [fmt_d (int at' + 1) @ '' '' @ newLine],
             Lines := (Lines s)[at' := xstrncpy newLine MAX_LINE_SIZE],
             LineCount := (if LineCount s < int at' + 1 then int at' + 1 else LineCount s)\<rparr>)"

fun put_rows ::
  "(int \<Rightarrow> dns_state \<Rightarrow> string \<times> dns_state) \<Rightarrow> nat list \<Rightarrow> split_state \<times> dns_state \<Rightarrow> split_state \<times> dns_state" where
  "put_rows line [] sd = sd"
| "put_rows line (at' # ats) (s, st) =
     (case line (int at') st of (newLine, st) \<Rightarrow> put_rows line ats (put_row at' newLine s, st))"

definition split_redraw ::
  "inet_env \<Rightarrow> (string \<Rightarrow> bool) \<Rightarrow> fp_env \<Rightarrow> mtr_ctl \<Rightarrow> net \<Rightarrow> split_state \<times> dns_state \<Rightarrow> split_state \<times> dns_state" where
  "split_redraw env write_ok fp ctl net = (\<lambda>(s, st).
     (let mx = net_max ctl net;
          s = delete_rows mx (LineCount s) s
      in put_rows (new_line env write_ok fp ctl net) [0..<nat mx] (s, st)))"

text \<open>A key that was read: \<open>q\<close> and control C quit, \<open>r\<close> resets. \<open>tolower\<close> is that of the C
  locale.\<close>

definition tolower :: "char \<Rightarrow> char" where
  "tolower c = (let n = of_char c :: nat in if 65 \<le> n \<and> n \<le> 90 then char_of (n + 32) else c)"

definition split_keyaction :: "char \<Rightarrow> action" where
  "split_keyaction c =
     (if tolower c = CHR ''q'' then ActionQuit
      else if c = CHR 0x03 then ActionQuit
      else if tolower c = CHR ''r'' then ActionReset else ActionNone)"

section \<open>The receiving program\<close>

text \<open>Rows by number; a line begins with ``-'' or with the number of its row.\<close>

type_synonym client = "int \<rightharpoonup> string"

definition client_line :: "string \<Rightarrow> client \<Rightarrow> client" where
  "client_line l c =
     (case strtol l of (n, _, rest) \<Rightarrow> if n < 0 then c(- n := None) else c(n \<mapsto> tl rest))"

abbreviation client_lines :: "string list \<Rightarrow> client \<Rightarrow> client" where
  "client_lines ls c \<equiv> fold client_line ls c"

lemma client_deletes: "0 < i \<Longrightarrow> i \<le> INT_MAX \<Longrightarrow> client_line (''-'' @ fmt_d i) c = c(i := None)"
proof -
  assume i: "0 < i" "i \<le> INT_MAX"
  then have "''-'' @ fmt_d i = fmt_d (- i)" by (simp add: fmt_d_def)
  then show ?thesis using i strtol_fmt_d [of "[]" "- i"] by (simp add: client_line_def)
qed

lemma client_puts: "0 < i \<Longrightarrow> i \<le> INT_MAX \<Longrightarrow> client_line (fmt_d i @ '' '' @ l) c = c(i \<mapsto> l)"
  using strtol_fmt_d [of "'' '' @ l" i] by (simp add: client_line_def is_digit_def)

section \<open>The client follows\<close>

text \<open>\<open>follows s c\<close>: the client has no row beyond \<open>LineCount\<close> and shows the last line of each row
  it has; a row it does not have was never printed since the start or was deleted.\<close>

definition follows :: "split_state \<Rightarrow> client \<Rightarrow> bool" where
  "follows s c \<longleftrightarrow> length (Lines s) = MAX_LINE_COUNT \<and> LineCount s \<le> 256
     \<and> (\<forall>i l. c i = Some l \<longrightarrow> 1 \<le> i \<and> i \<le> LineCount s \<and> l = Lines s ! nat (i - 1))"

text \<open>\<open>complete s c\<close>: every row the client lacks shows the line it would show at the start.\<close>

definition complete :: "split_state \<Rightarrow> client \<Rightarrow> bool" where
  "complete s c \<longleftrightarrow> (\<forall>i \<in> {1..256}. c i = None \<longrightarrow> Lines s ! nat (i - 1) = ''???'')"

end
