(* ===== verification/SplitProps.thy ===== *)
theory SplitProps
  imports Split Samples
begin

text \<open>
  The split display (\<open>ui/split.c\<close>) as a protocol: what the receiving program shows after the lines
  of a redraw, and the raw display's name lines (\<open>ui/raw.c\<close>).
\<close>

section \<open>Rows\<close>

lemma net_max_loop_bounds:
  "0 \<le> hop \<Longrightarrow> 0 \<le> mx \<Longrightarrow> 0 \<le> maxTTL ctl \<Longrightarrow> 0 \<le> net_max_loop ctl s hop mx \<and> net_max_loop ctl s hop mx \<le> maxTTL ctl"
proof (induction ctl s hop mx rule: net_max_loop.induct)
  case (1 ctl s hop mx)
  show ?case
  proof (cases "hop < maxTTL ctl \<and> addrcmp (h_addr (host s hop)) (remoteaddress s) (af ctl) \<noteq> 0 \<and> h_err (host s hop) = 0")
    case True
    then show ?thesis
      using "1.IH" "1.prems" by (subst (1 2) net_max_loop.simps) simp
  next
    case False
    then show ?thesis using "1.prems" by (subst (1 2) net_max_loop.simps) auto
  qed
qed

lemma net_max_bounds: "ctl_ok ctl \<Longrightarrow> 0 \<le> net_max ctl s \<and> net_max ctl s \<le> 255"
  using net_max_loop_bounds [of 0 0 ctl s] by (auto simp: net_max_def ctl_ok_def)

lemma followsD:
  "follows s c \<Longrightarrow> c i = Some l \<Longrightarrow> 1 \<le> i \<and> i \<le> LineCount s \<and> l = Lines s ! nat (i - 1)"
  by (simp add: follows_def)

lemma delete_rows_client:
  assumes "follows s c" and "0 \<le> mx" and "i = LineCount s"
  shows "\<exists>msgs. split_out (delete_rows mx i s) = split_out s @ msgs
    \<and> Lines (delete_rows mx i s) = Lines s \<and> LineCount (delete_rows mx i s) = min (LineCount s) mx
    \<and> follows (delete_rows mx i s) (client_lines msgs c)
    \<and> (\<forall>j. client_lines msgs c j = (if j \<le> mx then c j else None))"
  using assms
proof (induction mx i s arbitrary: c rule: delete_rows.induct)
  case (1 mx i s)
  show ?case
  proof (cases "mx < i")
    case False
    then have e: "delete_rows mx i s = s" by (simp add: delete_rows.simps [of mx i s])
    have "c j = (if j \<le> mx then c j else None)" for j
      using followsD [OF "1.prems"(1), of j] "1.prems"(3) False by (cases "c j") auto
    moreover have "min (LineCount s) mx = LineCount s" using False "1.prems"(3) by simp
    ultimately show ?thesis
      using "1.prems"(1) by (intro exI [of _ "[]"]) (simp add: e)
  next
    case True
    let ?s = "s\<lparr>split_out := split_out s @ [''-'' @ fmt_d i], LineCount := LineCount s - 1\<rparr>"
    have i: "0 < i" "i \<le> INT_MAX" using True "1.prems" by (auto simp: follows_def)
    have del: "client_line (''-'' @ fmt_d i) c = c(i := None)" by (rule client_deletes [OF i])
    have fs: "follows ?s (c(i := None))"
      using "1.prems"(1,3) by (fastforce simp: follows_def split: if_splits)
    have ic: "i - 1 = LineCount ?s" using "1.prems"(3) by simp
    have
      "\<exists>msgs. split_out (delete_rows mx (i - 1) ?s) = split_out ?s @ msgs
        \<and> Lines (delete_rows mx (i - 1) ?s) = Lines ?s
        \<and> LineCount (delete_rows mx (i - 1) ?s) = min (LineCount ?s) mx
        \<and> follows (delete_rows mx (i - 1) ?s) (client_lines msgs (c(i := None)))
        \<and> (\<forall>j. client_lines msgs (c(i := None)) j = (if j \<le> mx then (c(i := None)) j else None))"
      by (rule "1.IH" [OF True fs "1.prems"(2) ic])
    then obtain msgs where m:
      "split_out (delete_rows mx (i - 1) ?s) = split_out ?s @ msgs" "Lines (delete_rows mx (i - 1) ?s) = Lines ?s"
      "LineCount (delete_rows mx (i - 1) ?s) = min (LineCount ?s) mx"
      "follows (delete_rows mx (i - 1) ?s) (client_lines msgs (c(i := None)))"
      "\<forall>j. client_lines msgs (c(i := None)) j = (if j \<le> mx then (c(i := None)) j else None)"
      by (elim exE conjE) (rule that)
    have e: "delete_rows mx i s = delete_rows mx (i - 1) ?s" using True by (simp add: delete_rows.simps [of mx i s])
    have cl: "client_lines ((''-'' @ fmt_d i) # msgs) c = client_lines msgs (c(i := None))"
      using del by simp
    show ?thesis
    proof (intro exI [of _ "(''-'' @ fmt_d i) # msgs"] conjI)
      show "split_out (delete_rows mx i s) = split_out s @ (''-'' @ fmt_d i) # msgs" using m(1) by (simp add: e)
      show "Lines (delete_rows mx i s) = Lines s" using m(2) by (simp add: e)
      show "LineCount (delete_rows mx i s) = min (LineCount s) mx"
        using m(3) True "1.prems"(3) unfolding e by simp
      show "follows (delete_rows mx i s) (client_lines ((''-'' @ fmt_d i) # msgs) c)"
        unfolding e cl by (rule m(4))
      show "\<forall>j. client_lines ((''-'' @ fmt_d i) # msgs) c j = (if j \<le> mx then c j else None)"
        unfolding cl using m(5) True by simp
    qed
  qed
qed

lemma put_row_client:
  assumes "follows s c" and "a < 256" and "length nl \<le> 255"
  shows "\<exists>msgs. split_out (put_row a nl s) = split_out s @ msgs \<and> follows (put_row a nl s) (client_lines msgs c)
    \<and> Lines (put_row a nl s) = (Lines s)[a := nl]
    \<and> LineCount (put_row a nl s) \<le> max (LineCount s) (int a + 1)
    \<and> (\<forall>j. j \<noteq> int a + 1 \<longrightarrow> client_lines msgs c j = c j)
    \<and> (client_lines msgs c (int a + 1) = None \<longrightarrow> c (int a + 1) = None \<and> Lines s ! a = nl)
    \<and> (c (int a + 1) = None \<and> nl = Lines s ! a \<longrightarrow> client_lines msgs c (int a + 1) = None)"
proof (cases "nl = Lines s ! a")
  case True
  have "(Lines s)[a := nl] = Lines s" using True by simp
  moreover have "put_row a nl s = s" using True by (simp add: put_row_def)
  ultimately show ?thesis using assms(1) True by (intro exI [of _ "[]"]) simp
next
  case False
  have x: "xstrncpy nl MAX_LINE_SIZE = nl" using assms(3) by (simp add: xstrncpy_def)
  have cl: "client_line (fmt_d (int a + 1) @ '' '' @ nl) c = c(int a + 1 \<mapsto> nl)"
    by (rule client_puts) (use assms(2) in auto)
  have "1 \<le> i \<and> i \<le> LineCount (put_row a nl s) \<and> l = Lines (put_row a nl s) ! nat (i - 1)"
    if l: "(c(int a + 1 \<mapsto> nl)) i = Some l" for i l
  proof (cases "i = int a + 1")
    case True
    then show ?thesis using l False x assms(1,2) by (simp add: put_row_def follows_def)
  next
    case ne: False
    then have "c i = Some l" using l by simp
    note f = followsD [OF assms(1) this]
    then have "nat (i - 1) \<noteq> a" using ne by auto
    then show ?thesis using f False x by (simp add: put_row_def)
  qed
  then have "follows (put_row a nl s) (c(int a + 1 \<mapsto> nl))"
    using assms(1,2) False by (simp add: follows_def) (simp add: put_row_def)
  then show ?thesis
    using False x cl by (intro exI [of _ "[fmt_d (int a + 1) @ '' '' @ nl]"]) (simp add: put_row_def)
qed

text \<open>The texts of the rows of a redraw, each computed with the names that the rows before it left
  in the cache.\<close>

fun row_texts :: "(int \<Rightarrow> dns_state \<Rightarrow> string \<times> dns_state) \<Rightarrow> nat list \<Rightarrow> dns_state \<Rightarrow> string list" where
  "row_texts line [] st = []"
| "row_texts line (a # ats) st = (case line (int a) st of (l, st) \<Rightarrow> l # row_texts line ats st)"

lemma length_row_texts: "length (row_texts line ats st) = length ats"
  by (induction ats arbitrary: st) (auto split: prod.split)

lemma put_rows_client:
  assumes "follows s c" and "\<forall>a \<in> set ats. a < 256 \<and> int a + 1 \<le> m" and "distinct ats"
    and "\<forall>a st. length (fst (line a st)) \<le> 255" and "put_rows line ats (s, st) = (s', st')"
    and "LineCount s \<le> m"
  shows "\<exists>msgs. split_out s' = split_out s @ msgs \<and> follows s' (client_lines msgs c) \<and> LineCount s' \<le> m
    \<and> map (\<lambda>a. Lines s' ! a) ats = row_texts line ats st
    \<and> (\<forall>a. a \<notin> set ats \<longrightarrow> Lines s' ! a = Lines s ! a \<and> client_lines msgs c (int a + 1) = c (int a + 1))
    \<and> (\<forall>a \<in> set ats. (client_lines msgs c (int a + 1) = None) = (c (int a + 1) = None \<and> Lines s ! a = Lines s' ! a))"
  using assms
proof (induction ats arbitrary: s st c)
  case Nil
  then show ?case by (intro exI [of _ "[]"]) simp
next
  case (Cons a ats)
  obtain l st1 where l: "line (int a) st = (l, st1)" by fastforce
  let ?s1 = "put_row a l s"
  have len: "length l \<le> 255" using Cons.prems(4) l by (metis fst_conv)
  have a: "a < 256" "int a + 1 \<le> m" "a \<notin> set ats" using Cons.prems(2,3) by auto
  obtain m1 where m1: "split_out ?s1 = split_out s @ m1" "follows ?s1 (client_lines m1 c)"
    "Lines ?s1 = (Lines s)[a := l]" "LineCount ?s1 \<le> max (LineCount s) (int a + 1)"
    "\<forall>j. j \<noteq> int a + 1 \<longrightarrow> client_lines m1 c j = c j"
    "client_lines m1 c (int a + 1) = None \<longrightarrow> c (int a + 1) = None \<and> Lines s ! a = l"
    "c (int a + 1) = None \<and> l = Lines s ! a \<longrightarrow> client_lines m1 c (int a + 1) = None"
    using put_row_client [OF Cons.prems(1) a(1) len] by (elim exE conjE) (rule that)
  have r: "put_rows line ats (?s1, st1) = (s', st')" using Cons.prems(5) l by simp
  have lc: "LineCount ?s1 \<le> m" using m1(4) a(2) Cons.prems(6) by linarith
  have ats: "\<forall>a \<in> set ats. a < 256 \<and> int a + 1 \<le> m" "distinct ats" using Cons.prems(2,3) by simp_all
  obtain m2 where m2: "split_out s' = split_out ?s1 @ m2" "follows s' (client_lines m2 (client_lines m1 c))"
    "LineCount s' \<le> m" "map (\<lambda>a. Lines s' ! a) ats = row_texts line ats st1"
    "\<forall>a. a \<notin> set ats \<longrightarrow> Lines s' ! a = Lines ?s1 ! a
        \<and> client_lines m2 (client_lines m1 c) (int a + 1) = client_lines m1 c (int a + 1)"
    "\<forall>a \<in> set ats. (client_lines m2 (client_lines m1 c) (int a + 1) = None)
        = (client_lines m1 c (int a + 1) = None \<and> Lines ?s1 ! a = Lines s' ! a)"
    using Cons.IH [OF m1(2) ats Cons.prems(4) r lc] by (elim exE conjE) (rule that)
  have cl: "client_lines (m1 @ m2) c = client_lines m2 (client_lines m1 c)" by simp
  have al: "a < length (Lines s)" using Cons.prems(1) a(1) by (simp add: follows_def)
  have la: "Lines s' ! a = l" using m2(5) a(3) m1(3) al by simp
  have other: "b \<noteq> a \<Longrightarrow> Lines ?s1 ! b = Lines s ! b \<and> client_lines m1 c (int b + 1) = c (int b + 1)" for b
    using m1(3,5) by simp
  show ?case
  proof (intro exI [of _ "m1 @ m2"] conjI)
    show "split_out s' = split_out s @ m1 @ m2" using m1(1) m2(1) by simp
    show "follows s' (client_lines (m1 @ m2) c)" unfolding cl by (rule m2(2))
    show "LineCount s' \<le> m" by (rule m2(3))
    show "map (\<lambda>a. Lines s' ! a) (a # ats) = row_texts line (a # ats) st" using la l m2(4) by simp
    show "\<forall>b. b \<notin> set (a # ats) \<longrightarrow> Lines s' ! b = Lines s ! b \<and> client_lines (m1 @ m2) c (int b + 1) = c (int b + 1)"
      unfolding cl using m2(5) other by simp
    show "\<forall>b \<in> set (a # ats). (client_lines (m1 @ m2) c (int b + 1) = None) = (c (int b + 1) = None \<and> Lines s ! b = Lines s' ! b)"
    proof
      fix b assume b: "b \<in> set (a # ats)"
      show "(client_lines (m1 @ m2) c (int b + 1) = None) = (c (int b + 1) = None \<and> Lines s ! b = Lines s' ! b)"
      proof (cases "b = a")
        case True
        have "client_lines m2 (client_lines m1 c) (int a + 1) = client_lines m1 c (int a + 1)"
          using m2(5) a(3) by blast
        then show ?thesis unfolding cl True la using m1(6,7) by argo
      next
        case False
        then have "b \<in> set ats" using b by simp
        from m2(6) [rule_format, OF this] show ?thesis
          unfolding cl using other [OF False] by (simp only:)
      qed
    qed
  qed
qed


lemma new_line_fits: "length (fst (new_line env write_ok fp ctl net a st)) \<le> 255"
proof -
  have "length (snprintf 256 t) \<le> 255" for t by (simp add: snprintf_def)
  then show ?thesis by (simp add: new_line_def Let_def split: prod.split)
qed

text \<open>A redraw, seen from the other side.\<close>

lemma redraw_client:
  assumes "follows s c" and "ctl_ok ctl" and "split_redraw env write_ok fp ctl net (s, st) = (s', st')"
  shows "\<exists>msgs. split_out s' = split_out s @ msgs \<and> follows s' (client_lines msgs c)
    \<and> LineCount s' \<le> net_max ctl net
    \<and> map (\<lambda>a. Lines s' ! a) [0..<nat (net_max ctl net)]
        = row_texts (new_line env write_ok fp ctl net) [0..<nat (net_max ctl net)] st
    \<and> (\<forall>a. net_max ctl net \<le> int a \<longrightarrow> Lines s' ! a = Lines s ! a \<and> client_lines msgs c (int a + 1) = None)
    \<and> (\<forall>a. int a < net_max ctl net \<longrightarrow>
        (client_lines msgs c (int a + 1) = None) = (c (int a + 1) = None \<and> Lines s ! a = Lines s' ! a))"
proof -
  let ?m = "net_max ctl net" and ?s1 = "delete_rows (net_max ctl net) (LineCount s) s"
  have m: "0 \<le> ?m" "?m \<le> 255" using net_max_bounds [OF assms(2)] by auto
  obtain m1 where m1: "split_out ?s1 = split_out s @ m1" "Lines ?s1 = Lines s"
    "LineCount ?s1 = min (LineCount s) ?m" "follows ?s1 (client_lines m1 c)"
    "\<forall>j. client_lines m1 c j = (if j \<le> ?m then c j else None)"
    using delete_rows_client [OF assms(1) m(1) refl] by (elim exE conjE) (rule that)
  have r: "put_rows (new_line env write_ok fp ctl net) [0..<nat ?m] (?s1, st) = (s', st')"
    using assms(3) by (simp add: split_redraw_def Let_def)
  have p: "\<forall>a \<in> set [0..<nat ?m]. a < 256 \<and> int a + 1 \<le> ?m" "LineCount ?s1 \<le> ?m"
    "\<forall>a st. length (fst (new_line env write_ok fp ctl net a st)) \<le> 255"
    using m m1(3) new_line_fits by auto
  obtain m2 where m2: "split_out s' = split_out ?s1 @ m2" "follows s' (client_lines m2 (client_lines m1 c))"
    "LineCount s' \<le> ?m"
    "map (\<lambda>a. Lines s' ! a) [0..<nat ?m] = row_texts (new_line env write_ok fp ctl net) [0..<nat ?m] st"
    "\<forall>a. a \<notin> set [0..<nat ?m] \<longrightarrow> Lines s' ! a = Lines ?s1 ! a
        \<and> client_lines m2 (client_lines m1 c) (int a + 1) = client_lines m1 c (int a + 1)"
    "\<forall>a \<in> set [0..<nat ?m]. (client_lines m2 (client_lines m1 c) (int a + 1) = None)
        = (client_lines m1 c (int a + 1) = None \<and> Lines ?s1 ! a = Lines s' ! a)"
    using put_rows_client [OF m1(4) p(1) distinct_upt p(3) r p(2)] by (elim exE conjE) (rule that)
  have cl: "client_lines (m1 @ m2) c = client_lines m2 (client_lines m1 c)" by simp
  show ?thesis
  proof (intro exI [of _ "m1 @ m2"] conjI)
    show "split_out s' = split_out s @ m1 @ m2" using m1(1) m2(1) by simp
    show "follows s' (client_lines (m1 @ m2) c)" unfolding cl by (rule m2(2))
    show "\<forall>a. ?m \<le> int a \<longrightarrow> Lines s' ! a = Lines s ! a \<and> client_lines (m1 @ m2) c (int a + 1) = None"
      unfolding cl using m2(5) m1(2,5) by auto
    show "\<forall>a. int a < ?m \<longrightarrow>
        (client_lines (m1 @ m2) c (int a + 1) = None) = (c (int a + 1) = None \<and> Lines s ! a = Lines s' ! a)"
    proof (intro allI impI)
      fix a assume a: "int a < ?m"
      then have "a \<in> set [0..<nat ?m]" by auto
      from m2(6) [rule_format, OF this] a
      show "(client_lines (m1 @ m2) c (int a + 1) = None) = (c (int a + 1) = None \<and> Lines s ! a = Lines s' ! a)"
        unfolding cl m1(2) using m1(5) by (simp only: if_True) simp
    qed
  qed (rule m2)+
qed

section \<open>Sample states\<close>

definition split_ctl :: mtr_ctl where
  "split_ctl = (default_ctl DisplaySplit)\<lparr>af := AF_INET, maxTTL := 1\<rparr>"

text \<open>One hop, that has not answered, and the same hop after its answer.\<close>

definition unanswered_net :: net where
  "unanswered_net = \<lparr>host = \<lambda>_. template_host, sequence = \<lambda>_. \<lparr>sq_index = 0, sq_transit = 0, sq_saved_seq = 0, sq_time = (0, 0)\<rparr>,
     packetsize = 64, batch_at = 0, numhosts = 1, next_sequence = 33000, remoteaddress = replicate 16 1,
     sourceaddress = zero_ip, pipe_written = [], raw_log = []\<rparr>"

definition answered_net :: net where
  "answered_net = unanswered_net\<lparr>host := \<lambda>_. template_host\<lparr>h_addr := replicate 16 1\<rparr>\<rparr>"

definition answered_row :: string where
  "answered_row = fst (new_line sample_inet (\<lambda>_. True) exact_fp split_ctl answered_net 0 empty_dns)"

definition one_row :: split_state where
  "one_row = \<lparr>Lines = answered_row # replicate 255 ''???'', LineCount = 1, split_out = []\<rparr>"

lemma split_ctl_ok: "ctl_ok split_ctl"
  by (simp add: split_ctl_def default_ctl_def ctl_ok_def)

lemma sample_net_max: "net_max split_ctl unanswered_net = 0" "net_max split_ctl answered_net = 1"
proof -
  have t: "maxTTL split_ctl = 1" "af split_ctl = AF_INET" "unspec_addr split_ctl = zero_ip"
    by (simp_all add: split_ctl_def default_ctl_def)
  have c: "memcmp (replicate 16 0 :: u8 list) (replicate 16 0) 4 = 0"
    "memcmp (replicate 16 0 :: u8 list) (replicate 16 1) 4 \<noteq> 0"
    "memcmp (replicate 16 1 :: u8 list) (replicate 16 1) 4 = 0"
    by (simp_all add: numeral_eq_Suc)
  show "net_max split_ctl unanswered_net = 0"
    unfolding net_max_def
    by (simp add: net_max_loop.simps [of split_ctl _ 0] net_max_loop.simps [of split_ctl _ 1] t
        unanswered_net_def template_host_def addrcmp_def zero_ip_def c)
  show "net_max split_ctl answered_net = 1"
    unfolding net_max_def
    by (simp add: net_max_loop.simps [of split_ctl _ 0] t answered_net_def unanswered_net_def addrcmp_def c)
qed

lemma one_row_follows: "follows one_row [1 \<mapsto> answered_row]"
  by (auto simp: follows_def one_row_def split: if_splits)

section \<open>Properties\<close>

text \<open>C21: a redraw of the split display brings the receiving program up to date. If what it shows
  follows the display before the redraw, it does so after the lines that the redraw prints; it has
  no row beyond the known hops, and each row it has is the text of that hop in this redraw. As long
  as no row has been deleted, a row it does not have is one whose text is still ``???''.\<close>

theorem split_client_follows:
  assumes "follows s c" and "ctl_ok ctl" and "split_redraw env write_ok fp ctl net (s, st) = (s', st')"
  shows "\<exists>msgs. split_out s' = split_out s @ msgs \<and> follows s' (client_lines msgs c)
    \<and> (\<forall>i l. client_lines msgs c i = Some l \<longrightarrow> i \<le> net_max ctl net
         \<and> l = row_texts (new_line env write_ok fp ctl net) [0..<nat (net_max ctl net)] st ! nat (i - 1))
    \<and> (complete s c \<and> LineCount s \<le> net_max ctl net \<longrightarrow> complete s' (client_lines msgs c))"
proof -
  let ?m = "net_max ctl net"
  obtain msgs where m: "split_out s' = split_out s @ msgs" "follows s' (client_lines msgs c)" "LineCount s' \<le> ?m"
    "map (\<lambda>a. Lines s' ! a) [0..<nat ?m] = row_texts (new_line env write_ok fp ctl net) [0..<nat ?m] st"
    "\<forall>a. ?m \<le> int a \<longrightarrow> Lines s' ! a = Lines s ! a \<and> client_lines msgs c (int a + 1) = None"
    "\<forall>a. int a < ?m \<longrightarrow>
        (client_lines msgs c (int a + 1) = None) = (c (int a + 1) = None \<and> Lines s ! a = Lines s' ! a)"
    using redraw_client [OF assms] by (elim exE conjE) (rule that)
  have rows: "i \<le> ?m \<and> l = row_texts (new_line env write_ok fp ctl net) [0..<nat ?m] st ! nat (i - 1)"
    if l: "client_lines msgs c i = Some l" for i l
  proof -
    have f: "1 \<le> i" "i \<le> ?m" "l = Lines s' ! nat (i - 1)" using followsD [OF m(2) l] m(3) by auto
    then show ?thesis unfolding m(4) [symmetric] by simp
  qed
  have "complete s' (client_lines msgs c)" if co: "complete s c" "LineCount s \<le> ?m"
    unfolding complete_def
  proof (intro ballI impI)
    fix i :: int assume i: "i \<in> {1..256}" "client_lines msgs c i = None"
    have e: "int (nat (i - 1)) + 1 = i" using i(1) by simp
    have "c i = None" if "?m < i"
      using followsD [OF assms(1), of i] co(2) that by (cases "c i") auto
    then have "c i = None \<and> Lines s ! nat (i - 1) = Lines s' ! nat (i - 1)"
      using m(5,6) [rule_format, of "nat (i - 1)"] i e by (cases "i \<le> ?m") auto
    moreover have "c i = None \<longrightarrow> Lines s ! nat (i - 1) = ''???''"
      using co(1) i(1) unfolding complete_def by blast
    ultimately show "Lines s' ! nat (i - 1) = ''???''" by simp
  qed
  then show ?thesis using m(1,2) rows by blast
qed

theorem split_client_follows_witness:
  "\<exists>msgs c. split_out (fst (split_redraw sample_inet (\<lambda>_. True) exact_fp split_ctl answered_net
        (split_open \<lparr>Lines = [], LineCount = 0, split_out = []\<rparr>, empty_dns))) = msgs
     \<and> c = client_lines msgs Map.empty \<and> (\<forall>i l. c i = Some l \<longrightarrow> i \<le> 1 \<and> l = answered_row)"
proof -
  let ?s = "split_open \<lparr>Lines = [], LineCount = 0, split_out = []\<rparr>"
  obtain s' st' where r: "split_redraw sample_inet (\<lambda>_. True) exact_fp split_ctl answered_net (?s, empty_dns) = (s', st')"
    by fastforce
  have "follows ?s Map.empty" by (simp add: follows_def split_open_def)
  from split_client_follows [OF this split_ctl_ok r] obtain msgs where m: "split_out s' = split_out ?s @ msgs"
    "follows s' (client_lines msgs Map.empty)"
    "\<forall>i l. client_lines msgs Map.empty i = Some l \<longrightarrow> i \<le> net_max split_ctl answered_net
         \<and> l = row_texts (new_line sample_inet (\<lambda>_. True) exact_fp split_ctl answered_net)
             [0..<nat (net_max split_ctl answered_net)] empty_dns ! nat (i - 1)"
    by (elim exE conjE) (rule that)
  have "i \<le> 1 \<and> l = answered_row" if c: "client_lines msgs Map.empty i = Some l" for i l
  proof -
    have f: "i \<le> 1" "1 \<le> i" "l = row_texts (new_line sample_inet (\<lambda>_. True) exact_fp split_ctl answered_net)
        [0..<1] empty_dns ! nat (i - 1)"
      using m(3) [rule_format, OF c] followsD [OF m(2) c] unfolding sample_net_max nat_one_as_int by blast+
    then have "i = 1" by simp
    with f(3) show ?thesis by (simp add: answered_row_def split: prod.split)
  qed
  then show ?thesis using m(1) r by (intro exI conjI) (auto simp: split_open_def)
qed

text \<open>a hop whose row the split display has deleted is lost when it comes back with the same
  text: \<open>split_redraw\<close> leaves the old text in \<open>Lines\<close>, compares the new row with it and prints
  nothing, so the receiving program does not show the row.\<close>

theorem split_deleted_row_lost:
  assumes "follows s c" and "ctl_ok ctl"
    and "split_redraw env write_ok fp ctl net1 (s, st) = (s1, st1)"
    and "split_redraw env write_ok fp ctl net2 (s1, st1) = (s2, st2)"
    and "net_max ctl net1 \<le> int a" and "int a < net_max ctl net2"
    and "row_texts (new_line env write_ok fp ctl net2) [0..<nat (net_max ctl net2)] st1 ! a = Lines s ! a"
  shows "\<exists>msgs. split_out s2 = split_out s @ msgs \<and> client_lines msgs c (int a + 1) = None"
proof -
  obtain m1 where m1: "split_out s1 = split_out s @ m1" "follows s1 (client_lines m1 c)"
    "\<forall>a. net_max ctl net1 \<le> int a \<longrightarrow> Lines s1 ! a = Lines s ! a \<and> client_lines m1 c (int a + 1) = None"
    using redraw_client [OF assms(1,2,3)] by (elim exE conjE) (rule that)
  obtain m2 where m2: "split_out s2 = split_out s1 @ m2"
    "map (\<lambda>a. Lines s2 ! a) [0..<nat (net_max ctl net2)]
        = row_texts (new_line env write_ok fp ctl net2) [0..<nat (net_max ctl net2)] st1"
    "\<forall>a. int a < net_max ctl net2 \<longrightarrow> (client_lines m2 (client_lines m1 c) (int a + 1) = None)
        = (client_lines m1 c (int a + 1) = None \<and> Lines s1 ! a = Lines s2 ! a)"
    using redraw_client [OF m1(2) assms(2,4)] by (elim exE conjE) (rule that)
  have "Lines s2 ! a = Lines s ! a"
    unfolding assms(7) [symmetric] m2(2) [symmetric] using assms(6) by simp
  then have "client_lines m2 (client_lines m1 c) (int a + 1) = None"
    using m1(3) m2(3) assms(5,6) by simp
  then show ?thesis using m1(1) m2(1) by (intro exI [of _ "m1 @ m2"]) simp
qed


theorem split_deleted_row_lost_witness:
  "\<exists>s1 st1 s2 st2 msgs. split_redraw sample_inet (\<lambda>_. True) exact_fp split_ctl unanswered_net (one_row, empty_dns) = (s1, st1)
     \<and> split_redraw sample_inet (\<lambda>_. True) exact_fp split_ctl answered_net (s1, st1) = (s2, st2)
     \<and> split_out s2 = msgs \<and> client_lines msgs [1 \<mapsto> answered_row] 1 = None"
proof -
  obtain s1 st1 where r1: "split_redraw sample_inet (\<lambda>_. True) exact_fp split_ctl unanswered_net (one_row, empty_dns) = (s1, st1)"
    by fastforce
  obtain s2 st2 where r2: "split_redraw sample_inet (\<lambda>_. True) exact_fp split_ctl answered_net (s1, st1) = (s2, st2)"
    by fastforce
  have "st1 = empty_dns" using r1 by (simp add: split_redraw_def sample_net_max)
  then have "row_texts (new_line sample_inet (\<lambda>_. True) exact_fp split_ctl answered_net)
      [0..<nat (net_max split_ctl answered_net)] st1 ! 0 = Lines one_row ! 0"
    by (simp add: sample_net_max answered_row_def one_row_def split: prod.split)
  from split_deleted_row_lost [OF one_row_follows split_ctl_ok r1 r2, of 0, OF _ _ this]
  show ?thesis using r1 r2 by (auto simp: sample_net_max one_row_def)
qed

text \<open>in raw mode with names on, the first answer of a hop whose address was not looked up
  before prints the text of the address as the name of the hop, and no later answer prints the
  name, whatever the resolver says in between: \<open>raw_rawping\<close> counts the text that
  \<open>dns_lookup2\<close> returns for a name that is not known yet as a name.\<close>

theorem raw_name_is_address:
  assumes "dns ctl" and "havename r hop = 0" and "findip ctl addr (results st) = None"
    and "strlongip env ctl addr = Some t" and "raw_rawping env write_ok ctl hop addr msec seq (r, st) = (r1, st1)"
  shows "raw_out r1 = raw_out r @ [''d '' @ fmt_d hop @ '' '' @ t, ''p '' @ fmt_d hop @ '' '' @ fmt_d msec @ '' '' @ fmt_d seq]
    \<and> (\<forall>st2 addr2 msec2 seq2. raw_out (fst (raw_rawping env write_ok ctl hop addr2 msec2 seq2 (r1, st2)))
          = raw_out r1 @ [''p '' @ fmt_d hop @ '' '' @ fmt_d msec2 @ '' '' @ fmt_d seq2])"
proof -
  obtain st' where "dns_lookup2 env write_ok ctl addr st = (Some t, st')"
    using assms(3,4) by (simp add: dns_lookup2_def Let_def)
  then have r1: "r1 = r\<lparr>havename := (havename r)(hop := havename r hop + 1),
      raw_out := raw_out r @ [''d '' @ fmt_d hop @ '' '' @ t] @ [''p '' @ fmt_d hop @ '' '' @ fmt_d msec @ '' '' @ fmt_d seq]\<rparr>"
    using assms(1,2,5) by (simp add: raw_rawping_def)
  then have "havename r1 hop \<noteq> 0" using assms(2) by simp
  from raw_rawping_named [OF this] show ?thesis by (simp add: r1)
qed


theorem raw_name_is_address_witness:
  "\<exists>r1 st1. raw_rawping sample_inet (\<lambda>_. True) split_ctl 0 zero_ip 1500 33000
        (\<lparr>havename = \<lambda>_. 0, raw_out = []\<rparr>, empty_dns) = (r1, st1)
     \<and> raw_out r1 = [''d '' @ fmt_d 0 @ '' '' @ c_text (strlongip sample_inet split_ctl zero_ip),
          ''p '' @ fmt_d 0 @ '' '' @ fmt_d 1500 @ '' '' @ fmt_d 33000]"
proof -
  obtain t where t: "strlongip sample_inet split_ctl zero_ip = Some t"
    by (simp add: strlongip_def sample_inet_def split_ctl_def default_ctl_def)
  obtain r1 st1 where r: "raw_rawping sample_inet (\<lambda>_. True) split_ctl 0 zero_ip 1500 33000
        (\<lparr>havename = \<lambda>_. 0, raw_out = []\<rparr>, empty_dns) = (r1, st1)" by fastforce
  have c: "dns split_ctl" "findip split_ctl zero_ip (results empty_dns) = None"
    by (simp_all add: split_ctl_def default_ctl_def findip_def empty_dns_def)
  show ?thesis
    using raw_name_is_address [OF c(1) _ c(2) t r] r t by (simp add: c_text_def)
qed

end
