(* ===== verification/Select.thy ===== *)
theory Select
  imports Split TimeVal
begin

text \<open>
  \<open>ui/select.c\<close>: the loop of \<open>mtr\<close>. A pass of the inner loop waits in \<open>select\<close>, before which it may
  redraw, send the next probe of the batch and find that the program is over; after it, replies,
  names and keys are handled. What one pass meets (the clock, the random numbers, what \<open>select\<close>
  answers and what the descriptors hold) is a record of inputs.
\<close>

section \<open>State\<close>

text \<open>The local variables of \<open>select_loop\<close> and the state it works on: the options, the tables of
  \<open>Net\<close>, the reply buffer of the command pipe, the cache of names, the split display and the
  redraws and clears asked of the other displays.\<close>

datatype screen_event = Redrawn screen | Cleared

record select_state =
  sl_ctl :: mtr_ctl
  sl_net :: net
  reply_buffer :: string
  sl_dns :: dns_state
  sl_split :: split_state
  sl_screen :: "screen_event list"
  anyset :: bool
  paused :: bool
  NumPing :: int
  lasttime :: timeval
  startgrace :: timeval
  graceperiod :: bool
  intervaltime :: timeval
  dnsinterval :: rat

text \<open>What a pass meets. \<open>in_select\<close> says which of the three descriptors can be read: the command
  pipe, the resolver's pipe, the keyboard.\<close>

record pass_in =
  in_time :: timeval
  in_rand :: "int \<times> int"
  in_write :: "string \<Rightarrow> bool"
  in_dns_write :: "string \<Rightarrow> bool"
  in_select :: "errno + bool \<times> bool \<times> bool"
  in_replies :: "errno + string"
  in_dns :: string
  in_uninit :: ack_vars
  in_key :: char
  in_action :: "keyboard \<Rightarrow> action"

section \<open>Before the wait\<close>

text \<open>The head of the outer loop: the interval for one probe.\<close>

definition loop_head :: "fp_env \<Rightarrow> select_state \<Rightarrow> select_state" where
  "loop_head fp s =
     (let dt = calc_deltatime fp (sl_net s) (WaitTime (sl_ctl s))
      in s\<lparr>intervaltime := Timeval (c_div dt 1000000) (c_mod dt 1000000)\<rparr>)"

definition do_redraw :: "inet_env \<Rightarrow> fp_env \<Rightarrow> pass_in \<Rightarrow> select_state \<Rightarrow> select_state" where
  "do_redraw env fp i s =
     (case display_redraw (sl_ctl s) of
        SplitRedraw \<Rightarrow> (case split_redraw env (in_dns_write i) fp (sl_ctl s) (sl_net s) (sl_split s, sl_dns s) of
                          (sp, st) \<Rightarrow> s\<lparr>sl_split := sp, sl_dns := st\<rparr>)
      | NoRedraw \<Rightarrow> s
      | scr \<Rightarrow> s\<lparr>sl_screen := sl_screen s @ [Redrawn scr]\<rparr>)"

text \<open>Whether the interval since the last probe is over.\<close>

definition interval_over :: "timeval \<Rightarrow> timeval \<Rightarrow> timeval \<Rightarrow> bool" where
  "interval_over thistime since ival \<longleftrightarrow>
     tv_sec since + tv_sec ival < tv_sec thistime
     \<or> tv_sec thistime = tv_sec since + tv_sec ival \<and> tv_usec since + tv_usec ival \<le> tv_usec thistime"

text \<open>The next probe, or the beginning of the grace period.\<close>

definition send_turn :: "inet_env \<Rightarrow> fp_env \<Rightarrow> pass_in \<Rightarrow> select_state \<Rightarrow> ui_exit + select_state" where
  "send_turn env fp i s =
     (let s = s\<lparr>lasttime := in_time i\<rparr>
      in if graceperiod s then Inr s
         else
           (let s = (if MaxPing (sl_ctl s) \<le> NumPing s \<and> (\<not> Interactive (sl_ctl s) \<or> ForceMaxPing (sl_ctl s))
                     then s\<lparr>graceperiod := True, startgrace := in_time i\<rparr> else s)
            in if graceperiod s then Inr s
               else and_then (net_send_batch env (in_write i) fp (fst (in_rand i)) (snd (in_rand i)) (sl_ctl s) (sl_net s))
                      (\<lambda>(v, ctl, n). Inr (s\<lparr>sl_ctl := ctl, sl_net := n,
                           NumPing := (if v \<noteq> 0 then NumPing s + 1 else NumPing s)\<rparr>))))"

definition grace_over :: "fp_env \<Rightarrow> timeval \<Rightarrow> select_state \<Rightarrow> bool" where
  "grace_over fp thistime s \<longleftrightarrow> graceperiod s \<and>
     (let dt = to_int32 ((tv_usec thistime - tv_usec (startgrace s))
                 + 1000000 * (tv_sec thistime - tv_sec (startgrace s)))
      in rndf fp (rndf fp (GraceTime (sl_ctl s) * 1000) * 1000) < rndf fp (of_int dt))"

text \<open>Subtraction of times, with a borrow.\<close>

definition tv_minus :: "timeval \<Rightarrow> timeval \<Rightarrow> timeval" where
  "tv_minus a b =
     (let usec = tv_usec a - tv_usec b; sec = tv_sec a - tv_sec b
      in if usec < 0 then Timeval (sec - 1) (usec + 1000000) else Timeval sec usec)"

definition time_left :: "timeval \<Rightarrow> select_state \<Rightarrow> timeval" where
  "time_left thistime s = tv_minus (intervaltime s) (tv_minus thistime (lasttime s))"

text \<open>With names on, the wait is at most \<open>dnsinterval\<close>.\<close>

definition dns_wait :: "fp_env \<Rightarrow> select_state \<Rightarrow> timeval" where
  "dns_wait fp s = Timeval (c_trunc (dnsinterval s)) (c_mod (c_trunc (rnd fp (dnsinterval s * 1000000))) 1000000)"

definition cap_wait :: "fp_env \<Rightarrow> select_state \<Rightarrow> timeval \<Rightarrow> timeval" where
  "cap_wait fp s t =
     (if dns (sl_ctl s) then
        (let d = dns_wait fp s
         in if tv_sec d < tv_sec t \<or> tv_sec t = tv_sec d \<and> tv_usec d < tv_usec t then d else t)
      else t)"

text \<open>The part of a pass before \<open>select\<close>: \<open>None\<close> is the return when the grace period is over,
  otherwise the timeout of \<open>select\<close>.\<close>

definition before_select ::
  "inet_env \<Rightarrow> fp_env \<Rightarrow> pass_in \<Rightarrow> select_state \<Rightarrow> ui_exit + (timeval option \<times> select_state)" where
  "before_select env fp i s =
     (if anyset s \<or> paused s then Inr (Some (Timeval 0 (if paused s then 100000 else 0)), s)
      else
        (let s = (if Interactive (sl_ctl s) then do_redraw env fp i s else s)
         in and_then (if interval_over (in_time i) (lasttime s) (intervaltime s) then send_turn env fp i s else Inr s)
              (\<lambda>s. Inr (if grace_over fp (in_time i) s then None
                        else Some (cap_wait fp s (time_left (in_time i) s)), s))))"

section \<open>After the wait\<close>

definition do_clear :: "select_state \<Rightarrow> select_state" where
  "do_clear s = (if display_clears (sl_ctl s) then s\<lparr>sl_screen := sl_screen s @ [Cleared]\<rparr> else s)"

abbreviation upd_ctl :: "(mtr_ctl \<Rightarrow> mtr_ctl) \<Rightarrow> select_state \<Rightarrow> select_state" where
  "upd_ctl f s \<equiv> s\<lparr>sl_ctl := f (sl_ctl s)\<rparr>"

text \<open>A key. \<open>Finished\<close> is the return of \<open>select_loop\<close>.\<close>

datatype pass_result = Finished (result_state: select_state) | Goes_on (result_state: select_state)

fun key_turn :: "action \<Rightarrow> select_state \<Rightarrow> pass_result" where
  "key_turn ActionQuit s = Finished s"
| "key_turn ActionReset s = Goes_on (s\<lparr>sl_net := net_reset (sl_ctl s) (sl_net s)\<rparr>)"
| "key_turn ActionDisplay s = Goes_on (upd_ctl (\<lambda>c. c\<lparr>display_mode := c_mod (display_mode c + 1) 3\<rparr>) s)"
| "key_turn ActionClear s = Goes_on (do_clear s)"
| "key_turn ActionPause s = Goes_on (s\<lparr>paused := True\<rparr>)"
| "key_turn ActionResume s = Goes_on (s\<lparr>paused := False\<rparr>)"
| "key_turn ActionMPLS s = Goes_on (do_clear (upd_ctl (\<lambda>c. c\<lparr>enablempls := \<not> enablempls c\<rparr>) s))"
| "key_turn ActionDNS s =
     Goes_on (if dns (sl_ctl s) then do_clear (upd_ctl (\<lambda>c. c\<lparr>use_dns := \<not> use_dns c\<rparr>) s) else s)"
| "key_turn ActionII s =
     Goes_on (upd_ctl (\<lambda>c. c\<lparr>ipinfo_no := (if ipinfo_max c < ipinfo_no c + 1 then 0 else ipinfo_no c + 1)\<rparr>) s)"
| "key_turn ActionAS s =
     Goes_on (upd_ctl (\<lambda>c. c\<lparr>ipinfo_no := (if ipinfo_no c \<noteq> 0 then 0 else ipinfo_max c)\<rparr>) s)"
| "key_turn ActionScrollDown s = Goes_on (upd_ctl (\<lambda>c. c\<lparr>display_offset := display_offset c + 5\<rparr>) s)"
| "key_turn ActionScrollUp s =
     Goes_on (upd_ctl (\<lambda>c. c\<lparr>display_offset := (if display_offset c - 5 < 0 then 0 else display_offset c - 5)\<rparr>) s)"
| "key_turn ActionNone s = Goes_on s"

text \<open>The keyboard is watched when the program is interactive, the resolver when names are on.\<close>

definition after_select ::
  "inet_env \<Rightarrow> fp_env \<Rightarrow> pass_in \<Rightarrow> bool \<times> bool \<times> bool \<Rightarrow> select_state \<Rightarrow> ui_exit + pass_result" where
  "after_select env fp i = (\<lambda>(net_ready, dns_ready, key_ready) s.
     (let s = s\<lparr>anyset := False\<rparr>
      in and_then
           (if net_ready then
              and_then (net_process_return env fp (sl_ctl s) (in_replies i) (reply_buffer s) (sl_net s))
                (\<lambda>(buf, n). Inr (s\<lparr>reply_buffer := buf, sl_net := n, anyset := True\<rparr>))
            else Inr s)
           (\<lambda>s.
             (let s = (if dns (sl_ctl s) then s\<lparr>dnsinterval := WaitTime (sl_ctl s)\<rparr> else s);
                  s = (if dns (sl_ctl s) \<and> dns_ready
                       then s\<lparr>sl_dns := dns_ack env (in_uninit i) (sl_ctl s) (in_dns i) (sl_dns s), anyset := True\<rparr>
                       else s)
              in if Interactive (sl_ctl s) \<and> key_ready then
                   (let keyaction = (\<lambda>k. if k = SplitKey then split_keyaction (in_key i) else in_action i k)
                    in Inr (case key_turn (display_keyaction keyaction (sl_ctl s)) s of
                              Finished s \<Rightarrow> Finished s | Goes_on s \<Rightarrow> Goes_on (s\<lparr>anyset := True\<rparr>)))
                 else Inr (Goes_on s)))))"

section \<open>The loop\<close>

text \<open>One pass. A wait that was interrupted is followed by another pass of the inner loop, without
  the head of the outer one.\<close>

definition select_pass ::
  "inet_env \<Rightarrow> fp_env \<Rightarrow> pass_in \<Rightarrow> select_state \<Rightarrow> ui_exit + pass_result" where
  "select_pass env fp i s =
     and_then (before_select env fp i s)
       (\<lambda>(t, s). case t of
          None \<Rightarrow> Inr (Finished s)
        | Some _ \<Rightarrow>
            (case in_select i of
               Inl e \<Rightarrow> if e = EINTR then Inr (Goes_on s) else Inl ''Select failed''
             | Inr ready \<Rightarrow>
                 and_then (after_select env fp i ready s)
                   (\<lambda>r. Inr (case r of Finished s \<Rightarrow> Finished s | Goes_on s \<Rightarrow> Goes_on (loop_head fp s)))))"

text \<open>The passes for a list of inputs; an input that is not used is left.\<close>

fun select_loop ::
  "inet_env \<Rightarrow> fp_env \<Rightarrow> pass_in list \<Rightarrow> select_state \<Rightarrow> ui_exit + pass_result" where
  "select_loop env fp [] s = Inr (Goes_on s)"
| "select_loop env fp (i # is) s =
     and_then (select_pass env fp i s)
       (\<lambda>r. case r of Finished s \<Rightarrow> Inr (Finished s) | Goes_on s \<Rightarrow> select_loop env fp is s)"

text \<open>The state at the entry: the time of the start, and no probe sent. \<open>dnsinterval\<close> is static.\<close>

definition select_start ::
  "fp_env \<Rightarrow> rat \<Rightarrow> timeval \<Rightarrow> mtr_ctl \<Rightarrow> net \<Rightarrow> dns_state \<Rightarrow> split_state \<Rightarrow> select_state" where
  "select_start fp dnsint now ctl n st sp =
     loop_head fp \<lparr>sl_ctl = ctl, sl_net = n, reply_buffer = [], sl_dns = st, sl_split = sp, sl_screen = [],
       anyset = False, paused = False, NumPing = 0, lasttime = now, startgrace = Timeval 0 0,
       graceperiod = False, intervaltime = Timeval 0 0, dnsinterval = dnsint\<rparr>"

end
