(* ===== verification/SelectProps.thy ===== *)
theory SelectProps
  imports Select NetProps SplitProps
begin

text \<open>
  The loop of \<open>mtr\<close> (\<open>ui/select.c\<close>): the waits it asks for, the number of probes a report sends, and
  that a report ends.
\<close>

section \<open>Batches and replies\<close>

lemma save_sequence_xmits:
  "h_xmit (host (save_sequence ctl i q s) h) = h_xmit (host s h) + (if h = i then 1 else 0)"
  unfolding save_sequence_eq same_but_saved_sel(4) [OF net_save_xmit_host] by (simp add: sent_host_def)

text \<open>What one call of \<open>net_send_batch\<close> does to the counters.\<close>

lemma batch_shape:
  assumes "net_ok ctl s" and "net_send_batch env write_ok fp r1 r2 ctl s = Inr (v, ctl', s')"
  shows "ctl' = ctl\<lparr>bitpattern := bitpattern ctl'\<rparr>
    \<and> (\<forall>h. h_xmit (host s' h) = h_xmit (host s h) + (if h = batch_at s then 1 else 0))
    \<and> (v = 1 \<and> batch_at s' = fstTTL ctl - 1 \<or> v = 0 \<and> batch_at s' = batch_at s + 1 \<and> batch_at s < maxTTL ctl - 1)"
proof -
  obtain c1 s1 where c: "choose_packet fp r1 r2 ctl s = (c1, s1)" by fastforce
  obtain q s2 where n: "new_sequence c1 (batch_at s1) s1 = (q, s2)" by fastforce
  note p = batch_prefix [OF assms(1) c n]
  have c1: "maxTTL c1 = maxTTL ctl" "fstTTL c1 = fstTTL ctl" by (subst p(6); simp)+
  have s1: "batch_at s1 = batch_at s" "host s1 = host s" by (subst p(3), simp)+
  have s2: "batch_at s2 = batch_at s" "h_xmit (host s2 h) = h_xmit (host s h) + (if h = batch_at s then 1 else 0)" for h
    unfolding p(1) by (simp_all add: save_sequence_sel save_sequence_xmits s1)
  have nf: "\<not> size_faults ctl s" using assms(2) by (cases "size_faults ctl s") (simp_all add: net_send_batch_def)
  obtain w where r: "(if batch_done c1 (s2\<lparr>pipe_written := w\<rparr>)
      then (1, c1, s2\<lparr>pipe_written := w, numhosts := batch_at (s2\<lparr>pipe_written := w\<rparr>) + 1, batch_at := fstTTL c1 - 1\<rparr>)
      else (0, c1, s2\<lparr>pipe_written := w, batch_at := batch_at (s2\<lparr>pipe_written := w\<rparr>) + 1\<rparr>)) = (v, ctl', s')"
    using assms(2) c n nf by (auto simp: net_send_batch_def net_send_query_def and_then_Inr Let_def)
  show ?thesis
  proof (cases "batch_done c1 (s2\<lparr>pipe_written := w\<rparr>)")
    case True
    with r have "ctl' = c1" "v = 1" "s' = s2\<lparr>pipe_written := w, numhosts := batch_at s2 + 1, batch_at := fstTTL c1 - 1\<rparr>"
      by auto
    with p(6) c1 s2 show ?thesis by simp
  next
    case False
    with r have "ctl' = c1" "v = 0" "s' = s2\<lparr>pipe_written := w, batch_at := batch_at s2 + 1\<rparr>"
      by auto
    moreover have "batch_at s2 < maxTTL ctl - 1" using False c1 by (simp add: batch_done_def)
    ultimately show ?thesis using p(6) s2 by simp
  qed
qed

text \<open>Replies do not touch the counters of probes sent, nor the batch.\<close>

definition same_sent :: "net \<Rightarrow> net \<Rightarrow> bool" where
  "same_sent s s' \<longleftrightarrow> (\<forall>h. h_xmit (host s' h) = h_xmit (host s h)) \<and> batch_at s' = batch_at s \<and> numhosts s' = numhosts s"

lemma process_ping_sent:
  assumes "net_ok ctl s"
  shows "same_sent s (net_process_ping fp ctl q e m a t s)"
proof (cases "in_flight s q")
  case False
  then show ?thesis by (simp add: ping_ignored same_sent_def)
next
  case True
  then have i: "0 \<le> sq_index (sequence s q)" using assms by (auto simp: net_ok_def in_flight_def)
  have "h_xmit (host (record_address ctl x m b (close_probe q e s)) h) = h_xmit (host s h)" for x b h
    by (cases "h = x") (auto simp: record_address_other close_probe_def)
  then show ?thesis
    unfolding ping_steps [OF True i] same_sent_def display_defs
    by (auto simp: net_save_return_other record_address_other close_probe_def
        same_but_saved_sel(4) [OF net_save_return_host])
qed

lemma process_return_sent:
  assumes "net_ok ctl s" and "ctl_ok ctl" and "inet_ok env"
    and "net_process_return env fp ctl available buf s = Inr (buf', s')"
  shows "same_sent s s'"
proof -
  let ?P = "\<lambda>x. net_ok ctl x \<and> same_sent s x"
  have line: "?P s2" if "handle_command_reply env ctl (net_process_ping fp ctl) l s1 = Inr s2"
    and "?P s1" for l s1 s2
  proof -
    have "s2 = s1 \<or> (\<exists>q e m a t. is_ip a \<and> s2 = net_process_ping fp ctl q e m a t s1)"
      using that(1) parse_reply_is_ip [OF assms(3)]
      by (fastforce simp: handle_command_reply_def Let_def and_then_Inr
          split: sum.split_asm option.split_asm if_split_asm)
    then show ?thesis
      using that(2) net_process_ping_ok [OF _ assms(2)] process_ping_sent by (auto simp: same_sent_def)
  qed
  have "consume_loop env ctl (net_process_ping fp ctl) b s = Inr (r, s') \<Longrightarrow> ?P s'" for b r
    by (rule reply_lines.drain_keeps [where P = ?P]) (use line assms(1) in \<open>auto simp: same_sent_def\<close>)
  then have "consume_reply_buffer env ctl (net_process_ping fp ctl) b s = Inr (r, s') \<Longrightarrow> ?P s'" for b r
    by (auto simp: consume_reply_buffer_def and_then_Inr)
  moreover have "same_sent s s" by (simp add: same_sent_def)
  ultimately show ?thesis
    using assms(1,4) unfolding net_process_return_def handle_command_replies_def Let_def
    by (auto split: sum.split_asm if_split_asm)
qed


section \<open>What the loop keeps\<close>

text \<open>The options that no key and no draw of a packet changes.\<close>

definition fixed_options :: "mtr_ctl \<Rightarrow> (int \<times> rat \<times> rat \<times> family \<times> ip_t) \<times> (int \<times> int \<times> int \<times> int) \<times> bool \<times> bool \<times> bool \<times> display" where
  "fixed_options c = ((MaxPing c, WaitTime c, GraceTime c, af c, unspec_addr c), (fstTTL c, maxTTL c, mtrtype c, cpacketsize c),
     ForceMaxPing c, dns c, Interactive c, DisplayMode c)"

abbreviation same_options :: "mtr_ctl \<Rightarrow> mtr_ctl \<Rightarrow> bool" where
  "same_options c c' \<equiv> fixed_options c' = fixed_options c"

lemma same_optionsD:
  assumes "same_options c c'"
  shows "MaxPing c' = MaxPing c" "WaitTime c' = WaitTime c" "GraceTime c' = GraceTime c" "af c' = af c"
    "unspec_addr c' = unspec_addr c" "fstTTL c' = fstTTL c" "maxTTL c' = maxTTL c" "mtrtype c' = mtrtype c"
    "ForceMaxPing c' = ForceMaxPing c" "dns c' = dns c" "Interactive c' = Interactive c" "DisplayMode c' = DisplayMode c"
    "cpacketsize c' = cpacketsize c"
  using assms by (simp_all add: fixed_options_def)

lemma fixed_options_upd [simp]:
  "fixed_options (c\<lparr>bitpattern := b\<rparr>) = fixed_options c" "fixed_options (c\<lparr>display_mode := m\<rparr>) = fixed_options c"
  "fixed_options (c\<lparr>enablempls := e\<rparr>) = fixed_options c" "fixed_options (c\<lparr>use_dns := e\<rparr>) = fixed_options c"
  "fixed_options (c\<lparr>ipinfo_no := n\<rparr>) = fixed_options c" "fixed_options (c\<lparr>display_offset := n\<rparr>) = fixed_options c"
  by (simp_all add: fixed_options_def)

lemma same_options_ok:
  assumes "same_options c c'"
  shows "ctl_ok c' = ctl_ok c" and "net_ok c' n = net_ok c n"
proof -
  note d = same_optionsD [OF assms]
  show "ctl_ok c' = ctl_ok c" by (simp only: ctl_ok_def d)
  show "net_ok c' n = net_ok c n" by (rule net_ok_options [OF d(4,5)])
qed

text \<open>The state of the loop: the options that matter are those of the start, and the tables are
  well formed.\<close>

definition loop_ok :: "mtr_ctl \<Rightarrow> select_state \<Rightarrow> bool" where
  "loop_ok c s \<longleftrightarrow> same_options c (sl_ctl s) \<and> net_ok c (sl_net s)"

text \<open>The parts of a pass, for any property that depends on the tables and the counters only.\<close>

lemma send_turn_cases:
  assumes "send_turn env fp i s = Inr s'"
  obtains (grace) "graceperiod s" "s' = s\<lparr>lasttime := in_time i\<rparr>"
  | (begins) "\<not> graceperiod s" "MaxPing (sl_ctl s) \<le> NumPing s" "\<not> Interactive (sl_ctl s) \<or> ForceMaxPing (sl_ctl s)"
      "s' = s\<lparr>lasttime := in_time i, graceperiod := True, startgrace := in_time i\<rparr>"
  | (sends) v ctl n where "\<not> graceperiod s"
      "NumPing s < MaxPing (sl_ctl s) \<or> Interactive (sl_ctl s) \<and> \<not> ForceMaxPing (sl_ctl s)"
      "net_send_batch env (in_write i) fp (fst (in_rand i)) (snd (in_rand i)) (sl_ctl s) (sl_net s) = Inr (v, ctl, n)"
      "s' = s\<lparr>lasttime := in_time i, sl_ctl := ctl, sl_net := n, NumPing := (if v \<noteq> 0 then NumPing s + 1 else NumPing s)\<rparr>"
proof (cases "graceperiod s")
  case True
  then show thesis using assms grace by (simp add: send_turn_def)
next
  case g: False
  show thesis
  proof (cases "MaxPing (sl_ctl s) \<le> NumPing s \<and> (\<not> Interactive (sl_ctl s) \<or> ForceMaxPing (sl_ctl s))")
    case True
    then show thesis using assms begins g by (simp add: send_turn_def)
  next
    case False
    then obtain v ctl n where "net_send_batch env (in_write i) fp (fst (in_rand i)) (snd (in_rand i)) (sl_ctl s) (sl_net s) = Inr (v, ctl, n)"
      "s' = s\<lparr>lasttime := in_time i, sl_ctl := ctl, sl_net := n, NumPing := (if v \<noteq> 0 then NumPing s + 1 else NumPing s)\<rparr>"
      using assms g by (auto simp: send_turn_def and_then_Inr Let_def cong: if_cong)
    then show thesis by (rule sends [rotated 2]) (use g False in auto)
  qed
qed

lemma do_redraw_sel [simp]:
  "sl_ctl (do_redraw env fp i s) = sl_ctl s" "sl_net (do_redraw env fp i s) = sl_net s"
  "anyset (do_redraw env fp i s) = anyset s" "paused (do_redraw env fp i s) = paused s"
  "NumPing (do_redraw env fp i s) = NumPing s" "lasttime (do_redraw env fp i s) = lasttime s"
  "startgrace (do_redraw env fp i s) = startgrace s" "graceperiod (do_redraw env fp i s) = graceperiod s"
  "intervaltime (do_redraw env fp i s) = intervaltime s" "dnsinterval (do_redraw env fp i s) = dnsinterval s"
  by (simp_all add: do_redraw_def split: screen.split prod.split)

lemma loop_head_sel [simp]:
  "sl_ctl (loop_head fp s) = sl_ctl s" "sl_net (loop_head fp s) = sl_net s" "sl_split (loop_head fp s) = sl_split s"
  "anyset (loop_head fp s) = anyset s" "paused (loop_head fp s) = paused s"
  "NumPing (loop_head fp s) = NumPing s" "lasttime (loop_head fp s) = lasttime s"
  "startgrace (loop_head fp s) = startgrace s" "graceperiod (loop_head fp s) = graceperiod s"
  "dnsinterval (loop_head fp s) = dnsinterval s"
  by (simp_all add: loop_head_def Let_def)

text \<open>Before the wait: nothing happens, or the rows are drawn and perhaps the next probe is sent.\<close>

lemma before_select_cases:
  assumes "before_select env fp i s = Inr (t, s')"
  obtains (poll) "anyset s \<or> paused s" "s' = s" "t = Some (Timeval 0 (if paused s then 100000 else 0))"
  | (turn) s1 where "\<not> anyset s" "\<not> paused s" "s1 = s \<or> s1 = do_redraw env fp i s"
      "\<not> Interactive (sl_ctl s) \<Longrightarrow> s1 = s"
      "if interval_over (in_time i) (lasttime s) (intervaltime s) then send_turn env fp i s1 = Inr s' else s' = s1"
      "t = (if grace_over fp (in_time i) s' then None else Some (cap_wait fp s' (time_left (in_time i) s')))"
proof (cases "anyset s \<or> paused s")
  case True
  then have "before_select env fp i s = Inr (Some (Timeval 0 (if paused s then 100000 else 0)), s)"
    by (simp only: before_select_def if_True)
  with assms have "t = Some (Timeval 0 (if paused s then 100000 else 0))" "s' = s" by auto
  with True show thesis by (intro poll)
next
  case False
  define s1 where "s1 = (if Interactive (sl_ctl s) then do_redraw env fp i s else s)"
  have sel: "lasttime s1 = lasttime s" "intervaltime s1 = intervaltime s" by (simp_all add: s1_def)
  obtain s2 where s2: "(if interval_over (in_time i) (lasttime s) (intervaltime s) then send_turn env fp i s1 else Inr s1) = Inr s2"
    and r: "(if grace_over fp (in_time i) s2 then None else Some (cap_wait fp s2 (time_left (in_time i) s2)), s2) = (t, s')"
  proof -
    have "and_then (if interval_over (in_time i) (lasttime s1) (intervaltime s1) then send_turn env fp i s1 else Inr s1)
        (\<lambda>s. Inr (if grace_over fp (in_time i) s then None
                        else Some (cap_wait fp s (time_left (in_time i) s)), s)) = Inr (t, s')"
      using assms False unfolding before_select_def Let_def s1_def by (simp only: if_False)
    then obtain s2 where a: "(if interval_over (in_time i) (lasttime s) (intervaltime s) then send_turn env fp i s1 else Inr s1) = Inr s2"
      and b: "Inr (if grace_over fp (in_time i) s2 then None
                        else Some (cap_wait fp s2 (time_left (in_time i) s2)), s2) = (Inr (t, s') :: ui_exit + _)"
      unfolding sel and_then_Inr by (elim exE conjE) (rule that)
    from b have "(if grace_over fp (in_time i) s2 then None
                        else Some (cap_wait fp s2 (time_left (in_time i) s2)), s2) = (t, s')" by (simp only: sum.inject)
    then show thesis by (rule that [OF a])
  qed
  have "if interval_over (in_time i) (lasttime s) (intervaltime s) then send_turn env fp i s1 = Inr s' else s' = s1"
    using s2 r by (auto split: if_splits)
  then show thesis
    using turn [of s1] False r unfolding s1_def by (auto split: if_splits)
qed


text \<open>After the wait: replies, then names, then a key.\<close>

lemma do_clear_sel [simp]:
  "sl_ctl (do_clear s) = sl_ctl s" "sl_net (do_clear s) = sl_net s" "NumPing (do_clear s) = NumPing s"
  "lasttime (do_clear s) = lasttime s" "startgrace (do_clear s) = startgrace s" "graceperiod (do_clear s) = graceperiod s"
  "dnsinterval (do_clear s) = dnsinterval s" "sl_split (do_clear s) = sl_split s" "intervaltime (do_clear s) = intervaltime s"
  by (simp_all add: do_clear_def)

lemma key_turn_net:
  shows "fixed_options (sl_ctl (result_state (key_turn a s))) = fixed_options (sl_ctl s)"
    and "sl_net (result_state (key_turn a s)) = sl_net s \<or> sl_net (result_state (key_turn a s)) = net_reset (sl_ctl s) (sl_net s)"
    and "NumPing (result_state (key_turn a s)) = NumPing s" and "lasttime (result_state (key_turn a s)) = lasttime s"
    and "startgrace (result_state (key_turn a s)) = startgrace s"
    and "graceperiod (result_state (key_turn a s)) = graceperiod s"
    and "dnsinterval (result_state (key_turn a s)) = dnsinterval s" and "sl_split (result_state (key_turn a s)) = sl_split s"
    and "intervaltime (result_state (key_turn a s)) = intervaltime s"
  by (cases a; simp)+

definition loop_core :: "select_state \<Rightarrow> (int \<times> timeval \<times> timeval \<times> bool) \<times> bool \<times> timeval \<times> split_state" where
  "loop_core s = ((NumPing s, lasttime s, startgrace s, graceperiod s), paused s, intervaltime s, sl_split s)"

lemma loop_coreD:
  assumes "loop_core s' = loop_core s"
  shows "NumPing s' = NumPing s" "lasttime s' = lasttime s" "startgrace s' = startgrace s"
    "graceperiod s' = graceperiod s" "paused s' = paused s" "intervaltime s' = intervaltime s" "sl_split s' = sl_split s"
  using assms by (simp_all add: loop_core_def)

lemma after_select_cases:
  assumes "after_select env fp i ready s = Inr r"
  obtains s2 where "sl_ctl s2 = sl_ctl s" and "loop_core s2 = loop_core s"
    and "sl_net s2 = sl_net s \<or> fst ready \<and>
      (\<exists>buf. net_process_return env fp (sl_ctl s) (in_replies i) (reply_buffer s) (sl_net s) = Inr (buf, sl_net s2))"
    and "dnsinterval s2 \<in> {dnsinterval s, WaitTime (sl_ctl s)}" and "anyset s2 \<Longrightarrow> fst ready \<or> fst (snd ready)"
    and "r = Goes_on s2 \<or> Interactive (sl_ctl s)
      \<and> (\<exists>a b. result_state r = (result_state (key_turn a s2))\<lparr>anyset := b\<rparr>)"
proof -
  obtain nr dr kr where rd: "ready = (nr, dr, kr)" by (cases ready)
  let ?s0 = "s\<lparr>anyset := False\<rparr>"
  obtain s1 where s1: "(if nr then and_then (net_process_return env fp (sl_ctl ?s0) (in_replies i) (reply_buffer ?s0) (sl_net ?s0))
      (\<lambda>(buf, n). Inr (?s0\<lparr>reply_buffer := buf, sl_net := n, anyset := True\<rparr>)) else Inr ?s0) = Inr s1"
    and rest: "(let s = (if dns (sl_ctl s1) then s1\<lparr>dnsinterval := WaitTime (sl_ctl s1)\<rparr> else s1);
                  s = (if dns (sl_ctl s) \<and> dr
                       then s\<lparr>sl_dns := dns_ack env (in_uninit i) (sl_ctl s) (in_dns i) (sl_dns s), anyset := True\<rparr>
                       else s)
              in if Interactive (sl_ctl s) \<and> kr then
                   (let keyaction = (\<lambda>k. if k = SplitKey then split_keyaction (in_key i) else in_action i k)
                    in Inr (case key_turn (display_keyaction keyaction (sl_ctl s)) s of
                              Finished s \<Rightarrow> Finished s | Goes_on s \<Rightarrow> Goes_on (s\<lparr>anyset := True\<rparr>)))
                 else Inr (Goes_on s)) = (Inr r :: ui_exit + pass_result)"
    using assms unfolding after_select_def rd prod.case Let_def [of ?s0] and_then_Inr by (elim exE conjE) (rule that)
  have a: "s1 = ?s0 \<or> nr \<and> (\<exists>buf n. net_process_return env fp (sl_ctl s) (in_replies i) (reply_buffer s) (sl_net s) = Inr (buf, n)
        \<and> s1 = s\<lparr>anyset := True, reply_buffer := buf, sl_net := n\<rparr>)"
    using s1 by (cases nr) (auto simp: and_then_Inr)
  then have c: "sl_ctl s1 = sl_ctl s" "dnsinterval s1 = dnsinterval s" by auto
  define s2 where "s2 = (let s = (if dns (sl_ctl s1) then s1\<lparr>dnsinterval := WaitTime (sl_ctl s1)\<rparr> else s1)
      in if dns (sl_ctl s) \<and> dr
         then s\<lparr>sl_dns := dns_ack env (in_uninit i) (sl_ctl s) (in_dns i) (sl_dns s), anyset := True\<rparr> else s)"
  have s2c: "sl_ctl s2 = sl_ctl s" by (simp add: s2_def Let_def c)
  have "r = Goes_on s2 \<or> Interactive (sl_ctl s)
      \<and> (\<exists>a b. result_state r = (result_state (key_turn a s2))\<lparr>anyset := b\<rparr>)"
  proof (cases "Interactive (sl_ctl s) \<and> kr")
    case False
    then show ?thesis using rest unfolding s2_def [unfolded Let_def, symmetric] Let_def s2c by auto
  next
    case True
    define a where "a = display_keyaction (\<lambda>k. if k = SplitKey then split_keyaction (in_key i) else in_action i k) (sl_ctl s)"
    have "r = (case key_turn a s2 of Finished s \<Rightarrow> Finished s | Goes_on s \<Rightarrow> Goes_on (s\<lparr>anyset := True\<rparr>))"
      using rest True unfolding s2_def [unfolded Let_def, symmetric] Let_def s2c a_def by simp
    then have "result_state r = (result_state (key_turn a s2))\<lparr>anyset := anyset (result_state r)\<rparr>"
      by (cases "key_turn a s2") simp_all
    with True show ?thesis by blast
  qed
  moreover have "loop_core s2 = loop_core s" "sl_net s2 = sl_net s1" "dnsinterval s2 \<in> {dnsinterval s, WaitTime (sl_ctl s)}"
    "anyset s2 \<Longrightarrow> nr \<or> dr"
    using a by (auto simp: s2_def Let_def c loop_core_def split: if_splits)
  ultimately show thesis using that [of s2] a s2c by (auto simp: rd)
qed


text \<open>What the three parts of a pass keep, every pass and the loop keep.\<close>

lemma select_pass_keeps:
  assumes "\<And>t s'. before_select env fp i s = Inr (t, s') \<Longrightarrow> P s'"
    and "\<And>s' ready r. P s' \<Longrightarrow> in_select i = Inr ready \<Longrightarrow> after_select env fp i ready s' = Inr r \<Longrightarrow> P (result_state r)"
    and "\<And>s'. P s' \<Longrightarrow> P (loop_head fp s')" and "select_pass env fp i s = Inr r"
  shows "P (result_state r)"
proof -
  obtain t s1 where b: "before_select env fp i s = Inr (t, s1)"
    and r: "(case t of None \<Rightarrow> Inr (Finished s1) | Some _ \<Rightarrow>
            (case in_select i of
               Inl e \<Rightarrow> if e = EINTR then Inr (Goes_on s1) else Inl ''Select failed''
             | Inr ready \<Rightarrow> and_then (after_select env fp i ready s1)
                   (\<lambda>r. Inr (case r of Finished s \<Rightarrow> Finished s | Goes_on s \<Rightarrow> Goes_on (loop_head fp s))))) = Inr r"
    using assms(4) by (auto simp: select_pass_def and_then_Inr)
  have s1: "P s1" by (rule assms(1) [OF b])
  show ?thesis
  proof (cases "t = None \<or> (\<exists>e. in_select i = Inl e)")
    case True
    then have "r = Finished s1 \<or> r = Goes_on s1" using r by (auto split: option.split_asm if_split_asm)
    with s1 show ?thesis by auto
  next
    case False
    then obtain ready r1 where e: "in_select i = Inr ready" "after_select env fp i ready s1 = Inr r1"
      and r1: "r = (case r1 of Finished s \<Rightarrow> Finished s | Goes_on s \<Rightarrow> Goes_on (loop_head fp s))"
      using r by (cases "in_select i") (auto simp: and_then_Inr)
    have "P (result_state r1)" by (rule assms(2) [OF s1 e])
    with assms(3) show ?thesis unfolding r1 by (cases r1) auto
  qed
qed

lemma select_loop_keeps:
  assumes "\<forall>i s r. i \<in> set is \<longrightarrow> P s \<longrightarrow> select_pass env fp i s = Inr r \<longrightarrow> P (result_state r)"
    and "P s" and "select_loop env fp is s = Inr r"
  shows "P (result_state r)"
  using assms
proof (induction "is" arbitrary: s)
  case (Cons i "is")
  then obtain r1 where r1: "select_pass env fp i s = Inr r1"
    and r: "(case r1 of Finished s \<Rightarrow> Inr (Finished s) | Goes_on s \<Rightarrow> select_loop env fp is s) = Inr r"
    by (auto simp: and_then_Inr)
  have p: "P (result_state r1)" using Cons.prems(1,2) r1 by auto
  show ?case
  proof (cases r1)
    case (Finished s1)
    with r p show ?thesis by auto
  next
    case (Goes_on s1)
    have "\<forall>i s r. i \<in> set is \<longrightarrow> P s \<longrightarrow> select_pass env fp i s = Inr r \<longrightarrow> P (result_state r)"
      using Cons.prems(1) by simp
    moreover have "P s1" "select_loop env fp is s1 = Inr r" using r p Goes_on by simp_all
    ultimately show ?thesis by (rule Cons.IH)
  qed
qed auto

text \<open>The tables stay well formed.\<close>

lemma loop_ok_before:
  assumes "loop_ok c s" and "ctl_ok c" and "before_select env fp i s = Inr (t, s')"
  shows "loop_ok c s'"
  using assms(3)
proof (cases rule: before_select_cases)
  case poll
  with assms(1) show ?thesis by simp
next
  case (turn s1)
  have s1: "loop_ok c s1" using turn(3) assms(1) by (auto simp: loop_ok_def)
  show ?thesis
  proof (cases "interval_over (in_time i) (lasttime s) (intervaltime s)")
    case False
    with turn(5) s1 show ?thesis by simp
  next
    case True
    then have "send_turn env fp i s1 = Inr s'" using turn(5) by simp
    then show ?thesis
    proof (cases rule: send_turn_cases)
      case (sends v ctl n)
      have o: "same_options c (sl_ctl s1)" "net_ok (sl_ctl s1) (sl_net s1)" "ctl_ok (sl_ctl s1)"
        using s1 assms(2) same_options_ok [of c "sl_ctl s1"] by (simp_all add: loop_ok_def)
      have "ctl = (sl_ctl s1)\<lparr>bitpattern := bitpattern ctl\<rparr>" using batch_shape [OF o(2) sends(3)] by blast
      then have e: "same_options c ctl" using o(1) fixed_options_upd(1) [where c = "sl_ctl s1"] by metis
      have "net_ok ctl n" using net_send_batch_ok [OF o(2,3) sends(3)] by blast
      then show ?thesis using e same_options_ok(2) [OF e] sends(4) by (simp add: loop_ok_def)
    qed (use s1 in \<open>auto simp: loop_ok_def\<close>)
  qed
qed

lemma loop_ok_after:
  assumes "loop_ok c s" and "ctl_ok c" and "inet_ok env" and "after_select env fp i ready s = Inr r"
  shows "loop_ok c (result_state r)"
  using assms(4)
proof (cases rule: after_select_cases)
  case (1 s2)
  have o: "same_options c (sl_ctl s)" "net_ok (sl_ctl s) (sl_net s)" "ctl_ok (sl_ctl s)"
    using assms(1,2) same_options_ok [of c "sl_ctl s"] by (simp_all add: loop_ok_def)
  have n: "net_ok (sl_ctl s) (sl_net s2)" using 1(3) o net_process_return_ok [OF o(2,3) assms(3)] by auto
  have reset: "net_ok (sl_ctl s) (net_reset (sl_ctl s2) (sl_net s2))" unfolding 1(1) by (rule net_ok_reset [OF n o(3)])
  note so = same_options_ok(2) [OF o(1)]
  have key: "loop_ok c (result_state (key_turn a s2))" for a
  proof -
    have "fixed_options (sl_ctl (result_state (key_turn a s2))) = fixed_options c"
      unfolding key_turn_net(1) 1(1) by (rule o(1))
    moreover have "net_ok c (sl_net (result_state (key_turn a s2)))"
      using key_turn_net(2) [of a s2] n reset by (elim disjE) (simp_all only: so)
    ultimately show ?thesis by (simp only: loop_ok_def)
  qed
  show ?thesis using 1(6)
  proof (elim disjE conjE exE)
    assume "r = Goes_on s2"
    then show ?thesis using o(1) n so by (simp add: loop_ok_def 1(1))
  next
    fix a b assume "result_state r = (result_state (key_turn a s2))\<lparr>anyset := b\<rparr>"
    then show ?thesis using key [of a] by (simp add: loop_ok_def)
  qed
qed

lemma loop_ok_pass:
  assumes "loop_ok c s" and "ctl_ok c" and "inet_ok env" and "select_pass env fp i s = Inr r"
  shows "loop_ok c (result_state r)"
  using loop_ok_before [OF assms(1,2)] loop_ok_after [OF _ assms(2,3)] _ assms(4)
  by (rule select_pass_keeps) (auto simp: loop_ok_def)


section \<open>Times\<close>

text \<open>Rounding to float is monotone, and exact on the integers of up to 24 bits.\<close>

definition float_ok :: "fp_env \<Rightarrow> bool" where
  "float_ok fp \<longleftrightarrow>
     (\<forall>x y. 0 \<le> x \<longrightarrow> x \<le> y \<longrightarrow> y \<le> 2 ^ 127 \<longrightarrow> rndf fp x \<le> rndf fp y)
     \<and> (\<forall>n. 0 \<le> n \<longrightarrow> n \<le> 16777216 \<longrightarrow> rndf fp (of_int n) = of_int n)"

lemma float_mono: "float_ok fp \<Longrightarrow> 0 \<le> x \<Longrightarrow> x \<le> y \<Longrightarrow> y \<le> 2 ^ 127 \<Longrightarrow> rndf fp x \<le> rndf fp y"
  unfolding float_ok_def by blast

lemma float_exact: "float_ok fp \<Longrightarrow> 0 \<le> n \<Longrightarrow> n \<le> 16777216 \<Longrightarrow> rndf fp (of_int n) = of_int n"
  unfolding float_ok_def by blast

lemma float_nonneg:
  assumes "float_ok fp" and "0 \<le> x" and "x \<le> 2 ^ 127"
  shows "0 \<le> rndf fp x"
  using float_mono [OF assms(1) order_refl assms(2,3)] float_exact [OF assms(1), of 0] by simp

lemma float_bounds:
  assumes "float_ok fp" and "0 \<le> x" and "x \<le> of_int n" and "0 \<le> n" and "n \<le> 16777216"
  shows "0 \<le> rndf fp x \<and> rndf fp x \<le> of_int n"
proof -
  have "(of_int n :: rat) \<le> of_int 16777216" using assms(5) by (simp only: of_int_le_iff)
  also have "\<dots> \<le> 2 ^ 127" by simp
  finally have n: "(of_int n :: rat) \<le> 2 ^ 127" .
  show ?thesis
    using float_nonneg [OF assms(1,2) order_trans [OF assms(3) n]]
      float_mono [OF assms(1-3) n] float_exact [OF assms(1,4,5)] by simp
qed

lemma calc_deltatime_bounds:
  assumes "float_ok fp" and "1 \<le> numhosts s" and "0 \<le> w" and "w \<le> 2147"
  shows "0 \<le> calc_deltatime fp s w" and "w \<le> of_int k \<Longrightarrow> k \<le> 16 \<Longrightarrow> calc_deltatime fp s w \<le> 1000000 * k"
proof -
  have q: "0 \<le> w / of_int (numhosts s)" "w / of_int (numhosts s) \<le> w"
  proof -
    have "(1 :: rat) \<le> of_int (numhosts s)" using assms(2) by simp
    then have n: "w * 1 \<le> w * of_int (numhosts s)" "(0 :: rat) < of_int (numhosts s)"
      using assms(3) by (auto intro: mult_left_mono simp del: mult_1_right)
    show "0 \<le> w / of_int (numhosts s)" using assms(3) n(2) by simp
    show "w / of_int (numhosts s) \<le> w" using n(1) unfolding pos_divide_le_eq [OF n(2)] mult_1_right .
  qed
  have r: "0 \<le> rndf fp (w / of_int (numhosts s)) \<and> rndf fp (w / of_int (numhosts s)) \<le> of_int 2147"
    using float_bounds [OF assms(1) q(1), of 2147] q(2) assms(4) by simp
  then have "1000000 * rndf fp (w / of_int (numhosts s)) \<le> 2 ^ 127" by simp
  then have "0 \<le> rndf fp (1000000 * rndf fp (w / of_int (numhosts s)))"
    using float_nonneg [OF assms(1)] r by simp
  then show "0 \<le> calc_deltatime fp s w" by (simp add: calc_deltatime_def Let_def c_trunc_def)
  assume k: "w \<le> of_int k" "k \<le> 16"
  have k0: "0 \<le> k" using k(1) assms(3) by (metis of_int_0_le_iff order_trans)
  have "rndf fp (w / of_int (numhosts s)) \<le> of_int k"
    using float_bounds [OF assms(1) q(1), of k] q(2) k k0 by simp
  then have "1000000 * rndf fp (w / of_int (numhosts s)) \<le> of_int (1000000 * k)" by simp
  then have "rndf fp (1000000 * rndf fp (w / of_int (numhosts s))) \<le> of_int (1000000 * k)"
    using float_bounds [OF assms(1), of "1000000 * rndf fp (w / of_int (numhosts s))" "1000000 * k"] r k k0 by simp
  then show "calc_deltatime fp s w \<le> 1000000 * k"
    using c_trunc_mono [of _ "of_int (1000000 * k)"] unfolding calc_deltatime_def Let_def c_trunc_of_int by blast
qed


lemma tv_minus_usecs:
  assumes "0 \<le> tv_usec a" "tv_usec a < 1000000" "0 \<le> tv_usec b" "tv_usec b < 1000000"
  shows "usecs (tv_minus a b) = usecs a - usecs b" and "0 \<le> tv_usec (tv_minus a b)" and "tv_usec (tv_minus a b) < 1000000"
  using assms by (auto simp: tv_minus_def Let_def usecs_def)

lemma normalizedI: "0 \<le> usecs t \<Longrightarrow> 0 \<le> tv_usec t \<Longrightarrow> tv_usec t < 1000000 \<Longrightarrow> normalized t"
  by (auto simp: normalized_def usecs_def)

text \<open>The time left of an interval that is not over.\<close>

lemma time_left_bounds:
  assumes "normalized (lasttime s)" and "normalized (intervaltime s)" and "normalized now"
    and "usecs now \<le> usecs (lasttime s) + usecs (intervaltime s)"
  shows "normalized (time_left now s)"
    and "usecs (time_left now s) = usecs (lasttime s) + usecs (intervaltime s) - usecs now"
proof -
  note n = assms(1-3) [unfolded normalized_def]
  have e: "usecs (tv_minus now (lasttime s)) = usecs now - usecs (lasttime s)"
    "0 \<le> tv_usec (tv_minus now (lasttime s))" "tv_usec (tv_minus now (lasttime s)) < 1000000"
    using n by (auto intro: tv_minus_usecs)
  have u: "usecs (time_left now s) = usecs (intervaltime s) - (usecs now - usecs (lasttime s))"
    "0 \<le> tv_usec (time_left now s)" "tv_usec (time_left now s) < 1000000"
    using tv_minus_usecs [of "intervaltime s" "tv_minus now (lasttime s)"] n e by (simp_all add: time_left_def)
  then show "usecs (time_left now s) = usecs (lasttime s) + usecs (intervaltime s) - usecs now" by simp
  then show "normalized (time_left now s)" using u assms(4) by (intro normalizedI) auto
qed

lemma not_over_usecs:
  assumes "normalized since" and "normalized ival" and "normalized now" and "\<not> interval_over now since ival"
  shows "usecs now \<le> usecs since + usecs ival"
  using assms by (auto simp: normalized_def interval_over_def usecs_def)

definition times_ok :: "select_state \<Rightarrow> bool" where
  "times_ok s \<longleftrightarrow> normalized (lasttime s) \<and> normalized (intervaltime s) \<and> 0 \<le> dnsinterval s \<and> dnsinterval s \<le> 2147"

lemma dns_wait_normalized:
  assumes "fp_ok fp" and "0 \<le> dnsinterval s" and "dnsinterval s \<le> 2147"
  shows "normalized (dns_wait fp s)"
proof -
  have "0 \<le> dnsinterval s * 1000000" "dnsinterval s * 1000000 \<le> of_int 2147000000" using assms by simp_all
  then have "0 \<le> rnd fp (dnsinterval s * 1000000)"
    using rnd_between [OF assms(1), of 0 "dnsinterval s * 1000000" 2147000000] by simp
  then show ?thesis
    using assms(2) by (simp add: normalized_def dns_wait_def c_trunc_def c_mod_nonneg)
qed

lemma loop_head_times:
  assumes "float_ok fp" and "1 \<le> numhosts (sl_net s)" and "0 \<le> WaitTime (sl_ctl s)" and "WaitTime (sl_ctl s) \<le> 2147"
  shows "normalized (intervaltime (loop_head fp s))"
  using calc_deltatime_bounds(1) [OF assms]
  by (auto simp: loop_head_def Let_def normalized_def c_int pos_imp_zdiv_nonneg_iff)

section \<open>The wait\<close>

lemma loop_start_ok:
  assumes "net_ok ctl n"
  shows "loop_ok ctl (select_start fp d now ctl n st sp)"
  using assms by (simp add: select_start_def loop_ok_def)

lemma send_turn_times:
  assumes "send_turn env fp i s = Inr s'"
  shows "lasttime s' = in_time i" and "intervaltime s' = intervaltime s" and "dnsinterval s' = dnsinterval s"
  using assms by (cases rule: send_turn_cases; simp)+

lemma before_select_times:
  assumes "times_ok s" and "normalized (in_time i)" and "before_select env fp i s = Inr (t, s')"
  shows "times_ok s'" and "intervaltime s' = intervaltime s"
    and "\<not> anyset s \<Longrightarrow> \<not> paused s \<Longrightarrow> t = Some w \<Longrightarrow> \<exists>l. w = cap_wait fp s' l \<and> normalized l
      \<and> (lasttime s \<le> in_time i \<longrightarrow> usecs l \<le> usecs (intervaltime s))"
proof -
  have "times_ok s' \<and> intervaltime s' = intervaltime s
    \<and> (\<not> anyset s \<longrightarrow> \<not> paused s \<longrightarrow> t = Some w \<longrightarrow> (\<exists>l. w = cap_wait fp s' l \<and> normalized l
      \<and> (lasttime s \<le> in_time i \<longrightarrow> usecs l \<le> usecs (intervaltime s))))"
    using assms(3)
  proof (cases rule: before_select_cases)
    case poll
    with assms(1) show ?thesis by blast
  next
    case (turn s1)
    have s1: "lasttime s1 = lasttime s" "intervaltime s1 = intervaltime s" "dnsinterval s1 = dnsinterval s"
      using turn(3) by auto
    have s': "intervaltime s' = intervaltime s" "dnsinterval s' = dnsinterval s"
      "lasttime s' = (if interval_over (in_time i) (lasttime s) (intervaltime s) then in_time i else lasttime s)"
      using turn(5) send_turn_times [of env fp i s1 s'] s1 by (auto split: if_splits)
    have n: "normalized (lasttime s)" "normalized (intervaltime s)" using assms(1) by (simp_all add: times_ok_def)
    have ok: "times_ok s'" using assms(1,2) s' by (simp add: times_ok_def)
    have n': "normalized (lasttime s')" "normalized (intervaltime s')" using ok by (simp_all add: times_ok_def)
    have le: "usecs (in_time i) \<le> usecs (lasttime s') + usecs (intervaltime s')"
      using not_over_usecs [OF n assms(2)] s' n(2) by (auto simp: normalized_def usecs_def)
    note l = time_left_bounds [OF n' assms(2) le]
    have "usecs (time_left (in_time i) s') \<le> usecs (intervaltime s)" if "lasttime s \<le> in_time i"
      using l(2) s' usecs_less [OF assms(2) n(1)] that by (auto split: if_splits)
    then show ?thesis using turn(6) ok s'(1) l(1) by (auto split: if_splits)
  qed
  then show "times_ok s'" and "intervaltime s' = intervaltime s"
    and "\<not> anyset s \<Longrightarrow> \<not> paused s \<Longrightarrow> t = Some w \<Longrightarrow> \<exists>l. w = cap_wait fp s' l \<and> normalized l
      \<and> (lasttime s \<le> in_time i \<longrightarrow> usecs l \<le> usecs (intervaltime s))" by blast+
qed

lemma cap_wait_bounds:
  assumes "normalized l" and "normalized (dns_wait fp s)"
  shows "normalized (cap_wait fp s l)" and "usecs (cap_wait fp s l) \<le> usecs l"
  using assms by (auto simp: cap_wait_def Let_def normalized_def usecs_def)

lemma after_select_times:
  assumes "times_ok s" and "0 \<le> WaitTime (sl_ctl s)" and "WaitTime (sl_ctl s) \<le> 2147" and "after_select env fp i ready s = Inr r"
  shows "times_ok (result_state r)"
  using assms(4)
proof (cases rule: after_select_cases)
  case (1 s2)
  have s2: "times_ok s2" using assms(1-3) 1(4) loop_coreD [OF 1(2)] by (auto simp: times_ok_def)
  then have "times_ok (result_state (key_turn a s2))" for a
    unfolding times_ok_def key_turn_net by simp
  with s2 show ?thesis using 1(6) by (auto simp: times_ok_def)
qed

text \<open>The tables and the times, in every state of the loop.\<close>

lemma loop_times:
  assumes "ctl_ok c" and "inet_ok env" and "float_ok fp" and "0 \<le> WaitTime c" and "WaitTime c \<le> 2147"
    and "\<forall>i \<in> set is. normalized (in_time i)" and "loop_ok c s \<and> times_ok s" and "select_loop env fp is s = Inr r"
  shows "loop_ok c (result_state r) \<and> times_ok (result_state r)"
proof (rule select_loop_keeps [where P = "\<lambda>s. loop_ok c s \<and> times_ok s", OF _ assms(7,8)], intro allI impI)
  fix i s r assume i: "i \<in> set is" and s: "loop_ok c s \<and> times_ok s" and r: "select_pass env fp i s = Inr r"
  have w: "WaitTime (sl_ctl s') = WaitTime c" if "loop_ok c s'" for s'
  proof -
    have "same_options c (sl_ctl s')" using that by (simp only: loop_ok_def)
    then show ?thesis by (rule same_optionsD(2))
  qed
  show "loop_ok c (result_state r) \<and> times_ok (result_state r)"
  proof (rule select_pass_keeps [where P = "\<lambda>s. loop_ok c s \<and> times_ok s", OF _ _ _ r])
    fix t s' assume "before_select env fp i s = Inr (t, s')"
    then show "loop_ok c s' \<and> times_ok s'"
      using s i assms(6) loop_ok_before [of c s, OF _ assms(1)] before_select_times(1) [of s i] by blast
  next
    fix s' ready r assume s': "loop_ok c s' \<and> times_ok s'" and r: "after_select env fp i ready s' = Inr r"
    have "0 \<le> WaitTime (sl_ctl s')" "WaitTime (sl_ctl s') \<le> 2147" using w s' assms(4,5) by simp_all
    then show "loop_ok c (result_state r) \<and> times_ok (result_state r)"
      using loop_ok_after [OF _ assms(1,2) r] after_select_times [OF _ _ _ r] s' by blast
  next
    fix s' assume s': "loop_ok c s' \<and> times_ok s'"
    then have "1 \<le> numhosts (sl_net s')" by (simp add: loop_ok_def net_ok_def)
    then have "normalized (intervaltime (loop_head fp s'))"
      using loop_head_times [OF assms(3)] w s' assms(4,5) by simp
    with s' show "loop_ok c (loop_head fp s') \<and> times_ok (loop_head fp s')"
      by (simp add: loop_ok_def times_ok_def)
  qed
qed

text \<open>The wait that the loop gives to \<open>select\<close> is always one that \<open>select\<close> takes: whatever the
  clock, the network and the keys do, it is normalised and not negative. Unless the program polls
  (after an event, or when paused) it is not longer than the interval for one probe, as long as the
  clock has not gone back behind the last probe.\<close>

theorem wait_valid:
  assumes "ctl_ok ctl" and "net_ok ctl n" and "inet_ok env" and "fp_ok fp" and "float_ok fp"
    and "0 \<le> WaitTime ctl" and "WaitTime ctl \<le> 2147" and "0 \<le> d" and "d \<le> 2147" and "normalized now"
    and "\<forall>i \<in> set is. normalized (in_time i)" and "normalized (in_time i)"
    and "select_loop env fp is (select_start fp d now ctl n st sp) = Inr (Goes_on s)"
    and "before_select env fp i s = Inr (Some t, s')"
  shows "normalized t \<and> (\<not> anyset s \<and> \<not> paused s \<and> lasttime s \<le> in_time i \<longrightarrow> usecs t \<le> usecs (intervaltime s))"
proof -
  have "1 \<le> numhosts n" using assms(2) by (simp add: net_ok_def)
  then have "normalized (intervaltime (select_start fp d now ctl n st sp))"
    unfolding select_start_def by (intro loop_head_times [OF assms(5)]) (use assms(6,7) in simp_all)
  then have "times_ok (select_start fp d now ctl n st sp)"
    using assms(8-10) by (simp add: times_ok_def) (simp add: select_start_def)
  then have "loop_ok ctl (result_state (Goes_on s)) \<and> times_ok (result_state (Goes_on s))"
    using loop_times [OF assms(1,3,5,6,7,11) _ assms(13)] loop_start_ok [OF assms(2)] by blast
  then have s: "times_ok s" by simp
  show ?thesis
  proof (cases "anyset s \<or> paused s")
    case True
    with assms(14) have "t = Timeval 0 (if paused s then 100000 else 0)"
      by (cases rule: before_select_cases) auto
    then show ?thesis using True by (auto simp: normalized_def)
  next
    case False
    note b = before_select_times [OF s assms(12,14)]
    obtain l where l: "t = cap_wait fp s' l" "normalized l" "lasttime s \<le> in_time i \<longrightarrow> usecs l \<le> usecs (intervaltime s)"
      using b(3) [of t] False by blast
    have "normalized (dns_wait fp s')" using b(1) dns_wait_normalized [OF assms(4)] by (simp add: times_ok_def)
    from cap_wait_bounds [OF l(2) this] show ?thesis using l by auto
  qed
qed

lemma exact_float_ok: "float_ok exact_fp"
  by (simp add: float_ok_def exact_fp_def)

text \<open>A pass in which nothing arrives.\<close>

definition quiet_pass :: "timeval \<Rightarrow> pass_in" where
  "quiet_pass t = \<lparr>in_time = t, in_rand = (0, 0), in_write = \<lambda>_. True, in_dns_write = \<lambda>_. True,
     in_select = Inr (False, False, False), in_replies = Inl EAGAIN, in_dns = [],
     in_uninit = \<lparr>ack_host = [], ack_name = [], ack_ip = zero_ip\<rparr>, in_key = NUL, in_action = \<lambda>_. ActionNone\<rparr>"

lemma fresh_ok: "net_ok ctl (net_reset ctl empty_net)" if "ctl_ok ctl"
  by (rule net_reset_ok) (simp_all add: that empty_net_def is_ip_def)

theorem wait_valid_witness:
  "\<exists>t s'. before_select sample_inet exact_fp (quiet_pass (Timeval 1000 50000))
      (select_start exact_fp 0 (Timeval 1000 0) test_ctl (net_reset test_ctl empty_net) empty_dns one_row) = Inr (Some t, s')
    \<and> normalized t \<and> usecs t \<le> 100000"
proof -
  let ?s = "select_start exact_fp 0 (Timeval 1000 0) test_ctl (net_reset test_ctl empty_net) empty_dns one_row"
  let ?i = "quiet_pass (Timeval 1000 50000)"
  have iv: "intervaltime ?s = Timeval 0 100000"
    by (simp add: select_start_def loop_head_def calc_deltatime_def Let_def exact_fp_def test_ctl_def default_ctl_def
        net_reset_def c_trunc_def c_div_nonneg c_mod_nonneg)
  have d: "display_redraw (sl_ctl ?s) = NoRedraw" "lasttime ?s = Timeval 1000 0" "\<not> anyset ?s" "\<not> paused ?s" "\<not> graceperiod ?s"
    by (simp_all add: select_start_def display_redraw_def test_ctl_def default_ctl_def)
  have b: "before_select sample_inet exact_fp ?i ?s = Inr (Some (cap_wait exact_fp ?s (time_left (Timeval 1000 50000) ?s)), ?s)"
    using d iv by (simp add: before_select_def do_redraw_def interval_over_def grace_over_def quiet_pass_def Let_def)
  have w: "0 \<le> WaitTime test_ctl" "WaitTime test_ctl \<le> 2147" by (simp_all add: test_ctl_def default_ctl_def)
  have n: "normalized (Timeval 1000 0)" "normalized (in_time ?i)" by (simp_all add: normalized_def quiet_pass_def)
  have "lasttime ?s \<le> in_time ?i" by (simp add: d quiet_pass_def less_eq_timeval_def)
  then show ?thesis
    using wait_valid [OF test_ctl_ok(1) fresh_ok [OF test_ctl_ok(1)] sample_inet_ok exact_fp_ok exact_float_ok w _ _ n(1) _ n(2) _ b, of 0 "[]"]
      b d(3,4) by (simp add: iv usecs_def)
qed

text \<open>The test whether the interval since the last probe is over, which \<open>select_loop\<close> makes on
  seconds and microseconds without a carry, is never late; but where the microseconds of the last
  probe and of the interval add up to a second or more, it fires at the turn of the second, before
  the interval is over: the wait is cut short by the microseconds that exceed the second.\<close>

theorem interval_fires_early:
  assumes "normalized since" and "normalized ival" and "normalized now"
  shows "(usecs since + usecs ival \<le> usecs now \<longrightarrow> interval_over now since ival)
    \<and> (tv_usec since + tv_usec ival < 1000000 \<longrightarrow> interval_over now since ival = (usecs since + usecs ival \<le> usecs now))
    \<and> (1000000 \<le> tv_usec since + tv_usec ival \<longrightarrow>
        interval_over now since ival = (usecs since + usecs ival - (tv_usec since + tv_usec ival - 1000000) \<le> usecs now))"
  using assms by (auto simp: normalized_def interval_over_def usecs_def)

theorem interval_fires_early_witness:
  "interval_over (Timeval 1001 0) (Timeval 1000 900000) (Timeval 0 200000)
    \<and> usecs (Timeval 1001 0) < usecs (Timeval 1000 900000) + usecs (Timeval 0 200000)"
  using interval_fires_early [of "Timeval 1000 900000" "Timeval 0 200000" "Timeval 1001 0"]
  by (simp add: normalized_def usecs_def)

end
