(* ===== verification/LoopProps.thy ===== *)
theory LoopProps
  imports SelectProps
begin

text \<open>
  A report (\<open>mtr --report\<close> and the other modes without a keyboard): how many probes the loop of
  \<open>ui/select.c\<close> sends before it returns, and that it returns. The split display, drawn by the loop.
\<close>

section \<open>Counting\<close>

text \<open>The rounds that are complete and the probes of the round at hand, for options without a
  keyboard.\<close>

definition counts_ok :: "mtr_ctl \<Rightarrow> select_state \<Rightarrow> bool" where
  "counts_ok c s \<longleftrightarrow>
     fstTTL c - 1 \<le> batch_at (sl_net s) \<and> batch_at (sl_net s) \<le> maxTTL c - 1
     \<and> 0 \<le> NumPing s \<and> NumPing s \<le> MaxPing c
     \<and> (NumPing s = MaxPing c \<longrightarrow> batch_at (sl_net s) = fstTTL c - 1)
     \<and> (graceperiod s \<longrightarrow> NumPing s = MaxPing c)
     \<and> (\<forall>h \<in> {0..<int MaxHost}. h_xmit (host (sl_net s) h) \<le> NumPing s + (if fstTTL c - 1 \<le> h \<and> h < batch_at (sl_net s) then 1 else 0))
     \<and> h_xmit (host (sl_net s) (fstTTL c - 1)) = NumPing s + (if fstTTL c - 1 < batch_at (sl_net s) then 1 else 0)"

lemma counts_ok_cong:
  assumes "counts_ok c s" and "NumPing s' = NumPing s" and "graceperiod s' \<Longrightarrow> graceperiod s \<or> NumPing s = MaxPing c"
    and "same_sent (sl_net s) (sl_net s')"
  shows "counts_ok c s'"
  using assms unfolding counts_ok_def same_sent_def by auto

lemma same_sent_refl [simp]: "same_sent n n"
  by (simp add: same_sent_def)

text \<open>One probe.\<close>

lemma counts_send:
  assumes "counts_ok c s" and "loop_ok c s" and "\<not> graceperiod s" and "NumPing s < MaxPing c"
    and "net_send_batch env write_ok fp r1 r2 (sl_ctl s) (sl_net s) = Inr (v, ctl, n)"
  shows "counts_ok c (s\<lparr>lasttime := t, sl_ctl := ctl, sl_net := n, NumPing := (if v \<noteq> 0 then NumPing s + 1 else NumPing s)\<rparr>)"
proof -
  have o: "same_options c (sl_ctl s)" "net_ok (sl_ctl s) (sl_net s)"
    using assms(2) same_options_ok(2) [of c "sl_ctl s"] by (simp_all add: loop_ok_def)
  have x: "h_xmit (host n h) = h_xmit (host (sl_net s) h) + (if h = batch_at (sl_net s) then 1 else 0)" for h
    using batch_shape [OF o(2) assms(5)] by blast
  have v: "v = 1 \<and> batch_at n = fstTTL c - 1 \<or> v = 0 \<and> batch_at n = batch_at (sl_net s) + 1 \<and> batch_at (sl_net s) < maxTTL c - 1"
    using batch_shape [OF o(2) assms(5)] same_optionsD(6,7) [OF o(1)] by simp
  note k = assms(1) [unfolded counts_ok_def]
  have b: "fstTTL c - 1 \<le> batch_at (sl_net s)" using k by simp
  show ?thesis
    using v
  proof (elim disjE conjE)
    assume v1: "v = 1" "batch_at n = fstTTL c - 1"
    have "h_xmit (host n h) \<le> NumPing s + 1" if h: "h \<in> {0..<int MaxHost}" for h
      using bspec [OF k [THEN conjunct2, THEN conjunct2, THEN conjunct2, THEN conjunct2, THEN conjunct2, THEN conjunct2, THEN conjunct1] h]
      using b by (auto simp: x split: if_split_asm)
    moreover have "h_xmit (host n (fstTTL c - 1)) = NumPing s + 1" using k by (auto simp: x)
    moreover have "fstTTL c - 1 \<le> maxTTL c - 1" using k by simp
    ultimately show ?thesis using v1 k assms(3,4) by (simp add: counts_ok_def)
  next
    assume v0: "v = 0" "batch_at n = batch_at (sl_net s) + 1" "batch_at (sl_net s) < maxTTL c - 1"
    have "h_xmit (host n h) \<le> NumPing s + (if fstTTL c - 1 \<le> h \<and> h < batch_at (sl_net s) + 1 then 1 else 0)" if h: "h \<in> {0..<int MaxHost}" for h
      using bspec [OF k [THEN conjunct2, THEN conjunct2, THEN conjunct2, THEN conjunct2, THEN conjunct2, THEN conjunct2, THEN conjunct1] h]
      using b by (auto simp: x split: if_split_asm)
    moreover have "h_xmit (host n (fstTTL c - 1)) = NumPing s + 1" using k by (auto simp: x)
    ultimately show ?thesis using v0 k assms(3,4) by (simp add: counts_ok_def)
  qed
qed

lemma counts_before:
  assumes "counts_ok c s" and "loop_ok c s" and "\<not> Interactive c" and "before_select env fp i s = Inr (t, s')"
  shows "counts_ok c s'"
  using assms(4)
proof (cases rule: before_select_cases)
  case poll
  with assms(1) show ?thesis by simp
next
  case (turn s1)
  have o: "same_options c (sl_ctl s)" using assms(2) by (simp add: loop_ok_def)
  note od = same_optionsD [OF o]
  have s1: "s1 = s" using turn(4) assms(3) od(11) by simp
  show ?thesis
  proof (cases "interval_over (in_time i) (lasttime s) (intervaltime s)")
    case False
    with turn(5) s1 assms(1) show ?thesis by simp
  next
    case True
    then have "send_turn env fp i s = Inr s'" using turn(5) s1 by simp
    then show ?thesis
    proof (cases rule: send_turn_cases)
      case grace
      then show ?thesis by (intro counts_ok_cong [OF assms(1)]) auto
    next
      case begins
      then have "NumPing s = MaxPing c" using assms(1) od(1) by (simp add: counts_ok_def)
      with begins show ?thesis by (intro counts_ok_cong [OF assms(1)]) auto
    next
      case (sends v ctl n)
      then have "NumPing s < MaxPing c" using assms(3) od(1,11) by simp
      from counts_send [OF assms(1,2) sends(1) this sends(3)] show ?thesis unfolding sends(4) .
    qed
  qed
qed

lemma counts_after:
  assumes "counts_ok c s" and "loop_ok c s" and "ctl_ok c" and "inet_ok env" and "\<not> Interactive c"
    and "after_select env fp i ready s = Inr r"
  shows "\<not> is_Finished r \<and> counts_ok c (result_state r)"
  using assms(6)
proof (cases rule: after_select_cases)
  case (1 s2)
  have o: "same_options c (sl_ctl s)" "net_ok (sl_ctl s) (sl_net s)" "ctl_ok (sl_ctl s)"
    using assms(2,3) same_options_ok [of c "sl_ctl s"] by (simp_all add: loop_ok_def)
  have r: "r = Goes_on s2" using 1(6) assms(5) same_optionsD(11) [OF o(1)] by simp
  have "same_sent (sl_net s) (sl_net s2)"
    using 1(3) process_return_sent [OF o(2,3) assms(4)] by auto
  then have "counts_ok c s2"
    using loop_coreD(1,4) [OF 1(2)] by (intro counts_ok_cong [OF assms(1)]) simp_all
  with r show ?thesis by simp
qed

lemma counts_pass:
  assumes "counts_ok c s \<and> loop_ok c s" and "ctl_ok c" and "inet_ok env" and "\<not> Interactive c"
    and "select_pass env fp i s = Inr r"
  shows "counts_ok c (result_state r) \<and> loop_ok c (result_state r)"
proof (rule select_pass_keeps [where P = "\<lambda>s. counts_ok c s \<and> loop_ok c s", OF _ _ _ assms(5)])
  fix t s' assume b: "before_select env fp i s = Inr (t, s')"
  show "counts_ok c s' \<and> loop_ok c s'"
    using counts_before [OF _ _ assms(4) b] loop_ok_before [OF _ assms(2) b] assms(1) by blast
next
  fix s' ready r assume s': "counts_ok c s' \<and> loop_ok c s'" and a: "after_select env fp i ready s' = Inr r"
  show "counts_ok c (result_state r) \<and> loop_ok c (result_state r)"
    using counts_after [OF _ _ assms(2-4) a] loop_ok_after [OF _ assms(2,3) a] s' by blast
next
  fix s' assume "counts_ok c s' \<and> loop_ok c s'"
  then show "counts_ok c (loop_head fp s') \<and> loop_ok c (loop_head fp s')"
    by (simp add: counts_ok_def loop_ok_def)
qed

text \<open>Without a keyboard the loop only returns at the end of the grace period.\<close>

lemma finished_grace:
  assumes "counts_ok c s \<and> loop_ok c s" and "ctl_ok c" and "inet_ok env" and "\<not> Interactive c"
    and "select_pass env fp i s = Inr (Finished s')"
  shows "graceperiod s'"
proof -
  obtain t s1 where b: "before_select env fp i s = Inr (t, s1)"
    and r: "(case t of None \<Rightarrow> Inr (Finished s1) | Some _ \<Rightarrow>
            (case in_select i of
               Inl e \<Rightarrow> if e = EINTR then Inr (Goes_on s1) else Inl ''Select failed''
             | Inr ready \<Rightarrow> and_then (after_select env fp i ready s1)
                   (\<lambda>r. Inr (case r of Finished s \<Rightarrow> Finished s | Goes_on s \<Rightarrow> Goes_on (loop_head fp s))))) = Inr (Finished s')"
    using assms(5) by (auto simp: select_pass_def and_then_Inr)
  have s1: "counts_ok c s1" "loop_ok c s1"
    using counts_before [OF _ _ assms(4) b] loop_ok_before [OF _ assms(2) b] assms(1) by blast+
  show ?thesis
  proof (cases t)
    case None
    with r have "s' = s1" by simp
    moreover have "grace_over fp (in_time i) s1"
      using b None by (cases rule: before_select_cases) (auto split: if_splits)
    ultimately show ?thesis by (simp add: grace_over_def)
  next
    case (Some t)
    with r obtain ready where "in_select i = Inr ready" by (cases "in_select i") (auto split: if_splits)
    with r Some obtain r1 where a: "after_select env fp i ready s1 = Inr r1"
      and f: "(case r1 of Finished s \<Rightarrow> Finished s | Goes_on s \<Rightarrow> Goes_on (loop_head fp s)) = Finished s'"
      by (auto simp: and_then_Inr)
    from f have "is_Finished r1" by (cases r1) simp_all
    with counts_after [OF s1 assms(2-4) a] show ?thesis by simp
  qed
qed

lemma counts_start:
  assumes "ctl_ok ctl" and "0 \<le> MaxPing ctl" and "batch_at n = fstTTL ctl - 1"
    and "\<forall>h \<in> {0..<int MaxHost}. net_xmit n h = 0"
  shows "counts_ok ctl (select_start fp d now ctl n st sp)"
proof -
  have "fstTTL ctl - 1 \<in> {0..<int MaxHost}" using assms(1) by (simp add: ctl_ok_def)
  with assms(4) have "h_xmit (host n (fstTTL ctl - 1)) = 0" by (simp only: net_xmit_def)
  with assms show ?thesis
    by (simp add: counts_ok_def select_start_def net_xmit_def ctl_ok_def)
qed

text \<open>C22: A report sends the probes that were asked for. Without a keyboard, from fresh tables,
  whatever the network and the clock do: when the loop returns it has completed exactly the number
  of rounds of \<open>-c\<close>, it has sent exactly that many probes to the first hop, and to no hop more
  than that.\<close>

theorem report_sends_exactly:
  assumes "ctl_ok ctl" and "net_ok ctl n" and "inet_ok env" and "\<not> Interactive ctl" and "0 \<le> MaxPing ctl"
    and "batch_at n = fstTTL ctl - 1" and "\<forall>h \<in> {0..<int MaxHost}. net_xmit n h = 0"
    and "select_loop env fp is (select_start fp d now ctl n st sp) = Inr (Finished s)"
  shows "NumPing s = MaxPing ctl \<and> net_xmit (sl_net s) (fstTTL ctl - 1) = MaxPing ctl
    \<and> (\<forall>h \<in> {0..<int MaxHost}. net_xmit (sl_net s) h \<le> MaxPing ctl)"
proof -
  have "select_loop env fp is s0 = Inr (Finished s) \<Longrightarrow> counts_ok ctl s0 \<and> loop_ok ctl s0
      \<Longrightarrow> counts_ok ctl s \<and> graceperiod s" for s0
  proof (induction "is" arbitrary: s0)
    case (Cons i "is")
    then obtain r where r: "select_pass env fp i s0 = Inr r"
      and x: "(case r of Finished s \<Rightarrow> Inr (Finished s) | Goes_on s \<Rightarrow> select_loop env fp is s) = Inr (Finished s)"
      by (auto simp: and_then_Inr)
    have ok: "counts_ok ctl (result_state r) \<and> loop_ok ctl (result_state r)"
      by (rule counts_pass [OF Cons.prems(2) assms(1,3,4) r])
    show ?case
    proof (cases r)
      case (Finished s1)
      with x r ok finished_grace [OF Cons.prems(2) assms(1,3,4)] show ?thesis by simp
    next
      case (Goes_on s1)
      show ?thesis by (rule Cons.IH) (use x ok Goes_on in simp_all)
    qed
  qed simp
  then have c: "counts_ok ctl s" "graceperiod s"
    using assms(8) counts_start [OF assms(1,5-7)] loop_start_ok [OF assms(2)] by blast+
  then have "NumPing s = MaxPing ctl" "batch_at (sl_net s) = fstTTL ctl - 1" by (simp_all add: counts_ok_def)
  moreover have "\<not> (fstTTL ctl - 1 \<le> h \<and> h < fstTTL ctl - 1)" for h by simp
  ultimately show ?thesis using c(1) by (simp only: counts_ok_def net_xmit_def if_False) simp
qed

section \<open>A report ends\<close>

text \<open>The probes that a report still has to send, at most.\<close>

definition probes_left :: "mtr_ctl \<Rightarrow> select_state \<Rightarrow> int" where
  "probes_left c s = (MaxPing c - NumPing s) * maxTTL c - (batch_at (sl_net s) - (fstTTL c - 1))"

text \<open>Nothing arrives while \<open>select\<close> waits, and the pipe to \<open>mtr-packet\<close> takes the requests.\<close>

definition quiet :: "pass_in \<Rightarrow> bool" where
  "quiet i \<longleftrightarrow> in_select i = Inr (False, False, False) \<and> in_write i = (\<lambda>_. True) \<and> normalized (in_time i)"

text \<open>A state between quiet passes; an interval takes at most \<open>k\<close> seconds.\<close>

definition idle :: "mtr_ctl \<Rightarrow> int \<Rightarrow> select_state \<Rightarrow> bool" where
  "idle c k s \<longleftrightarrow> counts_ok c s \<and> loop_ok c s \<and> \<not> anyset s \<and> \<not> paused s
     \<and> normalized (lasttime s) \<and> normalized (intervaltime s) \<and> tv_sec (intervaltime s) \<le> k"

lemma loop_head_interval:
  assumes "float_ok fp" and "loop_ok c s" and "0 \<le> WaitTime c" and "WaitTime c \<le> of_int k" and "k \<le> 16"
  shows "normalized (intervaltime (loop_head fp s))" and "tv_sec (intervaltime (loop_head fp s)) \<le> k"
proof -
  have "same_options c (sl_ctl s)" and n: "1 \<le> numhosts (sl_net s)" using assms(2) by (simp_all add: loop_ok_def net_ok_def)
  then have w: "WaitTime (sl_ctl s) = WaitTime c" by (intro same_optionsD(2))
  have "(of_int k :: rat) \<le> of_int 16" using assms(5) by (simp only: of_int_le_iff)
  then have w2: "WaitTime c \<le> 2147" using assms(4) by simp
  show "normalized (intervaltime (loop_head fp s))"
    by (rule loop_head_times [OF assms(1) n]) (use w w2 assms(3) in simp_all)
  note d = calc_deltatime_bounds [OF assms(1) n assms(3) w2]
  have "calc_deltatime fp (sl_net s) (WaitTime c) div 1000000 \<le> k"
    using d(2) [OF assms(4,5)] by simp
  then show "tv_sec (intervaltime (loop_head fp s)) \<le> k"
    using d(1) by (simp add: loop_head_def Let_def w c_div_nonneg)
qed

text \<open>After a quiet wait nothing has changed but the interval.\<close>

lemma quiet_after:
  assumes "quiet i" and "\<not> anyset s" and "\<not> paused s"
    and "(if interval_over (in_time i) (lasttime s) (intervaltime s) then send_turn env fp i s else Inr s) = Inr s1"
    and "\<not> Interactive (sl_ctl s)" and "\<not> Interactive (sl_ctl s1)"
  shows "\<exists>s2. select_pass env fp i s = Inr (if grace_over fp (in_time i) s1 then Finished s1 else Goes_on (loop_head fp s2))
    \<and> sl_ctl s2 = sl_ctl s1 \<and> sl_net s2 = sl_net s1 \<and> loop_core s2 = loop_core s1 \<and> \<not> anyset s2"
proof -
  let ?s2 = "if dns (sl_ctl s1) then s1\<lparr>anyset := False, dnsinterval := WaitTime (sl_ctl s1)\<rparr> else s1\<lparr>anyset := False\<rparr>"
  have a: "after_select env fp i (False, False, False) s1 = Inr (Goes_on ?s2)"
    using assms(6) by (simp add: after_select_def Let_def)
  have b: "before_select env fp i s = Inr (if grace_over fp (in_time i) s1 then None
      else Some (cap_wait fp s1 (time_left (in_time i) s1)), s1)"
    using assms(2-5) by (simp add: before_select_def Let_def)
  have "in_select i = Inr (False, False, False)" using assms(1) by (simp add: quiet_def)
  with a b have "select_pass env fp i s = Inr (if grace_over fp (in_time i) s1 then Finished s1 else Goes_on (loop_head fp ?s2))"
    by (simp add: select_pass_def)
  moreover have "sl_ctl ?s2 = sl_ctl s1" "sl_net ?s2 = sl_net s1" "loop_core ?s2 = loop_core s1" "\<not> anyset ?s2"
    by (simp_all add: loop_core_def)
  ultimately show ?thesis by blast
qed

lemma interval_over_later:
  assumes "normalized since" and "tv_sec ival \<le> k" and "tv_sec since + k < tv_sec now"
  shows "interval_over now since ival"
  using assms by (simp add: interval_over_def)

lemma idle_options:
  assumes "idle c k s"
  shows "same_options c (sl_ctl s)" and "counts_ok c s" and "loop_ok c s" and "net_ok (sl_ctl s) (sl_net s)"
    and "\<not> anyset s" and "\<not> paused s" and "normalized (lasttime s)" and "tv_sec (intervaltime s) \<le> k"
  using assms same_options_ok(2) [of c "sl_ctl s"] by (simp_all add: idle_def loop_ok_def)

text \<open>A quiet pass goes on, with the new state idle again.\<close>

lemma quiet_goes_on:
  assumes "ctl_ok c" and "float_ok fp" and "\<not> Interactive c" and "0 \<le> WaitTime c" and "WaitTime c \<le> of_int k" and "k \<le> 16"
    and "idle c k s" and "quiet i" and "tv_sec (lasttime s) + k < tv_sec (in_time i)"
    and "send_turn env fp i s = Inr s1" and "\<not> grace_over fp (in_time i) s1" and "counts_ok c s1"
  shows "\<exists>s'. select_pass env fp i s = Inr (Goes_on s') \<and> idle c k s' \<and> lasttime s' = in_time i
    \<and> graceperiod s' = graceperiod s1 \<and> startgrace s' = startgrace s1 \<and> NumPing s' = NumPing s1 \<and> sl_net s' = sl_net s1"
proof -
  note o = idle_options [OF assms(7)]
  have over: "interval_over (in_time i) (lasttime s) (intervaltime s)"
    by (rule interval_over_later [OF o(7,8) assms(9)])
  have "before_select env fp i s = Inr (Some (cap_wait fp s1 (time_left (in_time i) s1)), s1)"
    using assms(3,10,11) over o(5,6) same_optionsD(11) [OF o(1)] by (simp add: before_select_def Let_def)
  from loop_ok_before [OF o(3) assms(1) this] have l1: "loop_ok c s1" .
  then have i1: "\<not> Interactive (sl_ctl s1)" "\<not> Interactive (sl_ctl s)"
    using same_optionsD(11) [of c] o(1) assms(3) by (simp_all add: loop_ok_def)
  obtain s2 where p: "select_pass env fp i s = Inr (Goes_on (loop_head fp s2))"
    and s2: "sl_ctl s2 = sl_ctl s1" "sl_net s2 = sl_net s1" "loop_core s2 = loop_core s1" "\<not> anyset s2"
    using quiet_after [OF assms(8) o(5,6) _ i1(2,1), of env fp] over assms(10,11) by auto
  note k2 = loop_coreD [OF s2(3)]
  have l2: "loop_ok c s2" using l1 s2 by (simp add: loop_ok_def)
  have "counts_ok c (loop_head fp s2)"
    by (rule counts_ok_cong [OF assms(12)]) (use k2 s2 in simp_all)
  moreover have "loop_ok c (loop_head fp s2)" using l2 by (simp add: loop_ok_def)
  moreover have "paused s1 = paused s" "lasttime s1 = in_time i"
    using assms(10) by (cases rule: send_turn_cases; simp)+
  moreover have "normalized (in_time i)" using assms(8) by (simp add: quiet_def)
  moreover note loop_head_interval [OF assms(2) l2 assms(4-6)]
  ultimately have "idle c k (loop_head fp s2)" using s2 k2 o(6) by (simp add: idle_def)
  then show ?thesis using p k2 s2(2) \<open>lasttime s1 = in_time i\<close> by (intro exI [of _ "loop_head fp s2"]) simp
qed

lemma quiet_sends:
  assumes "ctl_ok c" and "inet_ok env" and "float_ok fp" and "\<not> Interactive c" and "0 \<le> WaitTime c" and "WaitTime c \<le> of_int k"
    and "k \<le> 16" and "sendable c"
    and "idle c k s" and "quiet i" and "tv_sec (lasttime s) + k < tv_sec (in_time i)"
    and "\<not> graceperiod s" and "NumPing s < MaxPing c"
  shows "\<exists>s'. select_pass env fp i s = Inr (Goes_on s') \<and> idle c k s' \<and> lasttime s' = in_time i
    \<and> \<not> graceperiod s' \<and> probes_left c s' < probes_left c s"
proof -
  note o = idle_options [OF assms(9)]
  note d = same_optionsD [OF o(1)]
  have "ctl_ok (sl_ctl s)" "sendable (sl_ctl s)" "\<forall>w. in_write i w"
    using assms(1,8,10) same_options_ok(1) [OF o(1)] d(8,13) by (simp_all add: quiet_def sendable_def)
  then obtain v ctl n where b: "net_send_batch env (in_write i) fp (fst (in_rand i)) (snd (in_rand i)) (sl_ctl s) (sl_net s) = Inr (v, ctl, n)"
    using batch_total [OF o(4) _ assms(2), of "in_write i" fp "fst (in_rand i)" "snd (in_rand i)"] by blast
  let ?s1 = "s\<lparr>lasttime := in_time i, sl_ctl := ctl, sl_net := n, NumPing := (if v \<noteq> 0 then NumPing s + 1 else NumPing s)\<rparr>"
  have t: "send_turn env fp i s = Inr ?s1"
    using assms(12,13) b d(1) by (simp add: send_turn_def Let_def)
  have c1: "counts_ok c ?s1" by (rule counts_send [OF o(2,3) assms(12,13) b])
  have g: "\<not> grace_over fp (in_time i) ?s1" using assms(12) by (simp add: grace_over_def)
  obtain s' where s': "select_pass env fp i s = Inr (Goes_on s')" "idle c k s'" "lasttime s' = in_time i"
    "graceperiod s' = graceperiod ?s1" "NumPing s' = NumPing ?s1" "sl_net s' = sl_net ?s1"
    using quiet_goes_on [OF assms(1,3,4-7,9-11) t g c1] by blast
  have v: "v = 1 \<and> batch_at n = fstTTL c - 1 \<or> v = 0 \<and> batch_at n = batch_at (sl_net s) + 1"
    using batch_shape [OF o(4) b] d(6) by auto
  have "batch_at (sl_net s) \<le> maxTTL c - 1" "1 \<le> fstTTL c" using o(2) assms(1) by (simp_all add: counts_ok_def ctl_ok_def)
  then have "probes_left c s' < probes_left c s"
    using v by (auto simp: probes_left_def s'(5,6) left_diff_distrib ring_distribs)
  then show ?thesis using s' assms(12) by auto
qed

lemma grace_time:
  assumes "float_ok fp" and "0 \<le> g" and "g \<le> of_int k" and "k \<le> 16"
  shows "0 \<le> rndf fp (rndf fp (g * 1000) * 1000)" and "rndf fp (rndf fp (g * 1000) * 1000) \<le> of_int (1000000 * k)"
proof -
  have k: "0 \<le> k" using assms(2,3) by (metis of_int_0_le_iff order_trans)
  have a: "0 \<le> rndf fp (g * 1000) \<and> rndf fp (g * 1000) \<le> of_int (1000 * k)"
    by (rule float_bounds [OF assms(1)]) (use assms k in simp_all)
  have b: "0 \<le> rndf fp (rndf fp (g * 1000) * 1000) \<and> rndf fp (rndf fp (g * 1000) * 1000) \<le> of_int (1000000 * k)"
    by (rule float_bounds [OF assms(1)]) (use a assms k in simp_all)
  then show "0 \<le> rndf fp (rndf fp (g * 1000) * 1000)" "rndf fp (rndf fp (g * 1000) * 1000) \<le> of_int (1000000 * k)"
    by blast+
qed

lemma quiet_begins_grace:
  assumes "ctl_ok c" and "float_ok fp" and "\<not> Interactive c" and "0 \<le> WaitTime c" and "WaitTime c \<le> of_int k" and "k \<le> 16"
    and "0 \<le> GraceTime c" and "GraceTime c \<le> of_int k"
    and "idle c k s" and "quiet i" and "tv_sec (lasttime s) + k < tv_sec (in_time i)"
    and "\<not> graceperiod s" and "\<not> NumPing s < MaxPing c"
  shows "\<exists>s'. select_pass env fp i s = Inr (Goes_on s') \<and> idle c k s' \<and> lasttime s' = in_time i
    \<and> graceperiod s' \<and> startgrace s' = in_time i"
proof -
  note o = idle_options [OF assms(9)]
  note d = same_optionsD [OF o(1)]
  let ?s1 = "s\<lparr>lasttime := in_time i, graceperiod := True, startgrace := in_time i\<rparr>"
  have n: "NumPing s = MaxPing c" using o(2) assms(13) by (simp add: counts_ok_def)
  have t: "send_turn env fp i s = Inr ?s1"
    using assms(3,12,13) d(1,11) by (simp add: send_turn_def Let_def)
  have c1: "counts_ok c ?s1" by (rule counts_ok_cong [OF o(2)]) (use n in simp_all)
  have "rndf fp 0 = 0" using float_exact [OF assms(2), of 0] by simp
  then have g: "\<not> grace_over fp (in_time i) ?s1"
    using grace_time(1) [OF assms(2,7,8,6)] d(3) by (simp add: grace_over_def Let_def to_int32_id is_int32_def)
  show ?thesis using quiet_goes_on [OF assms(1-6,9-11) t g c1]
    by auto
qed

lemma quiet_ends:
  assumes "float_ok fp" and "\<not> Interactive c" and "k \<le> 16" and "0 \<le> GraceTime c" and "GraceTime c \<le> of_int k"
    and "idle c k s" and "quiet i" and "tv_sec (lasttime s) + k < tv_sec (in_time i)"
    and "tv_sec (in_time i) \<le> tv_sec (lasttime s) + 1000" and "graceperiod s" and "startgrace s = lasttime s"
  shows "\<exists>s'. select_pass env fp i s = Inr (Finished s')"
proof -
  note o = idle_options [OF assms(6)]
  note d = same_optionsD [OF o(1)]
  have over: "interval_over (in_time i) (lasttime s) (intervaltime s)"
    by (rule interval_over_later [OF o(7,8) assms(8)])
  let ?s1 = "s\<lparr>lasttime := in_time i\<rparr>"
  have t: "send_turn env fp i s = Inr ?s1" using assms(10) by (simp add: send_turn_def)
  define e where "e = tv_usec (in_time i) - tv_usec (lasttime s) + 1000000 * (tv_sec (in_time i) - tv_sec (lasttime s))"
  have n: "normalized (in_time i)" "normalized (lasttime s)" using assms(7) o(7) by (simp_all add: quiet_def)
  have k0: "0 \<le> k" using assms(4,5) by (metis of_int_0_le_iff order_trans)
  have e: "1000000 * k + 1 \<le> e" "e \<le> 1001000000" using n assms(8,9) by (auto simp: e_def normalized_def)
  have "rndf fp (of_int (1000000 * k + 1)) \<le> rndf fp (of_int e)"
  proof (rule float_mono [OF assms(1)])
    have "(of_int e :: rat) \<le> of_int 1001000000" using e(2) by (simp only: of_int_le_iff)
    then show "(of_int e :: rat) \<le> 2 ^ 127" by simp
    show "(of_int (1000000 * k + 1) :: rat) \<le> of_int e" using e(1) by (simp only: of_int_le_iff)
  qed (use k0 in simp)
  moreover have "rndf fp (of_int (1000000 * k + 1)) = of_int (1000000 * k + 1)"
    by (rule float_exact [OF assms(1)]) (use k0 assms(3) in simp_all)
  moreover have "(of_int (1000000 * k) :: rat) < of_int (1000000 * k + 1)" by (simp only: of_int_less_iff)
  ultimately have "rndf fp (rndf fp (GraceTime c * 1000) * 1000) < rndf fp (of_int e)"
    using grace_time(2) [OF assms(1,4,5,3)] by linarith
  moreover have "to_int32 e = e" using e k0 by (intro to_int32_id) (simp add: is_int32_def)
  ultimately have g: "grace_over fp (in_time i) ?s1"
    using assms(10,11) d(3) by (simp add: grace_over_def Let_def e_def)
  have "\<not> Interactive (sl_ctl s)" using d(11) assms(2) by simp
  then have "before_select env fp i s = Inr (None, ?s1)"
    using over t g o(5,6) by (simp add: before_select_def Let_def)
  then show ?thesis by (simp add: select_pass_def)
qed

text \<open>The clock, read in each pass, goes on by more than \<open>k\<close> seconds and at most 1000.\<close>

primrec spaced :: "int \<Rightarrow> timeval \<Rightarrow> pass_in list \<Rightarrow> bool" where
  "spaced k t [] \<longleftrightarrow> True"
| "spaced k t (i # is) \<longleftrightarrow> tv_sec t + k < tv_sec (in_time i) \<and> tv_sec (in_time i) \<le> tv_sec t + 1000 \<and> spaced k (in_time i) is"

lemma idle_ends:
  assumes "ctl_ok ctl" and "inet_ok env" and "float_ok fp" and "\<not> Interactive ctl"
    and "0 \<le> WaitTime ctl" and "WaitTime ctl \<le> of_int k" and "0 \<le> GraceTime ctl" and "GraceTime ctl \<le> of_int k" and "k \<le> 16"
    and "sendable ctl"
    and "idle ctl k s" and "\<not> graceperiod s" and "\<forall>i \<in> set is. quiet i" and "spaced k (lasttime s) is"
    and "probes_left ctl s + 2 \<le> int (length is)"
  shows "\<exists>s'. select_loop env fp is s = Inr (Finished s')"
  using assms(11-15)
proof (induction "is" arbitrary: s)
  case Nil
  then have c: "counts_ok ctl s" by (simp add: idle_def)
  have "0 \<le> probes_left ctl s"
  proof (cases "NumPing s = MaxPing ctl")
    case True
    with c show ?thesis by (simp add: probes_left_def counts_ok_def)
  next
    case False
    then have "1 \<le> MaxPing ctl - NumPing s" using c by (simp add: counts_ok_def)
    then have "1 * maxTTL ctl \<le> (MaxPing ctl - NumPing s) * maxTTL ctl"
      using assms(1) by (intro mult_right_mono) (simp_all add: ctl_ok_def)
    moreover have "batch_at (sl_net s) \<le> maxTTL ctl - 1" "1 \<le> fstTTL ctl" using c assms(1) by (simp_all add: counts_ok_def ctl_ok_def)
    ultimately show ?thesis unfolding probes_left_def by linarith
  qed
  with Nil show ?case by simp
next
  case (Cons i "is")
  then have i: "quiet i" "tv_sec (lasttime s) + k < tv_sec (in_time i)" "spaced k (in_time i) is" by simp_all
  show ?case
  proof (cases "NumPing s < MaxPing ctl")
    case True
    obtain s1 where s1: "select_pass env fp i s = Inr (Goes_on s1)" "idle ctl k s1" "lasttime s1 = in_time i"
      "\<not> graceperiod s1" "probes_left ctl s1 < probes_left ctl s"
      using quiet_sends [OF assms(1-6,9,10) Cons.prems(1) i(1,2) Cons.prems(2) True] by blast
    then have "\<exists>s'. select_loop env fp is s1 = Inr (Finished s')"
      using Cons.prems(3,5) i(3) by (intro Cons.IH) auto
    with s1(1) show ?thesis by simp
  next
    case False
    obtain s1 where s1: "select_pass env fp i s = Inr (Goes_on s1)" "idle ctl k s1" "lasttime s1 = in_time i"
      "graceperiod s1" "startgrace s1 = in_time i"
      using quiet_begins_grace [OF assms(1,3-6,9,7,8) Cons.prems(1) i(1,2) Cons.prems(2) False] by blast
    have "counts_ok ctl s" using Cons.prems(1) by (simp add: idle_def)
    then have "probes_left ctl s = 0" using False by (simp add: probes_left_def counts_ok_def)
    then obtain j js where js: "is = j # js" using Cons.prems(5) by (cases "is") auto
    have j: "quiet j" "tv_sec (lasttime s1) + k < tv_sec (in_time j)" "tv_sec (in_time j) \<le> tv_sec (lasttime s1) + 1000"
      using Cons.prems(3) i(3) s1(3) js by simp_all
    obtain s2 where "select_pass env fp j s1 = Inr (Finished s2)"
      using quiet_ends [OF assms(3,4,9,7,8) s1(2) j s1(4)] s1(3,5) by auto
    with s1(1) js show ?thesis by simp
  qed
qed

lemma idle_start:
  assumes "ctl_ok ctl" and "net_ok ctl n" and "float_ok fp" and "0 \<le> MaxPing ctl"
    and "0 \<le> WaitTime ctl" and "WaitTime ctl \<le> of_int k" and "k \<le> 16"
    and "batch_at n = fstTTL ctl - 1" and "\<forall>h \<in> {0..<int MaxHost}. net_xmit n h = 0" and "normalized now"
  shows "idle ctl k (select_start fp d now ctl n st sp)"
    and "probes_left ctl (select_start fp d now ctl n st sp) = MaxPing ctl * maxTTL ctl"
    and "lasttime (select_start fp d now ctl n st sp) = now" and "\<not> graceperiod (select_start fp d now ctl n st sp)"
proof -
  let ?s = "select_start fp d now ctl n st sp"
  have "normalized (intervaltime (loop_head fp s0)) \<and> tv_sec (intervaltime (loop_head fp s0)) \<le> k"
    if "sl_ctl s0 = ctl" "sl_net s0 = n" for s0
  proof -
    have l: "loop_ok ctl s0" using that assms(2) by (simp add: loop_ok_def)
    show ?thesis using loop_head_interval [OF assms(3) l assms(5-7)] by blast
  qed
  then have "tv_sec (intervaltime ?s) \<le> k" "normalized (intervaltime ?s)"
    unfolding select_start_def by simp_all
  then show "idle ctl k ?s"
    using counts_start [OF assms(1,4,8,9), of fp d now st sp] loop_start_ok [OF assms(2), of fp d now st sp] assms(10)
    by (simp add: idle_def) (simp add: select_start_def)
  show "probes_left ctl ?s = MaxPing ctl * maxTTL ctl" "lasttime ?s = now" "\<not> graceperiod ?s"
    using assms(8) by (simp_all add: probes_left_def select_start_def)
qed


text \<open>A small report: one hop, one round.\<close>

definition small_ctl :: mtr_ctl where
  "small_ctl = test_ctl\<lparr>Interactive := False, maxTTL := 1, MaxPing := 1\<rparr>"

definition small_start :: select_state where
  "small_start = select_start exact_fp 0 (Timeval 1000 0) small_ctl (net_reset small_ctl empty_net) empty_dns one_row"

definition small_passes :: "pass_in list" where
  "small_passes = map (\<lambda>t. quiet_pass (Timeval t 0)) [1006, 1012, 1018]"

lemma small_ok:
  "ctl_ok small_ctl" "\<not> Interactive small_ctl" "0 \<le> MaxPing small_ctl" "0 \<le> WaitTime small_ctl"
  "WaitTime small_ctl \<le> of_int 5" "0 \<le> GraceTime small_ctl" "GraceTime small_ctl \<le> of_int 5"
  "sendable small_ctl" "batch_at (net_reset small_ctl empty_net) = fstTTL small_ctl - 1"
  "\<forall>h \<in> {0..<int MaxHost}. net_xmit (net_reset small_ctl empty_net) h = 0"
  by (simp_all add: small_ctl_def test_ctl_def default_ctl_def ctl_ok_def protocol_name_def sendable_def net_reset_def net_xmit_def template_host_def)

lemma small_quiet: "\<forall>i \<in> set small_passes. quiet i" "spaced 5 (Timeval 1000 0) small_passes"
  by (simp_all add: small_passes_def quiet_pass_def quiet_def normalized_def)

lemma small_size: "MaxPing small_ctl * maxTTL small_ctl + 2 \<le> int (length small_passes)"
  by (simp add: small_ctl_def small_passes_def)


theorem report_sends_exactly_witness:
  "\<exists>s. select_loop sample_inet exact_fp small_passes small_start = Inr (Finished s) \<and> net_xmit (sl_net s) 0 = 1"
proof -
  have five: "(5 :: int) \<le> 16" "normalized (Timeval 1000 0)" by (simp_all add: normalized_def)
  note i = idle_start [OF small_ok(1) fresh_ok [OF small_ok(1)] exact_float_ok small_ok(3,4,5) five(1) small_ok(9,10) five(2),
      of 0 empty_dns one_row]
  have left: "probes_left small_ctl small_start + 2 \<le> int (length small_passes)"
    using small_size unfolding small_start_def i(2) .
  obtain s where s: "select_loop sample_inet exact_fp small_passes small_start = Inr (Finished s)"
    using idle_ends [OF small_ok(1) sample_inet_ok exact_float_ok small_ok(2,4,5,6,7) five(1) small_ok(8) i(1,4), folded small_start_def,
        OF small_quiet(1) _ left] small_quiet(2) i(3) unfolding small_start_def by auto
  have "MaxPing small_ctl = 1" "fstTTL small_ctl = 1" by (simp_all add: small_ctl_def test_ctl_def default_ctl_def)
  then show ?thesis
    using report_sends_exactly [OF small_ok(1) fresh_ok [OF small_ok(1)] sample_inet_ok small_ok(2,3,9,10) s [unfolded small_start_def]] s
    by auto
qed

section \<open>The split display in the loop\<close>

definition split_shown :: "select_state \<Rightarrow> bool" where
  "split_shown s \<longleftrightarrow> follows (sl_split s) (client_lines (split_out (sl_split s)) Map.empty)"

lemma redraw_shown:
  assumes "split_shown s" and "ctl_ok (sl_ctl s)"
  shows "split_shown (do_redraw env fp i s)"
proof (cases "display_redraw (sl_ctl s) = SplitRedraw")
  case False
  then have "sl_split (do_redraw env fp i s) = sl_split s" by (auto simp: do_redraw_def split: screen.split)
  with assms(1) show ?thesis by (simp add: split_shown_def)
next
  case True
  obtain sp st where r: "split_redraw env (in_dns_write i) fp (sl_ctl s) (sl_net s) (sl_split s, sl_dns s) = (sp, st)"
    by fastforce
  obtain msgs where m: "split_out sp = split_out (sl_split s) @ msgs"
    "follows sp (client_lines msgs (client_lines (split_out (sl_split s)) Map.empty))"
    using redraw_client [OF assms(1) [unfolded split_shown_def] assms(2) r] by (elim exE conjE) (rule that)
  have "sl_split (do_redraw env fp i s) = sp" using True r by (simp add: do_redraw_def)
  with m show ?thesis by (simp add: split_shown_def)
qed

lemma before_shown:
  assumes "split_shown s" and "ctl_ok (sl_ctl s)" and "before_select env fp i s = Inr (t, s')"
  shows "split_shown s'"
  using assms(3)
proof (cases rule: before_select_cases)
  case poll
  with assms(1) show ?thesis by simp
next
  case (turn s1)
  have s1: "split_shown s1" using turn(3) assms(1) redraw_shown [OF assms(1,2)] by auto
  show ?thesis
  proof (cases "interval_over (in_time i) (lasttime s) (intervaltime s)")
    case False
    with turn(5) s1 show ?thesis by simp
  next
    case True
    then have "send_turn env fp i s1 = Inr s'" using turn(5) by simp
    then have "sl_split s' = sl_split s1" by (cases rule: send_turn_cases) simp_all
    with s1 show ?thesis by (simp add: split_shown_def)
  qed
qed

lemma after_shown:
  assumes "split_shown s" and "after_select env fp i ready s = Inr r"
  shows "split_shown (result_state r)"
  using assms(2)
proof (cases rule: after_select_cases)
  case (1 s2)
  then have "sl_split (result_state r) = sl_split s2"
    using key_turn_net(8) [of _ s2] by auto
  with assms(1) loop_coreD(7) [OF 1(2)] show ?thesis by (simp add: split_shown_def)
qed

text \<open>Whatever happens in the loop (replies, names that arrive, keys, a reset of the tables), at
  every moment the program that reads the split display shows, in each row it has, the last text
  that was computed for it, and has no row beyond those of the last redraw.\<close>

theorem loop_split_follows:
  assumes "ctl_ok ctl" and "net_ok ctl n" and "inet_ok env" and "split_out sp = []"
    and "select_loop env fp is (select_start fp d now ctl n st (split_open sp)) = Inr r"
  shows "follows (sl_split (result_state r)) (client_lines (split_out (sl_split (result_state r))) Map.empty)"
proof -
  let ?s = "select_start fp d now ctl n st (split_open sp)" and ?P = "\<lambda>s. loop_ok ctl s \<and> split_shown s"
  have "?P (result_state r)"
  proof (rule select_loop_keeps [where P = ?P, OF _ _ assms(5)], intro allI impI)
    have "split_shown ?s"
      using assms(4) by (simp add: split_shown_def select_start_def split_open_def follows_def)
    then show "?P ?s" using loop_start_ok [OF assms(2)] by blast
  next
    fix i s r assume p: "?P s" and r: "select_pass env fp i s = Inr r"
    show "?P (result_state r)"
    proof (rule select_pass_keeps [where P = ?P, OF _ _ _ r])
      fix t s' assume b: "before_select env fp i s = Inr (t, s')"
      have "ctl_ok (sl_ctl s)" using p assms(1) same_options_ok(1) [of ctl "sl_ctl s"] by (simp add: loop_ok_def)
      then show "?P s'" using loop_ok_before [OF _ assms(1) b] before_shown [OF _ _ b] p by blast
    next
      fix s' ready r assume "?P s'" and a: "after_select env fp i ready s' = Inr r"
      then show "?P (result_state r)" using loop_ok_after [OF _ assms(1,3) a] after_shown [OF _ a] by blast
    qed (simp add: loop_ok_def split_shown_def)
  qed
  then show ?thesis by (simp add: split_shown_def)
qed

theorem loop_split_follows_witness:
  "\<exists>s. select_loop sample_inet exact_fp [quiet_pass (Timeval 1000 0)]
        (select_start exact_fp 0 (Timeval 1000 0) split_ctl (net_reset split_ctl empty_net) empty_dns (split_open one_row)) = Inr (Goes_on s)
    \<and> follows (sl_split s) (client_lines (split_out (sl_split s)) Map.empty)"
proof -
  let ?s = "select_start exact_fp 0 (Timeval 1000 0) split_ctl (net_reset split_ctl empty_net) empty_dns (split_open one_row)"
  have iv: "intervaltime ?s = Timeval 0 100000"
    by (simp add: select_start_def loop_head_def calc_deltatime_def Let_def exact_fp_def split_ctl_def default_ctl_def
        net_reset_def c_trunc_def c_div_nonneg c_mod_nonneg)
  have d: "Interactive (sl_ctl ?s)" "lasttime ?s = Timeval 1000 0" "\<not> anyset ?s" "\<not> paused ?s" "\<not> graceperiod ?s"
    by (simp_all add: select_start_def split_ctl_def default_ctl_def)
  obtain s where s: "select_loop sample_inet exact_fp [quiet_pass (Timeval 1000 0)] ?s = Inr (Goes_on s)"
    using d iv by (simp add: select_pass_def before_select_def after_select_def interval_over_def grace_over_def quiet_pass_def Let_def)
  have o: "split_out one_row = []" by (simp add: one_row_def)
  from loop_split_follows [OF split_ctl_ok fresh_ok [OF split_ctl_ok] sample_inet_ok o s] s show ?thesis by auto
qed

end
