(* ===== verification/Printf.thy ===== *)
theory Printf
  imports Utils
begin

text \<open>
  \<open>printf\<close> of the C library, as far as \<open>ui/\<close> uses it: flags \<open>-\<close> and \<open>0\<close>, width, precision,
  the length modifiers \<open>l\<close> and \<open>z\<close>, and the conversions \<open>d\<close>, \<open>u\<close>, \<open>x\<close>, \<open>X\<close>, \<open>c\<close>, \<open>s\<close>, \<open>f\<close>
  and \<open>%\<close>. A \<open>double\<close> is the rational it stands for, and is printed correctly rounded, ties to
  even. A conversion that does not fit its argument, or has none, is undefined in C; it prints
  nothing here.
\<close>

section \<open>Numbers\<close>

definition round_even :: "rat \<Rightarrow> int" where
  "round_even x =
     (let n = \<lfloor>x\<rfloor>; d = x - of_int n
      in if d < 1 / 2 then n else if 1 / 2 < d then n + 1 else if even n then n else n + 1)"

definition pad_left :: "char \<Rightarrow> nat \<Rightarrow> string \<Rightarrow> string" where
  "pad_left c w s = replicate (w - length s) c @ s"

definition pad_right :: "nat \<Rightarrow> string \<Rightarrow> string" where
  "pad_right w s = s @ replicate (w - length s) CHR '' ''"

definition fmt_f :: "nat \<Rightarrow> rat \<Rightarrow> string" where
  "fmt_f prec x =
     (let n = round_even (\<bar>x\<bar> * 10 ^ prec)
      in (if x < 0 then ''-'' else []) @ fmt_d (n div 10 ^ prec)
         @ (if prec = 0 then [] else ''.'' @ pad_left CHR ''0'' prec (fmt_d (n mod 10 ^ prec))))"

definition hex_chr :: "bool \<Rightarrow> nat \<Rightarrow> char" where
  "hex_chr upper d = (if d < 10 then char_of (48 + d) else char_of ((if upper then 55 else 87) + d))"

fun fmt_hex :: "bool \<Rightarrow> nat \<Rightarrow> string" where
  "fmt_hex upper n = (if n < 16 then [hex_chr upper n] else fmt_hex upper (n div 16) @ [hex_chr upper (n mod 16)])"

declare fmt_hex.simps [simp del]

section \<open>Formats\<close>

datatype parg = PStr string | PInt int | PDbl rat

datatype spec = Spec (sp_left: bool) (sp_zero: bool) (sp_width: nat) (sp_prec: "nat option") (sp_conv: char)

definition scan_width :: "string \<Rightarrow> nat \<times> string" where
  "scan_width s = read_digits 0 s"

fun scan_flags :: "bool \<Rightarrow> bool \<Rightarrow> string \<Rightarrow> (bool \<times> bool) \<times> string" where
  "scan_flags l z [] = ((l, z), [])"
| "scan_flags l z (c # s) =
     (if c = CHR ''-'' then scan_flags True z s else if c = CHR ''0'' then scan_flags l True s else ((l, z), c # s))"

definition scan_prec :: "string \<Rightarrow> nat option \<times> string" where
  "scan_prec s = (case s of c # t \<Rightarrow> if c = CHR ''.'' then (case scan_width t of (n, r) \<Rightarrow> (Some n, r)) else (None, s)
     | [] \<Rightarrow> (None, []))"

text \<open>The conversion after \<open>%\<close>, with the rest of the format.\<close>

definition scan_spec :: "string \<Rightarrow> spec \<times> string" where
  "scan_spec s =
     (case scan_flags False False s of ((l, z), s) \<Rightarrow>
      case scan_width s of (w, s) \<Rightarrow>
      case scan_prec s of (p, s) \<Rightarrow>
      case dropWhile (\<lambda>c. c = CHR ''l'' \<or> c = CHR ''z'') s of
        [] \<Rightarrow> (Spec l z w p NUL, []) | c # r \<Rightarrow> (Spec l z w p c, r))"

definition conv_text :: "spec \<Rightarrow> parg \<Rightarrow> string" where
  "conv_text sp a =
     (case a of
        PStr s \<Rightarrow> if sp_conv sp = CHR ''s'' then (case sp_prec sp of None \<Rightarrow> s | Some p \<Rightarrow> take p s) else []
      | PInt n \<Rightarrow>
          if sp_conv sp = CHR ''d'' \<or> sp_conv sp = CHR ''u'' then fmt_d n
          else if sp_conv sp = CHR ''x'' then fmt_hex False (nat n)
          else if sp_conv sp = CHR ''X'' then fmt_hex True (nat n)
          else if sp_conv sp = CHR ''c'' then [char_of (nat (n mod 256))] else []
      | PDbl x \<Rightarrow> if sp_conv sp = CHR ''f'' then fmt_f (case sp_prec sp of None \<Rightarrow> 6 | Some p \<Rightarrow> p) x else [])"

definition pad_spec :: "spec \<Rightarrow> string \<Rightarrow> string" where
  "pad_spec sp t =
     (if sp_left sp then pad_right (sp_width sp) t
      else pad_left (if sp_zero sp then CHR ''0'' else CHR '' '') (sp_width sp) t)"

lemma scan_flags_length: "length (snd (scan_flags l z s)) \<le> length s"
  by (induction l z s rule: scan_flags.induct) auto

lemma read_digits_length: "length (snd (read_digits n s)) \<le> length s"
  by (induction n s rule: read_digits.induct) auto

lemma scan_spec_length: "length (snd (scan_spec s)) \<le> length s"
proof -
  obtain l z s1 where 1: "scan_flags False False s = ((l, z), s1)" by (metis prod.exhaust)
  obtain w s2 where 2: "scan_width s1 = (w, s2)" by fastforce
  obtain p s3 where 3: "scan_prec s2 = (p, s3)" by fastforce
  have "length s1 \<le> length s" using scan_flags_length [of False False s] 1 by simp
  moreover have "length s2 \<le> length s1" using read_digits_length [of 0 s1] 2 by (simp add: scan_width_def)
  moreover have "length s3 \<le> length s2"
    using 3 read_digits_length [of 0 "tl s2"]
    by (cases s2) (auto simp: scan_prec_def scan_width_def split: if_splits prod.splits)
  moreover have "length (dropWhile (\<lambda>c. c = CHR ''l'' \<or> c = CHR ''z'') s3) \<le> length s3"
    by (rule length_dropWhile_le)
  ultimately have "length (dropWhile (\<lambda>c. c = CHR ''l'' \<or> c = CHR ''z'') s3) \<le> length s" by linarith
  then show ?thesis
    by (auto simp: scan_spec_def 1 2 3 split: list.split)
qed

function c_printf :: "string \<Rightarrow> parg list \<Rightarrow> string" where
  "c_printf [] args = []"
| "c_printf (c # s) args =
     (if c \<noteq> CHR ''%'' then c # c_printf s args
      else if s \<noteq> [] \<and> hd s = CHR ''%'' then CHR ''%'' # c_printf (tl s) args
      else case args of
             [] \<Rightarrow> c_printf (snd (scan_spec s)) []
           | a # as \<Rightarrow> pad_spec (fst (scan_spec s)) (conv_text (fst (scan_spec s)) a) @ c_printf (snd (scan_spec s)) as)"
  by pat_completeness auto
termination
  by (relation "measure (\<lambda>(s, a). length s)") (auto simp: scan_spec_length le_imp_less_Suc)

lemmas printf_eval = scan_spec_def scan_width_def scan_prec_def pad_spec_def conv_text_def is_digit_def digit_val_def

lemma length_pad [simp]: "length (pad_left c w s) = max w (length s)" "length (pad_right w s) = max w (length s)"
  by (simp_all add: pad_left_def pad_right_def)

section \<open>Widths that are printed into a format\<close>

lemma nat_str_pos: "0 < n \<Longrightarrow> \<exists>c cs. nat_str n = c # cs \<and> is_digit c \<and> c \<noteq> CHR ''0''"
proof (induction n rule: nat_str.induct)
  case (1 n)
  show ?case
  proof (cases "n < 10")
    case True
    then have "digit_chr n \<noteq> CHR ''0''"
      using "1.prems" by (auto simp: digit_chr_def dest!: arg_cong [of _ _ "of_char :: char \<Rightarrow> nat"])
    with True show ?thesis by (subst nat_str.simps) simp
  next
    case False
    then have "0 < n div 10" by simp
    with "1.IH" [OF False] show ?thesis using False by (subst nat_str.simps) auto
  qed
qed

lemma read_fmt_d:
  assumes "0 < n" and "rest = [] \<or> \<not> is_digit (hd rest)"
  shows "read_digits 0 (fmt_d n @ rest) = (nat n, rest)"
proof -
  obtain c cs where c: "nat_str (nat n) = c # cs" "is_digit c" "c \<noteq> CHR ''0''"
    using nat_str_pos [of "nat n"] assms(1) by auto
  have f: "fmt_d n = c # cs" using assms(1) c(1) by (simp add: fmt_d_def)
  have "scan_number (fmt_d n @ rest) = Some (False, nat n, rest)"
    using scan_number_fmt_d [OF assms(2), of n] assms(1) by simp
  moreover have "scan_number (fmt_d n @ rest) = Some (False, read_digits 0 (fmt_d n @ rest))"
    using c(2) by (simp add: f scan_number_def scan_sign_def scan_unsigned_def is_digit_not_space Let_def split: prod.splits)
      (auto simp: is_digit_def isspace_def)
  ultimately show ?thesis by simp
qed

lemma scan_spec_width:
  assumes "0 < n"
  shows "scan_spec (fmt_d n @ CHR ''s'' # r) = (Spec False False (nat n) None CHR ''s'', r)"
    and "scan_spec (CHR ''-'' # fmt_d n @ CHR ''s'' # r) = (Spec True False (nat n) None CHR ''s'', r)"
proof -
  obtain c cs where c: "nat_str (nat n) = c # cs" "is_digit c" "c \<noteq> CHR ''0''"
    using nat_str_pos [of "nat n"] assms(1) by auto
  have f: "fmt_d n = c # cs" using assms(1) c(1) by (simp add: fmt_d_def)
  have m: "c \<noteq> CHR ''-''" using c(2) by (auto simp: is_digit_def)
  have fl: "scan_flags l False (fmt_d n @ CHR ''s'' # r) = ((l, False), fmt_d n @ CHR ''s'' # r)" for l
    using c(3) m by (simp add: f)
  have w: "scan_width (fmt_d n @ CHR ''s'' # r) = (nat n, CHR ''s'' # r)"
    unfolding scan_width_def by (rule read_fmt_d [OF assms]) (simp add: is_digit_def)
  show "scan_spec (fmt_d n @ CHR ''s'' # r) = (Spec False False (nat n) None CHR ''s'', r)"
    unfolding scan_spec_def fl prod.case w by (simp add: scan_prec_def)
  have "scan_flags False False (CHR ''-'' # fmt_d n @ CHR ''s'' # r) = ((True, False), fmt_d n @ CHR ''s'' # r)"
    using fl [of True] by simp
  then show "scan_spec (CHR ''-'' # fmt_d n @ CHR ''s'' # r) = (Spec True False (nat n) None CHR ''s'', r)"
    unfolding scan_spec_def by (simp only: prod.case w) (simp add: scan_prec_def)
qed

text \<open>\<open>%Ns\<close> and \<open>%-Ns\<close> with a width that was printed.\<close>

lemma printf_width:
  assumes "0 < n"
  shows "c_printf (CHR ''%'' # fmt_d n @ CHR ''s'' # r) (PStr s # as) = pad_left CHR '' '' (nat n) s @ c_printf r as"
    and "c_printf (CHR ''%'' # CHR ''-'' # fmt_d n @ CHR ''s'' # r) (PStr s # as) = pad_right (nat n) s @ c_printf r as"
proof -
  obtain c cs where c: "nat_str (nat n) = c # cs" "is_digit c" "c \<noteq> CHR ''0''"
    using nat_str_pos [of "nat n"] assms(1) by auto
  have f: "fmt_d n = c # cs" using assms(1) c(1) by (simp add: fmt_d_def)
  have "c \<noteq> CHR ''%''" using c(2) by (auto simp: is_digit_def)
  then have h: "\<not> (fmt_d n @ CHR ''s'' # r \<noteq> [] \<and> hd (fmt_d n @ CHR ''s'' # r) = CHR ''%'')" by (simp add: f)
  show "c_printf (CHR ''%'' # fmt_d n @ CHR ''s'' # r) (PStr s # as) = pad_left CHR '' '' (nat n) s @ c_printf r as"
    unfolding c_printf.simps(2) if_not_P [OF h] scan_spec_width(1) [OF assms] by (simp add: pad_spec_def conv_text_def)
  show "c_printf (CHR ''%'' # CHR ''-'' # fmt_d n @ CHR ''s'' # r) (PStr s # as) = pad_right (nat n) s @ c_printf r as"
    unfolding c_printf.simps(2) scan_spec_width(2) [OF assms] by (simp add: pad_spec_def conv_text_def)
qed

end
