(* ===== verification/Asn.thy ===== *)
theory Asn
  imports Dns Printf
begin

text \<open>
  \<open>ui/asn.c\<close>: the number of the autonomous system of an address and the other items that a DNS
  service gives for it in one TXT record, cut at the bars. The curses display keeps the items of an
  address in a hash table. The resolver library (\<open>res_query\<close>, \<open>dn_expand\<close>) is a parameter.
\<close>

section \<open>State\<close>

abbreviation (input) ITEMSMAX :: nat where "ITEMSMAX \<equiv> 15"
abbreviation (input) ITEMSEP :: char where "ITEMSEP \<equiv> CHR ''|''"
abbreviation (input) NAMELEN :: nat where "NAMELEN \<equiv> 127"
abbreviation (input) PACKETSZ :: nat where "PACKETSZ \<equiv> 512"

definition UNKN :: string where "UNKN = ''???''"

text \<open>\<open>iihash\<close>: the table of the C library, with its size, when it was created. The items of a
  record are the strings before the first null pointer.\<close>

record asn_state =
  iihash :: "(string \<times> string list) list option"
  iihash_size :: nat
  asn_out :: "string list"

text \<open>\<open>res_query\<close> gives the length and the bytes of the answer, \<open>dn_expand\<close> the number of bytes that
  the name at a position takes; \<open>res_beyond\<close> is what the memory behind the answer buffer holds.\<close>

record resolver =
  res_init :: bool
  res_query :: "string \<Rightarrow> (nat \<times> u8 list) option"
  dn_expand :: "u8 list \<Rightarrow> nat \<Rightarrow> nat \<Rightarrow> nat option"
  res_beyond :: "nat \<Rightarrow> u8"

definition iiwidth :: "int list" where "iiwidth = [7, 19, 4, 8, 11]"

text \<open>A resolver library that does not come up, and the state at the start.\<close>

definition no_resolver :: resolver where
  "no_resolver = \<lparr>res_init = False, res_query = \<lambda>_. None, dn_expand = \<lambda>_ _ _. None, res_beyond = \<lambda>_. 0\<rparr>"

definition no_asn :: asn_state where
  "no_asn = \<lparr>iihash = None, iihash_size = 0, asn_out = []\<rparr>"

section \<open>The lookup\<close>

definition byte_at :: "resolver \<Rightarrow> u8 list \<Rightarrow> nat \<Rightarrow> u8" where
  "byte_at rs a p = (if p < length a then a ! p else res_beyond rs p)"

definition GETSHORT :: "resolver \<Rightarrow> u8 list \<Rightarrow> nat \<Rightarrow> int" where
  "GETSHORT rs a p = 256 * uint (byte_at rs a p) + uint (byte_at rs a (p + 1))"

abbreviation (input) T_TXT :: int where "T_TXT \<equiv> 16"

definition say :: "string \<Rightarrow> asn_state \<Rightarrow> asn_state" where
  "say t st = st\<lparr>asn_out := asn_out st @ [t]\<rparr>"

definition ipinfo_lookup :: "resolver \<Rightarrow> string \<Rightarrow> asn_state \<Rightarrow> string option \<times> asn_state" where
  "ipinfo_lookup rs domain st =
     (if \<not> res_init rs then (None, say ''@res_init failed'' st)
      else case res_query rs domain of
        None \<Rightarrow> (Some UNKN, st)
      | Some (len, bytes) \<Rightarrow>
          (let answer = take PACKETSZ (bytes @ replicate PACKETSZ 0); pt = 12
           in case dn_expand rs answer len pt of
                None \<Rightarrow> (None, say ''@dn_expand failed'' st)
              | Some n \<Rightarrow>
                  (let pt = pt + n
                   in if GETSHORT rs answer pt \<noteq> T_TXT then (None, say ''@Broken DNS reply.'' st)
                      else
                        (let pt = pt + 2 + 2
                         in case dn_expand rs answer len pt of
                              None \<Rightarrow> (None, say ''@second dn_expand failed'' st)
                            | Some n \<Rightarrow>
                                (let pt = pt + n
                                 in if GETSHORT rs answer pt \<noteq> T_TXT then (None, say ''@Not a TXT record'' st)
                                    else
                                      (let pt = pt + 2 + 2 + 4; size' = GETSHORT rs answer pt; pt = pt + 2;
                                           txtlen = uint (byte_at rs answer pt)
                                       in if size' \<le> txtlen \<or> txtlen = 0 then
                                            (None, say (c_printf ''@Broken TXT record (txtlen = %d, size = %d)'' [PInt txtlen, PInt size']) st)
                                          else
                                            (let txtlen = (if int NAMELEN < txtlen then int NAMELEN else txtlen)
                                             in (Some (xstrncpy (map (\<lambda>i. char_of (unat (byte_at rs answer (pt + 1 + i)))) [0..<nat txtlen])
                                                         (txtlen + 1)), st))))))))"

section \<open>The items of a record\<close>

function split_items :: "nat \<Rightarrow> string \<Rightarrow> string list" where
  "split_items i prev =
     (if ITEMSEP \<in> set prev \<and> i < ITEMSMAX
      then trim (takeWhile (\<lambda>c. c \<noteq> ITEMSEP) prev) ITEMSEP
           # split_items (i + 1) (tl (dropWhile (\<lambda>c. c \<noteq> ITEMSEP) prev))
      else [trim prev ITEMSEP])"
  by pat_completeness auto
termination
  by (relation "measure (\<lambda>(i, p). ITEMSMAX - i)") auto

declare split_items.simps [simp del]

text \<open>The last of 16 items is overwritten with the null pointer.\<close>

definition split_txtrec :: "mtr_ctl \<Rightarrow> string option \<Rightarrow> (string list \<times> string) option \<times> mtr_ctl" where
  "split_txtrec ctl txt_rec =
     (case txt_rec of None \<Rightarrow> (None, ctl)
      | Some txt \<Rightarrow>
          (let items = take ITEMSMAX (split_items 0 txt); i = int (length items);
               ctl = (if ipinfo_max ctl < i then ctl\<lparr>ipinfo_max := i\<rparr> else ctl)
           in (Some (items, if i \<le> ipinfo_no ctl then items ! 0 else items ! nat (ipinfo_no ctl)), ctl)))"

definition reverse_host6 :: "u8 list \<Rightarrow> string" where
  "reverse_host6 addr =
     butlast (concat (map (\<lambda>i. c_printf ''%x.%x.'' [PInt (uint (and (addr ! i) 15)), PInt (uint (drop_bit 4 (addr ! i)))])
                          (rev [0..<8])))"

definition ipinfo_key :: "mtr_ctl \<Rightarrow> ip_t \<Rightarrow> string" where
  "ipinfo_key ctl addr =
     (if af ctl = AF_INET6 then reverse_host6 addr
      else c_printf ''%d.%d.%d.%d'' [PInt (uint (addr ! 3)), PInt (uint (addr ! 2)), PInt (uint (addr ! 1)), PInt (uint (addr ! 0))])"

text \<open>The hash table of the C library: the first entry of a key stays, a full table takes none.\<close>

definition hsearch_find :: "string \<Rightarrow> asn_state \<Rightarrow> string list option" where
  "hsearch_find key st = (case iihash st of None \<Rightarrow> None | Some t \<Rightarrow> map_of t key)"

definition hsearch_enter :: "string \<Rightarrow> string list \<Rightarrow> asn_state \<Rightarrow> asn_state" where
  "hsearch_enter key items st =
     (case iihash st of None \<Rightarrow> st
      | Some t \<Rightarrow> if map_of t key \<noteq> None \<or> iihash_size st \<le> length t then st else st\<lparr>iihash := Some ((key, items) # t)\<rparr>)"

definition get_ipinfo :: "resolver \<Rightarrow> ip_t \<Rightarrow> mtr_ctl \<times> asn_state \<Rightarrow> string option \<times> mtr_ctl \<times> asn_state" where
  "get_ipinfo rs addr = (\<lambda>(ctl, st).
     (let key = ipinfo_key ctl addr;
          lookup_key = key @ (if af ctl = AF_INET6 then ''.origin6.asn.cymru.com'' else ''.origin.asn.cymru.com'')
      in if NAMELEN \<le> length lookup_key then (None, ctl, st)
         else case hsearch_find key st of
                Some items \<Rightarrow>
                  (Some (if nat (ipinfo_no ctl) < length items then items ! nat (ipinfo_no ctl) else items ! 0), ctl, st)
              | None \<Rightarrow>
                  (case ipinfo_lookup rs lookup_key st of (txt, st) \<Rightarrow>
                     (case split_txtrec ctl txt of
                        (None, ctl) \<Rightarrow> (None, ctl, st)
                      | (Some (items, val), ctl) \<Rightarrow> (Some val, ctl, hsearch_enter key items st)))))"

section \<open>Display\<close>

definition get_iiwidth_len :: nat where "get_iiwidth_len = length iiwidth"

definition get_iiwidth :: "int \<Rightarrow> int" where
  "get_iiwidth n = (if n < int (length iiwidth) then iiwidth ! nat n else iiwidth ! nat (c_mod n (int (length iiwidth))))"

definition fmt_ipinfo :: "resolver \<Rightarrow> ip_t \<Rightarrow> mtr_ctl \<times> asn_state \<Rightarrow> string \<times> mtr_ctl \<times> asn_state" where
  "fmt_ipinfo rs addr cs =
     (case get_ipinfo rs addr cs of (ipinfo, ctl, st) \<Rightarrow>
        (let fmt = snprintf 8 (c_printf ''%s%%-%ds'' [PStr (if ipinfo_no ctl \<noteq> 0 then [] else ''AS''), PInt (get_iiwidth (ipinfo_no ctl))])
         in (snprintf 32 (c_printf fmt [PStr (case ipinfo of Some t \<Rightarrow> t | None \<Rightarrow> UNKN)]), ctl, st)))"

definition is_printii :: "mtr_ctl \<Rightarrow> bool" where
  "is_printii ctl \<longleftrightarrow> 0 \<le> ipinfo_no ctl"

definition asn_open :: "bool \<Rightarrow> nat \<Rightarrow> mtr_ctl \<Rightarrow> asn_state \<Rightarrow> asn_state" where
  "asn_open hcreate table_size ctl st =
     (if 0 \<le> ipinfo_no ctl then
        (if hcreate then st\<lparr>iihash := Some [], iihash_size := table_size\<rparr> else say ''ipinfo hash'' (st\<lparr>iihash := None\<rparr>))
      else st)"

definition asn_close :: "mtr_ctl \<Rightarrow> asn_state \<Rightarrow> asn_state" where
  "asn_close ctl st = (if 0 \<le> ipinfo_no ctl \<and> iihash st \<noteq> None then st\<lparr>iihash := None\<rparr> else st)"

section \<open>Lemmas\<close>

lemma split_items_length: "length (split_items i prev) \<le> ITEMSMAX - i + 1 \<and> split_items i prev \<noteq> []"
  by (induction i prev rule: split_items.induct) (subst (1 2) split_items.simps, auto)

lemma map_of_first: "map_of ((k, v) # t) k = Some v"
  by simp

text \<open>The shape of a line of items.\<close>

lemma fmt_ipinfo_text:
  assumes "get_ipinfo rs addr (ctl, st) = (v, ctl', st')" and "0 \<le> ipinfo_no ctl'"
  shows "fmt_ipinfo rs addr (ctl, st) =
    (snprintf 32 ((if ipinfo_no ctl' = 0 then ''AS'' else []) @ pad_right (nat (get_iiwidth (ipinfo_no ctl'))) (case v of Some t \<Rightarrow> t | None \<Rightarrow> UNKN)), ctl', st')"
proof -
  let ?w = "get_iiwidth (ipinfo_no ctl')"
  have w: "?w \<in> {7, 19, 4, 8, 11}"
  proof -
    define m where "m = (if ipinfo_no ctl' < 5 then nat (ipinfo_no ctl') else nat (ipinfo_no ctl' mod 5))"
    have "m < 5" using assms(2) by (auto simp: m_def)
    then have "m = 0 \<or> m = 1 \<or> m = 2 \<or> m = 3 \<or> m = 4" by auto
    moreover have "?w = iiwidth ! m" using assms(2) by (simp add: get_iiwidth_def iiwidth_def m_def c_mod_nonneg)
    ultimately show ?thesis by (auto simp: iiwidth_def)
  qed
  then have p: "0 < ?w" "?w < 100" by auto
  have l1: "n < 10 \<Longrightarrow> length (nat_str n) = 1" for n by (subst nat_str.simps) simp
  have "length (nat_str n) \<le> 2" if "n < 100" for n
    using l1 [of n] l1 [of "n div 10"] that by (cases "n < 10") (simp, subst nat_str.simps, simp)
  then have len: "length (fmt_d ?w) \<le> 2" using p by (simp add: fmt_d_def)
  have f: "c_printf ''%s%%-%ds'' [PStr p, PInt ?w] = p @ CHR ''%'' # CHR ''-'' # fmt_d ?w @ ''s''" for p
    by (simp add: printf_eval pad_left_def)
  have s: "snprintf 8 (p @ CHR ''%'' # CHR ''-'' # fmt_d ?w @ ''s'') = p @ CHR ''%'' # CHR ''-'' # fmt_d ?w @ ''s''"
    if "length p \<le> 2" for p using that len by (intro snprintf_fits) simp
  have e: "c_printf (CHR ''%'' # CHR ''-'' # fmt_d ?w @ ''s'') [PStr t] = pad_right (nat ?w) t" for t
    using printf_width(2) [OF p(1), of "[]" t "[]"] by simp
  define p where "p = (if ipinfo_no ctl' \<noteq> 0 then [] else ''AS'')"
  have "length p \<le> 2" by (simp add: p_def)
  note s = s [OF this]
  have l: "c_printf (p @ r) a = p @ c_printf r a" for r a by (simp add: p_def)
  have "fmt_ipinfo rs addr (ctl, st) = (snprintf 32 (p @ pad_right (nat ?w) (case v of Some t \<Rightarrow> t | None \<Rightarrow> UNKN)), ctl', st')"
    by (simp only: fmt_ipinfo_def assms(1) prod.case Let_def p_def [symmetric] f s l e)
  then show ?thesis by (simp only: p_def if_not_P split: if_split) simp
qed

end
