(* ===== verification/Report.thy ===== *)
theory Report
  imports Asn MtrOptions
begin

text \<open>
  \<open>ui/report.c\<close>: the reports of \<open>mtr\<close>, as text, JSON, XML and CSV. A report is the text that is
  written to the standard output. \<open>gethostbyaddr\<close> of the C library and the resolver are parameters.
  The build has the items of \<open>ui/asn.c\<close>. A line is put together in \<open>buf\<close>: each column is printed at
  its offset, over what an earlier, longer column left there.
\<close>

section \<open>The columns\<close>

abbreviation (input) MAX_FORMAT_STR :: int where "MAX_FORMAT_STR \<equiv> 81"
abbreviation (input) BUF_SIZE :: int where "BUF_SIZE \<equiv> 1024"

text \<open>\<open>data_fields\<close> of \<open>ui/mtr.c\<close>: the formats and the values; the titles and the widths are those of
  \<open>MtrOptions\<close>.\<close>

definition field_table :: "(string \<times> (fp_env \<Rightarrow> net \<Rightarrow> int \<Rightarrow> int)) list" where
  "field_table =
     [('' '', \<lambda>fp. net_drop), ('' %4.1f%%'', net_loss), ('' %4d'', \<lambda>fp. net_drop), ('' %5d'', \<lambda>fp. net_returned),
      ('' %5d'', \<lambda>fp. net_xmit), ('' %5.1f'', \<lambda>fp. net_last), ('' %5.1f'', \<lambda>fp. net_best), ('' %5.1f'', \<lambda>fp. net_avg),
      ('' %5.1f'', \<lambda>fp. net_worst), ('' %5.1f'', net_stdev), ('' %5.1f'', \<lambda>fp. net_gmean), ('' %4.1f'', \<lambda>fp. net_jitter),
      ('' %4.1f'', \<lambda>fp. net_javg), ('' %4.1f'', \<lambda>fp. net_jworst), ('' %4.1f'', \<lambda>fp. net_jinta)]"

definition field_title :: "int \<Rightarrow> string" where "field_title j = fst (snd (data_fields ! nat j))"
definition field_length :: "int \<Rightarrow> nat" where "field_length j = snd (snd (data_fields ! nat j))"
definition field_format :: "int \<Rightarrow> string" where "field_format j = fst (field_table ! nat j)"
definition net_xxx :: "fp_env \<Rightarrow> net \<Rightarrow> int \<Rightarrow> int \<Rightarrow> int" where "net_xxx fp s j at' = snd (field_table ! nat j) fp s at'"

text \<open>\<open>strchr(format, 'f')\<close>; such a value is divided by 1000.0.\<close>

definition is_float :: "int \<Rightarrow> bool" where "is_float j \<longleftrightarrow> CHR ''f'' \<in> set (field_format j)"

definition field_arg :: "fp_env \<Rightarrow> net \<Rightarrow> int \<Rightarrow> int \<Rightarrow> parg" where
  "field_arg fp s at' j =
     (if is_float j then PDbl (rnd fp (of_int (net_xxx fp s j at') / 1000)) else PInt (net_xxx fp s j at'))"

text \<open>The columns of the active fields: the index of the field at each place, less than 0 for
  none; behind the string \<open>fld_active\<close> holds zeros.\<close>

definition field_at :: "mtr_ctl \<Rightarrow> nat \<Rightarrow> int" where
  "field_at ctl i = fld_index ctl (if i < length (fld_active ctl) then fld_active ctl ! i else NUL)"

section \<open>Names\<close>

definition addr2host :: "(u8 list \<Rightarrow> family \<Rightarrow> string option) \<Rightarrow> ip_t \<Rightarrow> family \<Rightarrow> string option" where
  "addr2host gethostbyaddr addr fam = gethostbyaddr (take (addr_len fam) addr) fam"

text \<open>\<open>snprint_addr\<close>: the whole text, whose length it returns; the caller has what fits.\<close>

definition snprint_addr ::
  "inet_env \<Rightarrow> (u8 list \<Rightarrow> family \<Rightarrow> string option) \<Rightarrow> mtr_ctl \<Rightarrow> ip_t \<Rightarrow> string" where
  "snprint_addr env gethostbyaddr ctl addr =
     (if addrcmp addr (unspec_addr ctl) (af ctl) \<noteq> 0 then
        (case (if dns ctl then addr2host gethostbyaddr addr (af ctl) else None) of
           None \<Rightarrow> c_text (strlongip env ctl addr)
         | Some h \<Rightarrow> if dns ctl \<and> show_ips ctl then c_printf ''%s (%s)'' [PStr h, PStr (c_text (strlongip env ctl addr))] else h)
      else ''???'')"

definition print_mpls :: "mplslen \<Rightarrow> string" where
  "print_mpls m =
     concat (map (\<lambda>k. c_printf ''       [MPLS: Lbl %lu TC %u S %cu TTL %u]'' [PInt (uint (mpls_label m ! k)),
        PInt (uint (mpls_tc m ! k)), PInt (uint (mpls_s m ! k)), PInt (uint (mpls_ttl m ! k))] @ [NL]) [0..<mpls_labels m])"

section \<open>The text report\<close>

definition report_open :: "string \<Rightarrow> string" where
  "report_open iso_time = c_printf ''Start: %s'' [PStr iso_time] @ [NL]"

text \<open>\<open>snprintf(buf + len, sizeof(buf), ...)\<close>. Behind its end the string does not change.\<close>

definition print_at :: "nat \<Rightarrow> string \<Rightarrow> string \<Rightarrow> string" where
  "print_at len t buf = (if len \<le> length buf then take len buf @ snprintf BUF_SIZE t else buf)"

text \<open>The columns of a line, from place \<open>i\<close> on; \<open>cell\<close> is the text of a column.\<close>

fun put_columns :: "mtr_ctl \<Rightarrow> (int \<Rightarrow> string) \<Rightarrow> nat list \<Rightarrow> string \<times> nat \<Rightarrow> string \<times> nat" where
  "put_columns ctl cell [] bl = bl"
| "put_columns ctl cell (i # is) (buf, len) =
     (let j = field_at ctl i
      in if j < 0 then put_columns ctl cell is (buf, len)
         else put_columns ctl cell is (print_at len (cell j) buf, len + field_length j))"

definition title_cell :: "int \<Rightarrow> string" where
  "title_cell j = c_printf (snprintf 16 (c_printf ''%%%ds'' [PInt (int (field_length j))])) [PStr (field_title j)]"

definition value_cell :: "fp_env \<Rightarrow> net \<Rightarrow> int \<Rightarrow> int \<Rightarrow> string" where
  "value_cell fp s at' j = c_printf (field_format j) [field_arg fp s at' j]"

definition hops :: "mtr_ctl \<Rightarrow> net \<Rightarrow> int list" where
  "hops ctl s = [net_min ctl .. net_max ctl s - 1]"

text \<open>The width of the column of names, with the width of the header's, and the item shown.\<close>

definition host_widths ::
  "inet_env \<Rightarrow> (u8 list \<Rightarrow> family \<Rightarrow> string option) \<Rightarrow> net \<Rightarrow> mtr_ctl \<Rightarrow> nat \<times> int \<times> mtr_ctl" where
  "host_widths env gethostbyaddr s ctl =
     (let len_hosts = (if reportwide ctl
            then fold (\<lambda>at' l. let nlen = length (snprint_addr env gethostbyaddr ctl (net_addr s at')) in if l < nlen then nlen else l)
                   (hops ctl s) (length (LocalHostname ctl))
            else 33);
          len_tmp = int len_hosts
      in if 0 \<le> ipinfo_no ctl then
           (let ctl = ctl\<lparr>ipinfo_no := ipinfo_no ctl mod int get_iiwidth_len\<rparr>
            in if reportwide ctl
               then (len_hosts + 1, len_tmp + get_iiwidth (ipinfo_no ctl) + (if ipinfo_no ctl = 0 then 2 else 0), ctl)
               else (len_hosts, len_tmp, ctl))
         else (len_hosts, len_tmp, ctl))"

definition report_header :: "nat \<Rightarrow> int \<Rightarrow> mtr_ctl \<Rightarrow> string" where
  "report_header len_hosts len_tmp ctl =
     (let fmt = snprintf 16 (c_printf ''HOST: %%-%ds'' [PInt len_tmp]);
          buf = snprintf BUF_SIZE (c_printf fmt [PStr (LocalHostname ctl)]);
          len = (if reportwide ctl then length buf else len_hosts)
      in fst (put_columns ctl title_cell [0..<MAXFLD] (buf, len)) @ [NL])"

text \<open>The beginning of the line of a hop, and the line.\<close>

definition hop_head ::
  "resolver \<Rightarrow> nat \<Rightarrow> int \<Rightarrow> ip_t \<Rightarrow> string \<Rightarrow> mtr_ctl \<times> asn_state \<Rightarrow> string \<times> mtr_ctl \<times> asn_state" where
  "hop_head rs len_hosts at' addr name = (\<lambda>(ctl, st).
     (if is_printii ctl then
        (let fmt = snprintf 16 (c_printf '' %%2d. %%s%%-%zus'' [PInt (int len_hosts)])
         in case fmt_ipinfo rs addr (ctl, st) of (info, ctl, st) \<Rightarrow>
              (snprintf BUF_SIZE (c_printf fmt [PInt (at' + 1), PStr info, PStr name]), ctl, st))
      else
        (let fmt = snprintf 16 (c_printf '' %%2d.|-- %%-%zus'' [PInt (int len_hosts)])
         in (snprintf BUF_SIZE (c_printf fmt [PInt (at' + 1), PStr name]), ctl, st))))"

definition hop_line ::
  "inet_env \<Rightarrow> (u8 list \<Rightarrow> family \<Rightarrow> string option) \<Rightarrow> fp_env \<Rightarrow> resolver \<Rightarrow> net \<Rightarrow> nat \<Rightarrow> int
     \<Rightarrow> mtr_ctl \<times> asn_state \<Rightarrow> string \<times> mtr_ctl \<times> asn_state" where
  "hop_line env gethostbyaddr fp rs s len_hosts at' = (\<lambda>(ctl, st).
     (let addr = net_addr s at'; name = snprintf MAX_FORMAT_STR (snprint_addr env gethostbyaddr ctl addr)
      in case hop_head rs len_hosts at' addr name (ctl, st) of (buf, ctl, st) \<Rightarrow>
           (let len = (if reportwide ctl then length buf else len_hosts)
            in (fst (put_columns ctl (value_cell fp s at') [0..<MAXFLD] (buf, len)) @ [NL], ctl, st))))"

text \<open>The other addresses of a hop, from \<open>z\<close> on, with the \<open>z\<close> at which the loop ended.\<close>

function other_paths ::
  "inet_env \<Rightarrow> (u8 list \<Rightarrow> family \<Rightarrow> string option) \<Rightarrow> resolver \<Rightarrow> net \<Rightarrow> int \<Rightarrow> nat
     \<Rightarrow> string \<times> mtr_ctl \<times> asn_state \<Rightarrow> nat \<times> string \<times> mtr_ctl \<times> asn_state" where
  "other_paths env gethostbyaddr rs s at' z (out, ctl, st) =
     (if z < MAXPATH then
        (let mpls = net_mpls s at'; mplss = net_mplss s at' z; addr2 = net_addrs s at' z
         in if addrcmp (unspec_addr ctl) addr2 (af ctl) = 0 then (z, out, ctl, st)
            else
              (let found = (\<exists>w \<in> set [0..<z]. addrcmp addr2 (net_addrs s at' w) (af ctl) = 0)
               in if \<not> found \<and> is_printii ctl then
                    (let out = (if 0 < mpls_labels mpls \<and> z = 1 \<and> enablempls ctl then out @ print_mpls mpls else out);
                         name = snprintf MAX_FORMAT_STR (snprint_addr env gethostbyaddr ctl addr2)
                     in case fmt_ipinfo rs addr2 (ctl, st) of (info, ctl, st) \<Rightarrow>
                          (let out = out @ c_printf ''     %s%s'' [PStr info, PStr name] @ [NL];
                               out = (if enablempls ctl then out @ print_mpls mplss else out)
                           in other_paths env gethostbyaddr rs s at' (Suc z) (out, ctl, st)))
                  else other_paths env gethostbyaddr rs s at' (Suc z) (out, ctl, st)))
      else (z, out, ctl, st))"
  by pat_completeness auto
termination
  by (relation "measure (\<lambda>(e, g, r, s, h, z, x). MAXPATH - z)") auto

declare other_paths.simps [simp del]

definition report_hop ::
  "inet_env \<Rightarrow> (u8 list \<Rightarrow> family \<Rightarrow> string option) \<Rightarrow> fp_env \<Rightarrow> resolver \<Rightarrow> net \<Rightarrow> nat \<Rightarrow> int
     \<Rightarrow> string \<times> mtr_ctl \<times> asn_state \<Rightarrow> string \<times> mtr_ctl \<times> asn_state" where
  "report_hop env gethostbyaddr fp rs s len_hosts at' = (\<lambda>(out, ctl, st).
     (case hop_line env gethostbyaddr fp rs s len_hosts at' (ctl, st) of (line, ctl, st) \<Rightarrow>
      case other_paths env gethostbyaddr rs s at' 1 (out @ line, ctl, st) of (z, out, ctl, st) \<Rightarrow>
        (if is_printii ctl \<and> 0 < mpls_labels (net_mpls s at') \<and> z = 1 \<and> enablempls ctl
         then out @ print_mpls (net_mpls s at') else out, ctl, st)))"

definition report_close ::
  "inet_env \<Rightarrow> (u8 list \<Rightarrow> family \<Rightarrow> string option) \<Rightarrow> fp_env \<Rightarrow> resolver \<Rightarrow> net
     \<Rightarrow> mtr_ctl \<times> asn_state \<Rightarrow> string \<times> mtr_ctl \<times> asn_state" where
  "report_close env gethostbyaddr fp rs s = (\<lambda>(ctl, st).
     (case host_widths env gethostbyaddr s ctl of (len_hosts, len_tmp, ctl) \<Rightarrow>
        fold (report_hop env gethostbyaddr fp rs s len_hosts) (hops ctl s) (report_header len_hosts len_tmp ctl, ctl, st)))"

definition txt_close ::
  "inet_env \<Rightarrow> (u8 list \<Rightarrow> family \<Rightarrow> string option) \<Rightarrow> fp_env \<Rightarrow> resolver \<Rightarrow> net
     \<Rightarrow> mtr_ctl \<times> asn_state \<Rightarrow> string \<times> mtr_ctl \<times> asn_state" where
  "txt_close = report_close"

section \<open>JSON\<close>

text \<open>The packet size and the bit pattern, as the JSON and the XML report give them.\<close>

definition size_text :: "mtr_ctl \<Rightarrow> string" where
  "size_text ctl =
     (if 0 \<le> cpacketsize ctl then c_printf ''%d'' [PInt (cpacketsize ctl)]
      else c_printf ''rand(%d-%d)'' [PInt MINPACKET, PInt (- cpacketsize ctl)])"

definition pattern_text :: "mtr_ctl \<Rightarrow> string" where
  "pattern_text ctl =
     (if 0 \<le> bitpattern ctl then c_printf ''0x%02X'' [PInt (bitpattern ctl mod 256)] else ''rand(0x00-FF)'')"

definition quote :: string where "quote = [CHR 0x22]"

definition json_string :: "string \<Rightarrow> string \<Rightarrow> string" where
  "json_string key value = ''      '' @ quote @ key @ quote @ '': '' @ quote @ value @ quote"

definition json_head :: "mtr_ctl \<Rightarrow> string" where
  "json_head ctl =
     ''{'' @ [NL] @ ''  '' @ quote @ ''report'' @ quote @ '': {'' @ [NL]
     @ ''    '' @ quote @ ''mtr'' @ quote @ '': {'' @ [NL]
     @ json_string ''src'' (LocalHostname ctl) @ '','' @ [NL]
     @ json_string ''dst'' (Hostname ctl) @ '','' @ [NL]
     @ json_string ''tos'' (c_printf ''0x%X'' [PInt (tos ctl)]) @ '','' @ [NL]
     @ json_string ''psize'' (size_text ctl) @ '','' @ [NL]
     @ json_string ''bitpattern'' (pattern_text ctl) @ '','' @ [NL]
     @ json_string ''tests'' (fmt_d (MaxPing ctl)) @ [NL]
     @ ''    },'' @ [NL] @ ''    '' @ quote @ ''hubs'' @ quote @ '': [''"

text \<open>A field of a hop: the format is put together in \<open>name\<close>.\<close>

definition json_field :: "fp_env \<Rightarrow> net \<Rightarrow> int \<Rightarrow> int \<Rightarrow> string" where
  "json_field fp s at' j =
     (let format = (if is_float j then ''%.2f'' else ''%d'');
          name = snprintf MAX_FORMAT_STR (c_printf ''%s%s'' [PStr (''      '' @ quote @ ''%s'' @ quote @ '': ''), PStr format])
      in c_printf name [PStr (field_title j), field_arg fp s at' j])"

fun json_fields :: "fp_env \<Rightarrow> net \<Rightarrow> mtr_ctl \<Rightarrow> int \<Rightarrow> nat list \<Rightarrow> string" where
  "json_fields fp s ctl at' [] = []"
| "json_fields fp s ctl at' (i # is) =
     (let j = field_at ctl i
      in (if i + 1 = MAXFLD then [NL] else if 0 < j \<and> i \<noteq> 0 then '','' @ [NL] else [])
         @ (if j \<le> 0 then [] else json_field fp s at' j) @ json_fields fp s ctl at' is)"

definition json_hub ::
  "inet_env \<Rightarrow> (u8 list \<Rightarrow> family \<Rightarrow> string option) \<Rightarrow> fp_env \<Rightarrow> resolver \<Rightarrow> net \<Rightarrow> int
     \<Rightarrow> string \<times> mtr_ctl \<times> asn_state \<Rightarrow> string \<times> mtr_ctl \<times> asn_state" where
  "json_hub env gethostbyaddr fp rs s at' = (\<lambda>(out, ctl, st).
     (let addr = net_addr s at'; name = snprintf MAX_FORMAT_STR (snprint_addr env gethostbyaddr ctl addr);
          out = out @ (if at' = net_min ctl then ''{'' else ''    {'') @ [NL]
            @ json_string ''count'' (fmt_d (at' + 1)) @ '','' @ [NL] @ json_string ''host'' name @ '','' @ [NL]
      in case (if ipinfo_no ctl = 0
               then (case fmt_ipinfo rs addr (ctl, st) of (info, cs) \<Rightarrow> (out @ json_string ''ASN'' (trim info NUL) @ '','' @ [NL], cs))
               else (out, ctl, st)) of
           (out, ctl, st) \<Rightarrow>
             (out @ json_fields fp s ctl at' [0..<MAXFLD] @ (if at' + 1 = net_max ctl s then ''    }'' else ''    },'' @ [NL]), ctl, st)))"

definition json_close ::
  "inet_env \<Rightarrow> (u8 list \<Rightarrow> family \<Rightarrow> string option) \<Rightarrow> fp_env \<Rightarrow> resolver \<Rightarrow> net
     \<Rightarrow> mtr_ctl \<times> asn_state \<Rightarrow> string \<times> mtr_ctl \<times> asn_state" where
  "json_close env gethostbyaddr fp rs s = (\<lambda>(ctl, st).
     (case fold (json_hub env gethostbyaddr fp rs s) (hops ctl s) (json_head ctl, ctl, st) of
        (out, cs) \<Rightarrow> (out @ '']'' @ [NL] @ ''  }'' @ [NL] @ ''}'' @ [NL], cs)))"

section \<open>XML\<close>

definition xml_attr :: "string \<Rightarrow> string \<Rightarrow> string" where
  "xml_attr key value = '' '' @ key @ ''='' @ quote @ value @ quote"

definition xml_head :: "mtr_ctl \<Rightarrow> string" where
  "xml_head ctl =
     ''<?xml version='' @ quote @ ''1.0'' @ quote @ ''?>'' @ [NL]
     @ ''<MTR'' @ xml_attr ''SRC'' (LocalHostname ctl) @ xml_attr ''DST'' (Hostname ctl)
     @ xml_attr ''TOS'' (c_printf ''0x%X'' [PInt (tos ctl)]) @ xml_attr ''PSIZE'' (size_text ctl)
     @ xml_attr ''BITPATTERN'' (pattern_text ctl) @ xml_attr ''TESTS'' (fmt_d (MaxPing ctl)) @ ''>'' @ [NL]"

definition xml_field :: "fp_env \<Rightarrow> net \<Rightarrow> int \<Rightarrow> int \<Rightarrow> string" where
  "xml_field fp s at' j =
     (let name = snprintf MAX_FORMAT_STR (c_printf ''%s%s%s''
            [PStr ''        <%s>'', PStr (field_format j), PStr (''</%s>'' @ [NL])]);
          title = (if field_title j = ''Loss%'' then ''Loss'' else field_title j)
      in c_printf name [PStr title, field_arg fp s at' j, PStr title])"

definition xml_fields :: "fp_env \<Rightarrow> net \<Rightarrow> mtr_ctl \<Rightarrow> int \<Rightarrow> string" where
  "xml_fields fp s ctl at' =
     concat (map (\<lambda>i. if field_at ctl i \<le> 0 then [] else xml_field fp s at' (field_at ctl i)) [0..<MAXFLD])"

definition xml_hub ::
  "inet_env \<Rightarrow> (u8 list \<Rightarrow> family \<Rightarrow> string option) \<Rightarrow> fp_env \<Rightarrow> net \<Rightarrow> mtr_ctl \<Rightarrow> int \<Rightarrow> string" where
  "xml_hub env gethostbyaddr fp s ctl at' =
     (let name = snprintf MAX_FORMAT_STR (snprint_addr env gethostbyaddr ctl (net_addr s at'))
      in ''    <HUB'' @ xml_attr ''COUNT'' (fmt_d (at' + 1)) @ xml_attr ''HOST'' name @ ''>'' @ [NL]
         @ xml_fields fp s ctl at' @ ''    </HUB>'' @ [NL])"

definition xml_close ::
  "inet_env \<Rightarrow> (u8 list \<Rightarrow> family \<Rightarrow> string option) \<Rightarrow> fp_env \<Rightarrow> net \<Rightarrow> mtr_ctl \<Rightarrow> string" where
  "xml_close env gethostbyaddr fp s ctl =
     xml_head ctl @ concat (map (xml_hub env gethostbyaddr fp s ctl) (hops ctl s)) @ ''</MTR>'' @ [NL]"

section \<open>CSV\<close>

definition csv_header :: "mtr_ctl \<Rightarrow> string" where
  "csv_header ctl =
     ''Mtr_Version,Start_Time,Status,Host,Hop,Ip,'' @ (if ipinfo_no ctl = 0 then ''Asn,'' else [])
     @ concat (map (\<lambda>i. if field_at ctl i < 0 then [] else field_title (field_at ctl i) @ '','') [0..<MAXFLD]) @ [NL]"

definition csv_cell :: "fp_env \<Rightarrow> net \<Rightarrow> int \<Rightarrow> int \<Rightarrow> string" where
  "csv_cell fp s at' j = c_printf (if is_float j then '',%.2f'' else '',%d'') [field_arg fp s at' j]"

definition csv_cells :: "fp_env \<Rightarrow> net \<Rightarrow> mtr_ctl \<Rightarrow> int \<Rightarrow> string" where
  "csv_cells fp s ctl at' =
     concat (map (\<lambda>i. if field_at ctl i < 0 then [] else csv_cell fp s at' (field_at ctl i)) [0..<MAXFLD])"

definition csv_row ::
  "inet_env \<Rightarrow> (u8 list \<Rightarrow> family \<Rightarrow> string option) \<Rightarrow> fp_env \<Rightarrow> resolver \<Rightarrow> string \<Rightarrow> int \<Rightarrow> net \<Rightarrow> int
     \<Rightarrow> string \<times> mtr_ctl \<times> asn_state \<Rightarrow> string \<times> mtr_ctl \<times> asn_state" where
  "csv_row env gethostbyaddr fp rs package_version now s at' = (\<lambda>(out, ctl, st).
     (let addr = net_addr s at'; name = snprintf MAX_FORMAT_STR (snprint_addr env gethostbyaddr ctl addr);
          out = (if at' = net_min ctl then out @ csv_header ctl else out);
          start = [PStr package_version, PInt now, PStr ''OK'', PStr (Hostname ctl), PInt (at' + 1), PStr name]
      in case (if ipinfo_no ctl = 0
               then (case fmt_ipinfo rs addr (ctl, st) of (info, cs) \<Rightarrow>
                       (out @ c_printf ''MTR.%s,%lld,%s,%s,%d,%s,%s'' (start @ [PStr (trim info NUL)]), cs))
               else (out @ c_printf ''MTR.%s,%lld,%s,%s,%d,%s'' start, ctl, st)) of
           (out, ctl, st) \<Rightarrow> (out @ csv_cells fp s ctl at' @ [NL], ctl, st)))"

definition csv_close ::
  "inet_env \<Rightarrow> (u8 list \<Rightarrow> family \<Rightarrow> string option) \<Rightarrow> fp_env \<Rightarrow> resolver \<Rightarrow> string \<Rightarrow> int \<Rightarrow> net
     \<Rightarrow> mtr_ctl \<times> asn_state \<Rightarrow> string \<times> mtr_ctl \<times> asn_state" where
  "csv_close env gethostbyaddr fp rs package_version now s = (\<lambda>(ctl, st).
     fold (csv_row env gethostbyaddr fp rs package_version now s) (hops ctl s) ([], ctl, st))"

section \<open>Opening and closing of a display\<close>

text \<open>\<open>display_open\<close> and \<open>display_close\<close> of \<open>ui/display.c\<close> for the displays without a screen; the
  others open and close what their libraries keep.\<close>

definition display_open_report :: "string \<Rightarrow> mtr_ctl \<Rightarrow> string" where
  "display_open_report iso_time ctl = (if DisplayMode ctl = DisplayReport then report_open iso_time else [])"

definition display_close_report ::
  "inet_env \<Rightarrow> (u8 list \<Rightarrow> family \<Rightarrow> string option) \<Rightarrow> fp_env \<Rightarrow> resolver \<Rightarrow> string \<Rightarrow> int \<Rightarrow> net
     \<Rightarrow> mtr_ctl \<times> asn_state \<Rightarrow> string \<times> mtr_ctl \<times> asn_state" where
  "display_close_report env gethostbyaddr fp rs package_version now s = (\<lambda>(ctl, st).
     (case DisplayMode ctl of
        DisplayReport \<Rightarrow> report_close env gethostbyaddr fp rs s (ctl, st)
      | DisplayTXT \<Rightarrow> txt_close env gethostbyaddr fp rs s (ctl, st)
      | DisplayJSON \<Rightarrow> json_close env gethostbyaddr fp rs s (ctl, st)
      | DisplayXML \<Rightarrow> (xml_close env gethostbyaddr fp s ctl, ctl, st)
      | DisplayCSV \<Rightarrow> csv_close env gethostbyaddr fp rs package_version now s (ctl, st)
      | _ \<Rightarrow> ([], ctl, st)))"

end
