(* ===== verification/ReportProps.thy ===== *)
theory ReportProps
  imports Report NetProps SplitProps
begin

text \<open>
  The reports (\<open>ui/report.c\<close>): where the columns of the text report stand, the commas of the JSON
  report, and the paths that the text report leaves out. The items of \<open>ui/asn.c\<close> and their cache.
\<close>

section \<open>Columns\<close>

text \<open>The fields that are shown, in order.\<close>

definition shown :: "mtr_ctl \<Rightarrow> nat list \<Rightarrow> int list" where
  "shown ctl is = filter (\<lambda>j. 0 \<le> j) (map (field_at ctl) is)"

definition fields_ok :: "mtr_ctl \<Rightarrow> bool" where
  "fields_ok ctl \<longleftrightarrow> (\<forall>c. fld_index ctl c < 15)"

lemma init_fields_ok: "fields_ok (init_fld_options c)"
  by (simp add: fields_ok_def init_fld_options_def data_fields_def)

lemma shown_range: "fields_ok ctl \<Longrightarrow> j \<in> set (shown ctl is) \<Longrightarrow> 0 \<le> j \<and> j < 15"
  by (auto simp: shown_def fields_ok_def field_at_def)

text \<open>The line after the columns are put: every column but the last is cut to its width.\<close>

lemma put_columns_shape:
  assumes "len \<le> length buf" and "\<forall>j \<in> set (shown ctl is). field_length j \<le> length (snprintf BUF_SIZE (cell j))"
  shows "fst (put_columns ctl cell is (buf, len)) =
    (if shown ctl is = [] then buf
     else take len buf @ concat (map (\<lambda>j. take (field_length j) (snprintf BUF_SIZE (cell j))) (butlast (shown ctl is)))
          @ snprintf BUF_SIZE (cell (last (shown ctl is))))"
  using assms
proof (induction "is" arbitrary: buf len)
  case Nil
  then show ?case by (simp add: shown_def)
next
  case (Cons i "is")
  let ?j = "field_at ctl i"
  show ?case
  proof (cases "?j < 0")
    case True
    then have "shown ctl (i # is) = shown ctl is" by (simp add: shown_def)
    with Cons True show ?thesis by (simp add: Let_def)
  next
    case False
    then have sh: "shown ctl (i # is) = ?j # shown ctl is" by (simp add: shown_def)
    let ?buf = "take len buf @ snprintf BUF_SIZE (cell ?j)" and ?len = "len + field_length ?j"
    have w: "field_length ?j \<le> length (snprintf BUF_SIZE (cell ?j))" using Cons.prems(2) sh by simp
    have p: "put_columns ctl cell (i # is) (buf, len) = put_columns ctl cell is (?buf, ?len)"
      using False Cons.prems(1) by (simp add: Let_def print_at_def)
    have t: "take ?len ?buf = take len buf @ take (field_length ?j) (snprintf BUF_SIZE (cell ?j))"
      using Cons.prems(1) by simp
    have "?len \<le> length ?buf" using w Cons.prems(1) by simp
    moreover have "\<forall>j \<in> set (shown ctl is). field_length j \<le> length (snprintf BUF_SIZE (cell j))"
      using Cons.prems(2) sh by simp
    ultimately have "fst (put_columns ctl cell is (?buf, ?len)) =
        (if shown ctl is = [] then ?buf
         else take ?len ?buf @ concat (map (\<lambda>j. take (field_length j) (snprintf BUF_SIZE (cell j))) (butlast (shown ctl is)))
              @ snprintf BUF_SIZE (cell (last (shown ctl is))))"
      by (rule Cons.IH)
    then show ?thesis unfolding p sh t by simp
  qed
qed

text \<open>The offset of the \<open>k\<close>-th column.\<close>

definition offset :: "int list \<Rightarrow> nat \<Rightarrow> nat" where
  "offset js k = sum_list (map field_length (take k js))"

lemma pieces_at:
  assumes "k < length js" and "\<forall>j \<in> set js. f j \<le> length (g j)"
  shows "take (f (js ! k)) (drop (sum_list (map f (take k js)))
      (concat (map (\<lambda>j. take (f j) (g j)) (butlast js)) @ g (last js) @ rest)) = take (f (js ! k)) (g (js ! k))"
  using assms
proof (induction js arbitrary: k)
  case (Cons j js)
  show ?case
  proof (cases "js = []")
    case True
    with Cons.prems show ?thesis by simp
  next
    case ne: False
    then have b: "concat (map (\<lambda>j. take (f j) (g j)) (butlast (j # js))) = take (f j) (g j) @ concat (map (\<lambda>j. take (f j) (g j)) (butlast js))"
      by simp
    have l: "length (take (f j) (g j)) = f j" using Cons.prems(2) by simp
    show ?thesis
    proof (cases k)
      case 0
      then show ?thesis unfolding b using l by (simp add: ne)
    next
      case (Suc m)
      have "take (f (js ! m)) (drop (sum_list (map f (take m js)))
          (concat (map (\<lambda>j. take (f j) (g j)) (butlast js)) @ g (last js) @ rest)) = take (f (js ! m)) (g (js ! m))"
        by (rule Cons.IH) (use Cons.prems Suc in auto)
      then show ?thesis unfolding b using l ne by (simp add: Suc)
    qed
  qed
qed simp

lemma column_at:
  assumes "len \<le> length buf" and "\<forall>j \<in> set (shown ctl is). field_length j \<le> length (snprintf BUF_SIZE (cell j))"
    and "k < length (shown ctl is)"
  shows "take (field_length (shown ctl is ! k)) (drop (len + offset (shown ctl is) k) (fst (put_columns ctl cell is (buf, len)) @ rest))
    = take (field_length (shown ctl is ! k)) (snprintf BUF_SIZE (cell (shown ctl is ! k)))"
proof -
  let ?js = "shown ctl is" and ?g = "\<lambda>j. snprintf BUF_SIZE (cell j)"
  have ne: "?js \<noteq> []" using assms(3) by auto
  have l: "length (take len buf) = len" using assms(1) by simp
  show ?thesis
    unfolding put_columns_shape [OF assms(1,2)] if_not_P [OF ne] offset_def append_assoc
    using pieces_at [OF assms(3), of field_length ?g rest] assms(2) l by simp
qed

section \<open>Cells\<close>

lemma fields_cases:
  assumes "0 \<le> j" and "j < (15 :: int)"
  shows "j \<in> {0, 1, 2, 3, 4, 5, 6, 7, 8, 9, 10, 11, 12, 13, 14}"
  using assms by simp presburger

lemma field_widths:
  assumes "0 \<le> j" and "j < 15"
  shows "0 < field_length j" and "field_length j \<le> 6" and "length (field_title j) \<le> field_length j"
  using fields_cases [OF assms] by (auto simp: field_length_def field_title_def data_fields_def numeral_eq_Suc)

text \<open>A title is set right, in exactly its width.\<close>

lemma title_cell_text:
  assumes "0 \<le> j" and "j < 15"
  shows "title_cell j = pad_left CHR '' '' (field_length j) (field_title j)"
proof -
  have w: "0 < int (field_length j)" using field_widths(1) [OF assms] by simp
  have f: "c_printf ''%%%ds'' [PInt (int (field_length j))] = CHR ''%'' # fmt_d (int (field_length j)) @ ''s''"
    by (simp add: printf_eval pad_left_def)
  have "field_length j < 10" using field_widths(2) [OF assms] by simp
  then have "length (fmt_d (int (field_length j))) = 1" unfolding fmt_d_def by (subst nat_str.simps) simp
  then have "snprintf 16 (CHR ''%'' # fmt_d (int (field_length j)) @ ''s'') = CHR ''%'' # fmt_d (int (field_length j)) @ ''s''"
    by (intro snprintf_fits) simp
  then show ?thesis
    using printf_width(1) [OF w, of "[]" "field_title j" "[]"] unfolding title_cell_def f by simp
qed

lemma title_cell_length: "0 \<le> j \<Longrightarrow> j < 15 \<Longrightarrow> length (title_cell j) = field_length j"
  by (simp add: title_cell_text field_widths(3) max_absorb1)

text \<open>A value takes at least the width of its column.\<close>

lemma value_cell_text:
  assumes "0 \<le> j" and "j < 15"
  shows "\<exists>t. value_cell fp s at' j =
    (if j = 0 then '' '' else if j = 1 then '' '' @ pad_left CHR '' '' 4 t @ ''%'' else '' '' @ pad_left CHR '' '' (field_length j - 1) t)"
  using fields_cases [OF assms]
  by (elim insertE emptyE)
    (simp_all add: value_cell_def field_format_def field_table_def field_arg_def is_float_def field_length_def data_fields_def
      printf_eval numeral_eq_Suc, blast+)

lemma value_cell_length:
  assumes "0 \<le> j" and "j < 15"
  shows "field_length j \<le> length (value_cell fp s at' j)"
proof -
  have l: "field_length 0 = 1" "field_length 1 = 6" by (simp_all add: field_length_def data_fields_def)
  obtain t where t: "value_cell fp s at' j =
    (if j = 0 then '' '' else if j = 1 then '' '' @ pad_left CHR '' '' 4 t @ ''%'' else '' '' @ pad_left CHR '' '' (field_length j - 1) t)"
    using value_cell_text [OF assms] by blast
  show ?thesis unfolding t using l field_widths(1) [OF assms] by auto
qed

lemma cells_fit:
  assumes "fields_ok ctl" and "cell = title_cell \<or> cell = value_cell fp s at'"
  shows "\<forall>j \<in> set (shown ctl is). field_length j \<le> length (snprintf BUF_SIZE (cell j))"
proof
  fix j assume "j \<in> set (shown ctl is)"
  then have j: "0 \<le> j" "j < 15" using shown_range [OF assms(1)] by auto
  have "field_length j \<le> length (cell j)"
    using assms(2) title_cell_length [OF j] value_cell_length [OF j, of fp s at'] by auto
  then show "field_length j \<le> length (snprintf BUF_SIZE (cell j))"
    using field_widths(2) [OF j] by (simp add: snprintf_def)
qed

section \<open>The text report\<close>

text \<open>The text that \<open>buf\<close> holds before the columns, when the format of the line fits.\<close>

lemma width_format_fits:
  assumes "0 < n" and "n < 1000"
  shows "length (fmt_d n) \<le> 3"
proof -
  have l1: "m < 10 \<Longrightarrow> length (nat_str m) = 1" for m by (subst nat_str.simps) simp
  have l2: "m < 100 \<Longrightarrow> length (nat_str m) \<le> 2" for m
    using l1 [of m] l1 [of "m div 10"] by (cases "m < 10") (simp, subst nat_str.simps, simp)
  have "m < 1000 \<Longrightarrow> length (nat_str m) \<le> 3" for m
    using l1 [of m] l2 [of "m div 10"] by (cases "m < 10") (simp, subst nat_str.simps, simp)
  then show ?thesis using assms by (simp add: fmt_d_def)
qed

lemma header_head:
  assumes "0 < n" and "n < 1000"
  shows "c_printf (snprintf 16 (c_printf ''HOST: %%-%ds'' [PInt n])) [PStr h] = ''HOST: '' @ pad_right (nat n) h"
proof -
  have f: "c_printf ''HOST: %%-%ds'' [PInt n] = ''HOST: '' @ CHR ''%'' # CHR ''-'' # fmt_d n @ ''s''"
    by (simp add: printf_eval pad_left_def)
  have "snprintf 16 (''HOST: '' @ CHR ''%'' # CHR ''-'' # fmt_d n @ ''s'') = ''HOST: '' @ CHR ''%'' # CHR ''-'' # fmt_d n @ ''s''"
    using width_format_fits [OF assms] by (intro snprintf_fits) simp
  moreover have "c_printf (''HOST: '' @ r) a = ''HOST: '' @ c_printf r a" for r a by simp
  ultimately show ?thesis
    using printf_width(2) [OF assms(1), of "[]" h "[]"] unfolding f by simp
qed

lemma hop_head_plain:
  assumes "ipinfo_no ctl < 0" and "0 < n" and "n < 1000"
  shows "hop_head rs n at' addr name (ctl, st) =
    (snprintf BUF_SIZE ('' '' @ pad_left CHR '' '' 2 (fmt_d (at' + 1)) @ ''.|-- '' @ pad_right n name), ctl, st)"
proof -
  have f: "c_printf '' %%2d.|-- %%-%zus'' [PInt (int n)] = '' %2d.|-- '' @ CHR ''%'' # CHR ''-'' # fmt_d (int n) @ ''s''"
    by (simp add: printf_eval pad_left_def)
  have "snprintf 16 ('' %2d.|-- '' @ CHR ''%'' # CHR ''-'' # fmt_d (int n) @ ''s'') = '' %2d.|-- '' @ CHR ''%'' # CHR ''-'' # fmt_d (int n) @ ''s''"
    using width_format_fits [of "int n"] assms(2,3) by (intro snprintf_fits) simp
  moreover have "c_printf ('' %2d.|-- '' @ r) (PInt m # a) = '' '' @ pad_left CHR '' '' 2 (fmt_d m) @ ''.|-- '' @ c_printf r a" for r m a
    by (simp add: printf_eval numeral_2_eq_2)
  moreover have "c_printf (CHR ''%'' # CHR ''-'' # fmt_d (int n) @ ''s'') [PStr name] = pad_right n name"
    using printf_width(2) [of "int n" "[]" name "[]"] assms(2) by simp
  ultimately show ?thesis
    using assms(1) unfolding hop_head_def is_printii_def f by simp
qed

lemma snprintf_cell: "length t < 1024 \<Longrightarrow> snprintf BUF_SIZE t = t"
  by (simp add: snprintf_def)

lemma take_snprintf: "w \<le> 6 \<Longrightarrow> take w (snprintf BUF_SIZE t) = take w t"
  by (simp add: snprintf_def min_def)

text \<open>The columns of a header or a line whose \<open>buf\<close> is long enough.\<close>

lemma line_columns:
  assumes "fields_ok ctl" and "len \<le> length buf" and "k < length (shown ctl is)"
  shows "take (field_length (shown ctl is ! k)) (drop (len + offset (shown ctl is) k) (fst (put_columns ctl title_cell is (buf, len)) @ rest))
      = title_cell (shown ctl is ! k)"
    and "take (field_length (shown ctl is ! k)) (drop (len + offset (shown ctl is) k) (fst (put_columns ctl (value_cell fp s at') is (buf, len)) @ rest))
      = take (field_length (shown ctl is ! k)) (value_cell fp s at' (shown ctl is ! k))"
proof -
  have j: "0 \<le> shown ctl is ! k" "shown ctl is ! k < 15" using shown_range [OF assms(1)] assms(3) by (meson nth_mem)+
  have w: "field_length (shown ctl is ! k) \<le> 6" by (rule field_widths(2) [OF j])
  have f1: "\<forall>j \<in> set (shown ctl is). field_length j \<le> length (snprintf BUF_SIZE (title_cell j))"
    by (rule cells_fit [OF assms(1)]) simp
  have f2: "\<forall>j \<in> set (shown ctl is). field_length j \<le> length (snprintf BUF_SIZE (value_cell fp s at' j))"
    by (rule cells_fit [OF assms(1)]) blast
  show "take (field_length (shown ctl is ! k)) (drop (len + offset (shown ctl is) k) (fst (put_columns ctl title_cell is (buf, len)) @ rest))
      = title_cell (shown ctl is ! k)"
    using column_at [OF assms(2) f1 assms(3), of rest] title_cell_length [OF j]
    by (simp add: take_snprintf [OF w])
  show "take (field_length (shown ctl is ! k)) (drop (len + offset (shown ctl is) k) (fst (put_columns ctl (value_cell fp s at') is (buf, len)) @ rest))
      = take (field_length (shown ctl is ! k)) (value_cell fp s at' (shown ctl is ! k))"
    using column_at [OF assms(2) f2 assms(3), of rest]
    by (simp add: take_snprintf [OF w])
qed


text \<open>A report about a path that ends at the first hop, which has reported an error without an address.\<close>

definition rep_ctl :: "bool \<Rightarrow> mtr_ctl" where
  "rep_ctl wide = init_fld_options ((default_ctl DisplayReport)\<lparr>af := AF_INET, LocalHostname := ''me'', reportwide := wide, dns := False\<rparr>)"

definition rep_net :: net where
  "rep_net = empty_net\<lparr>host := (\<lambda>_. template_host\<lparr>h_err := 1\<rparr>)\<rparr>"

lemma rep_ctl_ok: "fields_ok (rep_ctl wide)" "ipinfo_no (rep_ctl wide) < 0" "reportwide (rep_ctl wide) = wide"
  by (simp_all add: rep_ctl_def init_fields_ok) (simp_all add: init_fld_options_def default_ctl_def split: prod.split)

lemma rep_columns: "shown (rep_ctl wide) [0..<MAXFLD] = [1, 4, 0, 5, 7, 6, 8, 9]"
  by (simp add: rep_ctl_def init_fld_options_def data_fields_def default_ctl_def xstrncpy_def shown_def field_at_def upt_rec numeral_nat)

lemma rep_columns0: "0 < length (shown (rep_ctl wide) [0..<MAXFLD])"
  by (simp add: rep_columns)


lemma widest_name:
  fixes f :: "int \<Rightarrow> string" and l :: nat
  defines "step \<equiv> \<lambda>at' l. let nlen = length (f at') in if l < nlen then nlen else l"
  shows "l \<le> fold step hs l" and "h \<in> set hs \<Longrightarrow> length (f h) \<le> fold step hs l"
proof -
  have a: "l \<le> fold step hs' l" for l hs'
  proof (induction hs' arbitrary: l)
    case (Cons x hs')
    have "l \<le> step x l" by (simp add: step_def Let_def)
    also have "\<dots> \<le> fold step hs' (step x l)" by (rule Cons)
    finally show ?case by simp
  qed simp
  show "l \<le> fold step hs l" by (rule a)
  show "h \<in> set hs \<Longrightarrow> length (f h) \<le> fold step hs l"
  proof (induction hs arbitrary: l)
    case (Cons x hs)
    show ?case
    proof (cases "h = x")
      case True
      have "length (f x) \<le> step x l" by (simp add: step_def Let_def)
      also have "\<dots> \<le> fold step hs (step x l)" by (rule a)
      finally show ?thesis using True by simp
    next
      case False
      with Cons show ?thesis by simp
    qed
  qed simp
qed

text \<open>In a wide report without the items of \<open>ui/asn.c\<close> the header is out of line: its columns
  stand two places to the left of those of every hop below 100, because ``HOST: '' is two characters
  shorter than what a line has before the name. (With the items, the code adds what is missing.)\<close>

theorem wide_report_misaligned:
  assumes "fields_ok ctl" and "ipinfo_no ctl < 0" and "reportwide ctl" and "k < length (shown ctl [0..<MAXFLD])"
    and "host_widths env gethostbyaddr s ctl = (n, m, ctl')" and "0 < n" and "n < 1000"
    and "at' \<in> set (hops ctl s)" and "0 \<le> at'" and "at' < 99"
  shows "ctl' = ctl \<and> m = int n
    \<and> (let j = shown ctl [0..<MAXFLD] ! k; w = field_length j; p = 6 + n + offset (shown ctl [0..<MAXFLD]) k
       in take w (drop p (report_header n m ctl)) = pad_left CHR '' '' w (field_title j)
          \<and> take w (drop (p + 2) (fst (hop_line env gethostbyaddr fp rs s n at' (ctl, st)))) = take w (value_cell fp s at' j))"
proof -
  let ?js = "shown ctl [0..<MAXFLD]"
  have j: "0 \<le> ?js ! k" "?js ! k < 15" using shown_range [OF assms(1)] assms(4) by (meson nth_mem)+
  let ?f = "\<lambda>at'. snprint_addr env gethostbyaddr ctl (net_addr s at')"
  have n: "n = fold (\<lambda>at' l. let nlen = length (?f at') in if l < nlen then nlen else l) (hops ctl s) (length (LocalHostname ctl))"
    and m: "m = int n" "ctl' = ctl"
    using assms(2,3,5) unfolding host_widths_def Let_def by (simp_all split: if_splits) auto
  have local_len: "length (LocalHostname ctl) \<le> n" unfolding n by (rule widest_name(1))
  have name_len: "length (snprintf MAX_FORMAT_STR (?f at')) \<le> n"
    using widest_name(2) [OF assms(8), of ?f "length (LocalHostname ctl)"] unfolding n [symmetric] by (simp add: snprintf_def)
  let ?h = "''HOST: '' @ pad_right n (LocalHostname ctl)"
  have h: "snprintf BUF_SIZE ?h = ?h" "length ?h = 6 + n"
    using local_len assms(7) by (simp_all add: snprintf_def max_def)
  have "take (field_length (?js ! k)) (drop (6 + n + offset ?js k) (report_header n m ctl)) = title_cell (?js ! k)"
    using line_columns(1) [OF assms(1) _ assms(4), of "6 + n" ?h "[NL]"] assms(3,6,7) header_head [of "int n"] h
    by (simp only: report_header_def Let_def m(1) if_True fst_conv order_refl nat_int simp_thms of_nat_0_less_iff of_nat_less_numeral_iff)
  moreover have "length (fmt_d (at' + 1)) \<le> 2"
  proof -
    have l1: "x < 10 \<Longrightarrow> length (nat_str x) = 1" for x by (subst nat_str.simps) simp
    have "x < 100 \<Longrightarrow> length (nat_str x) \<le> 2" for x
      using l1 [of x] l1 [of "x div 10"] by (cases "x < 10") (simp, subst nat_str.simps, simp)
    then show ?thesis using assms(9,10) by (simp add: fmt_d_def)
  qed
  then have two: "length (pad_left CHR '' '' 2 (fmt_d (at' + 1))) = 2" by simp
  let ?b = "'' '' @ pad_left CHR '' '' 2 (fmt_d (at' + 1)) @ ''.|-- '' @ pad_right n (snprintf MAX_FORMAT_STR (?f at'))"
  have b: "length ?b = 8 + n" using two name_len by (simp add: max_def del: length_pad(1))
  then have bs: "snprintf BUF_SIZE ?b = ?b" using assms(7) by (intro snprintf_cell) simp
  have "take (field_length (?js ! k)) (drop (8 + n + offset ?js k) (fst (hop_line env gethostbyaddr fp rs s n at' (ctl, st))))
      = take (field_length (?js ! k)) (value_cell fp s at' (?js ! k))"
    using line_columns(2) [OF assms(1) _ assms(4), of "8 + n" ?b fp s at' "[NL]"] b bs assms(2,3) hop_head_plain [OF assms(2,6,7), of rs at']
    by (simp only: hop_line_def Let_def prod.case if_True fst_conv order_refl)
  moreover have "8 + n + offset ?js k = 6 + n + offset ?js k + 2" by simp
  ultimately show ?thesis using title_cell_text [OF j] m by (simp only: Let_def simp_thms)
qed

text \<open>Without the items of \<open>ui/asn.c\<close> the text report leaves out the other addresses of a hop, and
  the labels, even when labels are asked for: what is printed for a hop is its line.\<close>

theorem report_hides_paths:
  assumes "ipinfo_no ctl < 0"
  shows "report_hop env gethostbyaddr fp rs s n at' (out, ctl, st)
    = (out @ fst (hop_line env gethostbyaddr fp rs s n at' (ctl, st)), ctl, st)"
proof -
  have p: "\<exists>z'. other_paths env gethostbyaddr rs s at' z (o', ctl, st) = (z', o', ctl, st)" for z o'
  proof (induction "MAXPATH - z" arbitrary: z)
    case 0
    then show ?case by (subst other_paths.simps) simp
  next
    case (Suc m)
    then have "\<exists>z'. other_paths env gethostbyaddr rs s at' (Suc z) (o', ctl, st) = (z', o', ctl, st)" by simp
    then show ?case using assms by (subst other_paths.simps) (simp add: is_printii_def Let_def)
  qed
  obtain line where l: "hop_line env gethostbyaddr fp rs s n at' (ctl, st) = (line, ctl, st)"
    using assms by (simp add: hop_line_def hop_head_def is_printii_def Let_def)
  obtain z where "other_paths env gethostbyaddr rs s at' 1 (out @ line, ctl, st) = (z, out @ line, ctl, st)"
    using p [of 1 "out @ line"] by blast
  then show ?thesis using assms l by (simp add: report_hop_def is_printii_def)
qed

lemma rep_hops: "hops (rep_ctl wide) rep_net = [0]" "host_widths env g rep_net (rep_ctl True) = (3, 3, rep_ctl True)"
proof -
  have c: "fstTTL (rep_ctl wide) = 1" "maxTTL (rep_ctl wide) = 30" "af (rep_ctl wide) = AF_INET" "unspec_addr (rep_ctl wide) = zero_ip"
    "LocalHostname (rep_ctl wide) = ''me''" for wide
    by (simp_all add: rep_ctl_def init_fld_options_def default_ctl_def split: prod.split)
  have "addrcmp zero_ip (remoteaddress rep_net) AF_INET \<noteq> 0" "addrcmp zero_ip zero_ip AF_INET = 0"
    by (simp_all add: rep_net_def empty_net_def addrcmp_def zero_ip_def numeral_nat)
  then show h: "hops (rep_ctl wide) rep_net = [0]" for wide
    using c by (simp add: hops_def net_min_def net_max_def net_max_loop.simps [of _ _ 0] rep_net_def template_host_def)
  have "memcmp zero_ip zero_ip 4 = 0" by (rule memcmp_refl) (simp_all add: zero_ip_def)
  then show "host_widths env g rep_net (rep_ctl True) = (3, 3, rep_ctl True)"
    using rep_ctl_ok(2,3) [of True] h [of True] c by (simp add: host_widths_def snprint_addr_def net_addr_def rep_net_def template_host_def addrcmp_def)
qed

theorem wide_report_misaligned_witness:
  "take 6 (drop 9 (report_header 3 3 (rep_ctl True))) = '' Loss%''
    \<and> take 6 (drop 11 (fst (hop_line sample_inet (\<lambda>_ _. None) exact_fp no_resolver rep_net 3 0 (rep_ctl True, no_asn))))
       = take 6 (value_cell exact_fp rep_net 0 1)"
  using wide_report_misaligned [OF rep_ctl_ok(1,2) _ rep_columns0 rep_hops(2), of 0 sample_inet "\<lambda>_ _. None" exact_fp no_resolver no_asn]
    rep_ctl_ok(3) [of True] rep_columns [of True] rep_hops(1) [of True]
  by (simp add: Let_def offset_def field_length_def field_title_def data_fields_def pad_left_def)

theorem report_hides_paths_witness:
  "report_hop sample_inet (\<lambda>_ _. None) exact_fp no_resolver
      rep_net 33 0 ([], rep_ctl False, no_asn)
    = (fst (hop_line sample_inet (\<lambda>_ _. None) exact_fp no_resolver
         rep_net 33 0 (rep_ctl False, no_asn)), rep_ctl False, no_asn)"
  by (simp only: report_hides_paths [OF rep_ctl_ok(2)] append_Nil)

section \<open>JSON\<close>

text \<open>The fields of an object, as JSON wants them: a comma between two of them.\<close>

fun join :: "string \<Rightarrow> string list \<Rightarrow> string" where
  "join sep [] = []"
| "join sep [x] = x"
| "join sep (x # y # zs) = x @ sep @ join sep (y # zs)"

lemma join_Cons: "join sep (x # xs) = x @ concat (map (\<lambda>y. sep @ y) xs)"
  by (induction xs arbitrary: x) auto

lemma json_fields_append: "json_fields fp s ctl at' (is @ js) = json_fields fp s ctl at' is @ json_fields fp s ctl at' js"
  by (induction "is") (auto simp: Let_def)

lemma json_fields_middle:
  "\<forall>i \<in> set is. 0 < i \<and> i < 19 \<Longrightarrow> json_fields fp s ctl at' is =
    concat (map (\<lambda>y. ('','' @ [NL]) @ y) (map (json_field fp s at') (filter ((<) 0) (map (field_at ctl) is))))"
  by (induction "is") (auto simp: Let_def)

text \<open>The fields of a hop in the JSON report are those the user asked for, in their order, with a
  comma between two of them. But when the first of them is blank, a comma without a field before it
  comes first, and a field at the last of the 20 places has no comma before it: then the report is
  not JSON.\<close>

theorem json_fields_joined:
  "json_fields fp s ctl at' [0..<MAXFLD] =
    (let js = filter ((<) 0) (map (field_at ctl) [0..<19])
     in (if field_at ctl 0 \<le> 0 \<and> js \<noteq> [] then '','' @ [NL] else [])
        @ join ('','' @ [NL]) (map (json_field fp s at') js) @ [NL]
        @ (if 0 < field_at ctl 19 then json_field fp s at' (field_at ctl 19) else []))"
proof -
  let ?m = "filter ((<) 0) (map (field_at ctl) [1..<19])"
  have l: "[0..<MAXFLD] = 0 # [1..<19] @ [19]" "[0..<19] = 0 # [1..<19]" by (simp_all add: upt_rec numeral_nat)
  have "json_fields fp s ctl at' [1..<19] = concat (map (\<lambda>y. ('','' @ [NL]) @ y) (map (json_field fp s at') ?m))"
    by (rule json_fields_middle) simp
  moreover have "concat (map (\<lambda>y. ('','' @ [NL]) @ y) (map (json_field fp s at') ?m))
      = (if ?m = [] then [] else '','' @ [NL]) @ join ('','' @ [NL]) (map (json_field fp s at') ?m)"
    by (cases ?m) (auto simp: join_Cons)
  ultimately show ?thesis
    unfolding l by (cases "0 < field_at ctl 0") (auto simp: json_fields_append Let_def join_Cons)
qed

end
