(* ===== verification/Curses.thy ===== *)
theory Curses
  imports Report
begin

text \<open>
  \<open>ui/curses.c\<close>: the display on a terminal. What the program asks the terminal library to do is a
  list of operations, in order; what is typed is a list of key codes, after which \<open>getch\<close> answers
  -1. The width of the screen is a parameter. A use of a null pointer, of memory beyond an array or
  of text as a format with conversions is the left value of a sum.
\<close>

section \<open>The screen\<close>

text \<open>An attribute: the number of a pair of colours, 0 for none, and whether the text is bold.\<close>

type_synonym attr = "nat \<times> bool"

abbreviation (input) A_NORMAL :: attr where "A_NORMAL \<equiv> (0, False)"
abbreviation (input) A_BOLD :: attr where "A_BOLD \<equiv> (0, True)"

text \<open>\<open>Column\<close> is a move within the line of the cursor; \<open>Beep\<close> goes to the standard output.\<close>

datatype scr_op = Initscr | Raw | Noecho | StartColor | DefaultColors | InitPair int int int | Endwin
  | Erase | Refresh | Move int int | Column int | Attron attr | Attroff attr | Attrset attr
  | Print string | Beep

definition bold :: "string \<Rightarrow> scr_op list" where
  "bold t = [Attron A_BOLD, Print t, Attroff A_BOLD]"

datatype fault = NullPointer | BeyondArray | TextAsFormat

text \<open>\<open>printw(text)\<close> with a text that is not known: it must not have conversions.\<close>

definition printw_text :: "string \<Rightarrow> fault + scr_op list" where
  "printw_text t = (if CHR ''%'' \<in> set t then Inl TextAsFormat else Inr [Print t])"

definition pwcenter :: "int \<Rightarrow> string \<Rightarrow> scr_op list" where
  "pwcenter maxx str =
     (let cx = uint (word_of_int (maxx - int (length str)) :: 64 word) div 2; w = to_int32 cx
      in [Print ((if w < 0 then pad_right else pad_left CHR '' '') (nat \<bar>w\<bar>) [] @ str)])"

section \<open>Numbers\<close>

text \<open>\<open>buf\<close> holds what is in the buffer before.\<close>

definition format_number :: "int \<Rightarrow> int \<Rightarrow> string \<Rightarrow> string" where
  "format_number n w buf =
     (if w \<noteq> 5 then snprintf (w + 1) ''unimpl''
      else if n < 100000 then buf
      else if n < 1000000 then
        snprintf (w + 1) (c_printf ''%3dk%1d'' [PInt (c_div n 1000), PInt (c_div (c_mod n 1000) 100)])
      else if n < 10000000 then
        snprintf (w + 1) (c_printf ''%1dM%03d'' [PInt (c_div n 1000000), PInt (c_div (c_mod n 1000000) 1000)])
      else if n < 100000000 then
        snprintf (w + 1) (c_printf ''%2dM%02d'' [PInt (c_div n 1000000), PInt (c_div (c_mod n 1000000) 10000)])
      else if n < 1000000000 then
        snprintf (w + 1) (c_printf ''%3dM%01d'' [PInt (c_div n 1000000), PInt (c_div (c_mod n 1000000) 100000)])
      else
        snprintf (w + 1) (c_printf ''%1dG%03d'' [PInt (c_div n 1000000000), PInt (c_div (c_mod n 1000000000) 1000000)]))"

definition format_field :: "string \<Rightarrow> int \<Rightarrow> fp_env \<Rightarrow> string \<Rightarrow> int \<Rightarrow> string" where
  "format_field dst dst_length fp format n =
     (if CHR ''N'' \<in> set format then CHR '' '' # format_number n 5 (tl dst)
      else if CHR ''f'' \<in> set format then
        snprintf dst_length (c_printf format [PDbl (rnd fp (of_int n / 1000))])
      else snprintf dst_length (c_printf format [PInt n]))"

section \<open>Keys\<close>

text \<open>What a key works on: the options, what is typed after it, the operations so far.\<close>

record key_state =
  ks_ctl :: mtr_ctl
  ks_keys :: "int list"
  ks_ops :: "scr_op list"

definition getch :: "key_state \<Rightarrow> int \<times> key_state" where
  "getch s = (case ks_keys s of [] \<Rightarrow> (-1, s) | c # cs \<Rightarrow> (c, s\<lparr>ks_keys := cs\<rparr>))"

definition draws :: "scr_op list \<Rightarrow> key_state \<Rightarrow> key_state" where
  "draws ops s = s\<lparr>ks_ops := ks_ops s @ ops\<rparr>"

definition key_char :: "int \<Rightarrow> char" where
  "key_char c = char_of (nat (c mod 256))"

text \<open>The loop that reads an answer, with \<open>buf\<close> so far: at most \<open>MAXFLD\<close> characters are kept.\<close>

function read_answer :: "string \<Rightarrow> key_state \<Rightarrow> string \<times> key_state" where
  "read_answer buf s =
     (case getch s of (c, s) \<Rightarrow>
        if c \<noteq> 10 \<and> length buf < MAXFLD
        then read_answer (buf @ [key_char c]) (draws (bold [key_char c] @ [Refresh]) s)
        else (buf, s))"
  by pat_completeness auto
termination
  by (relation "measure (\<lambda>(b, s). MAXFLD - length b)") auto

declare read_answer.simps [simp del]

text \<open>The loop that reads the fields keeps asking until the answer is complete: \<open>None\<close> is a loop that
  does not end.\<close>

partial_function (option) read_fields :: "string \<Rightarrow> key_state \<Rightarrow> (string \<times> key_state) option" where
  "read_fields buf s =
     (case getch s of (c, s) \<Rightarrow>
        if c \<noteq> 10 \<and> length buf < MAXFLD
        then (if key_char c \<in> set (available_options (ks_ctl s)) \<or> key_char c = NUL
              then read_fields (buf @ [key_char c]) (draws (bold [key_char c] @ [Refresh]) s)
              else read_fields buf (draws [Beep] s))
        else Some (buf, s))"

declare read_fields.simps [code]

definition atoi :: "string \<Rightarrow> int" where
  "atoi s = (case strtol s of (n, _, _) \<Rightarrow> to_int32 n)"

definition atof :: "fp_env \<Rightarrow> string \<Rightarrow> rat" where
  "atof fp s = (case fp_strtod fp s of (x, _, _) \<Rightarrow> x)"

text \<open>A question about a number, with the line and the column of the answer.\<close>

definition ask :: "scr_op list \<Rightarrow> int \<Rightarrow> key_state \<Rightarrow> string \<times> key_state" where
  "ask question column s =
     (case read_answer [] (draws (question @ [Move 2 column, Refresh]) s) of (buf, s) \<Rightarrow> (cstr buf, s))"

definition set_ctl :: "(mtr_ctl \<Rightarrow> mtr_ctl) \<Rightarrow> key_state \<Rightarrow> key_state" where
  "set_ctl f s = s\<lparr>ks_ctl := f (ks_ctl s)\<rparr>"

definition ask_tos :: "key_state \<Rightarrow> key_state" where
  "ask_tos s =
     (case ask [Move 2 0, Print (c_printf ''Type of Service(tos): %d'' [PInt (tos (ks_ctl s))] @ [NL]), Move 3 0,
                Print (''default 0x00, min cost 0x02, rel 0x04,, thr 0x08, low del 0x10...'' @ [NL])] 22 s of (buf, s) \<Rightarrow>
        (let n = atoi buf in set_ctl (\<lambda>c. c\<lparr>tos := (if 255 < n \<or> n < 0 then 0 else n)\<rparr>) s))"

definition ask_size :: "key_state \<Rightarrow> key_state" where
  "ask_size s =
     (case ask [Move 2 0, Print (c_printf ''Change Packet Size: %d'' [PInt (cpacketsize (ks_ctl s))] @ [NL]), Move 3 0,
                Print (c_printf ''Size Range: %d-%d, < 0:random.'' [PInt MINPACKET, PInt MAXPACKET] @ [NL])] 20 s of (buf, s) \<Rightarrow>
        set_ctl (\<lambda>c. c\<lparr>cpacketsize := atoi buf\<rparr>) s)"

definition ask_pattern :: "key_state \<Rightarrow> key_state" where
  "ask_pattern s =
     (case ask [Move 2 0, Print (c_printf ''Ping Bit Pattern: %d'' [PInt (bitpattern (ks_ctl s))] @ [NL]), Move 3 0,
                Print (''Pattern Range: 0(0x00)-255(0xff), <0 random.'' @ [NL])] 18 s of (buf, s) \<Rightarrow>
        set_ctl (\<lambda>c. c\<lparr>bitpattern := (if 255 < atoi buf then -1 else atoi buf)\<rparr>) s)"

definition ask_interval :: "fp_env \<Rightarrow> bool \<Rightarrow> key_state \<Rightarrow> key_state" where
  "ask_interval fp running_as_root s =
     (case ask [Move 2 0, Print (c_printf ''Interval : %0.0f'' [PDbl (WaitTime (ks_ctl s))] @ [NL, NL])] 11 s of (buf, s) \<Rightarrow>
        (let f = rndf fp (atof fp buf)
         in if f \<le> 0 then s
            else if \<not> running_as_root \<and> f < 1 then s
            else set_ctl (\<lambda>c. c\<lparr>WaitTime := f\<rparr>) s))"

definition ask_first :: "key_state \<Rightarrow> key_state" where
  "ask_first s =
     (case ask [Move 2 0, Print (c_printf ''First TTL: %d'' [PInt (fstTTL (ks_ctl s))] @ [NL, NL])] 11 s of (buf, s) \<Rightarrow>
        (let i = atoi buf
         in if i < 1 \<or> maxTTL (ks_ctl s) < i then s else set_ctl (\<lambda>c. c\<lparr>fstTTL := i\<rparr>) s))"

definition ask_max :: "key_state \<Rightarrow> key_state" where
  "ask_max s =
     (case ask [Move 2 0, Print (c_printf ''Max TTL: %d'' [PInt (maxTTL (ks_ctl s))] @ [NL, NL])] 9 s of (buf, s) \<Rightarrow>
        (let i = atoi buf
         in if i < fstTTL (ks_ctl s) \<or> int MaxHost - 1 < i then s else set_ctl (\<lambda>c. c\<lparr>maxTTL := i\<rparr>) s))"

text \<open>\<open>descr\<close> of \<open>data_fields\<close>.\<close>

definition field_descr :: "string list" where
  "field_descr =
     [''<sp>: Space between fields'', ''L: Loss Ratio'', ''D: Dropped Packets'', ''R: Received Packets'',
      ''S: Sent Packets'', ''N: Newest RTT(ms)'', ''B: Min/Best RTT(ms)'', ''A: Average RTT(ms)'',
      ''W: Max/Worst RTT(ms)'', ''V: Standard Deviation'', ''G: Geometric Mean'', ''J: Current Jitter'',
      ''M: Jitter Mean/Avg.'', ''X: Worst Jitter'', ''I: Interarrival Jitter'']"

definition fields_question :: "mtr_ctl \<Rightarrow> scr_op list" where
  "fields_question ctl =
     [Move 2 0, Print (''Fields: '' @ fld_active ctl @ [NL, NL])]
     @ map (\<lambda>d. Print (''  '' @ d @ [NL])) field_descr @ [Print [NL], Move 2 8, Refresh]"

definition ask_fields :: "key_state \<Rightarrow> key_state option" where
  "ask_fields s =
     (case read_fields [] (draws (fields_question (ks_ctl s)) s) of
        None \<Rightarrow> None
      | Some (buf, s) \<Rightarrow>
          Some (if 0 < length (cstr buf) then set_ctl (\<lambda>c. c\<lparr>fld_active := xstrncpy (cstr buf) (2 * int MAXFLD)\<rparr>) s else s))"

definition toggle_fields :: "mtr_ctl \<Rightarrow> mtr_ctl" where
  "toggle_fields c =
     c\<lparr>fld_active := xstrncpy (if CHR ''N'' \<in> set (fld_active c) then ''DR AGJMXI'' else ''LS NABWV'') (2 * int MAXFLD)\<rparr>"

definition toggle_udp :: "mtr_ctl \<Rightarrow> mtr_ctl" where
  "toggle_udp c =
     (if mtrtype c = IPPROTO_ICMP \<or> mtrtype c = IPPROTO_TCP then c\<lparr>mtrtype := IPPROTO_UDP\<rparr>
      else if mtrtype c = IPPROTO_UDP then c\<lparr>mtrtype := IPPROTO_ICMP\<rparr> else c)"

definition toggle_tcp :: "mtr_ctl \<Rightarrow> mtr_ctl" where
  "toggle_tcp c =
     (if mtrtype c = IPPROTO_ICMP \<or> mtrtype c = IPPROTO_UDP then c\<lparr>mtrtype := IPPROTO_TCP\<rparr>
      else if mtrtype c = IPPROTO_TCP then c\<lparr>mtrtype := IPPROTO_ICMP\<rparr> else c)"

definition help_lines :: "string list" where
  "help_lines =
     [''Command:'', ''  ?|h     help'', ''  p       pause (SPACE to resume)'', ''  d       switching display mode'',
      ''  e       toggle MPLS information on/off'', ''  n       toggle DNS on/off'', ''  r       reset all counters'',
      ''  o str   set the columns to display, default str='' @ [CHR 0x27] @ ''LRS N BAWV'' @ [CHR 0x27],
      ''  j       toggle latency(LS NABWV)/jitter(DR AGJMXI) stats'',
      ''  c <n>   report cycle n, default n=infinite'', ''  i <n>   set the ping interval to n seconds, default n=1'',
      ''  f <n>   set the initial time-to-live(ttl), default n=1'', ''  m <n>   set the max time-to-live, default n= # of hops'',
      ''  s <n>   set the packet size to n or random(n<0)'', ''  b <c>   set ping bit pattern to c(0..255) or random(c<0)'',
      ''  Q <t>   set ping packet'' @ [CHR 0x27] @ ''s TOS to t'', ''  u       switch between ICMP ECHO and UDP datagrams'',
      ''  y       switching IP info'', ''  z       toggle ASN info on/off'', [] ]"

definition show_help :: "key_state \<Rightarrow> key_state" where
  "show_help s =
     snd (getch (draws ([Move 2 0] @ map (\<lambda>l. Print (l @ [NL])) help_lines @ [Print '' press any key to go back...'']) s))"

definition key_lower :: "int \<Rightarrow> int" where
  "key_lower c = (if 65 \<le> c \<and> c \<le> 90 then c + 32 else c)"

text \<open>The keys that stand for an action of the loop.\<close>

definition plain_keys :: "(int \<times> action) list" where
  "plain_keys =
     [(of_char CHR ''q'', ActionQuit), (-1, ActionQuit), (3, ActionQuit), (12, ActionClear), (19, ActionPause),
      (of_char CHR ''p'', ActionPause), (17, ActionResume), (of_char CHR '' '', ActionResume),
      (of_char CHR ''r'', ActionReset), (of_char CHR ''d'', ActionDisplay), (of_char CHR ''e'', ActionMPLS),
      (of_char CHR ''n'', ActionDNS), (of_char CHR ''y'', ActionII), (of_char CHR ''z'', ActionAS),
      (of_char CHR ''+'', ActionScrollDown), (of_char CHR ''-'', ActionScrollUp)]"

definition is_key :: "int \<Rightarrow> char \<Rightarrow> bool" where "is_key c k \<longleftrightarrow> c = of_char k"

text \<open>The other keys, but for the fields.\<close>

definition option_key :: "fp_env \<Rightarrow> bool \<Rightarrow> int \<Rightarrow> key_state \<Rightarrow> key_state" where
  "option_key fp running_as_root c s =
     (if is_key c CHR ''s'' then ask_size s
      else if is_key c CHR ''b'' then ask_pattern s
      else if is_key c CHR ''i'' then ask_interval fp running_as_root s
      else if is_key c CHR ''f'' then ask_first s
      else if is_key c CHR ''m'' then ask_max s
      else if is_key c CHR ''j'' then set_ctl toggle_fields s
      else if is_key c CHR ''u'' then set_ctl toggle_udp s
      else if is_key c CHR ''t'' then set_ctl toggle_tcp s
      else if is_key c CHR ''?'' \<or> is_key c CHR ''h'' then show_help s else s)"

text \<open>\<open>mtr_curses_keyaction\<close>; \<open>None\<close> does not return.\<close>

definition mtr_curses_keyaction :: "fp_env \<Rightarrow> bool \<Rightarrow> key_state \<Rightarrow> (action \<times> key_state) option" where
  "mtr_curses_keyaction fp running_as_root s =
     (case getch s of (c, s) \<Rightarrow>
        if is_key c CHR ''Q'' then Some (ActionNone, ask_tos s)
        else
          (let c = key_lower c
           in case map_of plain_keys c of
                Some a \<Rightarrow> Some (a, s)
              | None \<Rightarrow>
                  if is_key c CHR ''o'' then map_option (Pair ActionNone) (ask_fields s)
                  else Some (ActionNone, option_key fp running_as_root c s)))"

end
