(* ===== verification/CursesDraw.thy ===== *)
theory CursesDraw
  imports Curses Display
begin

text \<open>
  \<open>ui/curses.c\<close>, continued: what is drawn. The hops with their columns, the graphs with their scale,
  and the whole screen. \<open>links\<close> are the addresses and names read from \<open>linknames.txt\<close>.
\<close>

section \<open>State\<close>

text \<open>What a redraw works on.\<close>

record draw_state =
  dw_ops :: "scr_op list"
  dw_ctl :: mtr_ctl
  dw_asn :: asn_state
  dw_dns :: dns_state

definition put_ops :: "scr_op list \<Rightarrow> draw_state \<Rightarrow> fault + draw_state" where
  "put_ops ops s = Inr (s\<lparr>dw_ops := dw_ops s @ ops\<rparr>)"

text \<open>\<open>printw(fmt_ipinfo(ctl, addr))\<close>, when the items are shown.\<close>

definition put_ipinfo :: "resolver \<Rightarrow> ip_t \<Rightarrow> draw_state \<Rightarrow> fault + draw_state" where
  "put_ipinfo rs addr s =
     (if is_printii (dw_ctl s) then
        (case fmt_ipinfo rs addr (dw_ctl s, dw_asn s) of (info, ctl, st) \<Rightarrow>
           and_then (printw_text info) (\<lambda>ops. put_ops ops (s\<lparr>dw_ctl := ctl, dw_asn := st\<rparr>)))
      else Inr s)"

definition look_up :: "inet_env \<Rightarrow> (string \<Rightarrow> bool) \<Rightarrow> ip_t \<Rightarrow> draw_state \<Rightarrow> string option \<times> draw_state" where
  "look_up env write_ok ip s =
     (case dns_lookup env write_ok (dw_ctl s) ip (dw_dns s) of (name, st) \<Rightarrow> (name, s\<lparr>dw_dns := st\<rparr>))"

section \<open>The hops\<close>

text \<open>The name with the name of the link: 500 bytes from \<open>name\<close> on are copied, and the copy is the
  name if that is shorter.\<close>

definition link_text :: "(string \<times> string) list \<Rightarrow> string option \<Rightarrow> fault + string \<times> scr_op list" where
  "link_text links name =
     (case name of None \<Rightarrow> Inl NullPointer
      | Some name \<Rightarrow>
          if 500 \<le> length name then Inl BeyondArray
          else case find (\<lambda>(a, _). name = a) (links @ replicate (20 - length links) ([], [])) of
                 None \<Rightarrow> Inr (name, [])
               | Some (_, n) \<Rightarrow>
                   (let t = c_printf (''%s'' @ [CHR 0x09] @ ''%s'') [PStr name, PStr n]
                    in if 500 \<le> length t then Inl BeyondArray else Inr (t, [Attron (2, False)])))"

definition mpls_lines :: "mtr_ctl \<Rightarrow> mplslen \<Rightarrow> scr_op list" where
  "mpls_lines ctl m =
     (if enablempls ctl then
        map (\<lambda>k. Print ([NL] @ c_printf ''    [MPLS: Lbl %lu TC %u S %u TTL %u]'' [PInt (uint (mpls_label m ! k)),
               PInt (uint (mpls_tc m ! k)), PInt (uint (mpls_s m ! k)), PInt (uint (mpls_ttl m ! k))])) [0..<mpls_labels m]
      else [])"

text \<open>The columns of a hop, put into \<open>buf\<close> from place \<open>hd_len\<close> on.\<close>

fun value_columns :: "fp_env \<Rightarrow> net \<Rightarrow> mtr_ctl \<Rightarrow> int \<Rightarrow> nat list \<Rightarrow> string \<times> nat \<Rightarrow> string \<times> nat" where
  "value_columns fp s ctl at' [] bl = bl"
| "value_columns fp s ctl at' (i # is) (buf, hd_len) =
     (let j = field_at ctl i
      in if j = -1 then value_columns fp s ctl at' is (buf, hd_len)
         else value_columns fp s ctl at' is
                (if hd_len \<le> length buf
                 then take hd_len buf
                      @ format_field (drop hd_len buf) (1024 - int hd_len) fp (field_format j) (net_xxx fp s j at')
                 else buf, hd_len + field_length j))"

definition value_line :: "fp_env \<Rightarrow> net \<Rightarrow> mtr_ctl \<Rightarrow> int \<Rightarrow> string" where
  "value_line fp s ctl at' = (case value_columns fp s ctl at' [0..<MAXFLD] ([], 0) of (buf, hd_len) \<Rightarrow> take hd_len buf)"

text \<open>The other addresses of a hop.\<close>

fun path_lines ::
  "inet_env \<Rightarrow> (string \<Rightarrow> bool) \<Rightarrow> resolver \<Rightarrow> net \<Rightarrow> int \<Rightarrow> nat list \<Rightarrow> draw_state \<Rightarrow> fault + draw_state" where
  "path_lines env write_ok rs s at' [] d = Inr d"
| "path_lines env write_ok rs s at' (i # is) d =
     (let addrs = net_addrs s at' i; ctl = dw_ctl d
      in if addrcmp addrs (net_addr s at') (af ctl) = 0 then path_lines env write_ok rs s at' is d
         else if addrcmp addrs (unspec_addr ctl) (af ctl) = 0 then Inr d
         else (case look_up env write_ok addrs d of (name, d) \<Rightarrow>
            and_then (put_ops ((if net_up s at' = 0 then [Attron A_BOLD] else []) @ [Print ([NL] @ ''    '')]) d) (\<lambda>d.
            and_then (put_ipinfo rs addrs d) (\<lambda>d.
            and_then (put_ops
                ([Print (case name of
                     None \<Rightarrow> c_text (strlongip env ctl addrs)
                   | Some n \<Rightarrow> if show_ips ctl then c_printf ''%s (%s)'' [PStr n, PStr (c_text (strlongip env ctl addrs))] else n)]
                 @ mpls_lines ctl (net_mplss s at' i) @ [Attroff A_BOLD]) d)
              (path_lines env write_ok rs s at' is)))))"

text \<open>A hop that has answered, and one that has not.\<close>

definition host_line ::
  "inet_env \<Rightarrow> (string \<Rightarrow> bool) \<Rightarrow> fp_env \<Rightarrow> resolver \<Rightarrow> (string \<times> string) list \<Rightarrow> int \<Rightarrow> net \<Rightarrow> int
     \<Rightarrow> draw_state \<Rightarrow> fault + draw_state" where
  "host_line env write_ok fp rs links startstat s at' d =
     (let addr = net_addr s at'; ctl = dw_ctl d
      in case look_up env write_ok addr d of (name, d) \<Rightarrow>
         and_then (put_ops (if net_up s at' = 0 then [Attron A_BOLD] else []) d) (\<lambda>d.
         and_then (link_text links name) (\<lambda>(printname, ops).
         and_then (put_ops ops d) (\<lambda>d.
         and_then (put_ipinfo rs addr d) (\<lambda>d.
         and_then (put_ops
             ([Print (if show_ips ctl then c_printf ''%s (%s)'' [PStr printname, PStr (c_text (strlongip env ctl addr))] else printname),
               Attron (8, False), Attroff A_BOLD, Column startstat, Print (value_line fp s (dw_ctl d) at')]
              @ mpls_lines ctl (net_mpls s at')) d)
           (path_lines env write_ok rs s at' [0..<MAXPATH]))))))"

definition curses_host ::
  "inet_env \<Rightarrow> (string \<Rightarrow> bool) \<Rightarrow> fp_env \<Rightarrow> (int \<Rightarrow> string) \<Rightarrow> resolver \<Rightarrow> (string \<times> string) list \<Rightarrow> int \<Rightarrow> net \<Rightarrow> int
     \<Rightarrow> draw_state \<Rightarrow> fault + draw_state" where
  "curses_host env write_ok fp strerror rs links startstat s at' d =
     and_then (put_ops [Print (c_printf ''%2d. '' [PInt (at' + 1)])] d) (\<lambda>d.
     and_then
       (if net_err s at' = 0 \<and> addrcmp (net_addr s at') (unspec_addr (dw_ctl d)) (af (dw_ctl d)) \<noteq> 0
        then host_line env write_ok fp rs links startstat s at' d
        else put_ops (bold (c_printf ''(%s)'' [PStr (host_error_to_string strerror (net_err s at'))])) d)
       (put_ops [Print [NL]]))"

definition mtr_curses_hosts ::
  "inet_env \<Rightarrow> (string \<Rightarrow> bool) \<Rightarrow> fp_env \<Rightarrow> (int \<Rightarrow> string) \<Rightarrow> resolver \<Rightarrow> (string \<times> string) list \<Rightarrow> net \<Rightarrow> int
     \<Rightarrow> draw_state \<Rightarrow> fault + draw_state" where
  "mtr_curses_hosts env write_ok fp strerror rs links s startstat d =
     and_then
       (fold_res (curses_host env write_ok fp strerror rs links startstat s)
          [net_min (dw_ctl d) + display_offset (dw_ctl d) .. net_max (dw_ctl d) s - 1] d)
       (put_ops [Move 2 0])"

section \<open>The graph\<close>

abbreviation (input) NUM_FACTORS :: nat where "NUM_FACTORS \<equiv> 8"

text \<open>The times of a hop as they are looked at, one after the other.\<close>

fun low_high :: "int list \<Rightarrow> int \<times> int \<Rightarrow> int \<times> int" where
  "low_high [] lh = lh"
| "low_high (x # xs) (low, high) =
     low_high xs (if x < 0 then (low, high) else (if x < low then x else low, if high < x then x else high))"

definition graph_hops :: "mtr_ctl \<Rightarrow> net \<Rightarrow> int list" where
  "graph_hops ctl s = [display_offset ctl .. net_max ctl s - 1]"

definition factors :: "fp_env \<Rightarrow> nat \<Rightarrow> rat" where
  "factors fp i = (let f = rnd fp (rnd fp (1 / of_nat NUM_FACTORS) * of_nat (i + 1)) in rnd fp (f * f))"

definition mtr_gen_scale :: "fp_env \<Rightarrow> mtr_ctl \<Rightarrow> net \<Rightarrow> int list" where
  "mtr_gen_scale fp ctl s =
     (case fold (\<lambda>at'. low_high (net_saved_pings s at')) (graph_hops ctl s) (1000000, -1) of (low, high) \<Rightarrow>
        map (\<lambda>i. c_trunc (rnd fp (of_int low + rnd fp (of_int (high - low) * factors fp i)))) [0..<NUM_FACTORS])"

definition block_map :: string where
  "block_map = ''.''
     @ map (\<lambda>i. char_of (48 + i)) [1..<(NUM_FACTORS - 2) div 2 + 1]
     @ map (\<lambda>i. char_of (97 + i - (NUM_FACTORS - 2) div 2 - 1)) [(NUM_FACTORS - 2) div 2 + 1..<NUM_FACTORS - 1]
     @ ''>''"

definition block_col :: "attr list" where
  "block_col = [(2, True), A_NORMAL, (3, False), (3, True), (4, True), (6, True), (6, False), (2, False), (2, True)]"

definition block :: "nat \<Rightarrow> scr_op list" where
  "block i = [Attrset (block_col ! (i + 1)), Print [block_map ! i], Attrset A_NORMAL]"

definition mtr_print_scaled :: "int list \<Rightarrow> int \<Rightarrow> scr_op list" where
  "mtr_print_scaled scale ms =
     (case find (\<lambda>i. ms \<le> scale ! i) [0..<NUM_FACTORS] of Some i \<Rightarrow> block i | None \<Rightarrow> [Print ''>''])"

text \<open>One of the saved times in the graph.\<close>

definition graph_cell :: "int list \<Rightarrow> mtr_ctl \<Rightarrow> int \<Rightarrow> scr_op list" where
  "graph_cell scale ctl x =
     (if x = -2 then [Print '' '']
      else if x = -1 then [Attrset (block_col ! 0), Print ''?'', Attrset A_NORMAL]
      else if display_mode ctl = 1 then
        [Print (if scale ! 6 < x then [block_map ! (NUM_FACTORS - 1)] else ''.'')]
      else mtr_print_scaled scale x)"

definition mtr_fill_graph :: "int list \<Rightarrow> mtr_ctl \<Rightarrow> net \<Rightarrow> int \<Rightarrow> int \<Rightarrow> scr_op list" where
  "mtr_fill_graph scale ctl s at' cols =
     concat (map (\<lambda>i. graph_cell scale ctl (net_saved_pings s at' ! nat i)) [int SAVED_PINGS - cols .. int SAVED_PINGS - 1])"

definition curses_graph_line ::
  "inet_env \<Rightarrow> (string \<Rightarrow> bool) \<Rightarrow> (int \<Rightarrow> string) \<Rightarrow> resolver \<Rightarrow> int list \<Rightarrow> int \<Rightarrow> int \<Rightarrow> net \<Rightarrow> int
     \<Rightarrow> draw_state \<Rightarrow> fault + draw_state" where
  "curses_graph_line env write_ok strerror rs scale startstat cols s at' d =
     (let addr = net_addr s at'; err = net_err s at'
      in and_then (put_ops [Print (c_printf ''%2d. '' [PInt (at' + 1)])] d) (\<lambda>d.
         and_then
           (if err = 0 \<and> addrcmp addr (unspec_addr (dw_ctl d)) (af (dw_ctl d)) \<noteq> 0 then
              and_then (put_ops (if net_up s at' = 0 then [Attron A_BOLD] else []) d) (\<lambda>d.
              and_then (put_ipinfo rs addr d) (\<lambda>d.
                (case look_up env write_ok addr d of (name, d) \<Rightarrow>
                   put_ops [Print (case name of Some n \<Rightarrow> n | None \<Rightarrow> c_text (strlongip env (dw_ctl d) addr))] d)))
            else put_ops [Attron A_BOLD, Print (c_printf ''(%s)'' [PStr (host_error_to_string strerror err)])] d)
           (\<lambda>d. put_ops ([Attroff A_BOLD, Column startstat, Print '' ''] @ mtr_fill_graph scale (dw_ctl d) s at' cols
                  @ [Print [NL]]) d)))"

definition mtr_curses_graph ::
  "inet_env \<Rightarrow> (string \<Rightarrow> bool) \<Rightarrow> (int \<Rightarrow> string) \<Rightarrow> resolver \<Rightarrow> int list \<Rightarrow> net \<Rightarrow> int \<Rightarrow> int
     \<Rightarrow> draw_state \<Rightarrow> fault + draw_state" where
  "mtr_curses_graph env write_ok strerror rs scale s startstat cols d =
     fold_res (curses_graph_line env write_ok strerror rs scale startstat cols s) (graph_hops (dw_ctl d) s) d"

section \<open>The screen\<close>

definition keys_line :: "scr_op list" where
  "keys_line =
     [Print ''Keys:  ''] @ bold ''H'' @ [Print ''elp   ''] @ bold ''D'' @ [Print ''isplay mode   ''] @ bold ''R''
     @ [Print ''estart statistics   ''] @ bold ''O'' @ [Print ''rder of fields   ''] @ bold ''q'' @ [Print (''uit'' @ [NL])]"

text \<open>The titles of the columns. \<open>buf\<close> is as the title of the program left it.\<close>

fun title_columns :: "mtr_ctl \<Rightarrow> nat list \<Rightarrow> string \<times> nat \<Rightarrow> string \<times> nat" where
  "title_columns ctl [] bl = bl"
| "title_columns ctl (i # is) (buf, hd_len) =
     (let j = field_at ctl i
      in if j < 0 then title_columns ctl is (buf, hd_len)
         else title_columns ctl is
                (if hd_len \<le> length buf then take hd_len buf @ snprintf (1024 - int hd_len) (title_cell j) else buf,
                 hd_len + field_length j))"

definition scale_line :: "int list \<Rightarrow> scr_op list" where
  "scale_line scale =
     [Print [NL]] @ bold ''Scale:''
     @ concat (map (\<lambda>i. [Print ''  ''] @ block i @ [Print (c_printf '':%d ms'' [PInt (c_div (scale ! i) 1000)])]) [0..<NUM_FACTORS - 1])
     @ [Print ''  ''] @ block (NUM_FACTORS - 1)"

text \<open>The two forms of what is below the keys.\<close>

definition screen_hosts ::
  "inet_env \<Rightarrow> (string \<Rightarrow> bool) \<Rightarrow> fp_env \<Rightarrow> (int \<Rightarrow> string) \<Rightarrow> resolver \<Rightarrow> (string \<times> string) list \<Rightarrow> string
     \<Rightarrow> int \<Rightarrow> net \<Rightarrow> draw_state \<Rightarrow> fault + draw_state" where
  "screen_hosts env write_ok fp strerror rs links title maxx s d =
     (case title_columns (dw_ctl d) [0..<MAXFLD] (title, 0) of (buf, hd_len) \<Rightarrow>
        and_then (put_ops [Attron A_BOLD, Move 4 0, Print '' Host'', Move 4 (maxx - int hd_len - 1), Print buf,
            Move 3 (maxx - int hd_len - 1), Print ''   Packets               Pings'', Attroff A_BOLD, Move 5 0] d)
          (mtr_curses_hosts env write_ok fp strerror rs links s (maxx - int hd_len - 1)))"

definition screen_graph ::
  "inet_env \<Rightarrow> (string \<Rightarrow> bool) \<Rightarrow> fp_env \<Rightarrow> (int \<Rightarrow> string) \<Rightarrow> resolver \<Rightarrow> int \<Rightarrow> net \<Rightarrow> draw_state \<Rightarrow> fault + draw_state" where
  "screen_graph env write_ok fp strerror rs maxx s d =
     (let padding = 30 + (if is_printii (dw_ctl d) then get_iiwidth (ipinfo_no (dw_ctl d)) else 0);
          max_cols = (if maxx \<le> int SAVED_PINGS + padding then maxx - padding else int SAVED_PINGS);
          scale = mtr_gen_scale fp (dw_ctl d) s
      in and_then (put_ops [Move 4 (padding - 2), Print (snprintf 80 (c_printf '' Last %3d pings'' [PInt max_cols])),
             Attroff A_BOLD, Move 5 0] d) (\<lambda>d.
         and_then (mtr_curses_graph env write_ok strerror rs scale s (padding - 2) max_cols d)
           (put_ops (scale_line scale))))"

definition mtr_curses_redraw ::
  "inet_env \<Rightarrow> (string \<Rightarrow> bool) \<Rightarrow> fp_env \<Rightarrow> (int \<Rightarrow> string) \<Rightarrow> resolver \<Rightarrow> (string \<times> string) list \<Rightarrow> string \<Rightarrow> string \<Rightarrow> string
     \<Rightarrow> int \<Rightarrow> net \<Rightarrow> draw_state \<Rightarrow> fault + draw_state" where
  "mtr_curses_redraw env write_ok fp strerror rs links package_version localaddr iso_time maxx s d =
     (let title = snprintf 1024 (c_printf ''%s%s%s'' [PStr ''My traceroute  [v'', PStr package_version, PStr '']''])
      in and_then (put_ops ([Erase, Move 0 0, Attron A_BOLD] @ pwcenter maxx title @ [Attroff A_BOLD, Move 1 0,
             Print (c_printf ''%s (%s)'' [PStr (LocalHostname (dw_ctl d)), PStr localaddr]), Move 1 (maxx - 25)]) d) (\<lambda>d.
         and_then (printw_text iso_time) (\<lambda>ops.
         and_then (put_ops (ops @ [Print [NL]] @ keys_line) d) (\<lambda>d.
         and_then
           (if display_mode (dw_ctl d) = 0 then screen_hosts env write_ok fp strerror rs links title maxx s d
            else screen_graph env write_ok fp strerror rs maxx s d)
           (put_ops [Refresh])))))"

section \<open>Opening, closing, clearing\<close>

definition open_ops :: "bool \<Rightarrow> scr_op list" where
  "open_ops default_colors =
     [Initscr, Raw, Noecho, StartColor, DefaultColors]
     @ map (\<lambda>i. InitPair (int i + 1) (int i) (if default_colors then -1 else 0)) [0..<NUM_FACTORS]"

definition mtr_curses_open ::
  "bool \<Rightarrow> (draw_state \<Rightarrow> fault + draw_state) \<Rightarrow> draw_state \<Rightarrow> fault + draw_state" where
  "mtr_curses_open default_colors redraw d = and_then (put_ops (open_ops default_colors) d) redraw"

definition mtr_curses_close :: "draw_state \<Rightarrow> fault + draw_state" where
  "mtr_curses_close d = put_ops [Print [NL], Endwin] d"

definition mtr_curses_clear ::
  "bool \<Rightarrow> (draw_state \<Rightarrow> fault + draw_state) \<Rightarrow> draw_state \<Rightarrow> fault + draw_state" where
  "mtr_curses_clear default_colors redraw d = and_then (mtr_curses_close d) (mtr_curses_open default_colors redraw)"

end
