(* ===== verification/CursesProps.thy ===== *)
theory CursesProps
  imports CursesDraw NetProps SplitProps
begin

text \<open>
  Properties of the curses display: what the keys may change, when an answer is complete, the names
  that are drawn and the scale of the graphs.
\<close>

section \<open>Keys\<close>

lemma getch_ctl: "getch s = (c, s') \<Longrightarrow> ks_ctl s' = ks_ctl s"
  by (auto simp: getch_def split: list.splits)


lemma draws_sel [simp]: "ks_ctl (draws ops s) = ks_ctl s" "ks_keys (draws ops s) = ks_keys s"
  by (simp_all add: draws_def)

lemma set_ctl_sel [simp]: "ks_ctl (set_ctl f s) = f (ks_ctl s)" "ks_keys (set_ctl f s) = ks_keys s"
  by (simp_all add: set_ctl_def)

lemma read_answer_ctl: "ks_ctl (snd (read_answer buf s)) = ks_ctl s"
proof (induction buf s rule: read_answer.induct)
  case (1 buf s)
  obtain c s1 where g: "getch s = (c, s1)" by fastforce
  show ?case
    using 1 [OF g [symmetric]] getch_ctl [OF g] by (subst read_answer.simps) (simp add: g)
qed

lemma ask_ctl: "ask q col s = (buf, s') \<Longrightarrow> ks_ctl s' = ks_ctl s"
  using read_answer_ctl [of "[]" "draws (q @ [Move 2 col, Refresh]) s"] by (auto simp: ask_def split: prod.splits)

text \<open>What is typed when the terminal is closed is not a field.\<close>

lemma key_end [simp]: "key_char (-1) \<noteq> NUL"
  by (simp add: key_char_def char_of_def)

lemma read_fields_end:
  assumes "read_fields buf s = Some r" and "ks_keys s = []" and "key_char (-1) \<notin> set (available_options (ks_ctl s))"
  shows "MAXFLD \<le> length buf"
proof -
  let ?P = "\<lambda>buf s r. ks_keys s = [] \<longrightarrow> key_char (-1) \<notin> set (available_options (ks_ctl s)) \<longrightarrow> MAXFLD \<le> length buf"
  have "?P buf s r"
  proof (rule read_fields.raw_induct [of ?P, OF _ assms(1)])
    fix rf buf s r
    assume ih: "\<And>s b y. rf s b = Some y \<Longrightarrow> ?P s b y"
      and step: "(case getch s of (c, s) \<Rightarrow>
        if c \<noteq> 10 \<and> length buf < MAXFLD
        then (if key_char c \<in> set (available_options (ks_ctl s)) \<or> key_char c = NUL
              then rf (buf @ [key_char c]) (draws (bold [key_char c] @ [Refresh]) s)
              else rf buf (draws [Beep] s))
        else Some (buf, s)) = Some r"
    show "?P buf s r"
      using step ih [of buf "draws [Beep] s"] by (cases r) (auto simp: getch_def draws_def split: if_splits)
  qed
  then show ?thesis using assms(2,3) by simp
qed

definition accepted :: "mtr_ctl \<Rightarrow> int \<Rightarrow> bool" where
  "accepted ctl c \<longleftrightarrow> key_char c \<in> set (available_options ctl) \<or> key_char c = NUL"

text \<open>The answer about the fields: when it is complete, and what it consists of.\<close>

lemma read_fields_spec:
  assumes "length buf \<le> MAXFLD" and "key_char (-1) \<notin> set (available_options (ks_ctl s))"
  shows "(read_fields buf s = None \<longleftrightarrow>
        10 \<notin> set (ks_keys s) \<and> length buf + length (filter (accepted (ks_ctl s)) (ks_keys s)) < MAXFLD)
    \<and> (\<forall>b s'. read_fields buf s = Some (b, s') \<longrightarrow> ks_ctl s' = ks_ctl s \<and> length b \<le> MAXFLD
         \<and> set b \<subseteq> set buf \<union> insert NUL (set (available_options (ks_ctl s))))"
  using assms
proof (induction "ks_keys s" arbitrary: buf s)
  case Nil
  show ?case
  proof (cases "length buf = MAXFLD")
    case True
    with Nil show ?thesis by (subst (1 2) read_fields.simps) (auto simp: getch_def)
  next
    case False
    with Nil(2) have l: "length buf < MAXFLD" by simp
    have "read_fields buf s = None"
    proof (rule ccontr)
      assume "read_fields buf s \<noteq> None"
      then obtain r where "read_fields buf s = Some r" by auto
      from read_fields_end [OF this Nil(1) [symmetric] Nil(3)] l show False by simp
    qed
    with l Nil show ?thesis by simp
  qed
next
  case (Cons c ks)
  define s1 where "s1 = s\<lparr>ks_keys := ks\<rparr>"
  have g: "getch s = (c, s1)" using Cons(2) [symmetric] by (simp add: getch_def s1_def)
  have s1: "ks_keys s1 = ks" "ks_ctl s1 = ks_ctl s" by (simp_all add: s1_def)
  show ?case
  proof (cases "c \<noteq> 10 \<and> length buf < MAXFLD")
    case False
    then have "read_fields buf s = Some (buf, s1)" by (subst read_fields.simps) (auto simp: g)
    with False Cons(2,3) s1 show ?thesis by (auto simp: Cons(2) [symmetric])
  next
    case True
    show ?thesis
    proof (cases "accepted (ks_ctl s) c")
      case acc: True
      let ?s = "draws (bold [key_char c] @ [Refresh]) s1" and ?b = "buf @ [key_char c]"
      have r: "read_fields buf s = read_fields ?b ?s"
        using True acc s1 by (subst read_fields.simps) (auto simp: g accepted_def)
      have k: "key_char c \<in> insert NUL (set (available_options (ks_ctl s)))" using acc by (auto simp: accepted_def)
      note ih = Cons(1) [of ?s ?b, unfolded draws_sel s1, OF refl]
      have "set ?b \<union> insert NUL (set (available_options (ks_ctl s))) = set buf \<union> insert NUL (set (available_options (ks_ctl s)))"
        using k by auto
      moreover have "length ?b \<le> MAXFLD" using True by simp
      ultimately have some: "\<forall>b s'. read_fields buf s = Some (b, s') \<longrightarrow> ks_ctl s' = ks_ctl s \<and> length b \<le> MAXFLD
           \<and> set b \<subseteq> set buf \<union> insert NUL (set (available_options (ks_ctl s)))"
        and none: "read_fields buf s = None \<longleftrightarrow> 10 \<notin> set ks \<and> length ?b + length (filter (accepted (ks_ctl s)) ks) < MAXFLD"
        using ih Cons(4) unfolding r by metis+
      have "length ?b + length (filter (accepted (ks_ctl s)) ks) = length buf + length (filter (accepted (ks_ctl s)) (c # ks))"
        using acc by simp
      moreover have "10 \<notin> set (c # ks) \<longleftrightarrow> 10 \<notin> set ks" using True by auto
      ultimately show ?thesis unfolding Cons(2) [symmetric] using none some by (simp only: simp_thms)
    next
      case acc: False
      let ?s = "draws [Beep] s1"
      have r: "read_fields buf s = read_fields buf ?s"
        using True acc s1 by (subst read_fields.simps) (auto simp: g accepted_def)
      note ih = Cons(1) [of ?s buf, unfolded draws_sel s1, OF refl Cons(3,4)]
      have "filter (accepted (ks_ctl s)) (c # ks) = filter (accepted (ks_ctl s)) ks" using acc by simp
      moreover have "10 \<notin> set (c # ks) \<longleftrightarrow> 10 \<notin> set ks" using True by auto
      ultimately have n: "read_fields buf ?s = None \<longleftrightarrow>
          10 \<notin> set (c # ks) \<and> length buf + length (filter (accepted (ks_ctl s)) (c # ks)) < MAXFLD"
        using ih [THEN conjunct1] by (simp only:)
      show ?thesis unfolding Cons(2) [symmetric] r by (rule conjI [OF n ih [THEN conjunct2]])
    qed
  qed
qed

text \<open>What the keys leave alone, and the ranges they keep. The size of the packets is not among
  these: the answer is taken as it is.\<close>

definition keys_ok :: "mtr_ctl \<Rightarrow> bool" where
  "keys_ok ctl \<longleftrightarrow>
     1 \<le> fstTTL ctl \<and> fstTTL ctl \<le> maxTTL ctl \<and> maxTTL ctl < int MaxHost
     \<and> 0 \<le> tos ctl \<and> tos ctl \<le> 255 \<and> bitpattern ctl \<le> 255 \<and> 0 < WaitTime ctl
     \<and> length (fld_active ctl) \<le> MAXFLD \<and> set (fld_active ctl) \<subseteq> set (available_options ctl)
     \<and> set ''DR AGJMXI'' \<union> set ''LS NABWV'' \<subseteq> set (available_options ctl)
     \<and> key_char (-1) \<notin> set (available_options ctl)
     \<and> mtrtype ctl \<in> {IPPROTO_ICMP, IPPROTO_UDP, IPPROTO_TCP, IPPROTO_SCTP}"

definition set_by_keys :: "mtr_ctl \<Rightarrow> mtr_ctl \<Rightarrow> mtr_ctl" where
  "set_by_keys c' c = c\<lparr>tos := tos c', cpacketsize := cpacketsize c', bitpattern := bitpattern c', WaitTime := WaitTime c',
     fstTTL := fstTTL c', maxTTL := maxTTL c', fld_active := fld_active c', mtrtype := mtrtype c'\<rparr>"

text \<open>A step from options in range to options in range that touches nothing else.\<close>

definition key_step :: "mtr_ctl \<Rightarrow> mtr_ctl \<Rightarrow> bool" where
  "key_step c c' \<longleftrightarrow> (keys_ok c \<longrightarrow> keys_ok c' \<and> c' = set_by_keys c' c)"

lemma key_step_refl [simp]: "key_step c c"
  by (cases c) (simp add: key_step_def set_by_keys_def)













definition typed :: "string \<Rightarrow> key_state" where
  "typed t = \<lparr>ks_ctl = init_fld_options ((default_ctl DisplayCurses)\<lparr>af := AF_INET\<rparr>), ks_keys = map of_char t, ks_ops = []\<rparr>"

lemma typed_ok: "keys_ok (ks_ctl (typed t))"
  by (simp add: typed_def keys_ok_def init_fld_options_def default_ctl_def data_fields_def xstrncpy_def key_char_def char_of_def)


text \<open>C26: A key is handled in bounded time, but for the question about the fields: when the input ends
  before the answer is complete, that is before the end of the line and before twenty fields were
  accepted, the display beeps for ever.\<close>

theorem fields_question_hangs:
  assumes "key_char (-1) \<notin> set (available_options (ks_ctl s))"
  shows "mtr_curses_keyaction fp r s = None \<longleftrightarrow>
    (\<exists>c ks. ks_keys s = c # ks \<and> (c = 111 \<or> c = 79) \<and> 10 \<notin> set ks
       \<and> length (filter (accepted (ks_ctl s)) ks) < MAXFLD)"
proof (cases "ks_keys s")
  case Nil
  then show ?thesis by (simp add: mtr_curses_keyaction_def getch_def is_key_def key_lower_def plain_keys_def)
next
  case (Cons c ks)
  define s1 where "s1 = s\<lparr>ks_keys := ks\<rparr>"
  have g: "getch s = (c, s1)" using Cons by (simp add: getch_def s1_def)
  have o': "is_key (key_lower c) CHR ''o'' \<longleftrightarrow> c = 111 \<or> c = 79"
    by (auto simp: is_key_def key_lower_def)
  have f: "ask_fields s1 = None \<longleftrightarrow> 10 \<notin> set ks \<and> length (filter (accepted (ks_ctl s)) ks) < MAXFLD"
  proof -
    let ?s = "draws (fields_question (ks_ctl s1)) s1"
    have "ask_fields s1 = None \<longleftrightarrow> read_fields [] ?s = None" by (cases "read_fields [] ?s") (auto simp: ask_fields_def)
    then show ?thesis using read_fields_spec [of "[]" ?s, THEN conjunct1] assms by (simp add: s1_def)
  qed
  have "map_of plain_keys (key_lower c) = None \<and> \<not> is_key c CHR ''Q''" if "c = 111 \<or> c = 79"
    using that by (auto simp: plain_keys_def key_lower_def is_key_def)
  then show ?thesis
    using f o' by (auto simp: mtr_curses_keyaction_def g Let_def Cons split: option.splits)
qed

theorem fields_question_hangs_witness:
  "mtr_curses_keyaction exact_fp True (typed ''oLS'') = None"
proof -
  have "key_char (-1) \<notin> set (available_options (ks_ctl (typed ''oLS'')))" using typed_ok by (simp add: keys_ok_def)
  from fields_question_hangs [OF this] show ?thesis by (simp add: typed_def)
qed

section \<open>The packet size\<close>

lemma key_char_of_char [simp]: "key_char (of_char c) = c"
proof -
  have "(of_char c :: int) mod 256 = int (of_char c)" by (simp add: of_char_def take_bit_horner_sum_bit_eq)
  then show ?thesis unfolding key_char_def by (simp only: nat_int char_of_char)
qed

lemma read_answer_typed:
  assumes "ks_keys s = map of_char t @ 10 # rest" and "NL \<notin> set t" and "length buf + length t \<le> MAXFLD"
  shows "fst (read_answer buf s) = buf @ t"
  using assms
proof (induction t arbitrary: buf s)
  case Nil
  then show ?case by (subst read_answer.simps) (simp add: getch_def)
next
  case (Cons c t)
  have n: "(of_char c :: int) \<noteq> 10"
  proof
    assume "(of_char c :: int) = 10"
    then have "key_char (of_char c) = key_char 10" by simp
    moreover have "key_char 10 = NL" by (simp add: key_char_def char_of_def bit_0)
    ultimately show False using Cons.prems(2) by simp
  qed
  have g: "getch s = (of_char c, s\<lparr>ks_keys := map of_char t @ 10 # rest\<rparr>)" using Cons.prems(1) by (simp add: getch_def)
  let ?s = "draws (bold [c] @ [Refresh]) (s\<lparr>ks_keys := map of_char t @ 10 # rest\<rparr>)"
  have "read_answer buf s = read_answer (buf @ [c]) ?s"
    using n Cons.prems(3) by (subst read_answer.simps) (simp add: g)
  moreover have "fst (read_answer (buf @ [c]) ?s) = (buf @ [c]) @ t"
    by (rule Cons.IH) (use Cons.prems(2,3) in simp_all)
  ultimately show ?case by simp
qed

text \<open>The answer to the question about the packet size is taken as it is: with -28 the next round of
  probes ends the program, because the random size is a remainder by zero.\<close>

theorem size_key_ends_program:
  assumes "ks_keys s = of_char CHR ''s'' # map of_char t @ 10 # rest" and "NL \<notin> set t" and "NUL \<notin> set t" and "length t \<le> MAXFLD"
    and "atoi t = -28" and "batch_at n < fstTTL (ks_ctl s)"
  shows "\<exists>s'. mtr_curses_keyaction fp r s = Some (ActionNone, s')
    \<and> net_send_batch env write_ok fp2 r1 r2 (ks_ctl s') n = Inl ''remainder by zero''"
proof -
  let ?s = "s\<lparr>ks_keys := map of_char t @ 10 # rest\<rparr>"
  have k: "mtr_curses_keyaction fp r s = Some (ActionNone, ask_size ?s)"
    using assms(1) by (simp add: mtr_curses_keyaction_def getch_def is_key_def key_lower_def plain_keys_def option_key_def)
  have "fst (ask q col ?s) = t" for q col
    using read_answer_typed [of "draws (q @ [Move 2 col, Refresh]) ?s" t rest "[]"] assms(2-4)
    by (cases "read_answer [] (draws (q @ [Move 2 col, Refresh]) ?s)") (simp add: ask_def cstr_id no_nul_def)
  then have f: "fst (ask q col ?s) = t" for q col .
  have a: "b = t \<and> ks_ctl s1 = ks_ctl s" if h: "ask q col ?s = (b, s1)" for q col b s1
    using f [of q col] ask_ctl [OF h] by (simp add: h)
  have "cpacketsize (ks_ctl (ask_size ?s)) = -28 \<and> fstTTL (ks_ctl (ask_size ?s)) = fstTTL (ks_ctl s)"
    using assms(5) by (auto simp: ask_size_def dest!: a split: prod.split)
  with k assms(6) show ?thesis by (auto simp: net_send_batch_def size_faults_def)
qed

section \<open>Names\<close>

text \<open>Results that are no use of a null pointer and keep the options.\<close>

definition safe :: "mtr_ctl \<Rightarrow> fault + draw_state \<Rightarrow> bool" where
  "safe ctl r \<longleftrightarrow> r \<noteq> Inl NullPointer \<and> (\<forall>d. r = Inr d \<longrightarrow> dw_ctl d = ctl)"

lemma safe_simps [simp]: "safe ctl (Inr d) \<longleftrightarrow> dw_ctl d = ctl" "safe ctl (Inl e) \<longleftrightarrow> e \<noteq> NullPointer"
  by (auto simp: safe_def)


















text \<open>A table with an address for the first hop, which is the last.\<close>

definition curses_ctl :: mtr_ctl where
  "curses_ctl = (default_ctl DisplayCurses)\<lparr>af := AF_INET, dns := False\<rparr>"

definition named_net :: net where
  "named_net = (net_reset curses_ctl empty_net)\<lparr>host := (\<lambda>h. if h = 0
     then template_host\<lparr>h_addr := remoteaddress empty_net, h_addrs := remoteaddress empty_net # replicate 7 zero_ip\<rparr> else template_host)\<rparr>"


lemma curses_sel:
  "ipinfo_no curses_ctl < 0" "display_offset curses_ctl = 0" "display_mode curses_ctl = 0" "\<not> dns curses_ctl" "fstTTL curses_ctl = 1"
  by (simp_all add: curses_ctl_def default_ctl_def)


section \<open>The scale of the graphs\<close>

text \<open>A \<open>double\<close> holds the multiples of 1/64 of moderate size exactly.\<close>

definition dyadic_ok :: "fp_env \<Rightarrow> bool" where
  "dyadic_ok fp \<longleftrightarrow> (\<forall>k. \<bar>k\<bar> \<le> 1125899906842624 \<longrightarrow> rnd fp (of_int k / 64) = of_int k / 64)"

lemma dyadicD: "dyadic_ok fp \<Longrightarrow> \<bar>k\<bar> \<le> 1125899906842624 \<Longrightarrow> x = of_int k / 64 \<Longrightarrow> rnd fp x = x"
  unfolding dyadic_ok_def by blast

text \<open>The times that are shown in the graphs.\<close>

definition shown_times :: "mtr_ctl \<Rightarrow> net \<Rightarrow> int set" where
  "shown_times ctl s = {x \<in> \<Union> (set ` net_saved_pings s ` set (graph_hops ctl s)). 0 \<le> x}"

lemma low_high_fold: "low_high xs (l, h) = (fold min (filter ((\<le>) 0) xs) l, fold max (filter ((\<le>) 0) xs) h)"
  by (induction xs arbitrary: l h) (auto simp: min_def max_def)

lemma low_high_append: "low_high (xs @ ys) lh = low_high ys (low_high xs lh)"
  by (induction xs lh rule: low_high.induct) auto

lemma fold_low_high: "fold (\<lambda>h. low_high (g h)) hs lh = low_high (concat (map g hs)) lh"
  by (induction hs arbitrary: lh) (simp_all add: low_high_append)

lemma finite_shown [simp]: "finite (shown_times ctl s)"
  by (simp add: shown_times_def)

lemma scale_bounds:
  "fold (\<lambda>at'. low_high (net_saved_pings s at')) (graph_hops ctl s) (low, high)
    = (Min (insert low (shown_times ctl s)), Max (insert high (shown_times ctl s)))"
proof -
  let ?ys = "filter ((\<le>) 0) (concat (map (net_saved_pings s) (graph_hops ctl s)))"
  have "set ?ys = shown_times ctl s" by (auto simp: shown_times_def)
  then have "Min (insert low (shown_times ctl s)) = fold min ?ys low" "Max (insert high (shown_times ctl s)) = fold max ?ys high"
    using Min.set_eq_fold [of low ?ys] Max.set_eq_fold [of high ?ys] by simp_all
  then show ?thesis by (simp add: fold_low_high low_high_fold)
qed

lemma factors_exact:
  assumes "dyadic_ok fp" and "i < NUM_FACTORS"
  shows "factors fp i = of_nat ((i + 1) ^ 2) / 64"
proof -
  note d = dyadicD [OF assms(1)]
  have i: "i \<in> {0, 1, 2, 3, 4, 5, 6, 7}" using assms(2) by simp presburger
  have 1: "rnd fp (1 / of_nat NUM_FACTORS) = 1 / of_nat NUM_FACTORS" by (rule d [of 8]) simp_all
  have 2: "rnd fp (1 / of_nat NUM_FACTORS * of_nat (i + 1)) = of_nat (i + 1) / 8"
    using d [of "8 * int (i + 1)" "of_nat (i + 1) / 8"] assms(2) by simp
  have 3: "rnd fp (of_nat (i + 1) / 8 * (of_nat (i + 1) / 8)) = of_nat ((i + 1) ^ 2) / 64"
    using d [of "int ((i + 1) ^ 2)" "of_nat ((i + 1) ^ 2) / 64"] i by (auto simp: power2_eq_square)
  show ?thesis unfolding factors_def Let_def 1 2 3 ..
qed

text \<open>The scale in integers.\<close>

lemma scale_exact:
  assumes "dyadic_ok fp" and "0 \<le> low" and "low \<le> high" and "high \<le> INT_MAX" and "i < NUM_FACTORS"
  shows "c_trunc (rnd fp (of_int low + rnd fp (of_int (high - low) * factors fp i)))
    = low + (high - low) * int ((i + 1) ^ 2) div 64"
proof -
  note d = dyadicD [OF assms(1)]
  let ?q = "int ((i + 1) ^ 2)" and ?r = "high - low"
  have q: "0 \<le> ?q" "?q \<le> 64" using assms(5) power_mono [of "1 + int i" 8 2] by (simp_all add: algebra_simps)
  have rq: "0 \<le> ?r * ?q" "?r * ?q \<le> INT_MAX * 64"
    using q assms(2-4) mult_mono [of ?r INT_MAX ?q 64] by simp_all
  have 1: "rnd fp (of_int ?r * factors fp i) = of_int (?r * ?q) / 64"
    using d [of "?r * ?q"] rq by (simp add: factors_exact [OF assms(1,5)])
  have 2: "rnd fp (of_int low + of_int (?r * ?q) / 64) = of_int (64 * low + ?r * ?q) / 64"
    using d [of "64 * low + ?r * ?q"] rq assms(2-4) by (simp add: add_divide_distrib)
  have 3: "c_trunc (of_int (64 * low + ?r * ?q) / 64) = (64 * low + ?r * ?q) div 64"
  proof -
    have "0 \<le> 64 * low + ?r * ?q" using rq(1) assms(2) by simp
    then have "0 \<le> (of_int (64 * low + ?r * ?q) / 64 :: rat)" by (simp only: zero_le_divide_iff of_int_0_le_iff) simp
    then show ?thesis using floor_divide_of_int_eq [where 'a = rat, of "64 * low + ?r * ?q" 64] by (simp only: c_trunc_def if_True of_int_numeral)
  qed
  show ?thesis unfolding 1 2 3 by simp
qed

lemma find_first:
  assumes "j < n" and "P j"
  shows "\<exists>i < n. find P [0..<n] = Some i \<and> P i \<and> (\<forall>j < i. \<not> P j)"
proof -
  have "find P [0..<n] \<noteq> None" using assms by (auto simp: find_None_iff)
  then obtain i where i: "find P [0..<n] = Some i" by auto
  then have "i < n \<and> P i \<and> (\<forall>j < i. \<not> P j)" by (auto simp: find_Some_iff)
  with i show ?thesis by blast
qed

text \<open>The scale of the graphs rises in squares from the least to the greatest of the times that are
  shown (from a second, if none is below), and every time that is shown has the block of the first
  mark it does not exceed: none falls off the scale.\<close>

theorem graph_blocks:
  assumes "dyadic_ok fp" and "shown_times ctl s \<noteq> {}" and "\<forall>x \<in> shown_times ctl s. x \<le> INT_MAX" and "display_mode ctl \<noteq> 1"
  shows "let low = Min (insert 1000000 (shown_times ctl s)); high = Max (shown_times ctl s); scale = mtr_gen_scale fp ctl s
    in scale = map (\<lambda>i. low + (high - low) * int ((i + 1) ^ 2) div 64) [0..<NUM_FACTORS]
      \<and> (\<forall>x \<in> shown_times ctl s. \<exists>i < NUM_FACTORS. graph_cell scale ctl x = block i
           \<and> x \<le> scale ! i \<and> (\<forall>j < i. scale ! j < x))"
proof -
  let ?T = "shown_times ctl s"
  define low where "low = Min (insert 1000000 ?T)"
  define high where "high = Max ?T"
  have h: "Max (insert (-1) ?T) = high" "high \<in> ?T"
  proof -
    show m: "high \<in> ?T" unfolding high_def by (rule Max_in [OF finite_shown assms(2)])
    then have "0 \<le> high" by (simp add: shown_times_def)
    then show "Max (insert (-1) ?T) = high" using assms(2) by (simp add: Max_insert high_def)
  qed
  have l: "0 \<le> low" "low \<le> high" "high \<le> INT_MAX"
  proof -
    have "\<forall>x \<in> insert 1000000 ?T. 0 \<le> x" by (auto simp: shown_times_def)
    then show "0 \<le> low" unfolding low_def by (subst Min_ge_iff) auto
    show "low \<le> high" unfolding low_def by (rule Min_le) (use h(2) in auto)
    show "high \<le> INT_MAX" using h(2) assms(3) by blast
  qed
  have sc: "mtr_gen_scale fp ctl s = map (\<lambda>i. low + (high - low) * int ((i + 1) ^ 2) div 64) [0..<NUM_FACTORS]" (is "_ = ?sc")
    unfolding mtr_gen_scale_def scale_bounds prod.case h(1) low_def [symmetric]
    by (rule map_cong) (use scale_exact [OF assms(1) l] in auto)
  have "\<exists>i < NUM_FACTORS. graph_cell ?sc ctl x = block i \<and> x \<le> ?sc ! i \<and> (\<forall>j < i. ?sc ! j < x)" if x: "x \<in> ?T" for x
  proof -
    have "?sc ! 7 = high" by simp
    moreover have "x \<le> high" using x by (simp add: high_def)
    ultimately have "x \<le> ?sc ! 7" by simp
    from find_first [of 7 8 "\<lambda>i. x \<le> ?sc ! i", OF _ this]
    obtain i where i: "i < 8" "find (\<lambda>i. x \<le> ?sc ! i) [0..<8] = Some i" "x \<le> ?sc ! i" "\<forall>j < i. \<not> x \<le> ?sc ! j" by auto
    have "graph_cell ?sc ctl x = block i"
      using x assms(4) i(2) by (simp only: graph_cell_def mtr_print_scaled_def) (simp add: shown_times_def)
    with i show ?thesis by (auto simp: not_le)
  qed
  then show ?thesis by (simp only: Let_def sc low_def [symmetric] high_def [symmetric]) blast
qed

definition graph_net :: net where
  "graph_net = named_net\<lparr>host := (\<lambda>h. template_host\<lparr>h_addr := remoteaddress empty_net, h_saved := replicate 199 (-2) @ [5000]\<rparr>)\<rparr>"

lemma graph_times: "shown_times curses_ctl graph_net = {5000}"
proof -
  have "addrcmp (remoteaddress empty_net) (remoteaddress empty_net) AF_INET = 0"
    by (simp add: empty_net_def addrcmp_def numeral_nat)
  moreover have "h_addr (host graph_net 0) = remoteaddress empty_net" by (simp add: graph_net_def)
  moreover have "remoteaddress graph_net = remoteaddress empty_net"
    by (simp add: graph_net_def named_net_def net_reset_def)
  moreover have "maxTTL curses_ctl = 30" "af curses_ctl = AF_INET" by (simp_all add: curses_ctl_def default_ctl_def)
  ultimately have "net_max curses_ctl graph_net = 1"
    unfolding net_max_def by (subst net_max_loop.simps) simp
  then have "graph_hops curses_ctl graph_net = [0]" using curses_sel(2) by (simp add: graph_hops_def)
  then show ?thesis by (auto simp: shown_times_def net_saved_pings_def graph_net_def)
qed

theorem graph_blocks_witness:
  "\<exists>i < NUM_FACTORS. graph_cell (mtr_gen_scale exact_fp curses_ctl graph_net) curses_ctl 5000 = block i"
proof -
  have "dyadic_ok exact_fp" by (simp add: dyadic_ok_def exact_fp_def)
  moreover have "shown_times curses_ctl graph_net \<noteq> {}" "\<forall>x \<in> shown_times curses_ctl graph_net. x \<le> INT_MAX"
    "display_mode curses_ctl \<noteq> 1" "5000 \<in> shown_times curses_ctl graph_net"
    using curses_sel(3) by (simp_all add: graph_times)
  ultimately show ?thesis
    using graph_blocks [of exact_fp curses_ctl graph_net, unfolded Let_def, THEN conjunct2] by blast
qed

theorem size_key_ends_program_witness:
  "\<exists>s'. mtr_curses_keyaction exact_fp True (typed (''s-28'' @ [NL])) = Some (ActionNone, s')
    \<and> net_send_batch sample_inet (\<lambda>_. True) exact_fp 7 7 (ks_ctl s') (net_reset (ks_ctl (typed [])) empty_net) = Inl ''remainder by zero''"
proof -
  have "atoi ''-28'' = -28"
    by (simp add: atoi_def strtol_def scan_number_def scan_sign_def scan_unsigned_def isspace_def is_digit_def digit_val_def to_int32_id is_int32_def)
  moreover have "ks_keys (typed (''s-28'' @ [NL])) = of_char CHR ''s'' # map of_char ''-28'' @ 10 # []" by (simp add: typed_def)
  moreover have "batch_at (net_reset (ks_ctl (typed [])) empty_net) < fstTTL (ks_ctl (typed (''s-28'' @ [NL])))"
    by (simp add: typed_def net_reset_def init_fld_options_def default_ctl_def split: prod.split)
  ultimately show ?thesis
    using size_key_ends_program [of "typed (''s-28'' @ [NL])" "''-28''" "[]"] by (simp add: atoi_def)
qed

end
