(* ===== verification/Hosts.thy ===== *)
theory Hosts
  imports NetInv MtrOptions
begin

text \<open>
  The targets: \<open>get_hostent_from_name\<close> and the loop over the names of \<open>main\<close> in \<open>ui/mtr.c\<close>, and the
  opening of the tables for a target in \<open>ui/net.c\<close>. What the system answers (\<open>getaddrinfo\<close>,
  \<open>getifaddrs\<close>, the socket that finds the local address, the start of \<open>mtr-packet\<close>) and the run of
  the display for a target are parameters.
\<close>

section \<open>The address of a name\<close>

datatype gai_failure = EAI_SYSTEM | EAI_OTHER string

text \<open>\<open>getaddrinfo\<close> is asked for a family and gives the family and the bytes of the first address.\<close>

type_synonym getaddrinfo = "string \<Rightarrow> family \<Rightarrow> gai_failure + family \<times> u8 list"

record hostent =
  h_addrtype :: family
  h_address :: "u8 list"

text \<open>The messages, the address if there is one, and the options, which take the family of the
  address.\<close>

definition get_hostent_from_name :: "getaddrinfo \<Rightarrow> string \<Rightarrow> mtr_ctl \<Rightarrow> string list \<times> hostent option \<times> mtr_ctl" where
  "get_hostent_from_name getaddrinfo name ctl =
     (case getaddrinfo name (af ctl) of
        Inl EAI_SYSTEM \<Rightarrow> ([''Failed to resolve host: '' @ name], None, ctl)
      | Inl (EAI_OTHER e) \<Rightarrow> ([''Failed to resolve host: '' @ name @ '': '' @ e], None, ctl)
      | Inr (fam, addr) \<Rightarrow>
          (let ctl = ctl\<lparr>af := fam\<rparr>
           in if fam = AF_UNSPEC then ([''unknown address type''], None, ctl)
              else ([], Some \<lparr>h_addrtype = fam, h_address = addr\<rparr>, ctl)))"

section \<open>The local address\<close>

text \<open>An interface has a name and perhaps an address.\<close>

type_synonym ifaddr = "string \<times> (family \<times> u8 list) option"

record net_os =
  getifaddrs :: "ifaddr list option"
  udp_socket :: "family \<Rightarrow> bool"
  udp_connect :: "family \<Rightarrow> u8 list \<Rightarrow> errno option"
  getsockname :: "(family \<times> u8 list) option"

abbreviation (input) INET6_ADDRSTRLEN :: int where "INET6_ADDRSTRLEN \<equiv> 46"

text \<open>\<open>localaddr\<close> is the text of the local address.\<close>

record net_local =
  nl_net :: net
  localaddr :: string

definition set_source :: "u8 list \<Rightarrow> net \<Rightarrow> net" where
  "set_source b s = s\<lparr>sourceaddress := b @ drop (length b) (sourceaddress s)\<rparr>"

definition sockaddrtop :: "inet_env \<Rightarrow> family \<times> u8 list \<Rightarrow> string" where
  "sockaddrtop env sa =
     (case sa of
        (AF_INET, b) \<Rightarrow> xstrncpy (case inet_ntop env AF_INET b of Some t \<Rightarrow> t | None \<Rightarrow> []) (INET6_ADDRSTRLEN - 1)
      | (AF_INET6, b) \<Rightarrow> (case inet_ntop env AF_INET6 b of Some t \<Rightarrow> t | None \<Rightarrow> [])
      | (AF_UNSPEC, _) \<Rightarrow> [])"

definition net_validate_interface_address ::
  "inet_env \<Rightarrow> family \<Rightarrow> string \<Rightarrow> net_local \<Rightarrow> ui_exit + net_local" where
  "net_validate_interface_address env fam interface_address n =
     (case inet_pton env fam interface_address of
        None \<Rightarrow> Inl ''invalid local address''
      | Some b \<Rightarrow>
          (let s = set_source b (nl_net n)
           in case inet_ntop env fam (sourceaddress s) of
                None \<Rightarrow> Inl ''invalid local address''
              | Some t \<Rightarrow> Inr \<lparr>nl_net = s, localaddr = t\<rparr>))"

text \<open>The loop over the interfaces. An interface with the name that has no address is used as if it
  had one: the program ends.\<close>

fun find_interface :: "family \<Rightarrow> string \<Rightarrow> ifaddr list \<Rightarrow> bool \<Rightarrow> ui_exit + u8 list" where
  "find_interface fam name [] found =
     (if \<not> found then Inl ''no such interface''
      else if fam = AF_INET then Inl ''interface missing IPv4 address''
      else if fam = AF_INET6 then Inl ''interface missing IPv6 address''
      else Inl ''interface missing address'')"
| "find_interface fam name ((n, sa) # ifs) found =
     (if n = name then
        (case sa of None \<Rightarrow> Inl ''null pointer''
         | Some (f, b) \<Rightarrow> if f = fam \<and> fam \<noteq> AF_UNSPEC then Inr b else find_interface fam name ifs True)
      else find_interface fam name ifs found)"

definition net_find_interface_address_from_name :: "net_os \<Rightarrow> family \<Rightarrow> string \<Rightarrow> ui_exit + u8 list" where
  "net_find_interface_address_from_name os fam interface_name =
     (case getifaddrs os of None \<Rightarrow> Inl ''getifaddrs failure'' | Some ifs \<Rightarrow> find_interface fam interface_name ifs False)"

text \<open>On Linux an unreachable target leaves the local address empty.\<close>

definition net_find_local_address :: "inet_env \<Rightarrow> net_os \<Rightarrow> family \<Rightarrow> net_local \<Rightarrow> ui_exit + net_local" where
  "net_find_local_address env os fam n =
     (if \<not> udp_socket os fam then Inl ''udp socket creation failed''
      else case udp_connect os fam (remoteaddress (nl_net n)) of
        Some e \<Rightarrow> if e = EHOSTUNREACH then Inr (n\<lparr>localaddr := []\<rparr>) else Inl ''udp socket connect failed''
      | None \<Rightarrow>
          (case getsockname os of
             None \<Rightarrow> Inl ''local address determination failed''
           | Some (f, b) \<Rightarrow> Inr \<lparr>nl_net = set_source b (nl_net n), localaddr = sockaddrtop env (f, b)\<rparr>))"

text \<open>\<open>open_pipe\<close> is the result of \<open>open_command_pipe\<close>.\<close>

definition net_open ::
  "inet_env \<Rightarrow> net_os \<Rightarrow> int \<Rightarrow> hostent \<Rightarrow> mtr_ctl \<Rightarrow> net_local \<Rightarrow> ui_exit + int \<times> net_local" where
  "net_open env os open_pipe hostent ctl n =
     (if open_pipe \<noteq> 0 then Inr (open_pipe, n)
      else if h_addrtype hostent = AF_UNSPEC then Inl ''net_open bad address type''
      else
        (let s = net_reset ctl (nl_net n);
             s = s\<lparr>remoteaddress := addrcpy (remoteaddress s) (h_address hostent) (h_addrtype hostent)\<rparr>;
             n = n\<lparr>nl_net := s\<rparr>
         in and_then
              (case InterfaceAddress ctl of
                 Some a \<Rightarrow> net_validate_interface_address env (af ctl) a n
               | None \<Rightarrow>
                   (case InterfaceName ctl of
                      Some i \<Rightarrow>
                        and_then (net_find_interface_address_from_name os (af ctl) i)
                          (\<lambda>b. Inr \<lparr>nl_net = set_source b s, localaddr = sockaddrtop env (af ctl, b)\<rparr>)
                    | None \<Rightarrow> net_find_local_address env os (h_addrtype hostent) n))
              (\<lambda>n. Inr (0, n))))"

section \<open>The loop over the names\<close>

text \<open>The state of \<open>main\<close>: the options, the tables, and what was said and traced: each target with
  the family it was resolved for. \<open>packets_opened\<close> counts the processes of \<open>mtr-packet\<close> that were
  started.\<close>

record hosts_state =
  hs_ctl :: mtr_ctl
  hs_local :: net_local
  hs_messages :: "string list"
  hs_traced :: "(string \<times> family) list"
  packets_opened :: nat

text \<open>What is done for a target: \<open>dns_open\<close>, \<open>display_open\<close>, \<open>display_loop\<close>, as a parameter.\<close>

type_synonym run_display = "mtr_ctl \<Rightarrow> net_local \<Rightarrow> ui_exit + mtr_ctl \<times> net_local"

definition set_hostname :: "string option \<Rightarrow> string \<Rightarrow> mtr_ctl \<Rightarrow> mtr_ctl" where
  "set_hostname gethostname name ctl =
     ctl\<lparr>Hostname := name,
         LocalHostname := (case gethostname of Some t \<Rightarrow> t | None \<Rightarrow> xstrncpy ''UNKNOWNHOST'' 128)\<rparr>"

definition give_up :: "hosts_state \<Rightarrow> ui_exit + hosts_state" where
  "give_up h = (if Interactive (hs_ctl h) then Inl ''EXIT_FAILURE'' else Inr h)"

text \<open>One turn of the loop.\<close>

definition trace_host ::
  "inet_env \<Rightarrow> net_os \<Rightarrow> getaddrinfo \<Rightarrow> string option \<Rightarrow> (string \<Rightarrow> int) \<Rightarrow> run_display \<Rightarrow> string
     \<Rightarrow> hosts_state \<Rightarrow> ui_exit + hosts_state" where
  "trace_host env os getaddrinfo gethostname open_pipe run name h =
     (case get_hostent_from_name getaddrinfo name (set_hostname gethostname name (hs_ctl h)) of
        (msgs, hent, ctl) \<Rightarrow>
          (let h = h\<lparr>hs_ctl := ctl, hs_messages := hs_messages h @ msgs\<rparr>
           in case hent of None \<Rightarrow> give_up h
              | Some hostent \<Rightarrow>
                  and_then (net_open env os (open_pipe name) hostent ctl (hs_local h)) (\<lambda>(err, n).
                    (let h = h\<lparr>hs_local := n, packets_opened := packets_opened h + 1\<rparr>
                     in if err \<noteq> 0 then give_up (h\<lparr>hs_messages := hs_messages h @ [''Unable to start net module'']\<rparr>)
                        else and_then (run ctl n) (\<lambda>(ctl, n).
                          Inr (h\<lparr>hs_ctl := ctl, hs_local := n\<lparr>nl_net := net_end_transit (nl_net n)\<rparr>,
                                 hs_traced := hs_traced h @ [(name, h_addrtype hostent)]\<rparr>))))))"

text \<open>An interactive program ends after the first target.\<close>

fun trace_hosts ::
  "inet_env \<Rightarrow> net_os \<Rightarrow> getaddrinfo \<Rightarrow> string option \<Rightarrow> (string \<Rightarrow> int) \<Rightarrow> run_display \<Rightarrow> string list
     \<Rightarrow> hosts_state \<Rightarrow> ui_exit + hosts_state" where
  "trace_hosts env os getaddrinfo gethostname open_pipe run [] h = Inr h"
| "trace_hosts env os getaddrinfo gethostname open_pipe run (name # names) h =
     and_then (trace_host env os getaddrinfo gethostname open_pipe run name h) (\<lambda>h'.
       if Interactive (hs_ctl h') then Inr h'
       else trace_hosts env os getaddrinfo gethostname open_pipe run names h')"

end
