(* ===== verification/HostsProps.thy ===== *)
theory HostsProps
  imports Hosts NetProps
begin

text \<open>
  Properties of the loop over the targets: each is traced from tables of its own, and all in one
  family of addresses.
\<close>

section \<open>The tables of a target\<close>

text \<open>What holds between two targets, and what holds when the display of one starts.\<close>

definition startable :: "mtr_ctl \<Rightarrow> net \<Rightarrow> bool" where
  "startable ctl s \<longleftrightarrow> unspec_addr ctl = zero_ip \<and> 1 \<le> fstTTL ctl \<and> fstTTL ctl \<le> maxTTL ctl \<and> maxTTL ctl \<le> 255
     \<and> is_ip (remoteaddress s) \<and> is_ip (sourceaddress s) \<and> MinSequence \<le> next_sequence s \<and> next_sequence s < MaxSequence"

definition fresh_start :: "mtr_ctl \<Rightarrow> net \<Rightarrow> bool" where
  "fresh_start ctl s \<longleftrightarrow> ctl_ok ctl \<and> net_ok ctl s \<and> batch_at s = fstTTL ctl - 1
     \<and> (\<forall>hop \<in> {0..<int MaxHost}. host s hop = template_host)
     \<and> (\<forall>q \<in> {0..<MaxSequence}. sq_transit (sequence s q) = 0)"

text \<open>The documented sizes of the addresses that the system gives.\<close>

definition sizes_ok :: "net_os \<Rightarrow> getaddrinfo \<Rightarrow> bool" where
  "sizes_ok os getaddrinfo \<longleftrightarrow>
     (\<forall>name f g b. getaddrinfo name f = Inr (g, b) \<longrightarrow> g \<noteq> AF_UNSPEC \<longrightarrow> length b = addr_len g)
     \<and> (\<forall>f b. getsockname os = Some (f, b) \<longrightarrow> length b = addr_len f)
     \<and> (\<forall>ifs n f b. getifaddrs os = Some ifs \<longrightarrow> (n, Some (f, b)) \<in> set ifs \<longrightarrow> length b = addr_len f)"

lemma is_ip_source: "is_ip (sourceaddress s) \<Longrightarrow> length b \<le> 16 \<Longrightarrow> is_ip (sourceaddress (set_source b s))"
  by (simp add: set_source_def is_ip_def)

lemma set_source_sel [simp]:
  "remoteaddress (set_source b s) = remoteaddress s" "next_sequence (set_source b s) = next_sequence s"
  "host (set_source b s) = host s" "sequence (set_source b s) = sequence s" "batch_at (set_source b s) = batch_at s"
  "numhosts (set_source b s) = numhosts s"
  by (simp_all add: set_source_def)

lemma addr_len_16: "addr_len f \<le> 16"
  by (cases f) (simp_all add: addr_len_def)

lemma find_interface_in: "find_interface fam name ifs found = Inr b \<Longrightarrow> \<exists>n f. (n, Some (f, b)) \<in> set ifs"
proof (induction ifs arbitrary: found)
  case (Cons x ifs)
  obtain n sa where x: "x = (n, sa)" by (cases x)
  have "(\<exists>f. sa = Some (f, b)) \<or> (\<exists>found. find_interface fam name ifs found = Inr b)"
    using Cons.prems by (auto simp: x split: if_splits option.splits)
  then show ?case
  proof
    assume "\<exists>f. sa = Some (f, b)"
    then show ?thesis by (auto simp: x)
  next
    assume "\<exists>found. find_interface fam name ifs found = Inr b"
    then show ?thesis using Cons.IH by fastforce
  qed
qed (simp split: if_splits)

lemma net_ok_source: "net_ok ctl s \<Longrightarrow> length b \<le> 16 \<Longrightarrow> net_ok ctl (set_source b s)"
  by (simp add: net_ok_def is_ip_source)

lemma fresh_source: "fresh_start ctl s \<Longrightarrow> length b \<le> 16 \<Longrightarrow> fresh_start ctl (set_source b s)"
  unfolding fresh_start_def using net_ok_source by simp

lemma fresh_reset:
  assumes "startable ctl s" and "af ctl \<noteq> AF_UNSPEC" and "is_ip a"
  shows "fresh_start ctl ((net_reset ctl s)\<lparr>remoteaddress := a\<rparr>)"
proof -
  have c: "ctl_ok ctl" using assms by (simp add: startable_def ctl_ok_def)
  have "net_ok ctl (net_reset ctl s)" by (rule net_reset_ok [OF c]) (use assms(1) in \<open>simp_all add: startable_def\<close>)
  then have "net_ok ctl ((net_reset ctl s)\<lparr>remoteaddress := a\<rparr>)" using assms(3) by (simp add: net_ok_def)
  with c show ?thesis unfolding fresh_start_def by (simp add: net_reset_def)
qed

text \<open>\<open>aimed\<close>: the tables are fresh and the address is the one that the name resolved to.\<close>

definition aimed :: "mtr_ctl \<Rightarrow> hostent \<Rightarrow> net \<Rightarrow> bool" where
  "aimed ctl hent s \<longleftrightarrow> fresh_start ctl s \<and> af ctl = h_addrtype hent \<and> addr_key ctl (remoteaddress s) = h_address hent"

lemma aimed_source: "aimed ctl hent s \<Longrightarrow> length b \<le> 16 \<Longrightarrow> aimed ctl hent (set_source b s)"
  by (simp add: aimed_def fresh_source)

lemma aimed_reset:
  assumes "startable ctl s" and "h_addrtype hent \<noteq> AF_UNSPEC" and "af ctl = h_addrtype hent"
    and "length (h_address hent) = addr_len (h_addrtype hent)"
  shows "aimed ctl hent ((net_reset ctl s)\<lparr>remoteaddress := addrcpy (remoteaddress s) (h_address hent) (h_addrtype hent)\<rparr>)"
proof -
  have "is_ip (addrcpy (remoteaddress s) (h_address hent) (h_addrtype hent))"
    by (rule is_ip_addrcpy) (use assms in \<open>simp_all add: startable_def\<close>)
  then show ?thesis using fresh_reset assms by (simp add: aimed_def addr_key_def take_addrcpy)
qed

lemma net_open_aimed:
  assumes "net_open env os open_pipe hent ctl n = Inr (0, n')" and "open_pipe = 0" and "startable ctl (nl_net n)"
    and "inet_ok env" and "sizes_ok os gai" and "af ctl = h_addrtype hent" and "length (h_address hent) = addr_len (h_addrtype hent)"
  shows "aimed ctl hent (nl_net n')"
proof -
  let ?s = "(net_reset ctl (nl_net n))\<lparr>remoteaddress := addrcpy (remoteaddress (nl_net n)) (h_address hent) (h_addrtype hent)\<rparr>"
  have f: "h_addrtype hent \<noteq> AF_UNSPEC" using assms(1,2) by (auto simp: net_open_def)
  have s: "aimed ctl hent ?s" by (rule aimed_reset [OF assms(3) f assms(6,7)])
  have src: "aimed ctl hent (set_source b ?s)" if "length b = addr_len g" for b g
    by (rule aimed_source [OF s]) (simp add: that addr_len_16)
  have r: "remoteaddress (net_reset ctl (nl_net n)) = remoteaddress (nl_net n)" by (simp add: net_reset_def)
  show ?thesis
  proof (cases "InterfaceAddress ctl")
    case (Some a)
    then obtain b where b: "inet_pton env (af ctl) a = Some b" "nl_net n' = set_source b ?s"
      using assms(1,2) f by (auto simp: net_open_def net_validate_interface_address_def Let_def r and_then_Inr split: option.splits)
    moreover have "length b = addr_len (af ctl)" using assms(4) b(1) unfolding inet_ok_def by blast
    ultimately show ?thesis using src by simp
  next
    case none: None
    show ?thesis
    proof (cases "InterfaceName ctl")
      case (Some i)
      then obtain b ifs where b: "getifaddrs os = Some ifs" "find_interface (af ctl) i ifs False = Inr b" "nl_net n' = set_source b ?s"
        using assms(1,2) f none
        by (auto simp: net_open_def net_find_interface_address_from_name_def Let_def r and_then_Inr split: option.splits)
      obtain m g where "(m, Some (g, b)) \<in> set ifs" using find_interface_in [OF b(2)] by blast
      then have "length b = addr_len g" using assms(5) b(1) unfolding sizes_ok_def by blast
      then show ?thesis using src b(3) by simp
    next
      case None
      have "net_find_local_address env os (h_addrtype hent) (n\<lparr>nl_net := ?s\<rparr>) = Inr n'"
        using assms(1,2) f none None by (simp add: net_open_def Let_def r and_then_Inr)
      then have "nl_net n' = ?s \<or> (\<exists>g b. getsockname os = Some (g, b) \<and> nl_net n' = set_source b ?s)"
        by (auto simp: net_find_local_address_def split: if_splits option.splits)
      then show ?thesis
      proof
        assume "nl_net n' = ?s"
        then show ?thesis using s by simp
      next
        assume "\<exists>g b. getsockname os = Some (g, b) \<and> nl_net n' = set_source b ?s"
        then obtain g b where gb: "getsockname os = Some (g, b)" "nl_net n' = set_source b ?s" by blast
        then have "length b = addr_len g" using assms(5) unfolding sizes_ok_def by blast
        then show ?thesis using src gb(2) by simp
      qed
    qed
  qed
qed

section \<open>The loop over the targets\<close>

text \<open>The display of a target finds fresh tables, aimed at an address of the name.\<close>

definition on_target :: "getaddrinfo \<Rightarrow> mtr_ctl \<Rightarrow> net_local \<Rightarrow> bool" where
  "on_target gai ctl n \<longleftrightarrow>
     (\<exists>f b. gai (Hostname ctl) f = Inr (af ctl, b) \<and> addr_key ctl (remoteaddress (nl_net n)) = b \<and> fresh_start ctl (nl_net n))"

definition run_keeps :: "(mtr_ctl \<Rightarrow> net \<Rightarrow> bool) \<Rightarrow> run_display \<Rightarrow> bool" where
  "run_keeps P disp \<longleftrightarrow> (\<forall>ctl n ctl' n'. disp ctl n = Inr (ctl', n') \<longrightarrow> P ctl (nl_net n) \<longrightarrow> P ctl' (nl_net n'))"

lemma startable_host [simp]:
  "startable (set_hostname g name ctl) s = startable ctl s" "startable (ctl\<lparr>af := f\<rparr>) s = startable ctl s"
  "startable ctl (net_end_transit s) = startable ctl s"
  by (simp_all add: startable_def set_hostname_def net_end_transit_def)

lemma set_hostname_sel [simp]: "af (set_hostname g name ctl) = af ctl" "Hostname (set_hostname g name ctl) = name"
  by (simp_all add: set_hostname_def)

lemma fresh_startable: "fresh_start ctl s \<Longrightarrow> startable ctl s"
  by (simp add: fresh_start_def startable_def ctl_ok_def net_ok_def)

text \<open>A turn that traces nothing leaves the tables; a turn that does runs the display.\<close>

lemma trace_host_cases:
  assumes "trace_host env os gai gethostname open_pipe disp name h = Inr h'"
  obtains (skipped) c where "hs_ctl h' = c" "hs_local h' = hs_local h" "hs_traced h' = hs_traced h"
      "c = set_hostname gethostname name (hs_ctl h) \<and> (\<forall>r. gai name (af (hs_ctl h)) \<noteq> Inr r)
       \<or> (\<exists>g b. gai name (af (hs_ctl h)) = Inr (g, b) \<and> c = (set_hostname gethostname name (hs_ctl h))\<lparr>af := g\<rparr>)"
  | (traced) g b n ctl' n' where "gai name (af (hs_ctl h)) = Inr (g, b)"
      "net_open env os (open_pipe name) \<lparr>h_addrtype = g, h_address = b\<rparr> ((set_hostname gethostname name (hs_ctl h))\<lparr>af := g\<rparr>) (hs_local h) = Inr (0, n)"
      "open_pipe name = 0" "g \<noteq> AF_UNSPEC"
      "disp ((set_hostname gethostname name (hs_ctl h))\<lparr>af := g\<rparr>) n = Inr (ctl', n')" "hs_ctl h' = ctl'"
      "hs_local h' = n'\<lparr>nl_net := net_end_transit (nl_net n')\<rparr>" "hs_traced h' = hs_traced h @ [(name, g)]"
proof (cases "gai name (af (hs_ctl h))")
  case (Inl e)
  show ?thesis
    by (rule skipped [of "set_hostname gethostname name (hs_ctl h)"])
      (use assms Inl in \<open>auto simp: trace_host_def get_hostent_from_name_def give_up_def Let_def split: gai_failure.splits if_splits\<close>)
next
  case (Inr r)
  obtain g b where r: "r = (g, b)" by (cases r)
  let ?c = "(set_hostname gethostname name (hs_ctl h))\<lparr>af := g\<rparr>" and ?hent = "\<lparr>h_addrtype = g, h_address = b\<rparr>"
  show ?thesis
  proof (cases "g = AF_UNSPEC")
    case True
    show ?thesis
      by (rule skipped [of ?c])
        (use assms Inr r True in \<open>auto simp: trace_host_def get_hostent_from_name_def give_up_def Let_def split: if_splits\<close>)
  next
    case False
    then obtain err n where o: "net_open env os (open_pipe name) ?hent ?c (hs_local h) = Inr (err, n)"
      using assms Inr r by (auto simp: trace_host_def get_hostent_from_name_def Let_def and_then_Inr)
    have e: "err = open_pipe name" "err \<noteq> 0 \<longrightarrow> n = hs_local h"
      using o by (auto simp: net_open_def and_then_Inr Let_def split: if_splits)
    show ?thesis
    proof (cases "err = 0")
      case True
      then obtain ctl' n' where "disp ?c n = Inr (ctl', n')" "h' = h\<lparr>hs_ctl := ctl', hs_messages := hs_messages h,
          hs_local := n'\<lparr>nl_net := net_end_transit (nl_net n')\<rparr>, hs_traced := hs_traced h @ [(name, g)], packets_opened := packets_opened h + 1\<rparr>"
        using assms Inr r False o by (auto simp: trace_host_def get_hostent_from_name_def Let_def and_then_Inr)
      then show ?thesis using traced [OF _ _ _ False] Inr r o True e by simp
    next
      case err: False
      show ?thesis
        by (rule skipped [of ?c])
          (use assms Inr r False o e err in \<open>auto simp: trace_host_def get_hostent_from_name_def give_up_def Let_def split: if_splits\<close>)
    qed
  qed
qed

lemma open_on_target:
  assumes "net_open env os 0 \<lparr>h_addrtype = g, h_address = b\<rparr> ((set_hostname gethostname name ctl)\<lparr>af := g\<rparr>) l = Inr (0, n)"
    and "gai name f = Inr (g, b)" and "startable ctl (nl_net l)" and "inet_ok env" and "sizes_ok os gai" and "g \<noteq> AF_UNSPEC"
  shows "on_target gai ((set_hostname gethostname name ctl)\<lparr>af := g\<rparr>) n"
proof -
  have "length b = addr_len g" using assms(2,5,6) unfolding sizes_ok_def by blast
  then have "aimed ((set_hostname gethostname name ctl)\<lparr>af := g\<rparr>) \<lparr>h_addrtype = g, h_address = b\<rparr> (nl_net n)"
    using net_open_aimed [OF assms(1) refl _ assms(4,5)] assms(3) by simp
  then show ?thesis using assms(2) unfolding aimed_def on_target_def by auto
qed

lemma trace_host_startable:
  assumes "trace_host env os gai gethostname open_pipe disp name h = Inr h'" and "startable (hs_ctl h) (nl_net (hs_local h))"
    and "inet_ok env" and "sizes_ok os gai" and "run_keeps startable disp"
  shows "startable (hs_ctl h') (nl_net (hs_local h'))"
proof (rule trace_host_cases [OF assms(1)])
  fix c
  assume "hs_ctl h' = c" "hs_local h' = hs_local h"
    "c = set_hostname gethostname name (hs_ctl h) \<and> (\<forall>r. gai name (af (hs_ctl h)) \<noteq> Inr r)
       \<or> (\<exists>g b. gai name (af (hs_ctl h)) = Inr (g, b) \<and> c = (set_hostname gethostname name (hs_ctl h))\<lparr>af := g\<rparr>)"
  then show ?thesis using assms(2) by auto
next
  fix g b n ctl' n'
  assume t: "gai name (af (hs_ctl h)) = Inr (g, b)"
    "net_open env os (open_pipe name) \<lparr>h_addrtype = g, h_address = b\<rparr> ((set_hostname gethostname name (hs_ctl h))\<lparr>af := g\<rparr>) (hs_local h) = Inr (0, n)"
    "open_pipe name = 0" "g \<noteq> AF_UNSPEC"
    "disp ((set_hostname gethostname name (hs_ctl h))\<lparr>af := g\<rparr>) n = Inr (ctl', n')" "hs_ctl h' = ctl'"
    "hs_local h' = n'\<lparr>nl_net := net_end_transit (nl_net n')\<rparr>"
  have "on_target gai ((set_hostname gethostname name (hs_ctl h))\<lparr>af := g\<rparr>) n"
    by (rule open_on_target [OF t(2) [unfolded t(3)] t(1) assms(2,3,4) t(4)])
  then have "startable ((set_hostname gethostname name (hs_ctl h))\<lparr>af := g\<rparr>) (nl_net n)"
    unfolding on_target_def using fresh_startable by blast
  then have "startable ctl' (nl_net n')" using assms(5) t(5) unfolding run_keeps_def by blast
  then show ?thesis by (simp add: t(6,7))
qed

lemma trace_host_cong:
  assumes "startable (hs_ctl h) (nl_net (hs_local h))" and "inet_ok env" and "sizes_ok os gai"
    and "\<forall>ctl n. on_target gai ctl n \<longrightarrow> run1 ctl n = run2 ctl n"
  shows "trace_host env os gai gethostname open_pipe run1 name h = trace_host env os gai gethostname open_pipe run2 name h"
proof (cases "gai name (af (hs_ctl h))")
  case (Inr r)
  obtain g b where r: "r = (g, b)" by (cases r)
  let ?c = "(set_hostname gethostname name (hs_ctl h))\<lparr>af := g\<rparr>" and ?hent = "\<lparr>h_addrtype = g, h_address = b\<rparr>"
  show ?thesis
  proof (cases "net_open env os (open_pipe name) ?hent ?c (hs_local h)")
    case o: (Inr en)
    obtain err n where en: "en = (err, n)" by (cases en)
    have "run1 ?c n = run2 ?c n" if z: "err = 0" "g \<noteq> AF_UNSPEC"
    proof -
      have "open_pipe name = 0" using o en z(1) by (auto simp: net_open_def split: if_splits)
      then have "on_target gai ?c n"
        using open_on_target [OF _ _ assms(1,2,3) z(2)] o Inr en r z(1) by simp
      then show ?thesis using assms(4) by blast
    qed
    then show ?thesis using Inr r o en by (auto simp: trace_host_def get_hostent_from_name_def Let_def)
  qed (use Inr r in \<open>simp add: trace_host_def get_hostent_from_name_def Let_def\<close>)
qed (simp add: trace_host_def get_hostent_from_name_def Let_def split: gai_failure.splits)

text \<open>C34: Every target starts fresh: in the loop of \<open>main\<close> over the names, the display is only ever
  run on tables that were reset (consistent, every hop empty, no probe outstanding, the batch at the
  first hop), with an address that the system gave for the name in \<open>ctl->Hostname\<close> and in its family.
  So two displays that agree there give the same run of the whole loop, whatever they do on other
  tables. The address sizes of the system are the documented ones, and the display keeps what
  \<open>net_reset\<close> needs.\<close>

theorem targets_start_fresh:
  assumes "startable (hs_ctl h) (nl_net (hs_local h))" and "inet_ok env" and "sizes_ok os gai" and "run_keeps startable run1"
    and "\<forall>ctl n. on_target gai ctl n \<longrightarrow> run1 ctl n = run2 ctl n"
  shows "trace_hosts env os gai gethostname open_pipe run1 names h = trace_hosts env os gai gethostname open_pipe run2 names h"
  using assms(1)
proof (induction names arbitrary: h)
  case (Cons name names)
  have c: "trace_host env os gai gethostname open_pipe run1 name h = trace_host env os gai gethostname open_pipe run2 name h"
    by (rule trace_host_cong [OF Cons.prems assms(2,3,5)])
  show ?case
  proof (cases "trace_host env os gai gethostname open_pipe run1 name h")
    case (Inr h')
    then have "startable (hs_ctl h') (nl_net (hs_local h'))"
      by (rule trace_host_startable [OF _ Cons.prems assms(2,3,4)])
    then have "trace_hosts env os gai gethostname open_pipe run1 names h' = trace_hosts env os gai gethostname open_pipe run2 names h'"
      by (rule Cons.IH)
    then show ?thesis by (simp add: Inr c [symmetric])
  qed (use c in simp)
qed simp

definition two_names :: getaddrinfo where
  "two_names name f = (if f = AF_INET6 \<or> name = ''six'' \<and> f = AF_INET then Inl (EAI_OTHER ''no address'')
     else if name = ''six'' then Inr (AF_INET6, replicate 16 1) else Inr (AF_INET, [10, 0, 0, 1]))"

definition no_interfaces :: net_os where
  "no_interfaces = \<lparr>getifaddrs = Some [], udp_socket = (\<lambda>_. True), udp_connect = (\<lambda>_ _. None),
     getsockname = Some (AF_INET, [10, 0, 0, 2])\<rparr>"

definition hosts_start :: hosts_state where
  "hosts_start = \<lparr>hs_ctl = test_ctl\<lparr>Interactive := False, af := AF_UNSPEC\<rparr>, hs_local = \<lparr>nl_net = empty_net, localaddr = []\<rparr>,
     hs_messages = [], hs_traced = [], packets_opened = 0\<rparr>"

lemma two_names_sizes: "sizes_ok no_interfaces two_names"
  by (auto simp: sizes_ok_def no_interfaces_def two_names_def addr_len_def split: if_splits)

theorem targets_start_fresh_witness:
  "trace_hosts sample_inet no_interfaces two_names None (\<lambda>_. 0) (\<lambda>ctl n. Inr (ctl, n)) [''a'', ''b''] hosts_start
   = trace_hosts sample_inet no_interfaces two_names None (\<lambda>_. 0)
       (\<lambda>ctl n. if host (nl_net n) 3 = template_host then Inr (ctl, n) else Inl ''dirty'') [''a'', ''b''] hosts_start"
proof (rule targets_start_fresh [OF _ sample_inet_ok two_names_sizes])
  show "startable (hs_ctl hosts_start) (nl_net (hs_local hosts_start))"
    using test_ctl_ok(1) by (simp add: hosts_start_def startable_def ctl_ok_def empty_net_def is_ip_def zero_ip_def)
  show "run_keeps startable (\<lambda>ctl n. Inr (ctl, n))" by (simp add: run_keeps_def)
  show "\<forall>ctl n. on_target two_names ctl n \<longrightarrow>
      Inr (ctl, n) = (if host (nl_net n) 3 = template_host then Inr (ctl, n) else Inl ''dirty'')"
    by (auto simp: on_target_def fresh_start_def)
qed

text \<open>The targets traced so far have one family, which is that of the options.\<close>

definition one_family :: "getaddrinfo \<Rightarrow> hosts_state \<Rightarrow> bool" where
  "one_family gai h \<longleftrightarrow> (\<forall>t \<in> set (tl (hs_traced h)). snd t = snd (hd (hs_traced h))
           \<and> (\<exists>b. gai (fst t) (snd (hd (hs_traced h))) = Inr (snd t, b)))
         \<and> (hs_traced h \<noteq> [] \<longrightarrow> af (hs_ctl h) \<noteq> AF_UNSPEC \<and> snd (hd (hs_traced h)) = af (hs_ctl h))"

lemma one_family_step:
  assumes t: "trace_host env os gai gethostname open_pipe disp name h1 = Inr h2" and i: "one_family gai h1"
    and honest: "\<forall>name f g b. gai name f = Inr (g, b) \<longrightarrow> f = AF_UNSPEC \<or> g = f"
    and keeps: "\<forall>ctl n ctl' n'. disp ctl n = Inr (ctl', n') \<longrightarrow> af ctl' = af ctl"
  shows "one_family gai h2"
proof (rule trace_host_cases [OF t])
  fix c
  assume "hs_ctl h2 = c" "hs_traced h2 = hs_traced h1" and
    c: "c = set_hostname gethostname name (hs_ctl h1) \<and> (\<forall>r. gai name (af (hs_ctl h1)) \<noteq> Inr r)
     \<or> (\<exists>g b. gai name (af (hs_ctl h1)) = Inr (g, b) \<and> c = (set_hostname gethostname name (hs_ctl h1))\<lparr>af := g\<rparr>)"
  moreover have "af c = af (hs_ctl h1) \<or> af (hs_ctl h1) = AF_UNSPEC" using c honest by fastforce
  ultimately show ?thesis using i unfolding one_family_def by auto
next
  fix g b n ctl' n'
  assume g: "gai name (af (hs_ctl h1)) = Inr (g, b)" "g \<noteq> AF_UNSPEC"
    and r: "disp ((set_hostname gethostname name (hs_ctl h1))\<lparr>af := g\<rparr>) n = Inr (ctl', n')" "hs_ctl h2 = ctl'"
    and tr: "hs_traced h2 = hs_traced h1 @ [(name, g)]"
  have a: "af ctl' = g" using keeps r(1) by fastforce
  have b: "af (hs_ctl h1) = AF_UNSPEC \<or> g = af (hs_ctl h1)" using honest g(1) by blast
  show ?thesis
  proof (cases "hs_traced h1")
    case Nil
    then show ?thesis using tr a r(2) g(2) by (simp add: one_family_def)
  next
    case (Cons x xs)
    then have x: "snd x = af (hs_ctl h1)" "af (hs_ctl h1) \<noteq> AF_UNSPEC" using i by (auto simp: one_family_def)
    then have gg: "g = snd x" "\<exists>b. gai name (snd x) = Inr (g, b)" using b g(1) by auto
    have "\<forall>t \<in> set xs. snd t = snd x \<and> (\<exists>b. gai (fst t) (snd x) = Inr (snd t, b))"
      using i unfolding one_family_def Cons list.sel by blast
    then have "\<forall>t \<in> set (xs @ [(name, g)]). snd t = snd x \<and> (\<exists>b. gai (fst t) (snd x) = Inr (snd t, b))"
      using gg by (metis fst_conv snd_conv rotate1.simps(2) set_ConsD set_rotate1)
    then show ?thesis unfolding one_family_def tr Cons r(2) a append_Cons list.sel
      using gg(1) g(2) by blast
  qed
qed

lemma one_family_run:
  assumes "trace_hosts env os gai gethostname open_pipe disp ns h1 = Inr h2" and "one_family gai h1"
    and "\<forall>name f g b. gai name f = Inr (g, b) \<longrightarrow> f = AF_UNSPEC \<or> g = f"
    and "\<forall>ctl n ctl' n'. disp ctl n = Inr (ctl', n') \<longrightarrow> af ctl' = af ctl"
  shows "one_family gai h2"
  using assms(1,2)
proof (induction ns arbitrary: h1)
  case (Cons n ns)
  then obtain h3 where h: "trace_host env os gai gethostname open_pipe disp n h1 = Inr h3"
    "(if Interactive (hs_ctl h3) then Inr h3 else trace_hosts env os gai gethostname open_pipe disp ns h3) = Inr h2"
    by (auto simp: and_then_Inr)
  have "one_family gai h3" by (rule one_family_step [OF h(1) Cons.prems(2) assms(3,4)])
  then show ?case using Cons.IH h(2) by (auto split: if_splits)
qed simp

text \<open>One family for all targets: \<open>get_hostent_from_name\<close> stores the family of the first name that
  resolves in the options, so every later name is only asked for that family: a name without an
  address of the family of the first target is not traced. The system honours the family asked for,
  and the display leaves the family.\<close>

theorem names_share_family:
  assumes "trace_hosts env os gai gethostname open_pipe disp names h = Inr h'"
    and "\<forall>name f g b. gai name f = Inr (g, b) \<longrightarrow> f = AF_UNSPEC \<or> g = f"
    and "\<forall>ctl n ctl' n'. disp ctl n = Inr (ctl', n') \<longrightarrow> af ctl' = af ctl" and "hs_traced h = []"
  shows "\<forall>t \<in> set (tl (hs_traced h')). snd t = snd (hd (hs_traced h'))
           \<and> (\<exists>b. gai (fst t) (snd (hd (hs_traced h'))) = Inr (snd t, b))"
proof -
  have "one_family gai h" using assms(4) by (simp add: one_family_def)
  then have "one_family gai h'" by (rule one_family_run [OF assms(1) _ assms(2,3)])
  then show ?thesis unfolding one_family_def by blast
qed

text \<open>The name that has only an IPv6 address is traced alone, and not after the other.\<close>

theorem names_share_family_witness:
  "\<exists>h'. trace_hosts sample_inet no_interfaces two_names None (\<lambda>_. 0) (\<lambda>ctl n. Inr (ctl, n)) [''a'', ''six'', ''b''] hosts_start = Inr h'
     \<and> hs_traced h' = [(''a'', AF_INET), (''b'', AF_INET)]
     \<and> hs_messages h' = [''Failed to resolve host: six: no address'']
     \<and> (\<forall>t \<in> set (tl (hs_traced h')). snd t = snd (hd (hs_traced h'))
           \<and> (\<exists>b. two_names (fst t) (snd (hd (hs_traced h'))) = Inr (snd t, b)))"
proof -
  obtain h' where h: "trace_hosts sample_inet no_interfaces two_names None (\<lambda>_. 0) (\<lambda>ctl n. Inr (ctl, n)) [''a'', ''six'', ''b''] hosts_start = Inr h'"
    "hs_traced h' = [(''a'', AF_INET), (''b'', AF_INET)]"
    "hs_messages h' = [''Failed to resolve host: six: no address'']"
    by (simp add: trace_host_def get_hostent_from_name_def two_names_def hosts_start_def net_open_def net_find_local_address_def
        no_interfaces_def give_up_def set_hostname_def test_ctl_def default_ctl_def Let_def)
  have "\<forall>t \<in> set (tl (hs_traced h')). snd t = snd (hd (hs_traced h'))
           \<and> (\<exists>b. two_names (fst t) (snd (hd (hs_traced h'))) = Inr (snd t, b))"
    by (rule names_share_family [OF h(1)]) (auto simp: two_names_def hosts_start_def split: if_splits, (case_tac f; simp)+)
  then show ?thesis using h by blast
qed

end
