(* ===== verification/Cygwin.thy ===== *)
theory Cygwin
  imports Command
begin

text \<open>
  The other platform of \<open>mtr-packet\<close>: \<open>packet/probe_cygwin.c\<close>, \<open>packet/command_cygwin.c\<close> and
  \<open>packet/wait_cygwin.c\<close>, with the parts of \<open>packet/probe.c\<close>, \<open>packet/command.c\<close> and
  \<open>packet/packet.c\<close> as they are compiled there (\<open>__linux__\<close> is not defined). Reads of the command
  stream and probes are overlapped operations: Windows runs their completion routines while the
  program sleeps. The calls of Windows are the record \<open>win\<close>, functions of a world that only Windows
  looks into; which operations are pending is part of the state.
\<close>

section \<open>State\<close>

text \<open>Codes of Windows, as its documentation has them.\<close>

abbreviation (input) IP_SUCCESS :: int where "IP_SUCCESS \<equiv> 0"
abbreviation (input) IP_DEST_NET_UNREACHABLE :: int where "IP_DEST_NET_UNREACHABLE \<equiv> 11002"
abbreviation (input) IP_DEST_HOST_UNREACHABLE :: int where "IP_DEST_HOST_UNREACHABLE \<equiv> 11003"
abbreviation (input) IP_DEST_PROT_UNREACHABLE :: int where "IP_DEST_PROT_UNREACHABLE \<equiv> 11004"
abbreviation (input) IP_DEST_PORT_UNREACHABLE :: int where "IP_DEST_PORT_UNREACHABLE \<equiv> 11005"
abbreviation (input) IP_REQ_TIMED_OUT :: int where "IP_REQ_TIMED_OUT \<equiv> 11010"
abbreviation (input) IP_BAD_ROUTE :: int where "IP_BAD_ROUTE \<equiv> 11012"
abbreviation (input) IP_TTL_EXPIRED_TRANSIT :: int where "IP_TTL_EXPIRED_TRANSIT \<equiv> 11013"
abbreviation (input) IP_TTL_EXPIRED_REASSEM :: int where "IP_TTL_EXPIRED_REASSEM \<equiv> 11014"
abbreviation (input) IP_SOURCE_QUENCH :: int where "IP_SOURCE_QUENCH \<equiv> 11016"
abbreviation (input) IP_BAD_DESTINATION :: int where "IP_BAD_DESTINATION \<equiv> 11018"
abbreviation (input) IP_DEST_UNREACHABLE :: int where "IP_DEST_UNREACHABLE \<equiv> 11040"
abbreviation (input) ERROR_INVALID_PARAMETER :: int where "ERROR_INVALID_PARAMETER \<equiv> 87"
abbreviation (input) ERROR_BROKEN_PIPE :: int where "ERROR_BROKEN_PIPE \<equiv> 109"
abbreviation (input) WAIT_IO_COMPLETION :: int where "WAIT_IO_COMPLETION \<equiv> 192"
abbreviation (input) ERROR_IO_PENDING :: int where "ERROR_IO_PENDING \<equiv> 997"
abbreviation (input) ERROR_INVALID_NETNAME :: int where "ERROR_INVALID_NETNAME \<equiv> 1214"

text \<open>A probe, with the version of its address and whether it has a reply buffer. \<open>cy_buffers\<close> is
  the number of reply buffers that are allocated. \<open>cy_incoming\<close> is the text in the command buffer.
  What Windows has to complete: the size of the read that is active, the probes whose requests are,
  and how many calls that do nothing are queued.\<close>

record cyg_probe =
  cp_token :: int
  cp_ip_version :: int
  cp_reply :: bool

record 'w cyg =
  cy_probes :: "(nat \<times> cyg_probe) list"
  cy_count :: int
  cy_icmp4 :: bool
  cy_icmp6 :: bool
  cy_raw4 :: bool
  cy_raw6 :: bool
  cy_buffers :: nat
  cy_out :: "string list"
  cy_incoming :: string
  cy_read_active :: bool
  cy_pipe_open :: bool
  cy_reading :: "int option"
  cy_pending :: "nat list"
  cy_wakes :: nat
  cy_world :: 'w

record echo_request =
  er_src :: "sockaddr option"
  er_dest :: sockaddr
  er_payload :: "u8 list"
  er_ttl :: u8
  er_reply_size :: int
  er_timeout :: u32

text \<open>\<open>win_send_echo\<close> gives the result of the call and the last error; \<open>win_read_file\<close> whether the call
  succeeded and the last error. The handles are valid or not. \<open>win_uninit\<close> is uninitialised memory
  of the stack, \<open>win_reply4\<close> and \<open>win_reply6\<close> the sizes of the replies.\<close>

record 'w win =
  win_inet :: inet_env
  win_pid :: int
  win_uninit :: sockaddr
  win_reply4 :: int
  win_reply6 :: int
  win_create4 :: "'w \<Rightarrow> bool \<times> 'w"
  win_create6 :: "'w \<Rightarrow> bool \<times> 'w"
  win_malloc :: "'w \<Rightarrow> bool \<times> 'w"
  win_socket :: "family \<Rightarrow> 'w \<Rightarrow> int option \<times> 'w"
  win_connect :: "int \<Rightarrow> sockaddr \<Rightarrow> 'w \<Rightarrow> bool \<times> 'w"
  win_getsockname :: "int \<Rightarrow> 'w \<Rightarrow> sockaddr option \<times> 'w"
  win_close :: "int \<Rightarrow> 'w \<Rightarrow> 'w"
  win_send_echo :: "echo_request \<Rightarrow> 'w \<Rightarrow> (int \<times> int) \<times> 'w"
  win_read_file :: "int \<Rightarrow> 'w \<Rightarrow> (bool \<times> int) \<times> 'w"
  win_queue_apc :: "'w \<Rightarrow> bool \<times> 'w"

section \<open>Procedures\<close>

type_synonym ('a, 'w) cproc = "'w cyg \<Rightarrow> (string \<times> 'w cyg) + ('a \<times> 'w cyg)"

definition c_ret :: "'a \<Rightarrow> ('a, 'w) cproc" where
  "c_ret x = (\<lambda>st. Inr (x, st))"

definition c_bnd :: "('a, 'w) cproc \<Rightarrow> ('a \<Rightarrow> ('b, 'w) cproc) \<Rightarrow> ('b, 'w) cproc" where
  "c_bnd m f = (\<lambda>st. and_then (m st) (\<lambda>(x, st). f x st))"

definition c_exit :: "string \<Rightarrow> ('a, 'w) cproc" where
  "c_exit msg = (\<lambda>st. Inl (msg, st))"

definition c_get :: "('w cyg \<Rightarrow> 'a) \<Rightarrow> ('a, 'w) cproc" where
  "c_get f = (\<lambda>st. Inr (f st, st))"

definition c_upd :: "('w cyg \<Rightarrow> 'w cyg) \<Rightarrow> (unit, 'w) cproc" where
  "c_upd f = (\<lambda>st. Inr ((), f st))"

definition c_call :: "('w \<Rightarrow> 'a \<times> 'w) \<Rightarrow> ('a, 'w) cproc" where
  "c_call g = (\<lambda>st. case g (cy_world st) of (x, w) \<Rightarrow> Inr (x, st\<lparr>cy_world := w\<rparr>))"

definition c_print :: "string \<Rightarrow> (unit, 'w) cproc" where
  "c_print l = c_upd (\<lambda>st. st\<lparr>cy_out := cy_out st @ [l]\<rparr>)"

section \<open>The net state\<close>

definition init_net_state_cyg :: "'w win \<Rightarrow> (unit, 'w) cproc" where
  "init_net_state_cyg win =
     c_bnd (c_call (win_create4 win)) (\<lambda>icmp4.
     c_bnd (c_call (win_create6 win)) (\<lambda>icmp6.
     if \<not> icmp4 \<and> \<not> icmp6 then c_exit ''Failure opening ICMP''
     else c_upd (\<lambda>st. st\<lparr>cy_probes := [], cy_count := 0, cy_icmp4 := icmp4, cy_icmp6 := icmp6,
            cy_raw4 := False, cy_raw6 := False\<rparr>)))"

definition ip_version_supported_cyg :: "'w cyg \<Rightarrow> int \<Rightarrow> bool" where
  "ip_version_supported_cyg st ip_version =
     (if ip_version = 4 then cy_icmp4 st else if ip_version = 6 then cy_icmp6 st else False)"

definition protocol_supported_cyg :: "int \<Rightarrow> bool" where
  "protocol_supported_cyg protocol \<longleftrightarrow> protocol = IPPROTO_ICMP"

definition cyg_fresh :: "'w cyg \<Rightarrow> nat" where
  "cyg_fresh st = Suc (foldr max (map fst (cy_probes st)) 0)"

definition alloc_probe_cyg :: "'w win \<Rightarrow> int \<Rightarrow> (nat option, 'w) cproc" where
  "alloc_probe_cyg win tok =
     c_bnd (c_get cy_count) (\<lambda>n.
     if MAX_PROBES \<le> n then c_ret None
     else c_bnd (c_call (win_malloc win)) (\<lambda>got.
     if \<not> got then c_ret None
     else c_bnd (c_get cyg_fresh) (\<lambda>p.
       c_bnd (c_upd (\<lambda>st. st\<lparr>cy_count := cy_count st + 1,
           cy_probes := (p, \<lparr>cp_token = tok, cp_ip_version = 0, cp_reply = False\<rparr>) # cy_probes st\<rparr>))
         (\<lambda>_. c_ret (Some p)))))"

definition cyg_probe_at :: "nat \<Rightarrow> (cyg_probe, 'w) cproc" where
  "cyg_probe_at p = c_bnd (c_get cy_probes) (\<lambda>ps. case map_of ps p of
     Some probe \<Rightarrow> c_ret probe | None \<Rightarrow> c_exit ''dangling probe'')"

definition cyg_upd_probe :: "nat \<Rightarrow> (cyg_probe \<Rightarrow> cyg_probe) \<Rightarrow> (unit, 'w) cproc" where
  "cyg_upd_probe p f = c_upd (\<lambda>st. st\<lparr>cy_probes :=
     map (\<lambda>(q, x). if q = p then (q, f x) else (q, x)) (cy_probes st)\<rparr>)"

definition platform_free_probe_cyg :: "cyg_probe \<Rightarrow> (unit, 'w) cproc" where
  "platform_free_probe_cyg probe =
     (if cp_reply probe then c_upd (\<lambda>st. st\<lparr>cy_buffers := cy_buffers st - 1\<rparr>) else c_ret ())"

definition free_probe_cyg :: "nat \<Rightarrow> (unit, 'w) cproc" where
  "free_probe_cyg p =
     c_bnd (cyg_probe_at p) (\<lambda>probe.
     c_bnd (c_upd (\<lambda>st. st\<lparr>cy_probes := filter (\<lambda>(q, _). q \<noteq> p) (cy_probes st), cy_count := cy_count st - 1\<rparr>))
       (\<lambda>_. platform_free_probe_cyg probe))"

section \<open>Addresses\<close>

definition decode_address_cyg :: "'w win \<Rightarrow> int \<Rightarrow> string option \<Rightarrow> (sockaddr option, 'w) cproc" where
  "decode_address_cyg win ip_version address_string =
     (if family_of ip_version = AF_UNSPEC then c_ret None
      else (case address_string of
              None \<Rightarrow> c_exit ''null address''
            | Some s \<Rightarrow>
                c_ret (map_option (\<lambda>a. \<lparr>ss_family = family_of ip_version, sin_port = 0, sin_addr = a\<rparr>)
                  (inet_pton (win_inet win) (family_of ip_version) s))))"

text \<open>Without \<open>__linux__\<close> an unreachable host is an error.\<close>

definition find_source_addr_cyg :: "'w win \<Rightarrow> sockaddr \<Rightarrow> (sockaddr option, 'w) cproc" where
  "find_source_addr_cyg win destaddr =
     c_bnd (c_call (win_socket win (ss_family destaddr))) (\<lambda>sock.
     case sock of None \<Rightarrow> c_ret None | Some sock \<Rightarrow>
     c_bnd (c_call (win_connect win sock (destaddr\<lparr>sin_port := htons 1\<rparr>))) (\<lambda>connected.
     c_bnd (if connected then c_call (win_getsockname win sock) else c_ret None) (\<lambda>addr.
     c_bnd (c_call (\<lambda>w. ((), win_close win sock w))) (\<lambda>_.
     c_ret (map_option (\<lambda>a. a\<lparr>sin_port := 0\<rparr>) addr)))))"

definition resolve_probe_addresses_cyg ::
  "'w win \<Rightarrow> probe_param_t \<Rightarrow> ((sockaddr \<times> sockaddr) option, 'w) cproc" where
  "resolve_probe_addresses_cyg win param =
     c_bnd (decode_address_cyg win (pp_ip_version param) (pp_remote_address param)) (\<lambda>dest.
     case dest of None \<Rightarrow> c_ret None | Some dest_sockaddr \<Rightarrow>
     c_bnd (case pp_local_address param of
              Some a \<Rightarrow> decode_address_cyg win (pp_ip_version param) (Some a)
            | None \<Rightarrow> find_source_addr_cyg win dest_sockaddr) (\<lambda>src.
     case src of None \<Rightarrow> c_ret None | Some src_sockaddr \<Rightarrow>
     c_bnd (c_get (\<lambda>st. (cy_raw4 st, cy_raw6 st))) (\<lambda>(raw4, raw6).
     c_ret (Some (dest_sockaddr,
       if pp_protocol param = IPPROTO_ICMP
          \<and> (ss_family src_sockaddr = AF_INET \<and> \<not> raw4 \<or> ss_family src_sockaddr = AF_INET6 \<and> \<not> raw6)
       then src_sockaddr\<lparr>sin_port := htons (word_of_int (win_pid win))\<rparr>
       else src_sockaddr)))))"

section \<open>Results of a probe\<close>

text \<open>The line of a Windows error.\<close>

definition win_error_text :: "int \<Rightarrow> int \<Rightarrow> string" where
  "win_error_text command_token err =
     (if err = IP_REQ_TIMED_OUT \<or> err = IP_SOURCE_QUENCH then fmt_d command_token @ '' no-reply''
      else if err = ERROR_INVALID_NETNAME then fmt_d command_token @ '' address-not-available''
      else if err = ERROR_INVALID_PARAMETER then fmt_d command_token @ '' invalid-argument''
      else fmt_d command_token @ '' unexpected-error winerror '' @ fmt_d (to_int32 err))"

definition report_win_error :: "int \<Rightarrow> int \<Rightarrow> (unit, 'w) cproc" where
  "report_win_error command_token err = c_print (win_error_text command_token err)"

definition respond_to_probe_cyg :: "'w win \<Rightarrow> nat \<Rightarrow> int \<Rightarrow> sockaddr \<Rightarrow> int \<Rightarrow> (unit, 'w) cproc" where
  "respond_to_probe_cyg win p icmp_type remote_addr round_trip_us =
     (case result_name icmp_type of
        None \<Rightarrow> c_exit ''assertion''
      | Some result \<Rightarrow>
          (let ip_argument = (if ss_family remote_addr = AF_INET6 then ''ip-6'' else ''ip-4'')
           in case inet_ntop (win_inet win) (ss_family remote_addr) (sin_addr remote_addr) of
                None \<Rightarrow> c_exit ''inet_ntop failure''
              | Some ip_text \<Rightarrow>
                  c_bnd (cyg_probe_at p) (\<lambda>probe.
                  c_bnd (c_print (response_text (cp_token probe) result ip_argument ip_text round_trip_us []))
                    (\<lambda>_. free_probe_cyg p))))"

text \<open>What Windows has put into the reply buffer: how many replies, and the status, the time in
  milliseconds and the address of the first; and the last error.\<close>

record icmp_reply =
  ir_count :: int
  ir_status :: int
  ir_rtt :: int
  ir_addr :: "u8 list"
  ir_last_error :: int

definition reply_status :: "icmp_reply \<Rightarrow> int" where
  "reply_status r = (if ir_count r = 0 then ir_last_error r else if 0 < ir_count r then ir_status r else 0)"

definition status_type :: "int \<Rightarrow> int option" where
  "status_type s =
     (if s = IP_SUCCESS then Some ICMP_ECHOREPLY
      else if s = IP_TTL_EXPIRED_TRANSIT \<or> s = IP_TTL_EXPIRED_REASSEM then Some ICMP_TIME_EXCEEDED
      else if s \<in> {IP_DEST_HOST_UNREACHABLE, IP_DEST_PORT_UNREACHABLE, IP_DEST_PROT_UNREACHABLE,
                   IP_DEST_NET_UNREACHABLE, IP_DEST_UNREACHABLE, IP_BAD_ROUTE, IP_BAD_DESTINATION}
      then Some ICMP_DEST_UNREACH else None)"

text \<open>The address of the reply: when there is none the memory of the stack is used as it is.\<close>

definition reply_source :: "'w win \<Rightarrow> int \<Rightarrow> icmp_reply \<Rightarrow> sockaddr" where
  "reply_source win ip_version r =
     (if 0 < ir_count r
      then \<lparr>ss_family = (if ip_version = 6 then AF_INET6 else AF_INET), sin_port = 0, sin_addr = ir_addr r\<rparr>
      else win_uninit win)"

definition on_icmp_reply :: "'w win \<Rightarrow> nat \<Rightarrow> icmp_reply \<Rightarrow> (unit, 'w) cproc" where
  "on_icmp_reply win p r =
     c_bnd (cyg_probe_at p) (\<lambda>probe.
     case status_type (reply_status r) of
       Some icmp_type \<Rightarrow>
         respond_to_probe_cyg win p icmp_type (reply_source win (cp_ip_version probe) r)
           (if 0 < ir_count r then ir_rtt r * 1000 else 0)
     | None \<Rightarrow>
         c_bnd (report_win_error (cp_token probe) (reply_status r)) (\<lambda>_. free_probe_cyg p))"

section \<open>Sending\<close>

text \<open>A call fails when its result is zero and the last error is not that the operation is pending;
  otherwise Windows will complete the request.\<close>

definition icmp_send_probe ::
  "'w win \<Rightarrow> nat \<Rightarrow> probe_param_t \<Rightarrow> sockaddr \<Rightarrow> sockaddr \<Rightarrow> u8 list \<Rightarrow> (unit, 'w) cproc" where
  "icmp_send_probe win p param src_sockaddr dest_sockaddr payload =
     (let timeout = (if 0 < pp_timeout param then word_of_int (1000 * pp_timeout param) else 1);
          v6 = (pp_ip_version param = 6);
          reply_size = (if v6 then win_reply6 win else win_reply4 win) + int (length payload)
      in c_bnd (c_call (win_malloc win)) (\<lambda>got.
         if \<not> got then c_exit ''failure to allocate reply buffer''
         else
           c_bnd (c_upd (\<lambda>st. st\<lparr>cy_buffers := cy_buffers st + 1\<rparr>)) (\<lambda>_.
           c_bnd (cyg_upd_probe p (\<lambda>x. x\<lparr>cp_reply := True\<rparr>)) (\<lambda>_.
           c_bnd (c_call (win_send_echo win \<lparr>er_src = (if v6 then Some src_sockaddr else None), er_dest = dest_sockaddr,
               er_payload = payload, er_ttl = word_of_int (pp_ttl param), er_reply_size = reply_size, er_timeout = timeout\<rparr>))
             (\<lambda>(send_result, err).
           if send_result = 0 \<and> err \<noteq> ERROR_IO_PENDING
           then c_bnd (cyg_probe_at p) (\<lambda>probe.
                c_bnd (report_win_error (cp_token probe) err) (\<lambda>_. free_probe_cyg p))
           else c_upd (\<lambda>st. st\<lparr>cy_pending := p # cy_pending st\<rparr>))))))"

definition fill_payload :: "probe_param_t \<Rightarrow> int \<Rightarrow> u8 list option" where
  "fill_payload param payload_buffer_size =
     (if pp_ip_version param \<noteq> 6 \<and> pp_ip_version param \<noteq> 4 then None
      else
        (let ip_icmp_size = (if pp_ip_version param = 6 then 40 + 8 else 20 + 8);
             payload_size = pp_packet_size param - ip_icmp_size;
             payload_size = (if payload_size < 0 then 0 else payload_size)
         in if payload_buffer_size < payload_size then None
            else Some (replicate (nat payload_size) (word_of_int (pp_bit_pattern param)))))"

definition send_probe_cyg :: "'w win \<Rightarrow> probe_param_t \<Rightarrow> (unit, 'w) cproc" where
  "send_probe_cyg win param =
     c_bnd (resolve_probe_addresses_cyg win param) (\<lambda>addrs.
     case addrs of
       None \<Rightarrow> c_print (fmt_d (pp_command_token param) @ '' invalid-argument'')
     | Some (dest_sockaddr, src_sockaddr) \<Rightarrow>
         c_bnd (alloc_probe_cyg win (pp_command_token param)) (\<lambda>probe.
         case probe of
           None \<Rightarrow> c_print (fmt_d (pp_command_token param) @ '' probes-exhausted'')
         | Some p \<Rightarrow>
             c_bnd (cyg_upd_probe p (\<lambda>x. x\<lparr>cp_ip_version := pp_ip_version param\<rparr>)) (\<lambda>_.
             case fill_payload param PACKET_BUFFER_SIZE of
               None \<Rightarrow> c_exit ''Error construction packet''
             | Some payload \<Rightarrow> icmp_send_probe win p param src_sockaddr dest_sockaddr payload)))"

section \<open>Commands\<close>

definition check_support_cyg :: "string \<Rightarrow> string \<Rightarrow> 'w cyg \<Rightarrow> string" where
  "check_support_cyg version feature st =
     (if feature = ''version'' then version
      else if feature = ''ip-4'' then yes_no (ip_version_supported_cyg st 4)
      else if feature = ''ip-6'' then yes_no (ip_version_supported_cyg st 6)
      else if feature = ''send-probe'' then ''ok''
      else if feature = ''icmp'' then yes_no (protocol_supported_cyg IPPROTO_ICMP)
      else if feature = ''udp'' then yes_no (protocol_supported_cyg IPPROTO_UDP)
      else if feature = ''tcp'' then yes_no (protocol_supported_cyg IPPROTO_TCP)
      else if feature = ''sctp'' then yes_no (protocol_supported_cyg IPPROTO_SCTP)
      else ''no'')"

definition check_support_command_cyg :: "string \<Rightarrow> command_t \<Rightarrow> (unit, 'w) cproc" where
  "check_support_command_cyg version command =
     (case find_parameter command ''feature'' of
        None \<Rightarrow> c_print (fmt_d (token command) @ '' invalid-argument'')
      | Some feature \<Rightarrow>
          c_bnd (c_get (check_support_cyg version feature)) (\<lambda>support.
          c_print (fmt_d (token command) @ '' feature-support support '' @ support)))"

definition validate_probe_parameters_cyg :: "probe_param_t \<Rightarrow> (bool, 'w) cproc" where
  "validate_probe_parameters_cyg param =
     c_bnd (c_get (\<lambda>st. ip_version_supported_cyg st (pp_ip_version param))) (\<lambda>version_ok.
     if \<not> version_ok then
       c_bnd (c_print (fmt_d (pp_command_token param) @ '' invalid-argument reason ip-version-not-supported''))
         (\<lambda>_. c_ret False)
     else if \<not> protocol_supported_cyg (pp_protocol param) then
       c_bnd (c_print (fmt_d (pp_command_token param) @ '' invalid-argument reason protocol-not-supported''))
         (\<lambda>_. c_ret False)
     else c_ret True)"

definition send_probe_command_cyg :: "'w win \<Rightarrow> command_t \<Rightarrow> (unit, 'w) cproc" where
  "send_probe_command_cyg win command =
     (case decode_arguments (zip (argument_name command) (argument_value command))
             (default_param (token command)) of
        None \<Rightarrow> c_print (fmt_d (token command) @ '' invalid-argument'')
      | Some param \<Rightarrow>
          c_bnd (validate_probe_parameters_cyg param) (\<lambda>ok. if ok then send_probe_cyg win param else c_ret ()))"

definition dispatch_command_cyg :: "'w win \<Rightarrow> string \<Rightarrow> command_t \<Rightarrow> (unit, 'w) cproc" where
  "dispatch_command_cyg win version command =
     (if command_name command = ''check-support'' then check_support_command_cyg version command
      else if command_name command = ''send-probe'' then send_probe_command_cyg win command
      else c_print (fmt_d (token command) @ '' unknown-command''))"

definition dispatch_line_cyg :: "'w win \<Rightarrow> string \<Rightarrow> string \<Rightarrow> (unit, 'w) cproc" where
  "dispatch_line_cyg win version full_command =
     (case parse_command full_command of
        Inl e \<Rightarrow> c_print ''0 command-parse-error''
      | Inr command \<Rightarrow> dispatch_command_cyg win version command)"

function dispatch_loop_cyg :: "'w win \<Rightarrow> string \<Rightarrow> string \<Rightarrow> (string, 'w) cproc" where
  "dispatch_loop_cyg win version buf =
     (case split_nl buf of
        None \<Rightarrow> c_ret buf
      | Some (full_command, buf) \<Rightarrow>
          c_bnd (dispatch_line_cyg win version full_command) (\<lambda>_. dispatch_loop_cyg win version buf))"
  by pat_completeness auto
termination
  by (relation "measure (\<lambda>(w, v, b). length b)") (auto dest: split_nl_shorter)

declare dispatch_loop_cyg.simps [simp del]

definition dispatch_buffer_commands_cyg :: "'w win \<Rightarrow> string \<Rightarrow> (unit, 'w) cproc" where
  "dispatch_buffer_commands_cyg win version =
     c_bnd (c_get cy_incoming) (\<lambda>buf.
     c_bnd (dispatch_loop_cyg win version buf) (\<lambda>rest.
     if INCOMING_SIZE - 1 \<le> length rest
     then c_bnd (c_print ''0 command-buffer-overflow'') (\<lambda>_. c_upd (\<lambda>st. st\<lparr>cy_incoming := []\<rparr>))
     else c_upd (\<lambda>st. st\<lparr>cy_incoming := rest\<rparr>)))"

section \<open>The command stream\<close>

definition init_command_buffer_cyg :: "(unit, 'w) cproc" where
  "init_command_buffer_cyg = c_upd (\<lambda>st. st\<lparr>cy_incoming := [], cy_read_active := False, cy_pipe_open := True\<rparr>)"

text \<open>A copy beyond the command buffer is the exit ``beyond the buffer''.\<close>

definition finish_read_command :: "int \<Rightarrow> string \<Rightarrow> (unit, 'w) cproc" where
  "finish_read_command status received =
     (if status \<noteq> 0 then
        (if status = ERROR_BROKEN_PIPE then c_upd (\<lambda>st. st\<lparr>cy_pipe_open := False\<rparr>)
         else c_exit ''ReadFileEx completion failure'')
      else
        c_bnd (c_get cy_incoming) (\<lambda>buf.
        if INCOMING_SIZE < length buf + length received then c_exit ''beyond the buffer''
        else c_upd (\<lambda>st. st\<lparr>cy_incoming := buf @ received, cy_read_active := False\<rparr>)))"

definition queue_empty_apc :: "'w win \<Rightarrow> (unit, 'w) cproc" where
  "queue_empty_apc win =
     c_bnd (c_call (win_queue_apc win)) (\<lambda>ok.
     if \<not> ok then c_exit ''Unexpected QueueUserAPC failure''
     else c_upd (\<lambda>st. st\<lparr>cy_wakes := cy_wakes st + 1\<rparr>))"

definition start_read_command :: "'w win \<Rightarrow> (unit, 'w) cproc" where
  "start_read_command win =
     c_bnd (c_get (\<lambda>st. (int INCOMING_SIZE - int (length (cy_incoming st)) - 1, cy_pipe_open st, cy_read_active st)))
       (\<lambda>(space_remaining, pipe_open, read_active).
     if \<not> pipe_open \<or> read_active then c_ret ()
     else
       c_bnd (c_call (win_read_file win space_remaining)) (\<lambda>(ok, err).
       if ok then c_upd (\<lambda>st. st\<lparr>cy_reading := Some space_remaining, cy_read_active := True\<rparr>)
       else if err = ERROR_BROKEN_PIPE then
         c_bnd (c_upd (\<lambda>st. st\<lparr>cy_pipe_open := False\<rparr>)) (\<lambda>_. queue_empty_apc win)
       else if err \<noteq> WAIT_IO_COMPLETION then c_exit ''Unexpected ReadFileEx failure''
       else c_upd (\<lambda>st. st\<lparr>cy_read_active := True\<rparr>)))"

text \<open>\<open>read_commands\<close> says whether the stream is open.\<close>

definition read_commands_cyg :: "(bool, 'w) cproc" where
  "read_commands_cyg = c_get cy_pipe_open"

section \<open>Completions\<close>

text \<open>What Windows runs while the program sleeps, and when it can.\<close>

datatype apc = Read_done int string | Icmp_done nat icmp_reply | Empty_apc

fun apc_enabled :: "apc \<Rightarrow> 'w cyg \<Rightarrow> bool" where
  "apc_enabled (Read_done status received) st =
     (case cy_reading st of None \<Rightarrow> False | Some n \<Rightarrow> status = 0 \<longrightarrow> int (length received) \<le> n)"
| "apc_enabled (Icmp_done p r) st = (p \<in> set (cy_pending st))"
| "apc_enabled Empty_apc st = (0 < cy_wakes st)"

fun run_apc :: "'w win \<Rightarrow> apc \<Rightarrow> (unit, 'w) cproc" where
  "run_apc win (Read_done status received) =
     c_bnd (c_upd (\<lambda>st. st\<lparr>cy_reading := None\<rparr>)) (\<lambda>_. finish_read_command status received)"
| "run_apc win (Icmp_done p r) =
     c_bnd (c_upd (\<lambda>st. st\<lparr>cy_pending := remove1 p (cy_pending st)\<rparr>)) (\<lambda>_. on_icmp_reply win p r)"
| "run_apc win Empty_apc = c_upd (\<lambda>st. st\<lparr>cy_wakes := cy_wakes st - 1\<rparr>)"

section \<open>The loop\<close>

text \<open>Where \<open>main\<close> is: before the wait, asleep, awake after at least one completion; the value is
  \<open>command_pipe_open\<close>. The sleep ends when completions have run, one or more of those that are
  ready.\<close>

datatype phase = Top bool | Asleep bool | Awake bool | Finished_cyg | Exited string

text \<open>What follows the wait in a turn of the loop. Receiving and timeouts do nothing here.\<close>

definition main_body_cyg :: "'w win \<Rightarrow> string \<Rightarrow> bool \<Rightarrow> (phase, 'w) cproc" where
  "main_body_cyg win version command_pipe_open =
     c_bnd (if command_pipe_open then read_commands_cyg else c_ret False) (\<lambda>command_pipe_open.
     c_bnd (dispatch_buffer_commands_cyg win version) (\<lambda>_.
     c_bnd (c_get cy_count) (\<lambda>n.
     c_ret (if \<not> command_pipe_open \<and> n = 0 then Finished_cyg else Top command_pipe_open))))"

definition goes :: "(phase, 'w) cproc \<Rightarrow> 'w cyg \<Rightarrow> phase \<times> 'w cyg" where
  "goes m st = (case m st of Inl (msg, st') \<Rightarrow> (Exited msg, st') | Inr (ph, st') \<Rightarrow> (ph, st'))"

inductive cyg_step :: "'w win \<Rightarrow> string \<Rightarrow> phase \<times> 'w cyg \<Rightarrow> phase \<times> 'w cyg \<Rightarrow> bool" for win version where
  wait: "cyg_step win version (Top b, st) (goes (c_bnd (start_read_command win) (\<lambda>_. c_ret (Asleep b))) st)"
| wait_failed: "cyg_step win version (Asleep b, st) (Exited ''SleepEx failure'', st)"
| completion: "ph = Asleep b \<or> ph = Awake b \<Longrightarrow> apc_enabled e st \<Longrightarrow>
     cyg_step win version (ph, st) (goes (c_bnd (run_apc win e) (\<lambda>_. c_ret (Awake b))) st)"
| turn: "cyg_step win version (Awake b, st) (goes (main_body_cyg win version b) st)"

definition cyg_start :: "'w win \<Rightarrow> 'w \<Rightarrow> phase \<times> 'w cyg" where
  "cyg_start win w =
     goes (c_bnd (init_net_state_cyg win) (\<lambda>_. c_bnd init_command_buffer_cyg (\<lambda>_. c_ret (Top True))))
       \<lparr>cy_probes = [], cy_count = 0, cy_icmp4 = False, cy_icmp6 = False, cy_raw4 = False, cy_raw6 = False,
        cy_buffers = 0, cy_out = [], cy_incoming = [], cy_read_active = False, cy_pipe_open = False,
        cy_reading = None, cy_pending = [], cy_wakes = 0, cy_world = w\<rparr>"

inductive cyg_reach :: "'w win \<Rightarrow> string \<Rightarrow> 'w \<Rightarrow> phase \<times> 'w cyg \<Rightarrow> bool" for win version w where
  start: "cyg_reach win version w (cyg_start win w)"
| step: "cyg_reach win version w s \<Longrightarrow> cyg_step win version s s' \<Longrightarrow> cyg_reach win version w s'"

end
