(* ===== verification/CygwinProps.thy ===== *)
theory CygwinProps
  imports Cygwin PacketInv Samples
begin

text \<open>
  Properties of \<open>mtr-packet\<close> on Cygwin: no completion touches a freed probe or writes beyond the
  command buffer, no reply buffer is lost, every command is answered once, the program never sleeps
  without anything that can wake it, and one request that is too long ends it.
\<close>

section \<open>Outcomes of procedures\<close>

definition bad_exit :: "string \<Rightarrow> bool" where
  "bad_exit msg \<longleftrightarrow> msg = ''dangling probe'' \<or> msg = ''beyond the buffer''"

definition c_ok :: "('w cyg \<Rightarrow> bool) \<Rightarrow> ('a, 'w) cproc \<Rightarrow> ('a \<Rightarrow> 'w cyg \<Rightarrow> bool) \<Rightarrow> bool" where
  "c_ok P m Q \<longleftrightarrow> (\<forall>st. P st \<longrightarrow> (case m st of Inl (msg, st') \<Rightarrow> \<not> bad_exit msg | Inr (x, st') \<Rightarrow> Q x st'))"

lemma c_okD: "c_ok P m Q \<Longrightarrow> P st \<Longrightarrow> m st = Inr (x, st') \<Longrightarrow> Q x st'"
  by (auto simp: c_ok_def dest!: spec [of _ st])

lemma c_okD_exit: "c_ok P m Q \<Longrightarrow> P st \<Longrightarrow> m st = Inl (msg, st') \<Longrightarrow> \<not> bad_exit msg"
  by (auto simp: c_ok_def dest!: spec [of _ st])

lemma c_ok_bnd:
  assumes "c_ok P m R" and "\<And>x. c_ok (R x) (f x) Q"
  shows "c_ok P (c_bnd m f) Q"
  unfolding c_ok_def
proof (intro allI impI)
  fix st assume p: "P st"
  show "case c_bnd m f st of Inl (msg, st') \<Rightarrow> \<not> bad_exit msg | Inr (x, st') \<Rightarrow> Q x st'"
  proof (cases "m st")
    case (Inl e)
    obtain msg st' where "e = (msg, st')" by (cases e)
    then show ?thesis using c_okD_exit [OF assms(1) p] Inl by (simp add: c_bnd_def)
  next
    case (Inr r)
    obtain x st' where r: "r = (x, st')" by (cases r)
    then have "R x st'" using c_okD [OF assms(1) p] Inr by simp
    then show ?thesis using assms(2) [of x] Inr r by (simp add: c_bnd_def c_ok_def)
  qed
qed

lemma c_ok_ret: "(\<And>st. P st \<Longrightarrow> Q x st) \<Longrightarrow> c_ok P (c_ret x) Q"
  by (simp add: c_ok_def c_ret_def)

lemma c_ok_exit: "\<not> bad_exit msg \<Longrightarrow> c_ok P (c_exit msg) Q"
  by (simp add: c_ok_def c_exit_def)

lemma c_ok_get: "(\<And>st. P st \<Longrightarrow> Q (f st) st) \<Longrightarrow> c_ok P (c_get f) Q"
  by (simp add: c_ok_def c_get_def)

lemma c_ok_upd: "(\<And>st. P st \<Longrightarrow> Q () (f st)) \<Longrightarrow> c_ok P (c_upd f) Q"
  by (simp add: c_ok_def c_upd_def)

lemma c_ok_call: "(\<And>st w x. P st \<Longrightarrow> Q x (st\<lparr>cy_world := w\<rparr>)) \<Longrightarrow> c_ok P (c_call g) Q"
  by (auto simp: c_ok_def c_call_def split: prod.split)

lemma c_ok_at:
  assumes "c_ok P m Q" and "P st" and "\<And>x st'. Q x st' \<Longrightarrow> Q' x st'"
  shows "case m st of Inl (msg, st') \<Rightarrow> \<not> bad_exit msg | Inr (x, st') \<Rightarrow> Q' x st'"
  using c_okD [OF assms(1,2)] c_okD_exit [OF assms(1,2)] assms(3) by (auto split: sum.split)

lemma c_ok_pre: "c_ok P m Q \<Longrightarrow> (\<And>st. P' st \<Longrightarrow> P st) \<Longrightarrow> c_ok P' m Q"
  by (simp add: c_ok_def)

lemma c_ok_post: "c_ok P m Q \<Longrightarrow> (\<And>x st. Q x st \<Longrightarrow> Q' x st) \<Longrightarrow> c_ok P m Q'"
  by (fastforce simp: c_ok_def split: sum.splits)

section \<open>The table of probes\<close>

text \<open>\<open>S\<close> are the probes that Windows has no request for at the moment, \<open>R\<close> those of them without a
  reply buffer; \<open>n\<close> counts the lines printed and the probes, and \<open>io\<close> is the command stream, which
  the handling of probes leaves alone.\<close>

definition io_of :: "'w cyg \<Rightarrow> string \<times> int option \<times> bool \<times> bool \<times> nat" where
  "io_of st = (cy_incoming st, cy_reading st, cy_read_active st, cy_pipe_open st, cy_wakes st)"

definition trk :: "int \<Rightarrow> nat set \<Rightarrow> nat set \<Rightarrow> string \<times> int option \<times> bool \<times> bool \<times> nat \<Rightarrow> 'w cyg \<Rightarrow> bool" where
  "trk n S R io st \<longleftrightarrow>
     distinct (map fst (cy_probes st)) \<and> distinct (cy_pending st)
     \<and> set (cy_pending st) = fst ` set (cy_probes st) - S \<and> S \<subseteq> fst ` set (cy_probes st) \<and> R \<subseteq> S
     \<and> cy_count st = int (length (cy_probes st)) \<and> cy_count st \<le> MAX_PROBES
     \<and> cy_buffers st + card R = length (cy_probes st)
     \<and> (\<forall>p x. (p, x) \<in> set (cy_probes st) \<longrightarrow> cp_reply x = (p \<notin> R))
     \<and> int (length (cy_out st)) + cy_count st = n \<and> io_of st = io"

lemma trk_world [simp]: "trk n S R io (st\<lparr>cy_world := w\<rparr>) = trk n S R io st"
  by (simp add: trk_def io_of_def)

lemma trk_call: "c_ok (trk n S R io) (c_call g) (\<lambda>_. trk n S R io)"
  by (rule c_ok_call) simp

lemma trk_get: "c_ok (trk n S R io) (c_get f) (\<lambda>_. trk n S R io)"
  by (rule c_ok_get)

lemma trk_print: "c_ok (trk n S R io) (c_print l) (\<lambda>_. trk (n + 1) S R io)"
  unfolding c_print_def by (rule c_ok_upd) (simp add: trk_def io_of_def)

lemma trk_exit: "\<not> bad_exit msg \<Longrightarrow> c_ok (trk n S R io) (c_exit msg) Q"
  by (rule c_ok_exit)

lemma trk_probe_at: "p \<in> S \<Longrightarrow> c_ok (trk n S R io) (cyg_probe_at p) (\<lambda>x st. trk n S R io st \<and> map_of (cy_probes st) p = Some x)"
  by (auto simp: c_ok_def cyg_probe_at_def c_bnd_def c_get_def c_ret_def c_exit_def trk_def map_of_eq_None_iff split: option.split)

lemma cyg_fresh_new: "cyg_fresh st \<notin> fst ` set (cy_probes st)"
proof -
  have "x \<in> set xs \<Longrightarrow> x \<le> foldr max xs 0" for x :: nat and xs
    by (induction xs) (auto simp: max_def)
  then have "q \<in> fst ` set (cy_probes st) \<Longrightarrow> q < cyg_fresh st" for q
    by (force simp: cyg_fresh_def less_Suc_eq_le)
  then show ?thesis by blast
qed

lemma trk_finite: "trk n S R io st \<Longrightarrow> finite R"
  by (rule finite_subset [of R "fst ` set (cy_probes st)"]) (auto simp: trk_def)

lemma trk_new:
  assumes "trk n {} {} io st" and "cy_count st < MAX_PROBES" and "p = cyg_fresh st"
  shows "trk (n + 1) {p} {p} io (st\<lparr>cy_count := cy_count st + 1,
           cy_probes := (p, \<lparr>cp_token = tok, cp_ip_version = 0, cp_reply = False\<rparr>) # cy_probes st\<rparr>)"
  using assms cyg_fresh_new [of st] unfolding trk_def io_of_def by (auto simp: image_iff)

lemma trk_alloc:
  fixes win :: "'w win"
  shows "c_ok (trk n {} {} io) (alloc_probe_cyg win tok)
     (\<lambda>r. case r of None \<Rightarrow> trk n {} {} io | Some p \<Rightarrow> trk (n + 1) {p} {p} io)"
proof -
  let ?Q = "\<lambda>r. case r of None \<Rightarrow> trk n {} {} io | Some p \<Rightarrow> trk (n + 1) {p} {p} io"
  let ?P = "\<lambda>m st. trk n {} {} io st \<and> cy_count st = m"
  have new: "c_ok (?P m) (c_bnd (c_get cyg_fresh) (\<lambda>p.
       c_bnd (c_upd (\<lambda>st. st\<lparr>cy_count := cy_count st + 1,
           cy_probes := (p, \<lparr>cp_token = tok, cp_ip_version = 0, cp_reply = False\<rparr>) # cy_probes st\<rparr>))
         (\<lambda>_. c_ret (Some p)))) ?Q" if m: "\<not> MAX_PROBES \<le> m" for m
  proof (rule c_ok_bnd)
    show "c_ok (?P m) (c_get cyg_fresh) (\<lambda>p st. ?P m st \<and> p = cyg_fresh st)" by (rule c_ok_get) simp
    show "c_ok (\<lambda>st. ?P m st \<and> p = cyg_fresh st) (c_bnd (c_upd (\<lambda>st. st\<lparr>cy_count := cy_count st + 1,
           cy_probes := (p, \<lparr>cp_token = tok, cp_ip_version = 0, cp_reply = False\<rparr>) # cy_probes st\<rparr>))
         (\<lambda>_. c_ret (Some p))) ?Q" for p
      by (rule c_ok_bnd [where R = "\<lambda>_. trk (n + 1) {p} {p} io"], rule c_ok_upd, rule trk_new)
        (use m in \<open>auto intro: c_ok_ret\<close>)
  qed
  have "c_ok (?P m) (c_bnd (c_call (win_malloc win)) (\<lambda>got. if \<not> got then c_ret None
      else c_bnd (c_get cyg_fresh) (\<lambda>p.
       c_bnd (c_upd (\<lambda>st. st\<lparr>cy_count := cy_count st + 1,
           cy_probes := (p, \<lparr>cp_token = tok, cp_ip_version = 0, cp_reply = False\<rparr>) # cy_probes st\<rparr>))
         (\<lambda>_. c_ret (Some p))))) ?Q" if "\<not> MAX_PROBES \<le> m" for m
    by (rule c_ok_bnd [where R = "\<lambda>_. ?P m"], rule c_ok_call) (use new that in \<open>auto intro: c_ok_ret\<close>)
  then show ?thesis
    unfolding alloc_probe_cyg_def
    by (intro c_ok_bnd [where R = ?P] c_ok_get) (auto intro: c_ok_ret)
qed

text \<open>A change of the contents of the probes.\<close>

lemma map_upd_fst: "map fst (map (\<lambda>(q, x). if q = p then (q, f x) else (q, x)) xs) = map fst xs"
  by (induction xs) auto

lemma map_upd_set: "fst ` set (map (\<lambda>(q, x). if q = p then (q, f x) else (q, x)) xs) = fst ` set xs"
  using arg_cong [OF map_upd_fst [of p f xs], of set] by (simp only: set_map)

lemma map_upd_in:
  "(q, y) \<in> set (map (\<lambda>(q, x). if q = p then (q, f x) else (q, x)) xs)
    \<Longrightarrow> \<exists>x. (q, x) \<in> set xs \<and> y = (if q = p then f x else x)"
  by (auto split: if_splits)

lemma trk_version: "c_ok (trk n S R io) (cyg_upd_probe p (\<lambda>x. x\<lparr>cp_ip_version := v\<rparr>)) (\<lambda>_. trk n S R io)"
  unfolding cyg_upd_probe_def
proof (rule c_ok_upd)
  fix st :: "'a cyg" assume t: "trk n S R io st"
  let ?xs = "map (\<lambda>(q, x). if q = p then (q, x\<lparr>cp_ip_version := v\<rparr>) else (q, x)) (cy_probes st)"
  have "cp_reply y = (q \<notin> R)" if y: "(q, y) \<in> set ?xs" for q y
    using map_upd_in [OF y] t by (auto simp: trk_def split: if_splits)
  then show "trk n S R io (st\<lparr>cy_probes := ?xs\<rparr>)"
    using t map_upd_fst [of p "\<lambda>x. x\<lparr>cp_ip_version := v\<rparr>" "cy_probes st"] map_upd_set [of p "\<lambda>x. x\<lparr>cp_ip_version := v\<rparr>" "cy_probes st"]
    unfolding trk_def io_of_def by (simp del: map_map set_map map_eq_conv)
qed

lemma trk_buffer:
  "c_ok (trk n {p} {p} io) (c_bnd (c_upd (\<lambda>st. st\<lparr>cy_buffers := cy_buffers st + 1\<rparr>)) (\<lambda>_. cyg_upd_probe p (\<lambda>x. x\<lparr>cp_reply := True\<rparr>)))
     (\<lambda>_. trk n {p} {} io)"
proof -
  let ?f = "\<lambda>x. x\<lparr>cp_reply := True\<rparr>"
  let ?xs = "\<lambda>st. map (\<lambda>(q, x). if q = p then (q, ?f x) else (q, x)) (cy_probes st)"
  have e: "c_bnd (c_upd (\<lambda>st. st\<lparr>cy_buffers := cy_buffers st + 1\<rparr>)) (\<lambda>_. cyg_upd_probe p ?f)
      = c_upd (\<lambda>st. st\<lparr>cy_buffers := cy_buffers st + 1, cy_probes := ?xs st\<rparr>)"
    by (rule ext) (simp add: c_bnd_def c_upd_def cyg_upd_probe_def)
  show ?thesis
    unfolding e
  proof (rule c_ok_upd)
    fix st :: "'a cyg" assume t: "trk n {p} {p} io st"
    have "cp_reply y" if y: "(q, y) \<in> set (?xs st)" for q y
    proof -
      obtain x where x: "(q, x) \<in> set (cy_probes st)" "y = (if q = p then ?f x else x)"
        using map_upd_in [OF y] by blast
      have "cp_reply x = (q \<notin> {p})" using t x(1) unfolding trk_def by blast
      then show ?thesis using x(2) by (cases "q = p") simp_all
    qed
    then show "trk n {p} {} io (st\<lparr>cy_buffers := cy_buffers st + 1, cy_probes := ?xs st\<rparr>)"
      using t map_upd_fst [of p ?f "cy_probes st"] map_upd_set [of p ?f "cy_probes st"]
      unfolding trk_def io_of_def by (simp del: map_map set_map map_eq_conv)
  qed
qed

text \<open>Freeing.\<close>

lemma free_counts:
  assumes "distinct (map fst xs)" and "p \<in> fst ` set xs"
  shows "length (filter (\<lambda>(q, _). q \<noteq> p) xs) = length xs - 1" and "0 < length xs"
    and "fst ` set (filter (\<lambda>(q, _). q \<noteq> p) xs) = fst ` set xs - {p}"
    and "distinct (map fst (filter (\<lambda>(q, _). q \<noteq> p) xs))"
proof -
  have "length (filter (\<lambda>(q, _). q \<noteq> p) xs) = length (remove1 p (map fst xs))"
  proof -
    have "length (filter (\<lambda>(q, _). q \<noteq> p) xs) = length (filter (\<lambda>q. q \<noteq> p) (map fst xs))"
      by (metis length_map map_fst_filter)
    also have "\<dots> = length (remove1 p (map fst xs))"
      using assms(1) by (simp add: distinct_remove1_removeAll removeAll_filter_not_eq eq_commute)
    finally show ?thesis .
  qed
  then show "length (filter (\<lambda>(q, _). q \<noteq> p) xs) = length xs - 1"
    using assms(2) by (simp add: length_remove1)
  show "0 < length xs" using assms(2) by auto
  show "fst ` set (filter (\<lambda>(q, _). q \<noteq> p) xs) = fst ` set xs - {p}" by force
  show "distinct (map fst (filter (\<lambda>(q, _). q \<noteq> p) xs))" using assms(1) by (simp add: map_fst_filter)
qed

lemma trk_free:
  assumes "p \<in> S"
  shows "c_ok (trk n S {} io) (free_probe_cyg p) (\<lambda>_. trk (n - 1) (S - {p}) {} io)"
proof -
  have "c_ok (\<lambda>st. trk n S {} io st \<and> map_of (cy_probes st) p = Some probe)
     (c_bnd (c_upd (\<lambda>st. st\<lparr>cy_probes := filter (\<lambda>(q, _). q \<noteq> p) (cy_probes st), cy_count := cy_count st - 1\<rparr>))
       (\<lambda>_. platform_free_probe_cyg probe)) (\<lambda>_. trk (n - 1) (S - {p}) {} io)" for probe
  proof (unfold c_ok_def, intro allI impI, elim conjE)
    fix st assume t: "trk n S {} io st" and m: "map_of (cy_probes st) p = Some probe"
    have r: "cp_reply probe" using t map_of_SomeD [OF m] by (auto simp: trk_def)
    have d: "distinct (map fst (cy_probes st))" "p \<in> fst ` set (cy_probes st)" using t assms by (auto simp: trk_def)
    note c = free_counts [OF d]
    have i: "int (length (cy_probes st) - 1) = int (length (cy_probes st)) - 1" using c(2) by linarith
    have "trk (n - 1) (S - {p}) {} io (st\<lparr>cy_probes := filter (\<lambda>(q, _). q \<noteq> p) (cy_probes st), cy_count := cy_count st - 1,
        cy_buffers := cy_buffers st - 1\<rparr>)"
      using t c i assms unfolding trk_def io_of_def by auto
    then show "case c_bnd (c_upd (\<lambda>st. st\<lparr>cy_probes := filter (\<lambda>(q, _). q \<noteq> p) (cy_probes st), cy_count := cy_count st - 1\<rparr>))
       (\<lambda>_. platform_free_probe_cyg probe) st of
        Inl (msg, st') \<Rightarrow> \<not> bad_exit msg | Inr (x, st') \<Rightarrow> trk (n - 1) (S - {p}) {} io st'"
      using r by (simp add: c_bnd_def c_upd_def platform_free_probe_cyg_def)
  qed
  then show ?thesis
    unfolding free_probe_cyg_def by (rule c_ok_bnd [OF trk_probe_at [OF assms]])
qed

text \<open>The handlers of a probe.\<close>

lemma trk_respond:
  assumes "p \<in> S"
  shows "c_ok (trk n S {} io) (respond_to_probe_cyg win p icmp_type remote_addr us) (\<lambda>_. trk n (S - {p}) {} io)"
proof -
  have f: "c_ok (trk (n + 1) S {} io) (free_probe_cyg p) (\<lambda>_. trk n (S - {p}) {} io)"
    using trk_free [OF assms, of "n + 1"] by simp
  have "c_ok (\<lambda>st. trk n S {} io st \<and> map_of (cy_probes st) p = Some x) (c_bnd (c_print l) (\<lambda>_. free_probe_cyg p))
      (\<lambda>_. trk n (S - {p}) {} io)" for x l
    by (rule c_ok_pre [OF c_ok_bnd [OF trk_print f]]) simp
  then show ?thesis
    unfolding respond_to_probe_cyg_def Let_def
    by (auto intro!: c_ok_exit c_ok_bnd [OF trk_probe_at [OF assms]] simp: bad_exit_def split: option.split)
qed

lemma trk_report:
  assumes "p \<in> S"
  shows "c_ok (trk n S {} io) (c_bnd (report_win_error tok err) (\<lambda>_. free_probe_cyg p)) (\<lambda>_. trk n (S - {p}) {} io)"
  unfolding report_win_error_def
  using c_ok_bnd [OF trk_print, of n S "{}" io "\<lambda>_. free_probe_cyg p"] trk_free [OF assms, of "n + 1" io] by simp

lemma trk_icmp_reply:
  assumes "p \<in> S"
  shows "c_ok (trk n S {} io) (on_icmp_reply win p r) (\<lambda>_. trk n (S - {p}) {} io)"
  unfolding on_icmp_reply_def
  by (rule c_ok_bnd [OF trk_probe_at [OF assms]])
    (auto intro: c_ok_pre [OF trk_respond [OF assms]] c_ok_pre [OF trk_report [OF assms]] split: option.split)

lemma trk_pending: "c_ok (trk n {p} {} io) (c_upd (\<lambda>st. st\<lparr>cy_pending := p # cy_pending st\<rparr>)) (\<lambda>_. trk n {} {} io)"
  by (rule c_ok_upd) (auto simp: trk_def io_of_def)

lemma c_bnd_assoc: "c_bnd (c_bnd m f) g = c_bnd m (\<lambda>x. c_bnd (f x) g)"
proof
  fix st
  show "c_bnd (c_bnd m f) g st = c_bnd m (\<lambda>x. c_bnd (f x) g) st"
    by (cases "m st") (auto simp: c_bnd_def)
qed

lemma trk_icmp_send:
  "c_ok (trk n {p} {p} io) (icmp_send_probe win p param src dest payload) (\<lambda>_. trk n {} {} io)"
proof -
  have fail: "c_ok (trk n {p} {} io) (c_bnd (cyg_probe_at p) (\<lambda>probe.
      c_bnd (report_win_error (cp_token probe) err) (\<lambda>_. free_probe_cyg p))) (\<lambda>_. trk n {} {} io)" for err
  proof -
    have "c_ok (trk n {p} {} io) (c_bnd (report_win_error tok err) (\<lambda>_. free_probe_cyg p)) (\<lambda>_. trk n {} {} io)" for tok
      using trk_report [of p "{p}"] by simp
    note rep = this
    show ?thesis by (intro c_ok_bnd [OF trk_probe_at]) (auto intro: c_ok_pre [OF rep])
  qed
  have sent: "c_ok (trk n {p} {} io) (c_bnd (c_call (win_send_echo win req)) (\<lambda>(send_result, err).
           if send_result = 0 \<and> err \<noteq> ERROR_IO_PENDING
           then c_bnd (cyg_probe_at p) (\<lambda>probe.
                c_bnd (report_win_error (cp_token probe) err) (\<lambda>_. free_probe_cyg p))
           else c_upd (\<lambda>st. st\<lparr>cy_pending := p # cy_pending st\<rparr>))) (\<lambda>_. trk n {} {} io)" for req
    by (rule c_ok_bnd [OF trk_call]) (auto intro: fail trk_pending split: prod.split)
  have "c_ok (trk n {p} {p} io) (c_bnd (c_upd (\<lambda>st. st\<lparr>cy_buffers := cy_buffers st + 1\<rparr>)) (\<lambda>_.
           c_bnd (cyg_upd_probe p (\<lambda>x. x\<lparr>cp_reply := True\<rparr>)) (\<lambda>_.
           c_bnd (c_call (win_send_echo win req)) (\<lambda>(send_result, err).
           if send_result = 0 \<and> err \<noteq> ERROR_IO_PENDING
           then c_bnd (cyg_probe_at p) (\<lambda>probe.
                c_bnd (report_win_error (cp_token probe) err) (\<lambda>_. free_probe_cyg p))
           else c_upd (\<lambda>st. st\<lparr>cy_pending := p # cy_pending st\<rparr>))))) (\<lambda>_. trk n {} {} io)" for req
    by (rule c_ok_bnd [OF trk_buffer sent, unfolded c_bnd_assoc])
  then show ?thesis
    unfolding icmp_send_probe_def Let_def
    by (intro c_ok_bnd [OF trk_call]) (auto intro: c_ok_exit simp: bad_exit_def)
qed

lemma trk_decode: "c_ok (trk n S R io) (decode_address_cyg win v a) (\<lambda>_. trk n S R io)"
  unfolding decode_address_cyg_def by (auto intro!: c_ok_ret c_ok_exit simp: bad_exit_def split: option.split)

lemma trk_find_source: "c_ok (trk n S R io) (find_source_addr_cyg win a) (\<lambda>_. trk n S R io)"
  unfolding find_source_addr_cyg_def
  by (rule c_ok_bnd [OF trk_call]) (auto intro!: c_ok_ret c_ok_bnd [OF trk_call] c_ok_bnd [where R = "\<lambda>_. trk n S R io"]
      intro: trk_call split: option.split)

lemma trk_resolve: "c_ok (trk n S R io) (resolve_probe_addresses_cyg win param) (\<lambda>_. trk n S R io)"
  unfolding resolve_probe_addresses_cyg_def
  by (rule c_ok_bnd [OF trk_decode]) (auto intro!: c_ok_ret c_ok_bnd [where R = "\<lambda>_. trk n S R io"]
      intro: trk_decode trk_find_source trk_get split: option.split prod.split)

lemma trk_send_probe: "c_ok (trk n {} {} io) (send_probe_cyg win param) (\<lambda>_. trk (n + 1) {} {} io)"
proof -
  have s: "c_ok (trk (n + 1) {p} {p} io) (c_bnd (cyg_upd_probe p (\<lambda>x. x\<lparr>cp_ip_version := pp_ip_version param\<rparr>)) (\<lambda>_.
             case fill_payload param PACKET_BUFFER_SIZE of
               None \<Rightarrow> c_exit ''Error construction packet''
             | Some payload \<Rightarrow> icmp_send_probe win p param src dest payload)) (\<lambda>_. trk (n + 1) {} {} io)" for p src dest
    by (rule c_ok_bnd [OF trk_version]) (auto intro: c_ok_exit trk_icmp_send simp: bad_exit_def split: option.split)
  have "c_ok (trk n {} {} io) (c_bnd (alloc_probe_cyg win (pp_command_token param)) (\<lambda>probe.
         case probe of
           None \<Rightarrow> c_print (fmt_d (pp_command_token param) @ '' probes-exhausted'')
         | Some p \<Rightarrow>
             c_bnd (cyg_upd_probe p (\<lambda>x. x\<lparr>cp_ip_version := pp_ip_version param\<rparr>)) (\<lambda>_.
             case fill_payload param PACKET_BUFFER_SIZE of
               None \<Rightarrow> c_exit ''Error construction packet''
             | Some payload \<Rightarrow> icmp_send_probe win p param src dest payload))) (\<lambda>_. trk (n + 1) {} {} io)" for src dest
    by (rule c_ok_bnd [OF trk_alloc], case_tac x) (simp_all add: trk_print s)
  then show ?thesis
    unfolding send_probe_cyg_def
    by (intro c_ok_bnd [OF trk_resolve]) (auto intro: trk_print split: option.split)
qed

section \<open>Commands\<close>

lemma trk_validate:
  "c_ok (trk n {} {} io) (validate_probe_parameters_cyg param) (\<lambda>ok. trk (if ok then n else n + 1) {} {} io)"
  unfolding validate_probe_parameters_cyg_def
  by (rule c_ok_bnd [OF trk_get]) (auto intro!: c_ok_ret c_ok_bnd [OF trk_print])

lemma trk_dispatch_line: "c_ok (trk n {} {} io) (dispatch_line_cyg win version l) (\<lambda>_. trk (n + 1) {} {} io)"
  unfolding dispatch_line_cyg_def dispatch_command_cyg_def check_support_command_cyg_def send_probe_command_cyg_def
  by (auto intro!: c_ok_ret trk_print trk_send_probe c_ok_bnd [OF trk_get] c_ok_bnd [OF trk_validate] split: sum.split option.split)

text \<open>The lines of the buffer, one after the other.\<close>

lemma lines_of_Some:
  "split_nl buf = Some (l, r) \<Longrightarrow> fst (lines_of buf) = l # fst (lines_of r) \<and> snd (lines_of buf) = snd (lines_of r)"
  by (simp add: lines_of.simps [of buf] split: prod.split)

lemma lines_of_None: "split_nl buf = None \<Longrightarrow> lines_of buf = ([], buf)"
  by (simp add: lines_of.simps [of buf])

lemma trk_dispatch_loop:
  "c_ok (trk n {} {} io) (dispatch_loop_cyg win version buf)
     (\<lambda>rest st. rest = snd (lines_of buf) \<and> trk (n + int (length (fst (lines_of buf)))) {} {} io st)"
proof (induction buf arbitrary: n rule: lines_of.induct)
  case (1 buf)
  show ?case
  proof (cases "split_nl buf")
    case None
    then show ?thesis by (simp add: dispatch_loop_cyg.simps [of win version buf] lines_of_None c_ok_ret)
  next
    case (Some lr)
    obtain l r where lr: "lr = (l, r)" by (cases lr)
    have "c_ok (trk (n + 1) {} {} io) (dispatch_loop_cyg win version r)
       (\<lambda>rest st. rest = snd (lines_of r) \<and> trk (n + 1 + int (length (fst (lines_of r)))) {} {} io st)"
      using "1.IH" Some lr by blast
    then have "c_ok (trk n {} {} io) (c_bnd (dispatch_line_cyg win version l) (\<lambda>_. dispatch_loop_cyg win version r))
       (\<lambda>rest st. rest = snd (lines_of r) \<and> trk (n + 1 + int (length (fst (lines_of r)))) {} {} io st)"
      by (rule c_ok_bnd [OF trk_dispatch_line])
    then show ?thesis
      using Some lr lines_of_Some [of buf l r] by (simp add: dispatch_loop_cyg.simps [of win version buf] algebra_simps)
  qed
qed

text \<open>The command stream after the dispatching: what follows the last line is kept.\<close>

definition rest_of :: "string \<Rightarrow> string" where
  "rest_of buf = (if INCOMING_SIZE - 1 \<le> length (snd (lines_of buf)) then [] else snd (lines_of buf))"

lemma lines_of_rest: "length (snd (lines_of buf)) \<le> length buf"
proof (induction buf rule: lines_of.induct)
  case (1 buf)
  show ?case
  proof (cases "split_nl buf")
    case (Some lr)
    obtain l r where lr: "lr = (l, r)" by (cases lr)
    have "length r < length buf" using split_nl_shorter Some lr by blast
    moreover have "length (snd (lines_of r)) \<le> length r" using "1.IH" Some lr by blast
    ultimately show ?thesis using lines_of_Some [of buf l r] Some lr by simp
  qed (simp add: lines_of_None)
qed

lemma rest_of_length: "length (rest_of buf) \<le> length buf" "length (rest_of buf) < INCOMING_SIZE - 1"
  using lines_of_rest [of buf] by (auto simp: rest_of_def)

lemma trk_dispatch:
  fixes win :: "'w win"
  shows "c_ok (trk n {} {} (buf, io)) (dispatch_buffer_commands_cyg win version)
     (\<lambda>_. trk (n + int (lines_answered buf)) {} {} (rest_of buf, io))"
proof -
  let ?n = "n + int (length (fst (lines_of buf)))"
  have e: "c_ok (trk m {} {} (buf, io) :: 'w cyg \<Rightarrow> bool) (c_upd (\<lambda>st. st\<lparr>cy_incoming := b\<rparr>)) (\<lambda>_. trk m {} {} (b, io))" for m b
    by (rule c_ok_upd) (auto simp: trk_def io_of_def)
  have over: "c_ok (trk ?n {} {} (buf, io) :: 'w cyg \<Rightarrow> bool) (c_bnd (c_print ''0 command-buffer-overflow'') (\<lambda>_. c_upd (\<lambda>st. st\<lparr>cy_incoming := []\<rparr>)))
      (\<lambda>_. trk (?n + 1) {} {} ([], io))"
    by (rule c_ok_bnd [OF trk_print e])
  let ?finish = "\<lambda>rest. if INCOMING_SIZE - 1 \<le> length rest
      then c_bnd (c_print ''0 command-buffer-overflow'') (\<lambda>_. c_upd (\<lambda>st. st\<lparr>cy_incoming := []\<rparr>))
      else c_upd (\<lambda>st. st\<lparr>cy_incoming := rest\<rparr>)"
  have fin: "c_ok (trk ?n {} {} (buf, io) :: 'w cyg \<Rightarrow> bool) (?finish (snd (lines_of buf))) (\<lambda>_. trk (n + int (lines_answered buf)) {} {} (rest_of buf, io))"
    using over e [of ?n "snd (lines_of buf)"] by (simp add: lines_answered_def rest_of_def add.assoc)
  have after: "c_ok (\<lambda>st :: 'w cyg. rest = snd (lines_of buf) \<and> trk ?n {} {} (buf, io) st) (?finish rest)
      (\<lambda>_. trk (n + int (lines_answered buf)) {} {} (rest_of buf, io))" for rest
  proof (cases "rest = snd (lines_of buf)")
    case True
    show ?thesis unfolding True by (rule c_ok_pre [OF fin]) simp
  qed (simp add: c_ok_def)
  have "c_ok (trk n {} {} (buf, io)) (c_get cy_incoming) (\<lambda>b st. b = buf \<and> trk n {} {} (buf, io) st)"
    by (rule c_ok_get) (simp add: trk_def io_of_def)
  moreover have "c_ok (\<lambda>st. b = buf \<and> trk n {} {} (buf, io) st) (dispatch_loop_cyg win version b)
      (\<lambda>rest st. rest = snd (lines_of buf) \<and> trk ?n {} {} (buf, io) st)" for b
    by (cases "b = buf") (simp add: trk_dispatch_loop, simp add: c_ok_def)
  ultimately show ?thesis
    unfolding dispatch_buffer_commands_cyg_def by (intro c_ok_bnd [OF _ c_ok_bnd [OF _ after]])
qed

section \<open>Steps of the program\<close>

text \<open>What holds between two steps. The read that is active fits into the command buffer.\<close>

definition stream_ok :: "string \<times> int option \<times> bool \<times> bool \<times> nat \<Rightarrow> bool" where
  "stream_ok io \<longleftrightarrow> (case io of (buf, reading, active, is_open, wakes) \<Rightarrow>
     length buf < INCOMING_SIZE \<and> (case reading of None \<Rightarrow> True
       | Some n \<Rightarrow> active \<and> is_open \<and> int (length buf) + n < int INCOMING_SIZE))"

definition cyg_ok :: "int \<Rightarrow> 'w cyg \<Rightarrow> bool" where
  "cyg_ok n st \<longleftrightarrow> trk n {} {} (io_of st) st \<and> stream_ok (io_of st)"

lemma trk_io: "trk n S R io st \<Longrightarrow> io_of st = io"
  by (simp add: trk_def)

lemma cyg_okI: "trk n {} {} io st \<Longrightarrow> stream_ok io \<Longrightarrow> cyg_ok n st"
  using trk_io by (fastforce simp: cyg_ok_def)

lemma cyg_ok_dispatch:
  "c_ok (\<lambda>st. cyg_ok n st \<and> io_of st = (buf, io)) (dispatch_buffer_commands_cyg win version)
     (\<lambda>_ st. cyg_ok (n + int (lines_answered buf)) st \<and> io_of st = (rest_of buf, io))"
proof (unfold c_ok_def, intro allI impI, elim conjE)
  fix st :: "'a cyg" assume ok: "cyg_ok n st" and io: "io_of st = (buf, io)"
  have t: "trk n {} {} (buf, io) st" using ok io by (simp add: cyg_ok_def)
  have s: "stream_ok (rest_of buf, io)"
    using ok io rest_of_length [of buf] by (auto simp: cyg_ok_def stream_ok_def split: prod.splits option.splits)
  show "case dispatch_buffer_commands_cyg win version st of Inl (msg, st') \<Rightarrow> \<not> bad_exit msg
      | Inr (x, st') \<Rightarrow> cyg_ok (n + int (lines_answered buf)) st' \<and> io_of st' = (rest_of buf, io)"
    by (rule c_ok_at [OF trk_dispatch t]) (use cyg_okI [OF _ s] trk_io in blast)
qed

lemma cyg_ok_start_read: "c_ok (cyg_ok n) (start_read_command win) (\<lambda>_. cyg_ok n)"
  unfolding start_read_command_def queue_empty_apc_def
  by (auto simp: c_ok_def c_bnd_def c_get_def c_call_def c_ret_def c_upd_def c_exit_def bad_exit_def cyg_ok_def stream_ok_def trk_def io_of_def
      split: prod.splits option.splits)

lemma cyg_ok_finish_read:
  "c_ok (\<lambda>st. cyg_ok n st \<and> apc_enabled (Read_done status received) st) (run_apc win (Read_done status received)) (\<lambda>_. cyg_ok n)"
  by (auto simp: finish_read_command_def c_ok_def c_bnd_def c_get_def c_upd_def c_exit_def bad_exit_def cyg_ok_def stream_ok_def trk_def io_of_def
      split: option.splits)

lemma cyg_ok_apc: "c_ok (\<lambda>st. cyg_ok n st \<and> apc_enabled e st) (run_apc win e) (\<lambda>_. cyg_ok n)"
proof (cases e)
  case (Read_done status received)
  then show ?thesis using cyg_ok_finish_read by blast
next
  case (Icmp_done p r)
  have done': "c_ok (trk n {p} {} io) (on_icmp_reply win p r) (\<lambda>_. trk n {} {} io)" for io :: "string \<times> int option \<times> bool \<times> bool \<times> nat"
    using trk_icmp_reply [of p "{p}"] by simp
  show ?thesis
  proof (unfold c_ok_def, intro allI impI, elim conjE)
    fix st :: "'a cyg" assume ok: "cyg_ok n st" and en: "apc_enabled e st"
    let ?st = "st\<lparr>cy_pending := remove1 p (cy_pending st)\<rparr>"
    have t: "trk n {p} {} (io_of st) ?st"
      using ok en Icmp_done by (auto simp: cyg_ok_def trk_def io_of_def)
    have s: "stream_ok (io_of st)" using ok by (simp add: cyg_ok_def)
    have r: "run_apc win e st = on_icmp_reply win p r ?st" by (simp add: Icmp_done c_bnd_def c_upd_def)
    show "case run_apc win e st of Inl (msg, st') \<Rightarrow> \<not> bad_exit msg | Inr (x, st') \<Rightarrow> cyg_ok n st'"
      unfolding r by (rule c_ok_at [OF done' t]) (rule cyg_okI [OF _ s])
  qed
next
  case Empty_apc
  then show ?thesis
    by (auto simp: c_ok_def c_upd_def cyg_ok_def stream_ok_def trk_def io_of_def split: option.splits)
qed

text \<open>A turn after the wait.\<close>

lemma cyg_ok_body:
  "c_ok (\<lambda>st. cyg_ok n st \<and> io_of st = (buf, reading, active, is_open, wakes)) (main_body_cyg win version b)
     (\<lambda>ph st. cyg_ok (n + int (lines_answered buf)) st \<and> io_of st = (rest_of buf, reading, active, is_open, wakes)
        \<and> ph = (if \<not> (b \<and> is_open) \<and> cy_count st = 0 then Finished_cyg else Top (b \<and> is_open)))"
proof -
  let ?io = "(reading, active, is_open, wakes)"
  let ?Q = "\<lambda>ph st. cyg_ok (n + int (lines_answered buf)) st \<and> io_of st = (rest_of buf, ?io)
        \<and> ph = (if \<not> (b \<and> is_open) \<and> cy_count st = 0 then Finished_cyg else Top (b \<and> is_open))"
  have r: "c_ok (\<lambda>st. cyg_ok n st \<and> io_of st = (buf, ?io)) (if b then read_commands_cyg else c_ret False)
      (\<lambda>x st. x = (b \<and> is_open) \<and> cyg_ok n st \<and> io_of st = (buf, ?io))"
    by (auto simp: read_commands_cyg_def io_of_def intro: c_ok_get c_ok_ret)
  have e: "c_ok (\<lambda>st. cyg_ok (n + int (lines_answered buf)) st \<and> io_of st = (rest_of buf, ?io))
      (c_bnd (c_get cy_count) (\<lambda>m. c_ret (if \<not> (b \<and> is_open) \<and> m = 0 then Finished_cyg else Top (b \<and> is_open)))) ?Q"
    by (auto simp: c_ok_def c_bnd_def c_get_def c_ret_def)
  have "c_ok (\<lambda>st. x = (b \<and> is_open) \<and> cyg_ok n st \<and> io_of st = (buf, ?io))
      (c_bnd (dispatch_buffer_commands_cyg win version) (\<lambda>_. c_bnd (c_get cy_count) (\<lambda>m.
        c_ret (if \<not> x \<and> m = 0 then Finished_cyg else Top x)))) ?Q" for x
  proof (cases "x = (b \<and> is_open)")
    case True
    show ?thesis unfolding True by (rule c_ok_pre [OF c_ok_bnd [OF cyg_ok_dispatch e]]) simp
  next
    case False
    then show ?thesis unfolding c_ok_def by blast
  qed
  then show ?thesis unfolding main_body_cyg_def by (rule c_ok_bnd [OF r])
qed

lemma goes_ok:
  assumes "c_ok P m Q" and "P st" and "goes m st = (ph, st')"
  shows "(\<exists>msg. ph = Exited msg \<and> \<not> bad_exit msg) \<or> Q ph st'"
  using c_ok_at [OF assms(1,2), of Q] assms(3) by (auto simp: goes_def split: sum.splits prod.splits)

lemma c_ok_then: "c_ok P m (\<lambda>_. Q) \<Longrightarrow> c_ok P (c_bnd m (\<lambda>_. c_ret x)) (\<lambda>y st. y = x \<and> Q st)"
  by (rule c_ok_bnd) (auto intro: c_ok_ret)

text \<open>The phases.\<close>

definition cyg_inv :: "phase \<times> 'w cyg \<Rightarrow> bool" where
  "cyg_inv s \<longleftrightarrow> (case s of (ph, st) \<Rightarrow>
     (case ph of Exited msg \<Rightarrow> \<not> bad_exit msg | _ \<Rightarrow> \<exists>n. cyg_ok n st) \<and> (ph = Finished_cyg \<longrightarrow> cy_count st = 0))"

lemma cyg_ok_count: "cyg_ok n st \<Longrightarrow> n = int (length (cy_out st)) + cy_count st"
  by (simp add: cyg_ok_def trk_def)

text \<open>One step, with the count of what is answered.\<close>

lemma cyg_step_ok:
  assumes "cyg_step win version (ph, st) (ph', st')" and "cyg_inv (ph, st)"
  shows "cyg_inv (ph', st') \<and> ((\<forall>msg. ph' \<noteq> Exited msg) \<longrightarrow>
      int (length (cy_out st')) + cy_count st'
        = int (length (cy_out st)) + cy_count st + (if ph' = Finished_cyg \<or> (\<exists>b. ph' = Top b) then int (lines_answered (cy_incoming st)) else 0))"
  using assms(1)
proof (cases rule: cyg_step.cases)
  case (wait b)
  then obtain n where n: "cyg_ok n st" using assms(2) by (auto simp: cyg_inv_def)
  have "goes (c_bnd (start_read_command win) (\<lambda>_. c_ret (Asleep b))) st = (ph', st')" using wait by simp
  from goes_ok [OF c_ok_then [OF cyg_ok_start_read] n this] show ?thesis
    using cyg_ok_count [OF n] cyg_ok_count [of n st'] by (auto simp: cyg_inv_def)
next
  case (wait_failed b)
  then show ?thesis by (simp add: cyg_inv_def bad_exit_def)
next
  case (completion b e)
  then obtain n where n: "cyg_ok n st" using assms(2) by (auto simp: cyg_inv_def)
  have "goes (c_bnd (run_apc win e) (\<lambda>_. c_ret (Awake b))) st = (ph', st')" "apc_enabled e st" using completion by simp_all
  from goes_ok [OF c_ok_then [OF cyg_ok_apc] conjI [OF n this(2)] this(1)] show ?thesis
    using cyg_ok_count [OF n] cyg_ok_count [of n st'] by (auto simp: cyg_inv_def)
next
  case (turn b)
  then obtain n where n: "cyg_ok n st" using assms(2) by (auto simp: cyg_inv_def)
  have "goes (main_body_cyg win version b) st = (ph', st')" using turn by simp
  from goes_ok [OF cyg_ok_body conjI [OF n io_of_def] this] show ?thesis
    using cyg_ok_count [OF n] cyg_ok_count [of "n + int (lines_answered (cy_incoming st))" st']
    by (auto simp: cyg_inv_def split: if_splits)
qed

section \<open>Reachable states\<close>

lemma cyg_start_ok: "cyg_inv (cyg_start win w)"
proof -
  have "cyg_ok 0 \<lparr>cy_probes = [], cy_count = 0, cy_icmp4 = a, cy_icmp6 = b, cy_raw4 = False, cy_raw6 = False,
      cy_buffers = 0, cy_out = [], cy_incoming = [], cy_read_active = False, cy_pipe_open = True,
      cy_reading = None, cy_pending = [], cy_wakes = 0, cy_world = w1\<rparr>" for a b and w1 :: 'a
    by (simp add: cyg_ok_def trk_def io_of_def stream_ok_def)
  note ok = this
  show ?thesis
    by (auto simp: cyg_start_def goes_def init_net_state_cyg_def init_command_buffer_cyg_def c_bnd_def c_call_def c_exit_def c_upd_def
        c_ret_def cyg_inv_def bad_exit_def split: prod.splits intro!: exI ok)
qed

lemma cyg_reach_inv: "cyg_reach win version w s \<Longrightarrow> cyg_inv s"
proof (induction rule: cyg_reach.induct)
  case start
  show ?case by (rule cyg_start_ok)
next
  case (step s s')
  then show ?case using cyg_step_ok [of win version "fst s" "snd s" "fst s'" "snd s'"] by simp
qed

text \<open>C35: On Cygwin the completion routines are safe, in whatever order Windows runs them: in every
  reachable state the requests that Windows has are exactly the outstanding probes, one each, so
  \<open>on_icmp_reply\<close> never gets a probe that was freed; a read that completes never goes beyond the
  command buffer, although commands are taken out of it while the read is active; and the reply
  buffers that are allocated are those of the outstanding probes, none is lost.\<close>

theorem cygwin_safe:
  assumes "cyg_reach win version w (ph, st)"
  shows "ph \<noteq> Exited ''dangling probe'' \<and> ph \<noteq> Exited ''beyond the buffer''
    \<and> ((\<forall>msg. ph \<noteq> Exited msg) \<longrightarrow>
         distinct (cy_pending st) \<and> distinct (map fst (cy_probes st)) \<and> set (cy_pending st) = fst ` set (cy_probes st)
       \<and> cy_count st = int (length (cy_probes st)) \<and> cy_count st \<le> MAX_PROBES
       \<and> cy_buffers st = length (cy_probes st) \<and> length (cy_incoming st) < INCOMING_SIZE)"
proof -
  have inv: "cyg_inv (ph, st)" by (rule cyg_reach_inv [OF assms])
  have "\<exists>n. cyg_ok n st" if "\<forall>msg. ph \<noteq> Exited msg"
    using inv that by (cases ph) (auto simp: cyg_inv_def)
  then show ?thesis
    using inv by (cases ph) (auto simp: cyg_inv_def bad_exit_def cyg_ok_def trk_def stream_ok_def io_of_def)
qed

text \<open>C37: On Cygwin a command is answered once: a completion turns a probe into its line, and a turn of
  the loop makes a line or a probe of every complete line in the command buffer, and one more line
  when it reports that the buffer overflowed.\<close>

theorem cygwin_answers:
  assumes "cyg_reach win version w (ph, st)" and "cyg_step win version (ph, st) (ph', st')"
    and "\<forall>msg. ph' \<noteq> Exited msg"
  shows "int (length (cy_out st')) + cy_count st' = int (length (cy_out st)) + cy_count st
    + (if ph' = Finished_cyg \<or> (\<exists>b. ph' = Top b) then int (lines_answered (cy_incoming st)) else 0)"
  using cyg_step_ok [OF assms(2) cyg_reach_inv [OF assms(1)]] assms(3) by blast

section \<open>Waking up\<close>

text \<open>What the loop relies on: \<open>read_active\<close> is only left set when a read is active.\<close>

definition reads_ok :: "'w win \<Rightarrow> bool" where
  "reads_ok win \<longleftrightarrow> (\<forall>n w e w'. win_read_file win n w = ((False, e), w') \<longrightarrow> e \<noteq> WAIT_IO_COMPLETION)"

definition read_there :: "'w cyg \<Rightarrow> bool" where
  "read_there st \<longleftrightarrow> (cy_read_active st \<and> cy_pipe_open st \<longrightarrow> cy_reading st \<noteq> None)"

definition can_wake :: "'w cyg \<Rightarrow> bool" where
  "can_wake st \<longleftrightarrow> cy_reading st \<noteq> None \<or> 0 < cy_wakes st \<or> cy_pending st \<noteq> []"

definition wake_inv :: "phase \<times> 'w cyg \<Rightarrow> bool" where
  "wake_inv s \<longleftrightarrow> (case s of (ph, st) \<Rightarrow>
     (case ph of Top b \<Rightarrow> read_there st \<and> (b \<longrightarrow> cy_pipe_open st) \<and> (\<not> b \<longrightarrow> cy_count st \<noteq> 0)
      | Asleep b \<Rightarrow> read_there st \<and> can_wake st
      | Awake b \<Rightarrow> read_there st | _ \<Rightarrow> True))"

lemma can_wake_enabled: "can_wake st \<longleftrightarrow> (\<exists>e. apc_enabled e st)"
proof
  assume "can_wake st"
  then consider n where "cy_reading st = Some n" | "0 < cy_wakes st" | p where "p \<in> set (cy_pending st)"
    unfolding can_wake_def by (metis list.set_sel(1) not_None_eq)
  then show "\<exists>e. apc_enabled e st"
  proof cases
    case 1
    then have "apc_enabled (Read_done ERROR_BROKEN_PIPE []) st" by simp
    then show ?thesis by blast
  next
    case 2
    then have "apc_enabled Empty_apc st" by simp
    then show ?thesis by blast
  next
    case 3
    then have "apc_enabled (Icmp_done p r) st" for r by simp
    then show ?thesis by blast
  qed
next
  assume "\<exists>e. apc_enabled e st"
  then obtain e where "apc_enabled e st" by blast
  then show "can_wake st" by (cases e) (auto simp: can_wake_def split: option.splits)
qed

lemma start_read_wakes:
  assumes "reads_ok win" and "start_read_command win st = Inr ((), st')" and "read_there st"
    and "cy_pipe_open st \<or> cy_pending st \<noteq> []"
  shows "read_there st' \<and> can_wake st'"
proof (cases "\<not> cy_pipe_open st \<or> cy_read_active st")
  case True
  then show ?thesis
    using assms(2-4) by (auto simp: start_read_command_def c_bnd_def c_get_def c_ret_def read_there_def can_wake_def)
next
  case False
  obtain ok err w where r: "win_read_file win (int INCOMING_SIZE - int (length (cy_incoming st)) - 1) (cy_world st) = ((ok, err), w)"
    by (metis prod.collapse)
  have "err \<noteq> WAIT_IO_COMPLETION" if "\<not> ok" using assms(1) r that unfolding reads_ok_def by (cases ok) fastforce+
  then show ?thesis
    using assms(2) r False
    by (auto simp: start_read_command_def queue_empty_apc_def c_bnd_def c_get_def c_call_def c_upd_def c_exit_def
        read_there_def can_wake_def split: prod.splits if_splits)
qed

lemma read_there_apc:
  assumes "cyg_ok n st" and "apc_enabled e st" and "run_apc win e st = Inr ((), st')" and "read_there st"
  shows "read_there st'"
proof (cases e)
  case (Read_done status received)
  then show ?thesis
    using assms(3) by (auto simp: finish_read_command_def c_bnd_def c_get_def c_upd_def c_exit_def read_there_def split: if_splits)
next
  case (Icmp_done p r)
  have "c_ok (trk n {p} {} (io_of st)) (on_icmp_reply win p r) (\<lambda>_. trk n {} {} (io_of st))"
    using trk_icmp_reply [of p "{p}"] by simp
  moreover have "trk n {p} {} (io_of st) (st\<lparr>cy_pending := remove1 p (cy_pending st)\<rparr>)"
    using assms(1,2) Icmp_done by (auto simp: cyg_ok_def trk_def io_of_def)
  moreover have "on_icmp_reply win p r (st\<lparr>cy_pending := remove1 p (cy_pending st)\<rparr>) = Inr ((), st')"
    using assms(3) Icmp_done by (simp add: c_bnd_def c_upd_def)
  ultimately have "trk n {} {} (io_of st) st'" by (rule c_okD)
  then show ?thesis using trk_io assms(4) by (fastforce simp: read_there_def io_of_def)
next
  case Empty_apc
  then show ?thesis using assms(3,4) by (auto simp: c_upd_def read_there_def)
qed

lemma goes_Inr:
  assumes "goes (c_bnd m (\<lambda>_. c_ret x)) st = (ph, st')" and "\<forall>msg. ph \<noteq> Exited msg"
  shows "m st = Inr ((), st') \<and> ph = x"
  using assms by (auto simp: goes_def c_bnd_def c_ret_def and_then_Inr split: sum.splits prod.splits) 

lemma wake_step:
  assumes "cyg_step win version (ph, st) (ph', st')" and "cyg_inv (ph, st)" and "wake_inv (ph, st)" and "reads_ok win"
    and "\<forall>msg. ph' \<noteq> Exited msg"
  shows "wake_inv (ph', st')"
  using assms(1)
proof (cases rule: cyg_step.cases)
  case (wait b)
  then obtain n where n: "cyg_ok n st" using assms(2) by (auto simp: cyg_inv_def)
  have g: "start_read_command win st = Inr ((), st')" "ph' = Asleep b"
    using goes_Inr [of "start_read_command win" "Asleep b" st ph' st'] wait assms(5) by auto
  have "cy_pipe_open st \<or> cy_pending st \<noteq> []"
  proof (cases b)
    case False
    then have "cy_probes st \<noteq> []" using assms(3) wait n by (auto simp: wake_inv_def cyg_ok_def trk_def)
    then have "set (cy_pending st) \<noteq> {}" using n by (auto simp: cyg_ok_def trk_def)
    then show ?thesis by auto
  qed (use assms(3) wait in \<open>simp add: wake_inv_def\<close>)
  moreover have "read_there st" using assms(3) wait by (simp add: wake_inv_def)
  ultimately have "read_there st' \<and> can_wake st'" using start_read_wakes [OF assms(4) g(1)] by blast
  then show ?thesis unfolding g(2) wake_inv_def by simp
next
  case (wait_failed b)
  then show ?thesis using assms(5) by simp
next
  case (completion b e)
  then obtain n where n: "cyg_ok n st" using assms(2) by (auto simp: cyg_inv_def)
  have g: "run_apc win e st = Inr ((), st')" "ph' = Awake b"
    using goes_Inr [of "run_apc win e" "Awake b" st ph' st'] completion assms(5) by auto
  have "read_there st" using assms(3) completion by (auto simp: wake_inv_def)
  then have "read_there st'" using read_there_apc [OF n _ g(1)] completion by simp
  then show ?thesis unfolding g(2) wake_inv_def by simp
next
  case (turn b)
  then obtain n where n: "cyg_ok n st" using assms(2) by (auto simp: cyg_inv_def)
  have "goes (main_body_cyg win version b) st = (ph', st')" using turn by simp
  from goes_ok [OF cyg_ok_body conjI [OF n io_of_def] this] assms(5)
  have "io_of st' = (rest_of (cy_incoming st), cy_reading st, cy_read_active st, cy_pipe_open st, cy_wakes st)
      \<and> ph' = (if \<not> (b \<and> cy_pipe_open st) \<and> cy_count st' = 0 then Finished_cyg else Top (b \<and> cy_pipe_open st))"
    by blast
  then have eq: "cy_reading st' = cy_reading st" "cy_read_active st' = cy_read_active st" "cy_pipe_open st' = cy_pipe_open st"
    and ph: "ph' = (if \<not> (b \<and> cy_pipe_open st) \<and> cy_count st' = 0 then Finished_cyg else Top (b \<and> cy_pipe_open st))"
    by (simp_all add: io_of_def)
  have "read_there st'" using assms(3) turn by (simp add: wake_inv_def read_there_def eq)
  then show ?thesis unfolding ph wake_inv_def by (simp add: eq)
qed

text \<open>C36: On Cygwin the program never sleeps for ever: whenever it is asleep there is a completion that
  can wake it, the active read of the command stream, the call queued when the stream turned out to be
  closed, or the request of a probe. So it cannot hang between the close of the stream and the end
  of the last probe. The only assumption is that \<open>ReadFileEx\<close> does not fail with
  \<open>WAIT_IO_COMPLETION\<close>, which the code takes for a read that is active.\<close>

theorem cygwin_wakes:
  assumes "cyg_reach win version w (Asleep b, st)" and "reads_ok win"
  shows "\<exists>e. apc_enabled e st"
proof -
  have "(\<forall>msg. fst s \<noteq> Exited msg) \<longrightarrow> wake_inv s" if "cyg_reach win version w s" for s
    using that
  proof (induction rule: cyg_reach.induct)
    case start
    show ?case
      by (auto simp: cyg_start_def goes_def init_net_state_cyg_def init_command_buffer_cyg_def c_bnd_def c_call_def c_exit_def
          c_upd_def c_ret_def wake_inv_def read_there_def split: prod.splits)
  next
    case (step s s')
    have "\<forall>msg. fst s \<noteq> Exited msg" using step(2) by (cases rule: cyg_step.cases) auto
    then show ?case
      using wake_step [of win version "fst s" "snd s" "fst s'" "snd s'"] step cyg_reach_inv [OF step(1)] assms(2) by auto
  qed
  from this [OF assms(1)] have "can_wake st" by (simp add: wake_inv_def)
  then show ?thesis by (simp add: can_wake_enabled)
qed

text \<open>On Cygwin a request for a packet that does not fit ends the program: the probe is allocated, the
  payload does not fit into its buffer, and \<open>send_probe\<close> exits without an answer, to this command and
  to every other probe that is outstanding.\<close>

theorem cygwin_big_packet_exits:
  assumes "resolve_probe_addresses_cyg win param st = Inr (Some (dest_sockaddr, src_sockaddr), st1)"
    and "cy_count st1 < MAX_PROBES" and "fst (win_malloc win (cy_world st1))"
    and "PACKET_BUFFER_SIZE + 48 < pp_packet_size param"
  shows "\<exists>st'. send_probe_cyg win param st = Inl (''Error construction packet'', st')
    \<and> cy_out st' = cy_out st1 \<and> cy_count st' = cy_count st1 + 1"
proof -
  obtain w where m: "win_malloc win (cy_world st1) = (True, w)" using assms(3) by (metis prod.collapse)
  have f: "fill_payload param PACKET_BUFFER_SIZE = None" using assms(4) by (simp add: fill_payload_def Let_def)
  show ?thesis
    using assms(1,2) m
    by (simp add: send_probe_cyg_def f c_bnd_def alloc_probe_cyg_def c_get_def c_call_def c_upd_def c_ret_def c_exit_def cyg_upd_probe_def)
qed

section \<open>A run\<close>

definition sample_win :: "unit win" where
  "sample_win = \<lparr>win_inet = sample_inet, win_pid = 77, win_uninit = zero_sockaddr, win_reply4 = 28, win_reply6 = 36,
     win_create4 = (\<lambda>w. (True, w)), win_create6 = (\<lambda>w. (False, w)), win_malloc = (\<lambda>w. (True, w)),
     win_socket = (\<lambda>_ w. (Some 3, w)), win_connect = (\<lambda>_ _ w. (True, w)),
     win_getsockname = (\<lambda>_ w. (Some \<lparr>ss_family = AF_INET, sin_port = 5, sin_addr = [10, 0, 0, 1]\<rparr>, w)), win_close = (\<lambda>_ w. w),
     win_send_echo = (\<lambda>_ w. ((0, ERROR_IO_PENDING), w)), win_read_file = (\<lambda>_ w. ((True, 0), w)),
     win_queue_apc = (\<lambda>w. (True, w))\<rparr>"

text \<open>The program asks for a read, gets two commands, and dispatches them.\<close>

definition sample_second :: string where
  "sample_second = ''6 fly'' @ [NL]"

definition sample_probe :: string where
  "sample_probe = ''5 send-probe ip-4 AKAAAAAC'' @ [NL] @ sample_second"

lemmas cyg_procs = c_bnd_def c_ret_def c_get_def c_upd_def c_call_def c_exit_def c_print_def goes_def

definition cyg_idle :: "unit cyg" where
  "cyg_idle = \<lparr>cy_probes = [], cy_count = 0, cy_icmp4 = True, cy_icmp6 = False, cy_raw4 = False, cy_raw6 = False,
      cy_buffers = 0, cy_out = [], cy_incoming = [], cy_read_active = True, cy_pipe_open = True,
      cy_reading = Some 4095, cy_pending = [], cy_wakes = 0, cy_world = ()\<rparr>"

definition cyg_fed :: "unit cyg" where
  "cyg_fed = cyg_idle\<lparr>cy_incoming := sample_probe, cy_reading := None, cy_read_active := False\<rparr>"

definition cyg_probing :: "unit cyg" where
  "cyg_probing = cyg_fed\<lparr>cy_incoming := [], cy_out := [''6 unknown-command''], cy_count := 1, cy_buffers := 1,
      cy_probes := [(1, \<lparr>cp_token = 5, cp_ip_version = 4, cp_reply = True\<rparr>)], cy_pending := [1]\<rparr>"

lemma sample_parse:
  "parse_command ''5 send-probe ip-4 AKAAAAAC'' = Inr \<lparr>token = 5, command_name = ''send-probe'', argument_count = 1,
     argument_name = [''ip-4''], argument_value = [''AKAAAAAC'']\<rparr>"
  "parse_command ''6 fly'' = Inr \<lparr>token = 6, command_name = ''fly'', argument_count = 0, argument_name = [], argument_value = []\<rparr>"
  by code_simp+

lemma sample_address: "inet_pton sample_inet AF_INET ''AKAAAAAC'' = Some [10, 0, 0, 2]"
  by code_simp

lemma sample_lines: "split_nl sample_probe = Some (''5 send-probe ip-4 AKAAAAAC'', sample_second)" "split_nl sample_second = Some (''6 fly'', [])"
  "lines_answered sample_probe = 2"
  by code_simp+

lemma sample_texts: "fmt_d 6 @ '' unknown-command'' = ''6 unknown-command''"
  by code_simp

lemma sample_dispatch:
  "dispatch_loop_cyg sample_win ''1'' sample_probe cyg_fed = Inr ([], cyg_probing\<lparr>cy_incoming := sample_probe\<rparr>)"
  by (simp add: dispatch_loop_cyg.simps [of _ _ sample_probe] dispatch_loop_cyg.simps [of _ _ sample_second]
      dispatch_loop_cyg.simps [of _ _ "[]"] sample_lines dispatch_line_cyg_def sample_parse dispatch_command_cyg_def send_probe_command_cyg_def
      decode_probe_argument_def default_param_def validate_probe_parameters_cyg_def ip_version_supported_cyg_def
      protocol_supported_cyg_def send_probe_cyg_def resolve_probe_addresses_cyg_def decode_address_cyg_def family_of_def
      find_source_addr_cyg_def sample_win_def sample_address alloc_probe_cyg_def cyg_fresh_def cyg_upd_probe_def
      fill_payload_def icmp_send_probe_def Let_def sample_texts cyg_fed_def cyg_idle_def cyg_probing_def cyg_procs)

lemma sample_reach:
  "cyg_reach sample_win ''1'' () (Asleep True, cyg_idle)"
  "cyg_reach sample_win ''1'' () (Awake True, cyg_fed)"
  "cyg_step sample_win ''1'' (Awake True, cyg_fed) (Top True, cyg_probing)"
  "cyg_reach sample_win ''1'' () (Top True, cyg_probing)"
proof -
  let ?st = "cyg_idle\<lparr>cy_reading := None, cy_read_active := False\<rparr>"
  have s: "cyg_start sample_win () = (Top True, ?st)"
    by (simp add: cyg_start_def init_net_state_cyg_def init_command_buffer_cyg_def sample_win_def cyg_idle_def cyg_procs)
  have "goes (c_bnd (start_read_command sample_win) (\<lambda>_. c_ret (Asleep True))) ?st = (Asleep True, cyg_idle)"
    by (simp add: start_read_command_def sample_win_def cyg_idle_def cyg_procs)
  then have "cyg_step sample_win ''1'' (Top True, ?st) (Asleep True, cyg_idle)"
    using cyg_step.wait [of sample_win "''1''" True ?st] by simp
  then show a: "cyg_reach sample_win ''1'' () (Asleep True, cyg_idle)"
    using cyg_reach.start [of sample_win "''1''" "()"] unfolding s by (rule cyg_reach.step [rotated])
  have "goes (c_bnd (run_apc sample_win (Read_done 0 sample_probe)) (\<lambda>_. c_ret (Awake True))) cyg_idle = (Awake True, cyg_fed)"
    by (simp add: finish_read_command_def cyg_idle_def cyg_fed_def cyg_procs sample_probe_def sample_second_def)
  moreover have "apc_enabled (Read_done 0 sample_probe) cyg_idle" by (simp add: cyg_idle_def sample_probe_def sample_second_def)
  ultimately have "cyg_step sample_win ''1'' (Asleep True, cyg_idle) (Awake True, cyg_fed)"
    using cyg_step.completion [of "Asleep True" True "Read_done 0 sample_probe" cyg_idle sample_win "''1''"] by simp
  then show b: "cyg_reach sample_win ''1'' () (Awake True, cyg_fed)" using a by (rule cyg_reach.step [rotated])
  have "goes (main_body_cyg sample_win ''1'' True) cyg_fed = (Top True, cyg_probing)"
  proof -
    have f: "cy_incoming cyg_fed = sample_probe" "cy_pipe_open cyg_fed" by (simp_all add: cyg_fed_def cyg_idle_def)
    show ?thesis
      using f by (simp add: main_body_cyg_def read_commands_cyg_def dispatch_buffer_commands_cyg_def sample_dispatch cyg_procs)
        (simp add: cyg_probing_def)
  qed
  then show c: "cyg_step sample_win ''1'' (Awake True, cyg_fed) (Top True, cyg_probing)"
    using cyg_step.turn [of sample_win "''1''" True cyg_fed] by simp
  show "cyg_reach sample_win ''1'' () (Top True, cyg_probing)" by (rule cyg_reach.step [OF b c])
qed

theorem cygwin_safe_witness:
  "set (cy_pending cyg_probing) = fst ` set (cy_probes cyg_probing) \<and> cy_pending cyg_probing = [1] \<and> cy_buffers cyg_probing = 1"
  using cygwin_safe [OF sample_reach(4)] by (simp add: cyg_probing_def)

theorem cygwin_answers_witness:
  "int (length (cy_out cyg_probing)) + cy_count cyg_probing = int (length (cy_out cyg_fed)) + cy_count cyg_fed + 2"
  using cygwin_answers [OF sample_reach(2,3)] sample_lines(3) by (simp add: cyg_fed_def ex_bool_eq)

theorem cygwin_wakes_witness: "\<exists>e. apc_enabled e cyg_idle"
  by (rule cygwin_wakes [OF sample_reach(1)]) (simp add: reads_ok_def sample_win_def)

definition big_param :: probe_param_t where
  "big_param = (default_param 9)\<lparr>pp_ip_version := 4, pp_remote_address := Some ''AKAAAAAC'', pp_packet_size := 9100\<rparr>"

theorem cygwin_big_packet_exits_witness:
  "\<exists>st'. send_probe_cyg sample_win big_param cyg_probing = Inl (''Error construction packet'', st') \<and> cy_count st' = 2"
proof -
  obtain d s where r: "resolve_probe_addresses_cyg sample_win big_param cyg_probing = Inr (Some (d, s), cyg_probing)"
    by (simp add: resolve_probe_addresses_cyg_def decode_address_cyg_def family_of_def find_source_addr_cyg_def sample_win_def
        sample_address big_param_def default_param_def cyg_procs)
  have "cy_count cyg_probing = 1" by (simp add: cyg_probing_def)
  then show ?thesis
    using cygwin_big_packet_exits [OF r] by (auto simp: sample_win_def big_param_def)
qed

end
