(* ===== verification/Processes.thy ===== *)
theory Processes
  imports CmdPipe
begin

text \<open>
  The processes that \<open>mtr\<close> starts: \<open>open_command_pipe\<close> and \<open>close_command_pipe\<close> of \<open>ui/cmdpipe.c\<close>,
  \<open>dns_open\<close> of \<open>ui/dns.c\<close>, and how \<open>main\<close> of \<open>ui/mtr.c\<close> uses them for its targets. The state is the
  table of file descriptors of the process, as POSIX has it (a new descriptor is the lowest that is
  free, and there is a limit), and the children that were not waited for. \<open>fork\<close>, \<open>fcntl\<close>, \<open>exec\<close> and
  what \<open>mtr-packet\<close> says on its pipes are parameters.
\<close>

section \<open>Descriptors\<close>

text \<open>Which descriptors are open; the length of the table is the limit.\<close>

type_synonym fd_table = "bool list"

abbreviation (input) EMFILE :: errno where "EMFILE \<equiv> EOTHER 24"

fun alloc_fd :: "fd_table \<Rightarrow> (nat \<times> fd_table) option" where
  "alloc_fd [] = None"
| "alloc_fd (False # t) = Some (0, True # t)"
| "alloc_fd (True # t) = map_option (\<lambda>(n, t). (Suc n, True # t)) (alloc_fd t)"

definition sys_pipe :: "fd_table \<Rightarrow> (errno + nat \<times> nat) \<times> fd_table" where
  "sys_pipe t =
     (case alloc_fd t of
        None \<Rightarrow> (Inl EMFILE, t)
      | Some (r, t1) \<Rightarrow> (case alloc_fd t1 of None \<Rightarrow> (Inl EMFILE, t) | Some (w, t2) \<Rightarrow> (Inr (r, w), t2)))"

definition sys_close_fd :: "nat \<Rightarrow> fd_table \<Rightarrow> fd_table" where
  "sys_close_fd n t = t[n := False]"

section \<open>Starting mtr-packet\<close>

text \<open>The child processes that were not waited for, and what each child that was ever started had open
  when its program began.\<close>

record 'w procs =
  ps_fds :: fd_table
  ps_nonblock :: "nat list"
  ps_children :: "int list"
  ps_started :: "(int \<times> fd_table) list"
  ps_world :: 'w

record 'w proc_env =
  pe_fork :: "'w \<Rightarrow> (errno + int) \<times> 'w"
  pe_getfl :: "nat \<Rightarrow> 'w \<Rightarrow> bool \<times> 'w"
  pe_setfl :: "nat \<Rightarrow> 'w \<Rightarrow> bool \<times> 'w"
  pe_pipe :: "nat \<Rightarrow> nat \<Rightarrow> 'w pipe_env"

record command_pipe =
  cpi_pid :: int
  cpi_read :: nat
  cpi_write :: nat

definition set_fd_nonblock :: "'w proc_env \<Rightarrow> nat \<Rightarrow> 'w procs \<Rightarrow> ui_exit + 'w procs" where
  "set_fd_nonblock env fd st =
     (case pe_getfl env fd (ps_world st) of
        (False, w) \<Rightarrow> Inl ''F_GETFL failure''
      | (True, w) \<Rightarrow>
          (case pe_setfl env fd w of
             (False, w) \<Rightarrow> Inl ''Failure to set O_NONBLOCK''
           | (True, w) \<Rightarrow> Inr (st\<lparr>ps_world := w, ps_nonblock := fd # ps_nonblock st\<rparr>)))"

text \<open>What the child has open when it executes \<open>mtr-packet\<close>, from what it inherits.\<close>

definition packet_child_fds :: "nat \<Rightarrow> fd_table \<Rightarrow> fd_table" where
  "packet_child_fds stdout_write t = fold sys_close_fd [3..<Suc stdout_write] (t[0 := True, 1 := True])"

text \<open>The program that the child becomes. \<open>execlp\<close> looks a name up in the path, \<open>execl\<close> does not. A name
  of the program of 240 characters is copied without its end, and the end is then looked for
  in uninitialised memory.\<close>

datatype exec_end = Runs string | Exits int | Overreads

definition execute_packet_child ::
  "(string \<Rightarrow> bool) \<Rightarrow> (string \<Rightarrow> bool) \<Rightarrow> string option \<Rightarrow> string \<Rightarrow> exec_end" where
  "execute_packet_child execlp execl mtr_packet_env myname =
     (let mtr_packet_path = (case mtr_packet_env of None \<Rightarrow> ''mtr-packet'' | Some p \<Rightarrow> p)
      in if execlp mtr_packet_path then Runs mtr_packet_path
         else if 240 \<le> length myname then Overreads
         else if execl (myname @ ''-packet'') then Runs (myname @ ''-packet'')
         else if execl ''./mtr-packet'' then Runs ''./mtr-packet''
         else Exits 1)"

text \<open>The parent. An error number is the left value; what was opened before it stays open.\<close>

definition open_command_pipe ::
  "'w proc_env \<Rightarrow> mtr_ctl \<Rightarrow> 'w procs \<Rightarrow> ui_exit + (errno + command_pipe) \<times> 'w procs" where
  "open_command_pipe env ctl st =
     (case sys_pipe (ps_fds st) of
        (Inl e, t) \<Rightarrow> Inr (Inl e, st\<lparr>ps_fds := t\<rparr>)
      | (Inr (stdin_read, stdin_write), t) \<Rightarrow>
     (case sys_pipe t of
        (Inl e, t) \<Rightarrow> Inr (Inl e, st\<lparr>ps_fds := t\<rparr>)
      | (Inr (stdout_read, stdout_write), t) \<Rightarrow>
     (case pe_fork env (ps_world st) of
        (Inl e, w) \<Rightarrow> Inr (Inl e, st\<lparr>ps_fds := t, ps_world := w\<rparr>)
      | (Inr child_pid, w) \<Rightarrow>
          (let child_fds = t;
               t = sys_close_fd stdin_read (sys_close_fd stdout_write t);
               p = \<lparr>cpi_pid = child_pid, cpi_read = stdout_read, cpi_write = stdin_write\<rparr>
           in case open_checks (pe_pipe env stdout_read stdin_write) ctl w of
                (Inl msg, w) \<Rightarrow> Inl msg
              | (Inr _, w) \<Rightarrow>
                  and_then (set_fd_nonblock env stdout_read
                      (st\<lparr>ps_fds := t, ps_world := w, ps_children := child_pid # ps_children st,
                        ps_started := (child_pid, packet_child_fds stdout_write child_fds) # ps_started st\<rparr>))
                    (\<lambda>st. Inr (Inr p, st))))))"

definition close_command_pipe :: "command_pipe \<Rightarrow> 'w procs \<Rightarrow> command_pipe \<times> 'w procs" where
  "close_command_pipe p st =
     (\<lparr>cpi_pid = 0, cpi_read = 0, cpi_write = 0\<rparr>,
      if cpi_pid p = 0 then st
      else st\<lparr>ps_fds := sys_close_fd (cpi_write p) (sys_close_fd (cpi_read p) (ps_fds st)),
              ps_children := remove1 (cpi_pid p) (ps_children st)\<rparr>)"

section \<open>Starting the resolver\<close>

definition dns_child_fds :: "nat \<Rightarrow> nat \<Rightarrow> fd_table \<Rightarrow> fd_table" where
  "dns_child_fds todns_read fromdns_write t =
     fold sys_close_fd (filter (\<lambda>i. i \<noteq> todns_read \<and> i \<noteq> fromdns_write) [3..<fromdns_write]) t"

text \<open>The write end to the resolver and the read end from it. The results of \<open>fcntl\<close> are not
  looked at.\<close>

definition dns_open :: "'w proc_env \<Rightarrow> 'w procs \<Rightarrow> ui_exit + (nat \<times> nat) \<times> 'w procs" where
  "dns_open env st =
     (case sys_pipe (ps_fds st) of
        (Inl e, t) \<Rightarrow> Inl ''can't make a pipe for DNS process''
      | (Inr (todns_read, todns_write), t) \<Rightarrow>
     (case sys_pipe t of
        (Inl e, t) \<Rightarrow> Inl ''can't make a pipe for DNS process''
      | (Inr (fromdns_read, fromdns_write), t) \<Rightarrow>
     (case pe_fork env (ps_world st) of
        (Inl e, w) \<Rightarrow> Inl ''can't fork for DNS process''
      | (Inr pid, w) \<Rightarrow>
          (let child_fds = t;
               t = sys_close_fd fromdns_write (sys_close_fd todns_read t);
               w = snd (pe_setfl env fromdns_read (snd (pe_getfl env fromdns_read w)))
           in Inr ((todns_write, fromdns_read),
                st\<lparr>ps_fds := t, ps_world := w, ps_children := pid # ps_children st,
                   ps_started := (pid, dns_child_fds todns_read fromdns_write child_fds) # ps_started st,
                   ps_nonblock := fromdns_read # ps_nonblock st\<rparr>)))))"

section \<open>The targets\<close>

text \<open>The targets whose names were found. \<open>packet_command_pipe\<close> is a global variable that every target
  overwrites; it is closed once, at the end of \<open>main\<close>. A target whose processes cannot be started is
  passed over, when the program is not interactive; an interactive program shows one target.\<close>

fun open_targets :: "'w proc_env \<Rightarrow> mtr_ctl list \<Rightarrow> command_pipe \<times> 'w procs \<Rightarrow> ui_exit + command_pipe \<times> 'w procs" where
  "open_targets env [] ps = Inr ps"
| "open_targets env (ctl # ctls) (p, st) =
     and_then (open_command_pipe env ctl st) (\<lambda>(r, st).
       case r of
         Inl e \<Rightarrow> if Interactive ctl then Inl ''EXIT_FAILURE'' else open_targets env ctls (p, st)
       | Inr p \<Rightarrow> and_then (dns_open env st) (\<lambda>(_, st).
           if Interactive ctl then Inr (p, st) else open_targets env ctls (p, st)))"

definition net_close :: "command_pipe \<times> 'w procs \<Rightarrow> command_pipe \<times> 'w procs" where
  "net_close = (\<lambda>(p, st). close_command_pipe p st)"

end
