(* ===== verification/ProcessProps.thy ===== *)
theory ProcessProps
  imports Processes NetProps
begin

text \<open>
  Properties of the processes of \<open>mtr\<close>: what its children inherit, and what is left open between the
  targets.
\<close>

section \<open>The table of descriptors\<close>

definition is_open :: "fd_table \<Rightarrow> nat \<Rightarrow> bool" where
  "is_open t n \<longleftrightarrow> n < length t \<and> t ! n"

definition free_fds :: "fd_table \<Rightarrow> nat" where
  "free_fds t = length (filter Not t)"

lemma alloc_fdE:
  assumes "alloc_fd t = Some (n, t')"
  shows "n < length t \<and> \<not> t ! n \<and> t' = t[n := True] \<and> (\<forall>i < n. t ! i)"
  using assms
proof (induction t arbitrary: n t' rule: alloc_fd.induct)
  case (3 t)
  then obtain m u where "alloc_fd t = Some (m, u)" "n = Suc m" "t' = True # u" by auto
  with "3.IH" show ?case by (auto simp: less_Suc_eq_0_disj)
qed auto

lemma free_update: "n < length t \<Longrightarrow> free_fds (t[n := b]) + of_bool (\<not> t ! n) = free_fds t + of_bool (\<not> b)"
proof (induction t arbitrary: n)
  case (Cons a t)
  then show ?case by (cases n) (force simp: free_fds_def)+
qed simp

lemma sys_pipeE:
  assumes "sys_pipe t = (Inr (r, w), t')"
  shows "r < w \<and> w < length t \<and> \<not> t ! r \<and> \<not> t ! w \<and> t' = t[r := True, w := True] \<and> (\<forall>i < w. t' ! i)"
proof -
  obtain t1 where a: "alloc_fd t = Some (r, t1)" "alloc_fd t1 = Some (w, t')"
    using assms by (auto simp: sys_pipe_def split: option.splits)
  note r = alloc_fdE [OF a(1)] and w = alloc_fdE [OF a(2)]
  have "r \<noteq> w" using r w by auto
  moreover have "\<not> w < r" using r w by (auto simp: nth_list_update)
  ultimately show ?thesis using r w by (auto simp: nth_list_update split: if_splits)
qed

lemma sys_pipe_error: "sys_pipe t = (Inl e, t') \<Longrightarrow> t' = t"
  by (auto simp: sys_pipe_def split: option.splits)

lemma pipe_free: "sys_pipe t = (Inr (r, w), t') \<Longrightarrow> free_fds t' + 2 = free_fds t"
  using sys_pipeE [of t r w t'] free_update [of r t True] free_update [of w "t[r := True]" True] by auto

lemma pipe_free_le: "sys_pipe t = (res, t') \<Longrightarrow> free_fds t' \<le> free_fds t \<and> free_fds t \<le> free_fds t' + 2"
  using pipe_free [of t "fst (projr res)" "snd (projr res)" t'] sys_pipe_error [of t "projl res" t']
  by (cases res) auto

lemma pipes_free_le:
  "sys_pipe t = (a, t1) \<Longrightarrow> sys_pipe t1 = (b, t2) \<Longrightarrow> free_fds t2 \<le> free_fds t \<and> free_fds t \<le> free_fds t2 + 4"
  using pipe_free_le [of t a t1] pipe_free_le [of t1 b t2] by simp

lemma is_open_close: "is_open (sys_close_fd i t) n \<longleftrightarrow> is_open t n \<and> n \<noteq> i"
  by (cases "n = i") (auto simp: is_open_def sys_close_fd_def nth_list_update)

lemma close_open: "is_open t n \<Longrightarrow> free_fds (sys_close_fd n t) = Suc (free_fds t)"
  using free_update [of n t False] by (simp add: is_open_def sys_close_fd_def)

lemma close_free: "free_fds t \<le> free_fds (sys_close_fd n t)" "free_fds (sys_close_fd n t) \<le> Suc (free_fds t)"
proof -
  have "free_fds t \<le> free_fds (sys_close_fd n t) \<and> free_fds (sys_close_fd n t) \<le> Suc (free_fds t)"
    using free_update [of n t False]
    by (cases "n < length t") (cases "t ! n"; simp add: sys_close_fd_def list_update_beyond)+
  then show "free_fds t \<le> free_fds (sys_close_fd n t)" "free_fds (sys_close_fd n t) \<le> Suc (free_fds t)" by simp_all
qed

text \<open>The two pipes of a process, of which the parent closes two ends.\<close>

lemma two_pipes:
  assumes "sys_pipe t = (Inr (r, w), t1)" "sys_pipe t1 = (Inr (r', w'), t2)"
  shows "r < w \<and> w < r' \<and> r' < w' \<and> w' < length t" "length t2 = length t"
    "is_open t2 n \<longleftrightarrow> is_open t n \<or> n \<in> {r, w, r', w'}" "n < w' \<Longrightarrow> is_open t2 n"
proof -
  note p = sys_pipeE [OF assms(1)] and q = sys_pipeE [OF assms(2)]
  have "w < r'"
  proof (rule ccontr)
    assume "\<not> w < r'"
    then have "t1 ! r'" using p by (cases "r' = w") auto
    with q show False by simp
  qed
  then show "r < w \<and> w < r' \<and> r' < w' \<and> w' < length t" "length t2 = length t" using p q by auto
  show "is_open t2 n \<longleftrightarrow> is_open t n \<or> n \<in> {r, w, r', w'}"
    using p q by (auto simp: is_open_def nth_list_update)
  show "n < w' \<Longrightarrow> is_open t2 n" using p q by (auto simp: is_open_def)
qed

lemma pipes_free:
  assumes "sys_pipe t = (Inr (r, w), t1)" "sys_pipe t1 = (Inr (r', w'), t2)"
  shows "free_fds (sys_close_fd r (sys_close_fd w' t2)) + 2 = free_fds t"
    "free_fds (sys_close_fd w' (sys_close_fd r t2)) + 2 = free_fds t"
proof -
  have "is_open t2 r" "is_open t2 w'" "r \<noteq> w'" using two_pipes [OF assms] by auto
  with pipe_free [OF assms(1)] pipe_free [OF assms(2)]
  show "free_fds (sys_close_fd r (sys_close_fd w' t2)) + 2 = free_fds t"
    "free_fds (sys_close_fd w' (sys_close_fd r t2)) + 2 = free_fds t"
    by (simp_all add: close_open is_open_close)
qed

section \<open>What children inherit\<close>


lemma set_fd_nonblockE:
  "set_fd_nonblock env fd st = Inr st' \<Longrightarrow> ps_fds st' = ps_fds st \<and> ps_children st' = ps_children st \<and> ps_started st' = ps_started st"
  by (auto simp: set_fd_nonblock_def split: prod.splits bool.splits)






section \<open>The targets\<close>

lemma open_command_pipe_cost:
  assumes "open_command_pipe env ctl st = Inr (res, st')"
  shows "length (ps_children st') = length (ps_children st) + of_bool (\<not> isl res)"
    "free_fds (ps_fds st') + 2 * of_bool (\<not> isl res) \<le> free_fds (ps_fds st)"
    "free_fds (ps_fds st) \<le> free_fds (ps_fds st') + (if isl res then 4 else 2)"
proof -
  show "length (ps_children st') = length (ps_children st) + of_bool (\<not> isl res)"
    using assms by (auto simp: open_command_pipe_def Let_def and_then_Inr dest!: set_fd_nonblockE
        split: prod.splits sum.splits)
  have "free_fds (ps_fds st') + 2 * of_bool (\<not> isl res) \<le> free_fds (ps_fds st)
    \<and> free_fds (ps_fds st) \<le> free_fds (ps_fds st') + (if isl res then 4 else 2)"
    using assms by (auto simp: open_command_pipe_def Let_def and_then_Inr
        dest!: set_fd_nonblockE dest: pipe_free_le pipes_free_le pipes_free(1) split: prod.splits sum.splits)
  then show "free_fds (ps_fds st') + 2 * of_bool (\<not> isl res) \<le> free_fds (ps_fds st)"
    "free_fds (ps_fds st) \<le> free_fds (ps_fds st') + (if isl res then 4 else 2)" by simp_all
qed

lemma dns_open_cost:
  assumes "dns_open env st = Inr (fds, st')"
  shows "length (ps_children st') = length (ps_children st) + 1" "free_fds (ps_fds st') + 2 = free_fds (ps_fds st)"
  using assms by (auto simp: dns_open_def Let_def dest: pipes_free(2) split: prod.splits sum.splits)

lemma open_targets_cost:
  assumes "open_targets env ctls (p, st) = Inr (p', st')"
  shows "\<exists>k \<le> length ctls. length (ps_children st') = length (ps_children st) + 2 * k
    \<and> free_fds (ps_fds st') + 4 * k \<le> free_fds (ps_fds st)
    \<and> free_fds (ps_fds st) \<le> free_fds (ps_fds st') + 4 * length ctls"
  using assms
proof (induction ctls arbitrary: p st)
  case (Cons ctl ctls)
  obtain res s1 where o: "open_command_pipe env ctl st = Inr (res, s1)"
    using Cons.prems by (auto simp: and_then_Inr)
  note c = open_command_pipe_cost [OF o]
  show ?case
  proof (cases res)
    case (Inl e)
    then have "open_targets env ctls (p, s1) = Inr (p', st')"
      using Cons.prems o by (auto split: if_splits)
    from Cons.IH [OF this] c Inl show ?thesis by force
  next
    case (Inr q)
    then obtain fds s2 where d: "dns_open env s1 = Inr (fds, s2)"
      and rest: "if Interactive ctl then (q, s2) = (p', st') else open_targets env ctls (q, s2) = Inr (p', st')"
      using Cons.prems o by (auto simp: and_then_Inr split: if_splits)
    note e = dns_open_cost [OF d]
    have "\<exists>k \<le> length ctls. length (ps_children st') = length (ps_children s2) + 2 * k
      \<and> free_fds (ps_fds st') + 4 * k \<le> free_fds (ps_fds s2)
      \<and> free_fds (ps_fds s2) \<le> free_fds (ps_fds st') + 4 * length ctls"
      using rest Cons.IH [of q s2] by (cases "Interactive ctl") auto
    then obtain k where "k \<le> length ctls" "length (ps_children st') = length (ps_children s2) + 2 * k"
      "free_fds (ps_fds st') + 4 * k \<le> free_fds (ps_fds s2)"
      "free_fds (ps_fds s2) \<le> free_fds (ps_fds st') + 4 * length ctls" by blast
    with c e Inr show ?thesis by (intro exI [of _ "Suc k"]) auto
  qed
qed simp

lemma net_close_gain:
  assumes "net_close (p, st) = (p', st')"
  shows "length (ps_children st) \<le> Suc (length (ps_children st'))" "free_fds (ps_fds st') \<le> free_fds (ps_fds st) + 2"
    "free_fds (ps_fds st) \<le> free_fds (ps_fds st')"
  using assms close_free [where n = "cpi_read p" and t = "ps_fds st"]
    close_free [where n = "cpi_write p" and t = "sys_close_fd (cpi_read p) (ps_fds st)"]
  by (auto simp: net_close_def close_command_pipe_def length_remove1 split: if_splits)

text \<open>C29: What the targets cost. Every target that is started adds two processes and takes four descriptors,
  and \<open>net_close\<close> at the end gives back one process and two descriptors: so the free descriptors, divided by
  four, bound the number of targets that can be started, and no target takes more than four, also when
  it fails.\<close>

theorem targets_leak:
  assumes "open_targets env ctls (p, st) = Inr ps" "net_close ps = (p', st')"
  shows "\<exists>k \<le> length ctls. length (ps_children (snd ps)) = length (ps_children st) + 2 * k
    \<and> k \<le> free_fds (ps_fds st) div 4
    \<and> length (ps_children st) + 2 * k \<le> length (ps_children st') + 1
    \<and> free_fds (ps_fds st') + 4 * k \<le> free_fds (ps_fds st) + 2
    \<and> free_fds (ps_fds st) \<le> free_fds (ps_fds st') + 4 * length ctls"
proof -
  obtain q s where ps: "ps = (q, s)" by force
  obtain k where k: "k \<le> length ctls" "length (ps_children s) = length (ps_children st) + 2 * k"
    "free_fds (ps_fds s) + 4 * k \<le> free_fds (ps_fds st)"
    "free_fds (ps_fds st) \<le> free_fds (ps_fds s) + 4 * length ctls"
    using open_targets_cost assms(1) unfolding ps by blast
  note g = net_close_gain [OF assms(2) [unfolded ps]]
  show ?thesis
    using k g unfolding ps by (intro exI [of _ k]) auto
qed

text \<open>Fourteen descriptors of which three are in use: the second target is started, the third is not.\<close>

definition trial_env :: "int proc_env" where
  "trial_env = \<lparr>pe_fork = (\<lambda>n. (Inr n, n + 1)), pe_getfl = (\<lambda>_ n. (True, n)), pe_setfl = (\<lambda>_ n. (True, n)),
     pe_pipe = (\<lambda>_ _. \<lparr>pipe_write = (\<lambda>cmd n. (Inr (int (length cmd)), n)),
       pipe_read = (\<lambda>_ n. (Inr (''1 feature-support support ok'' @ [NL]), n))\<rparr>)\<rparr>"

definition trial_start :: "int procs" where
  "trial_start = \<lparr>ps_fds = replicate 3 True @ replicate 11 False, ps_nonblock = [], ps_children = [], ps_started = [], ps_world = 100\<rparr>"

lemma trial_checks: "open_checks (pe_pipe trial_env r w) (test_ctl\<lparr>Interactive := False\<rparr>) n = (Inr (), n)"
proof -
  have "parse_command (''1 feature-support support ok'' @ [NL]) = Inr \<lparr>token = 1, command_name = ''feature-support'', argument_count = 1, argument_name = [''support''], argument_value = [''ok'']\<rparr>"
    by code_simp
  moreover have "cstr (''1 feature-support support ok'' @ [NL]) = ''1 feature-support support ok'' @ [NL]" by code_simp
  ultimately have "check_feature (pe_pipe trial_env r w) feature n = (None, n)" for feature n
    by (simp add: check_feature_def send_synchronous_command_def trial_env_def)
  then show ?thesis
    by (simp add: open_checks_def check_packet_features_def test_ctl_def default_ctl_def protocol_name_def)
qed


lemma trial_env_simps: "pe_fork trial_env n = (Inr n, n + 1)" "pe_getfl trial_env fd n = (True, n)"
  "pe_setfl trial_env fd n = (True, n)"
  by (simp_all add: trial_env_def)

lemmas trial_eval = eval_nat_numeral trial_checks trial_env_simps open_command_pipe_def dns_open_def sys_pipe_def
  trial_start_def set_fd_nonblock_def sys_close_fd_def Let_def

lemma trial_runs:
  "\<exists>st. open_targets trial_env (replicate 3 (test_ctl\<lparr>Interactive := False\<rparr>)) (p, trial_start)
       = Inr (\<lparr>cpi_pid = 102, cpi_read = 9, cpi_write = 8\<rparr>, st)
     \<and> ps_fds st = replicate 13 True @ [False] \<and> ps_children st = [103, 102, 101, 100]"
  by (simp add: trial_eval)


theorem targets_leak_witness:
  "\<exists>q st' :: int procs. net_close q = (\<lparr>cpi_pid = 0, cpi_read = 0, cpi_write = 0\<rparr>, st')
     \<and> ps_children st' = [103, 101, 100] \<and> free_fds (ps_fds st') = 3
     \<and> (\<exists>k \<le> 3. 4 = 2 * k \<and> k \<le> free_fds (ps_fds trial_start) div 4 \<and> 2 * k \<le> length (ps_children st') + 1)"
proof -
  obtain st where o: "open_targets trial_env (replicate 3 (test_ctl\<lparr>Interactive := False\<rparr>)) (undefined, trial_start)
       = Inr (\<lparr>cpi_pid = 102, cpi_read = 9, cpi_write = 8\<rparr>, st)"
    and s: "ps_fds st = replicate 13 True @ [False]" "ps_children st = [103, 102, 101, 100]"
    using trial_runs by blast
  obtain p' st' where c: "net_close (\<lparr>cpi_pid = 102, cpi_read = 9, cpi_write = 8\<rparr>, st) = (p', st')" by force
  moreover have "p' = \<lparr>cpi_pid = 0, cpi_read = 0, cpi_write = 0\<rparr>" "ps_children st' = [103, 101, 100]" "free_fds (ps_fds st') = 3"
    using c s by (auto simp: net_close_def close_command_pipe_def sys_close_fd_def free_fds_def eval_nat_numeral)
  moreover have "ps_children trial_start = []" by (simp add: trial_start_def)
  ultimately show ?thesis
    using targets_leak [OF o c] s by (intro exI [of _ "(\<lparr>cpi_pid = 102, cpi_read = 9, cpi_write = 8\<rparr>, st)"] exI [of _ st']) auto
qed

end
