(* ===== verification/Gtk.thy ===== *)
theory Gtk
  imports Hosts Asn
begin

text \<open>
  \<open>ui/gtk.c\<close>: the display in a window. The widget library is not modelled; what the program uses of
  it is the state here: the rows of the list store, the timers that are set, the button that is
  pressed in, the text of the entry and the value of the spin button. A callback is a function on
  that state, and the main loop of the library is the relation \<open>gtk_step\<close>, one event after the other.
\<close>

section \<open>The widgets\<close>

datatype callback = Window_destroy | About_clicked | Restart_clicked | Pause_clicked | WaitTime_changed
  | Host_activate | ReportTreeView_clicked | Copy_activate | NewDestination_activate

text \<open>The value of a spin button with its bounds, step and page.\<close>

datatype gtk_kind = StockButton | MnemonicButton | ToggleButton | SpinButton rat rat rat rat rat | Label | TextEntry

record toolbar_item =
  ti_kind :: gtk_kind
  ti_text :: string
  ti_at_end :: bool
  ti_signal :: "(string \<times> callback) option"

definition Toolbar_fill :: "bool \<Rightarrow> mtr_ctl \<Rightarrow> toolbar_item list" where
  "Toolbar_fill running_as_root ctl =
     [\<lparr>ti_kind = StockButton, ti_text = ''gtk-quit'', ti_at_end = True, ti_signal = Some (''clicked'', Window_destroy)\<rparr>,
      \<lparr>ti_kind = StockButton, ti_text = ''gtk-about'', ti_at_end = True, ti_signal = Some (''clicked'', About_clicked)\<rparr>,
      \<lparr>ti_kind = MnemonicButton, ti_text = ''_Restart'', ti_at_end = True, ti_signal = Some (''clicked'', Restart_clicked)\<rparr>,
      \<lparr>ti_kind = ToggleButton, ti_text = ''_Pause'', ti_at_end = True, ti_signal = Some (''clicked'', Pause_clicked)\<rparr>,
      \<lparr>ti_kind = SpinButton (WaitTime ctl) (if running_as_root then 1 / 100 else 1) (99999 / 100) 1 10,
        ti_text = [], ti_at_end = True, ti_signal = Some (''value_changed'', WaitTime_changed)\<rparr>,
      \<lparr>ti_kind = Label, ti_text = ''_Hostname:'', ti_at_end = False, ti_signal = None\<rparr>,
      \<lparr>ti_kind = TextEntry, ti_text = Hostname ctl, ti_at_end = False, ti_signal = Some (''activate'', Host_activate)\<rparr>]"

text \<open>The columns of the table: the title, the column of the store that is shown, and how.\<close>

datatype store_column = COL_ASN | COL_HOSTNAME | COL_LOSS | COL_RCV | COL_SNT | COL_LAST | COL_BEST | COL_AVG
  | COL_WORST | COL_STDEV | COL_COLOR

datatype formatter = plain_text | float_formatter | percent_formatter

record tree_column =
  tc_title :: string
  tc_text :: store_column
  tc_right :: bool
  tc_format :: formatter

abbreviation tree_col :: "string \<Rightarrow> store_column \<Rightarrow> formatter \<Rightarrow> tree_column" where
  "tree_col t c f \<equiv> \<lparr>tc_title = t, tc_text = c, tc_right = True, tc_format = f\<rparr>"

definition TreeViewCreate :: "mtr_ctl \<Rightarrow> tree_column list" where
  "TreeViewCreate ctl =
     (if is_printii ctl then [\<lparr>tc_title = ''ASN'', tc_text = COL_ASN, tc_right = False, tc_format = plain_text\<rparr>] else [])
     @ [\<lparr>tc_title = ''Hostname'', tc_text = COL_HOSTNAME, tc_right = False, tc_format = plain_text\<rparr>,
        tree_col ''Loss'' COL_LOSS percent_formatter, tree_col ''Snt'' COL_SNT plain_text,
        tree_col ''Last'' COL_LAST plain_text, tree_col ''Avg'' COL_AVG plain_text,
        tree_col ''Best'' COL_BEST plain_text, tree_col ''Worst'' COL_WORST plain_text,
        tree_col ''StDev'' COL_STDEV float_formatter]"

section \<open>The rows\<close>

text \<open>A row of the list store; a string that was not set is \<open>None\<close>.\<close>

record gtk_row =
  row_asn :: "string option"
  row_hostname :: "string option"
  row_loss :: rat
  row_rcv :: int
  row_snt :: int
  row_last :: int
  row_best :: int
  row_avg :: int
  row_worst :: int
  row_stdev :: rat
  row_color :: "string option"

definition new_row :: gtk_row where
  "new_row = \<lparr>row_asn = None, row_hostname = None, row_loss = 0, row_rcv = 0, row_snt = 0, row_last = 0, row_best = 0,
     row_avg = 0, row_worst = 0, row_stdev = 0, row_color = None\<rparr>"

text \<open>The text of a cell.\<close>

definition cell_text :: "gtk_row \<Rightarrow> tree_column \<Rightarrow> string" where
  "cell_text r c =
     (let f = (case tc_text c of COL_LOSS \<Rightarrow> row_loss r | COL_STDEV \<Rightarrow> row_stdev r | _ \<Rightarrow> 0)
      in case tc_format c of
           float_formatter \<Rightarrow> c_printf ''%.2f'' [PDbl f]
         | percent_formatter \<Rightarrow> c_printf ''%.1f%%'' [PDbl f]
         | plain_text \<Rightarrow>
             (case tc_text c of
                COL_ASN \<Rightarrow> (case row_asn r of Some t \<Rightarrow> t | None \<Rightarrow> [])
              | COL_HOSTNAME \<Rightarrow> (case row_hostname r of Some t \<Rightarrow> t | None \<Rightarrow> [])
              | COL_RCV \<Rightarrow> fmt_d (row_rcv r) | COL_SNT \<Rightarrow> fmt_d (row_snt r) | COL_LAST \<Rightarrow> fmt_d (row_last r)
              | COL_BEST \<Rightarrow> fmt_d (row_best r) | COL_AVG \<Rightarrow> fmt_d (row_avg r) | COL_WORST \<Rightarrow> fmt_d (row_worst r)
              | _ \<Rightarrow> []))"

definition row_cells :: "mtr_ctl \<Rightarrow> gtk_row \<Rightarrow> (string \<times> string) list" where
  "row_cells ctl r = map (\<lambda>c. (tc_title c, cell_text r c)) (TreeViewCreate ctl)"

section \<open>State\<close>

text \<open>What \<open>ctl->gtk_data\<close> points to: the spin button, the path of a row, or memory that was freed.\<close>

datatype gtk_pointer = SpinPointer | PathPointer nat | FreedPointer

text \<open>\<open>gs_menu\<close> is the path of the menu that is open, \<open>gs_active\<close> the button that is pressed in and \<open>gs_paused\<close> the static variable of
  \<open>Pause_clicked\<close>.\<close>

record gtk_state =
  gs_ctl :: mtr_ctl
  gs_net :: net
  gs_reply :: string
  gs_dns :: dns_state
  gs_asn :: asn_state
  gs_rows :: "gtk_row list"
  gs_timers :: "(nat \<times> int) list"
  ping_timeout_timer :: nat
  gs_active :: bool
  gs_paused :: bool
  gs_entry :: string
  gs_spin :: rat
  gtk_data :: gtk_pointer
  gs_menu :: "nat option"
  gs_clipboard :: "string option"
  gs_quit :: bool

text \<open>\<open>ge_hosts\<close> are the answers that \<open>gethostbyname\<close> may give; \<open>ge_clicks\<close> says whether the button
  is clicked when \<open>gtk_toggle_button_set_active\<close> changes it.\<close>

record gtk_env =
  ge_inet :: inet_env
  ge_fp :: fp_env
  ge_resolver :: resolver
  ge_root :: bool
  ge_hosts :: "hostent set"
  ge_clicks :: bool

text \<open>What an event meets: the pipes, the random numbers, the answers of \<open>gethostbyname\<close>, and the
  identifier of a new timer.\<close>

record gtk_in =
  gi_write :: "string \<Rightarrow> bool"
  gi_dns_write :: "string \<Rightarrow> bool"
  gi_rand :: "int \<times> int"
  gi_forward :: "string \<Rightarrow> hostent option"
  gi_timer :: nat

text \<open>How the program ends other than by quitting.\<close>

datatype gtk_end = GtkExit ui_exit | WrongPointer

fun gtk_lift :: "ui_exit + 'a \<Rightarrow> gtk_end + 'a" where
  "gtk_lift (Inl e) = Inl (GtkExit e)"
| "gtk_lift (Inr x) = Inr x"

section \<open>Drawing\<close>

definition row_name :: "gtk_env \<Rightarrow> gtk_in \<Rightarrow> ip_t \<Rightarrow> gtk_state \<Rightarrow> string option \<times> gtk_state" where
  "row_name env i addr st =
     (let ctl = gs_ctl st
      in if addrcmp addr (unspec_addr ctl) (af ctl) = 0 then (Some ''???'', st)
         else (case dns_lookup (ge_inet env) (gi_dns_write i) ctl addr (gs_dns st) of (name, d) \<Rightarrow>
           (case name of
              Some n \<Rightarrow>
                Some (if show_ips ctl then snprintf 256 (c_printf ''%s (%s)'' [PStr n, PStr (c_text (strlongip (ge_inet env) ctl addr))])
                      else n)
            | None \<Rightarrow> strlongip (ge_inet env) ctl addr, st\<lparr>gs_dns := d\<rparr>)))"

definition update_tree_row :: "gtk_env \<Rightarrow> gtk_in \<Rightarrow> int \<Rightarrow> gtk_row \<Rightarrow> gtk_state \<Rightarrow> gtk_row \<times> gtk_state" where
  "update_tree_row env i row r st =
     (let fp = ge_fp env; s = gs_net st; addr = net_addr s row
      in case row_name env i addr st of (name, st) \<Rightarrow>
        (let r = r\<lparr>row_hostname := name, row_loss := rndf fp (rnd fp (of_int (net_loss fp s row) / 1000)),
                   row_rcv := net_returned s row, row_snt := net_xmit s row,
                   row_last := c_div (net_last s row) 1000, row_best := c_div (net_best s row) 1000,
                   row_avg := c_div (net_avg s row) 1000, row_worst := c_div (net_worst s row) 1000,
                   row_stdev := rndf fp (rnd fp (of_int (net_stdev fp s row) / 1000)),
                   row_color := (if net_up s row \<noteq> 0 then None else Some ''red'')\<rparr>
         in if is_printii (gs_ctl st) then
              (case fmt_ipinfo (ge_resolver env) addr (gs_ctl st, gs_asn st) of (info, ctl, a) \<Rightarrow>
                 (r\<lparr>row_asn := Some info\<rparr>, st\<lparr>gs_ctl := ctl, gs_asn := a\<rparr>))
            else (r, st)))"

text \<open>The rows that are there are filled again and those that are too many removed; then rows are
  appended.\<close>

fun update_rows :: "gtk_env \<Rightarrow> gtk_in \<Rightarrow> int \<Rightarrow> gtk_row list \<Rightarrow> int \<times> gtk_state \<Rightarrow> gtk_row list \<times> int \<times> gtk_state" where
  "update_rows env i mx [] (row, st) = ([], row, st)"
| "update_rows env i mx (r # rs) (row, st) =
     (if row < mx then
        (case update_tree_row env i row r st of (r, st) \<Rightarrow>
           (case update_rows env i mx rs (row + 1, st) of (rs, row, st) \<Rightarrow> (r # rs, row, st)))
      else update_rows env i mx rs (row, st))"

function append_rows :: "gtk_env \<Rightarrow> gtk_in \<Rightarrow> int \<Rightarrow> int \<times> gtk_state \<Rightarrow> gtk_row list \<times> gtk_state" where
  "append_rows env i mx (row, st) =
     (if row < mx then
        (case update_tree_row env i row new_row st of (r, st) \<Rightarrow>
           (case append_rows env i mx (row + 1, st) of (rs, st) \<Rightarrow> (r # rs, st)))
      else ([], st))"
  by pat_completeness auto
termination
  by (relation "measure (\<lambda>(env, i, mx, row, st). nat (mx - row))") auto

declare append_rows.simps [simp del]

definition gtk_redraw :: "gtk_env \<Rightarrow> gtk_in \<Rightarrow> gtk_state \<Rightarrow> gtk_state" where
  "gtk_redraw env i st =
     (let mx = net_max (gs_ctl st) (gs_net st)
      in case update_rows env i mx (gs_rows st) (net_min (gs_ctl st), st) of (rs, row, st) \<Rightarrow>
         (case append_rows env i mx (row, st) of (rs', st) \<Rightarrow> st\<lparr>gs_rows := rs @ rs'\<rparr>))"

section \<open>Timers\<close>

definition g_source_remove :: "nat \<Rightarrow> gtk_state \<Rightarrow> gtk_state" where
  "g_source_remove n st = st\<lparr>gs_timers := filter (\<lambda>(m, _). m \<noteq> n) (gs_timers st)\<rparr>"

definition g_timeout_add :: "gtk_in \<Rightarrow> int \<Rightarrow> gtk_state \<Rightarrow> nat \<times> gtk_state" where
  "g_timeout_add i ms st = (gi_timer i, st\<lparr>gs_timers := (gi_timer i, ms) # gs_timers st\<rparr>)"

definition gtk_add_ping_timeout :: "gtk_env \<Rightarrow> gtk_in \<Rightarrow> gtk_state \<Rightarrow> gtk_state" where
  "gtk_add_ping_timeout env i st =
     (if gs_active st then st
      else
        (let dt = calc_deltatime (ge_fp env) (gs_net st) (WaitTime (gs_ctl st));
             st = gtk_redraw env i st
         in case g_timeout_add i (c_div dt 1000) st of (n, st) \<Rightarrow> st\<lparr>ping_timeout_timer := n\<rparr>))"

section \<open>Callbacks\<close>

definition on_restart :: "gtk_env \<Rightarrow> gtk_in \<Rightarrow> gtk_state \<Rightarrow> gtk_state" where
  "on_restart env i st = gtk_redraw env i (st\<lparr>gs_net := net_reset (gs_ctl st) (gs_net st)\<rparr>)"

definition on_pause :: "gtk_env \<Rightarrow> gtk_in \<Rightarrow> gtk_state \<Rightarrow> gtk_state" where
  "on_pause env i st =
     (let st = (if gs_paused st then gtk_add_ping_timeout env i st else g_source_remove (ping_timeout_timer st) st);
          st = st\<lparr>gs_paused := \<not> gs_paused st\<rparr>
      in gtk_redraw env i st)"

text \<open>The button is pressed in or out before its callback runs.\<close>

definition click_pause :: "gtk_env \<Rightarrow> gtk_in \<Rightarrow> gtk_state \<Rightarrow> gtk_state" where
  "click_pause env i st = on_pause env i (st\<lparr>gs_active := \<not> gs_active st\<rparr>)"

definition gtk_toggle_button_set_active :: "gtk_env \<Rightarrow> gtk_in \<Rightarrow> bool \<Rightarrow> gtk_state \<Rightarrow> gtk_state" where
  "gtk_toggle_button_set_active env i b st =
     (if gs_active st = b then st
      else if ge_clicks env then click_pause env i st else st\<lparr>gs_active := b\<rparr>)"

definition on_wait_time :: "gtk_env \<Rightarrow> gtk_in \<Rightarrow> gtk_state \<Rightarrow> gtk_end + gtk_state" where
  "on_wait_time env i st =
     (if gtk_data st \<noteq> SpinPointer then Inl WrongPointer
      else
        (let st = st\<lparr>gs_ctl := (gs_ctl st)\<lparr>WaitTime := rndf (ge_fp env) (gs_spin st)\<rparr>\<rparr>;
             st = gtk_add_ping_timeout env i (g_source_remove (ping_timeout_timer st) st)
         in Inr (gtk_redraw env i st)))"

definition on_host :: "gtk_env \<Rightarrow> gtk_in \<Rightarrow> gtk_state \<Rightarrow> gtk_end + gtk_state" where
  "on_host env i st =
     (case gi_forward i (gs_entry st) of
        Some h \<Rightarrow>
          and_then (gtk_lift (net_reopen (ge_inet env) (gi_write i) (ge_fp env) (fst (gi_rand i)) (snd (gi_rand i))
              (h_addrtype h) (h_address h) (gs_ctl st) (gs_net st)))
            (\<lambda>(ctl, s). Inr (gtk_toggle_button_set_active env i False (st\<lparr>gs_ctl := ctl, gs_net := s\<rparr>)))
      | None \<Rightarrow>
          (let st = gtk_toggle_button_set_active env i True st
           in Inr (st\<lparr>gs_entry := gs_entry st @ '': not found''\<rparr>)))"

definition gtk_ping :: "gtk_env \<Rightarrow> gtk_in \<Rightarrow> gtk_state \<Rightarrow> gtk_end + gtk_state" where
  "gtk_ping env i st =
     (let st = gtk_redraw env i st
      in and_then (gtk_lift (net_send_batch (ge_inet env) (gi_write i) (ge_fp env) (fst (gi_rand i)) (snd (gi_rand i))
             (gs_ctl st) (gs_net st)))
           (\<lambda>(_, ctl, s).
             (let st = st\<lparr>gs_ctl := ctl, gs_net := s\<rparr>
              in Inr (gtk_add_ping_timeout env i (g_source_remove (ping_timeout_timer st) st)))))"

definition gtk_net_data :: "gtk_env \<Rightarrow> errno + string \<Rightarrow> gtk_state \<Rightarrow> gtk_end + gtk_state" where
  "gtk_net_data env available st =
     and_then (gtk_lift (net_process_return (ge_inet env) (ge_fp env) (gs_ctl st) available (gs_reply st) (gs_net st)))
       (\<lambda>(buf, s). Inr (st\<lparr>gs_reply := buf, gs_net := s\<rparr>))"

definition gtk_dns_data :: "gtk_env \<Rightarrow> gtk_in \<Rightarrow> ack_vars \<Rightarrow> string \<Rightarrow> gtk_state \<Rightarrow> gtk_state" where
  "gtk_dns_data env i uninit input st =
     gtk_redraw env i (st\<lparr>gs_dns := dns_ack (ge_inet env) uninit (gs_ctl st) input (gs_dns st)\<rparr>)"

text \<open>The menu of a row. The path is freed when an item is chosen.\<close>

definition getSelectedHost :: "nat \<Rightarrow> gtk_state \<Rightarrow> string option" where
  "getSelectedHost path st = (if path < length (gs_rows st) then row_hostname (gs_rows st ! path) else None)"

definition on_tree_click :: "bool \<Rightarrow> nat \<Rightarrow> nat option \<Rightarrow> gtk_state \<Rightarrow> gtk_state" where
  "on_tree_click button_press button path_at_pos st =
     (if \<not> button_press \<or> button \<noteq> 3 then st
      else case path_at_pos of None \<Rightarrow> st
           | Some path \<Rightarrow> st\<lparr>gtk_data := PathPointer path, gs_menu := Some path\<rparr>)"

definition on_copy :: "nat \<Rightarrow> gtk_state \<Rightarrow> gtk_state" where
  "on_copy path st =
     (let hostname = getSelectedHost path st;
          st = st\<lparr>gtk_data := (if gtk_data st = PathPointer path then FreedPointer else gtk_data st)\<rparr>
      in case hostname of None \<Rightarrow> st | Some h \<Rightarrow> st\<lparr>gs_clipboard := Some h\<rparr>)"

definition on_new_destination :: "gtk_env \<Rightarrow> gtk_in \<Rightarrow> gtk_state \<Rightarrow> gtk_end + gtk_state" where
  "on_new_destination env i st =
     (case gtk_data st of
        PathPointer path \<Rightarrow>
          (let hostname = getSelectedHost path st; st = st\<lparr>gtk_data := FreedPointer\<rparr>
           in case hostname of None \<Rightarrow> Inr st | Some h \<Rightarrow> on_host env i (st\<lparr>gs_entry := h\<rparr>))
      | _ \<Rightarrow> Inl WrongPointer)"

section \<open>The window and its loop\<close>

definition gtk_open :: "mtr_ctl \<Rightarrow> net \<Rightarrow> string \<Rightarrow> dns_state \<Rightarrow> asn_state \<Rightarrow> gtk_state" where
  "gtk_open ctl s buf d a =
     \<lparr>gs_ctl = ctl, gs_net = s, gs_reply = buf, gs_dns = d, gs_asn = a, gs_rows = [], gs_timers = [],
      ping_timeout_timer = 0, gs_active = False, gs_paused = False, gs_entry = Hostname ctl, gs_spin = WaitTime ctl,
      gtk_data = SpinPointer, gs_menu = None, gs_clipboard = None, gs_quit = False\<rparr>"

definition gtk_keyaction :: int where "gtk_keyaction = 0"

text \<open>The beginning of \<open>gtk_loop\<close>; then the library calls back.\<close>

definition gtk_loop :: "gtk_env \<Rightarrow> gtk_in \<Rightarrow> gtk_state \<Rightarrow> gtk_state" where
  "gtk_loop env i st = gtk_add_ping_timeout env i st"

text \<open>A callback with what the library hands it.\<close>

fun call_back :: "gtk_env \<Rightarrow> gtk_in \<Rightarrow> callback \<Rightarrow> gtk_state \<Rightarrow> gtk_end + gtk_state" where
  "call_back env i Window_destroy st = Inr (st\<lparr>gs_quit := True\<rparr>)"
| "call_back env i About_clicked st = Inr st"
| "call_back env i Restart_clicked st = Inr (on_restart env i st)"
| "call_back env i Pause_clicked st = Inr (on_pause env i st)"
| "call_back env i WaitTime_changed st = on_wait_time env i st"
| "call_back env i Host_activate st = on_host env i st"
| "call_back env i ReportTreeView_clicked st = Inr st"
| "call_back env i Copy_activate st = (case gs_menu st of Some path \<Rightarrow> Inr (on_copy path st) | None \<Rightarrow> Inr st)"
| "call_back env i NewDestination_activate st = on_new_destination env i st"

text \<open>A signal of a widget of the toolbar runs the callback that is connected to it.\<close>

definition connected :: "gtk_env \<Rightarrow> mtr_ctl \<Rightarrow> (toolbar_item \<Rightarrow> bool) \<Rightarrow> string \<Rightarrow> callback option" where
  "connected env ctl p signal =
     (case filter p (Toolbar_fill (ge_root env) ctl) of
        w # _ \<Rightarrow> (case ti_signal w of Some (s, c) \<Rightarrow> if s = signal then Some c else None | None \<Rightarrow> None)
      | [] \<Rightarrow> None)"

definition emit :: "gtk_env \<Rightarrow> gtk_in \<Rightarrow> (toolbar_item \<Rightarrow> bool) \<Rightarrow> string \<Rightarrow> gtk_state \<Rightarrow> gtk_end + gtk_state" where
  "emit env i p signal st =
     (case connected env (gs_ctl st) p signal of Some c \<Rightarrow> call_back env i c st | None \<Rightarrow> Inr st)"

definition button_named :: "string \<Rightarrow> toolbar_item \<Rightarrow> bool" where
  "button_named t w \<longleftrightarrow> ti_text w = t \<and> ti_kind w \<in> {StockButton, MnemonicButton, ToggleButton}"

definition is_spin :: "toolbar_item \<Rightarrow> bool" where
  "is_spin w = (case ti_kind w of SpinButton _ _ _ _ _ \<Rightarrow> True | _ \<Rightarrow> False)"

text \<open>The events: the timer, the descriptors that can be read, and the user. A menu closes when an
  item is chosen.\<close>

definition answers :: "gtk_env \<Rightarrow> gtk_in \<Rightarrow> bool" where
  "answers env i \<longleftrightarrow> (\<forall>t h. gi_forward i t = Some h \<longrightarrow> h \<in> ge_hosts env)"

inductive gtk_step :: "gtk_env \<Rightarrow> gtk_state \<Rightarrow> gtk_end + gtk_state \<Rightarrow> bool" for env :: gtk_env where
  timer: "(n, ms) \<in> set (gs_timers st) \<Longrightarrow> gtk_step env st (gtk_ping env i st)"
| replies: "gtk_step env st (gtk_net_data env available st)"
| names: "gtk_step env st (Inr (gtk_dns_data env i uninit input st))"
| button: "t \<noteq> ''_Pause'' \<Longrightarrow> gtk_step env st (emit env i (button_named t) ''clicked'' st)"
| toggle: "gtk_step env st (emit env i (button_named ''_Pause'') ''clicked'' (st\<lparr>gs_active := \<not> gs_active st\<rparr>))"
| spin: "(if ge_root env then 1 / 100 else 1) \<le> v \<Longrightarrow> v \<le> 99999 / 100 \<Longrightarrow>
     gtk_step env st (emit env i is_spin ''value_changed'' (st\<lparr>gs_spin := v\<rparr>))"
| entry: "answers env i \<Longrightarrow> gtk_step env st (emit env i (\<lambda>w. ti_kind w = TextEntry) ''activate'' (st\<lparr>gs_entry := t\<rparr>))"
| row_clicked: "gtk_step env st (Inr (on_tree_click button_press b path st))"
| copy: "gs_menu st = Some path \<Longrightarrow> gtk_step env st (map_sum id (\<lambda>st. st\<lparr>gs_menu := None\<rparr>) (call_back env i Copy_activate st))"
| destination: "gs_menu st = Some path \<Longrightarrow> answers env i \<Longrightarrow>
     gtk_step env st (map_sum id (\<lambda>st. st\<lparr>gs_menu := None\<rparr>) (call_back env i NewDestination_activate st))"
| menu_closed: "gtk_step env st (Inr (st\<lparr>gs_menu := None\<rparr>))"
| window_closed: "gtk_step env st (call_back env i Window_destroy st)"

text \<open>The states from the opened window on.\<close>

inductive gtk_reach :: "gtk_env \<Rightarrow> gtk_state \<Rightarrow> gtk_state \<Rightarrow> bool" for env :: gtk_env and opened :: gtk_state where
  start: "gtk_reach env opened (gtk_loop env i opened)"
| step: "gtk_reach env opened st \<Longrightarrow> \<not> gs_quit st \<Longrightarrow> gtk_step env st (Inr st') \<Longrightarrow> gtk_reach env opened st'"

end
