(* ===== verification/GtkProps.thy ===== *)
theory GtkProps
  imports Gtk NetProps
begin

text \<open>
  Properties of the display in a window: the rows that are shown, the timer, the pointer
  \<open>gtk_data\<close>, and that all it does to the tables are the steps of \<open>NetInv\<close>.
\<close>

section \<open>What a redraw changes\<close>

text \<open>A redraw changes the rows, the cache of names, the table of the items and the number of items;
  the rest of the state is the same.\<close>

definition kept where
  "kept st = ((gs_ctl st)\<lparr>ipinfo_max := 0\<rparr>, gs_net st, gs_reply st, gs_timers st, ping_timeout_timer st, gs_active st,
     gs_paused st, gs_entry st, gs_spin st, gtk_data st, gs_menu st, gs_clipboard st, gs_quit st)"

abbreviation redrawn :: "gtk_state \<Rightarrow> gtk_state \<Rightarrow> bool" where
  "redrawn st st' \<equiv> kept st' = kept st"

lemma redrawnD:
  assumes "redrawn st st'"
  shows "gs_net st' = gs_net st" "gs_reply st' = gs_reply st" "gs_timers st' = gs_timers st"
    "ping_timeout_timer st' = ping_timeout_timer st" "gs_active st' = gs_active st" "gs_paused st' = gs_paused st"
    "gs_entry st' = gs_entry st" "gs_spin st' = gs_spin st" "gtk_data st' = gtk_data st" "gs_menu st' = gs_menu st"
    "gs_clipboard st' = gs_clipboard st" "gs_quit st' = gs_quit st"
    "(gs_ctl st')\<lparr>ipinfo_max := 0\<rparr> = (gs_ctl st)\<lparr>ipinfo_max := 0\<rparr>"
  using assms by (simp_all add: kept_def)

lemma split_txtrec_ctl: "split_txtrec ctl txt = (r, ctl') \<Longrightarrow> ctl'\<lparr>ipinfo_max := 0\<rparr> = ctl\<lparr>ipinfo_max := 0\<rparr>"
  by (auto simp: split_txtrec_def Let_def split: option.splits if_splits)

lemma get_ipinfo_ctl:
  assumes "get_ipinfo rs addr (ctl, a) = (t, ctl', a')"
  shows "ctl'\<lparr>ipinfo_max := 0\<rparr> = ctl\<lparr>ipinfo_max := 0\<rparr>"
  using assms split_txtrec_ctl [of ctl _ _ ctl']
  by (auto simp: get_ipinfo_def Let_def split: option.splits if_splits prod.splits)

lemma fmt_ipinfo_ctl: "fmt_ipinfo rs addr (ctl, a) = (t, ctl', a') \<Longrightarrow> ctl'\<lparr>ipinfo_max := 0\<rparr> = ctl\<lparr>ipinfo_max := 0\<rparr>"
  using get_ipinfo_ctl [of rs addr ctl a _ ctl' a'] by (auto simp: fmt_ipinfo_def Let_def split: prod.splits)

lemma row_name_redrawn: "row_name env i addr st = (name, st') \<Longrightarrow> redrawn st st'"
  by (auto simp: row_name_def kept_def Let_def split: if_splits prod.splits)

lemma update_tree_row_redrawn:
  assumes "update_tree_row env i row r st = (r', st')"
  shows "redrawn st st'"
proof -
  obtain name st1 where n: "row_name env i (net_addr (gs_net st) row) st = (name, st1)" by force
  obtain info ctl a where f: "fmt_ipinfo (ge_resolver env) (net_addr (gs_net st) row) (gs_ctl st1, gs_asn st1) = (info, ctl, a)"
    using prod_cases3 by blast
  have "redrawn st1 st'"
    using assms fmt_ipinfo_ctl [OF f] by (auto simp: update_tree_row_def Let_def n f kept_def split: if_splits)
  then show ?thesis using row_name_redrawn [OF n] by simp
qed

lemma update_rows_redrawn: "update_rows env i mx rs (row, st) = (rs', row', st') \<Longrightarrow> redrawn st st'"
proof (induction rs arbitrary: row st rs' row' st')
  case (Cons r rs)
  show ?case
  proof (cases "row < mx")
    case True
    obtain r1 st1 where u: "update_tree_row env i row r st = (r1, st1)" by force
    obtain rs2 row2 st2 where v: "update_rows env i mx rs (row + 1, st1) = (rs2, row2, st2)" using prod_cases3 by blast
    show ?thesis using Cons.prems True u v update_tree_row_redrawn [OF u] Cons.IH [OF v] by simp
  qed (use Cons in simp)
qed simp

lemma append_rows_redrawn: "append_rows env i mx (row, st) = (rs', st') \<Longrightarrow> redrawn st st'"
proof (induction "nat (mx - row)" arbitrary: row st rs' st')
  case 0
  then show ?case by (simp add: append_rows.simps [of env i mx row])
next
  case (Suc n)
  obtain r1 st1 where u: "update_tree_row env i row new_row st = (r1, st1)" by force
  obtain rs2 st2 where v: "append_rows env i mx (row + 1, st1) = (rs2, st2)" by force
  have "redrawn st1 st2" using Suc.hyps(2) by (intro Suc.hyps(1) [OF _ v]) simp
  then show ?case
    using Suc.prems Suc.hyps(2) u v update_tree_row_redrawn [OF u] by (cases "row < mx") (simp_all add: append_rows.simps [of env i mx row])
qed

lemma gtk_redraw_redrawn: "redrawn st (gtk_redraw env i st)"
proof -
  obtain rs row st1 where u: "update_rows env i (net_max (gs_ctl st) (gs_net st)) (gs_rows st) (net_min (gs_ctl st), st) = (rs, row, st1)"
    using prod_cases3 by blast
  obtain rs' st2 where a: "append_rows env i (net_max (gs_ctl st) (gs_net st)) (row, st1) = (rs', st2)" by force
  have "redrawn st2 (st2\<lparr>gs_rows := rs @ rs'\<rparr>)" by (simp add: kept_def)
  then show ?thesis
    using update_rows_redrawn [OF u] append_rows_redrawn [OF a] by (simp add: gtk_redraw_def u a)
qed

lemmas gtk_redraw_same [simp] = redrawnD(1-12) [OF gtk_redraw_redrawn]

section \<open>The rows\<close>

definition asn_clear :: "gtk_state \<Rightarrow> gtk_row list \<Rightarrow> bool" where
  "asn_clear st rs \<longleftrightarrow> is_printii (gs_ctl st) \<or> (\<forall>r \<in> set rs. row_asn r = None)"

lemma redrawn_printii:
  assumes "redrawn st st'"
  shows "is_printii (gs_ctl st') = is_printii (gs_ctl st)"
  using arg_cong [where f = ipinfo_no, OF redrawnD(13) [OF assms]] by (simp add: is_printii_def)

text \<open>Nothing of a row is left when it is filled again.\<close>

lemma update_tree_row_any:
  assumes "asn_clear st [r]"
  shows "update_tree_row env i row r st = update_tree_row env i row new_row st"
proof -
  obtain name st1 where n: "row_name env i (net_addr (gs_net st) row) st = (name, st1)" by force
  have "is_printii (gs_ctl st1) = is_printii (gs_ctl st)" using redrawn_printii [OF row_name_redrawn [OF n]] by simp
  with assms show ?thesis
    by (cases r) (auto simp: update_tree_row_def Let_def n asn_clear_def new_row_def split: prod.split)
qed

lemma update_then_append:
  assumes "asn_clear st rs"
  shows "(case update_rows env i mx rs (row, st) of (rs1, row, st) \<Rightarrow>
      (case append_rows env i mx (row, st) of (rs2, st) \<Rightarrow> (rs1 @ rs2, st))) = append_rows env i mx (row, st)"
  using assms
proof (induction rs arbitrary: row st)
  case (Cons r rs)
  show ?case
  proof (cases "row < mx")
    case True
    obtain r1 st1 where u: "update_tree_row env i row new_row st = (r1, st1)" by force
    have "asn_clear st1 rs" using Cons.prems redrawn_printii [OF update_tree_row_redrawn [OF u]] by (auto simp: asn_clear_def)
    from Cons.IH [OF this] have "append_rows env i mx (row + 1, st1) = (case update_rows env i mx rs (row + 1, st1) of (rs1, row, st) \<Rightarrow>
      (case append_rows env i mx (row, st) of (rs2, st) \<Rightarrow> (rs1 @ rs2, st)))" by simp
    moreover have "update_tree_row env i row r st = (r1, st1)"
      using update_tree_row_any [of st r] Cons.prems u by (auto simp: asn_clear_def)
    ultimately show ?thesis using True u by (simp add: append_rows.simps [of env i mx row] split: prod.split)
  qed (use Cons.IH [of st row] Cons.prems in \<open>auto simp: asn_clear_def\<close>)
qed simp

text \<open>The rows of before are not looked at.\<close>

lemma row_name_rows:
  "row_name env i addr (st\<lparr>gs_rows := x\<rparr>) = map_prod id (\<lambda>st. st\<lparr>gs_rows := x\<rparr>) (row_name env i addr st)"
  by (simp add: row_name_def Let_def split: prod.split)

lemma update_tree_row_rows:
  "update_tree_row env i row r (st\<lparr>gs_rows := x\<rparr>) = map_prod id (\<lambda>st. st\<lparr>gs_rows := x\<rparr>) (update_tree_row env i row r st)"
proof -
  obtain name st1 where n: "row_name env i (net_addr (gs_net st) row) st = (name, st1)" by force
  obtain info ctl a where f: "fmt_ipinfo (ge_resolver env) (net_addr (gs_net st) row) (gs_ctl st1, gs_asn st1) = (info, ctl, a)"
    using prod_cases3 by blast
  show ?thesis by (simp add: update_tree_row_def row_name_rows Let_def n f)
qed

lemma append_rows_rows:
  "append_rows env i mx (row, st\<lparr>gs_rows := x\<rparr>) = map_prod id (\<lambda>st. st\<lparr>gs_rows := x\<rparr>) (append_rows env i mx (row, st))"
proof (induction "nat (mx - row)" arbitrary: row st)
  case 0
  then show ?case by (simp add: append_rows.simps [of env i mx row])
next
  case (Suc n)
  obtain r1 st1 where u: "update_tree_row env i row new_row st = (r1, st1)" by force
  have "n = nat (mx - (row + 1))" using Suc.hyps(2) by simp
  from Suc.hyps(1) [OF this, of st1] show ?case
    using Suc.hyps(2) u by (simp add: append_rows.simps [of env i mx row] update_tree_row_rows split: prod.split)
qed

text \<open>A redraw fills the store as if it had been empty.\<close>

lemma gtk_redraw_append:
  assumes "asn_clear st (gs_rows st)"
  shows "gtk_redraw env i st =
    (case append_rows env i (net_max (gs_ctl st) (gs_net st)) (net_min (gs_ctl st), st) of (rs, st) \<Rightarrow> st\<lparr>gs_rows := rs\<rparr>)"
  using update_then_append [OF assms, of env i "net_max (gs_ctl st) (gs_net st)" "net_min (gs_ctl st)"]
  by (auto simp: gtk_redraw_def split: prod.splits)

text \<open>What the row of a hop shows, but for the two texts that are looked up.\<close>

definition hop_cells :: "fp_env \<Rightarrow> net \<Rightarrow> int \<Rightarrow> (string \<times> string) list" where
  "hop_cells fp s hop =
     [(''Loss'', c_printf ''%.1f%%'' [PDbl (rndf fp (rnd fp (of_int (net_loss fp s hop) / 1000)))]),
      (''Snt'', fmt_d (net_xmit s hop)), (''Last'', fmt_d (c_div (net_last s hop) 1000)),
      (''Avg'', fmt_d (c_div (net_avg s hop) 1000)), (''Best'', fmt_d (c_div (net_best s hop) 1000)),
      (''Worst'', fmt_d (c_div (net_worst s hop) 1000)),
      (''StDev'', c_printf ''%.2f'' [PDbl (rndf fp (rnd fp (of_int (net_stdev fp s hop) / 1000)))])]"

text \<open>The name when names are off.\<close>

definition plain_name :: "gtk_env \<Rightarrow> mtr_ctl \<Rightarrow> ip_t \<Rightarrow> string" where
  "plain_name env ctl addr =
     (if addrcmp addr (unspec_addr ctl) (af ctl) = 0 then ''???''
      else case strlongip (ge_inet env) ctl addr of Some t \<Rightarrow> t | None \<Rightarrow> [])"

definition shows_hop :: "gtk_env \<Rightarrow> mtr_ctl \<Rightarrow> net \<Rightarrow> int \<Rightarrow> gtk_row \<Rightarrow> bool" where
  "shows_hop env ctl s hop r \<longleftrightarrow>
     (\<exists>info name. row_cells ctl r = (if is_printii ctl then [(''ASN'', info)] else []) @ (''Hostname'', name) # hop_cells (ge_fp env) s hop
        \<and> (\<not> dns ctl \<or> \<not> use_dns ctl \<longrightarrow> name = plain_name env ctl (net_addr s hop)))
     \<and> row_color r = (if net_up s hop \<noteq> 0 then None else Some ''red'')"

lemma redrawn_ctl:
  assumes "redrawn st st'"
  shows "dns (gs_ctl st') = dns (gs_ctl st)" "use_dns (gs_ctl st') = use_dns (gs_ctl st)" "af (gs_ctl st') = af (gs_ctl st)"
    "unspec_addr (gs_ctl st') = unspec_addr (gs_ctl st)" "is_printii (gs_ctl st') = is_printii (gs_ctl st)"
    "WaitTime (gs_ctl st') = WaitTime (gs_ctl st)" "fstTTL (gs_ctl st') = fstTTL (gs_ctl st)"
    "maxTTL (gs_ctl st') = maxTTL (gs_ctl st)"
proof -
  show "dns (gs_ctl st') = dns (gs_ctl st)" "use_dns (gs_ctl st') = use_dns (gs_ctl st)" "af (gs_ctl st') = af (gs_ctl st)"
    "unspec_addr (gs_ctl st') = unspec_addr (gs_ctl st)" "is_printii (gs_ctl st') = is_printii (gs_ctl st)"
    "WaitTime (gs_ctl st') = WaitTime (gs_ctl st)" "fstTTL (gs_ctl st') = fstTTL (gs_ctl st)"
    "maxTTL (gs_ctl st') = maxTTL (gs_ctl st)"
    using arg_cong [where f = dns, OF redrawnD(13) [OF assms]] arg_cong [where f = use_dns, OF redrawnD(13) [OF assms]]
      arg_cong [where f = af, OF redrawnD(13) [OF assms]] arg_cong [where f = unspec_addr, OF redrawnD(13) [OF assms]]
      arg_cong [where f = WaitTime, OF redrawnD(13) [OF assms]] arg_cong [where f = fstTTL, OF redrawnD(13) [OF assms]]
      arg_cong [where f = maxTTL, OF redrawnD(13) [OF assms]] redrawn_printii [OF assms] by simp_all
qed

lemma shows_hop_redrawn:
  assumes "redrawn st st'"
  shows "shows_hop env (gs_ctl st') s hop r = shows_hop env (gs_ctl st) s hop r"
  using redrawn_ctl [OF assms] by (simp add: shows_hop_def row_cells_def TreeViewCreate_def plain_name_def strlongip_def)

lemma update_tree_row_shows:
  assumes "update_tree_row env i row r st = (r', st')"
  shows "shows_hop env (gs_ctl st) (gs_net st) row r'"
proof -
  obtain name st1 where n: "row_name env i (net_addr (gs_net st) row) st = (name, st1)" by force
  have c: "is_printii (gs_ctl st1) = is_printii (gs_ctl st)" using redrawn_ctl(5) [OF row_name_redrawn [OF n]] .
  have p: "\<not> dns (gs_ctl st) \<or> \<not> use_dns (gs_ctl st) \<longrightarrow>
      (case name of Some t \<Rightarrow> t | None \<Rightarrow> []) = plain_name env (gs_ctl st) (net_addr (gs_net st) row)"
    using n by (auto simp: row_name_def plain_name_def dns_lookup_def Let_def split: if_splits)
  show ?thesis
    using assms n c p
    by (auto simp: update_tree_row_def Let_def shows_hop_def row_cells_def TreeViewCreate_def cell_text_def hop_cells_def
        split: if_splits prod.splits)
qed

lemma append_rows_show:
  "append_rows env i mx (row, st) = (rs, st') \<Longrightarrow>
   length rs = nat (mx - row) \<and> (\<forall>k < length rs. shows_hop env (gs_ctl st) (gs_net st) (row + int k) (rs ! k))"
proof (induction "nat (mx - row)" arbitrary: row st rs st')
  case 0
  then show ?case by (simp add: append_rows.simps [of env i mx row])
next
  case (Suc n)
  obtain r1 st1 where u: "update_tree_row env i row new_row st = (r1, st1)" by force
  obtain rs2 st2 where v: "append_rows env i mx (row + 1, st1) = (rs2, st2)" by force
  have rs: "rs = r1 # rs2" and lt: "row < mx" using Suc.prems Suc.hyps(2) u v by (auto simp: append_rows.simps [of env i mx row] split: if_splits)
  note m = update_tree_row_redrawn [OF u]
  have "n = nat (mx - (row + 1))" using Suc.hyps(2) by simp
  from Suc.hyps(1) [OF this v]
  have "length rs2 = nat (mx - (row + 1))" "\<forall>k < length rs2. shows_hop env (gs_ctl st) (gs_net st) (row + 1 + int k) (rs2 ! k)"
    by (simp_all add: shows_hop_redrawn [OF m] redrawnD(1) [OF m])
  then have "shows_hop env (gs_ctl st) (gs_net st) (row + int k) (rs ! k)" if "k < length rs" for k
    using that update_tree_row_shows [OF u] by (cases k) (auto simp: rs algebra_simps)
  then show ?case using lt \<open>length rs2 = nat (mx - (row + 1))\<close> by (auto simp: rs)
qed

section \<open>One timer\<close>

text \<open>The timer is set exactly when the program is not paused, and the button shows whether it is.\<close>

definition gtk_ok :: "gtk_state \<Rightarrow> bool" where
  "gtk_ok st \<longleftrightarrow> gs_paused st = gs_active st
     \<and> map fst (gs_timers st) = (if gs_active st then [] else [ping_timeout_timer st]) \<and> asn_clear st (gs_rows st)"

lemma gtk_ok_update [simp]:
  "gtk_ok (st\<lparr>gs_dns := d\<rparr>) = gtk_ok st" "gtk_ok (st\<lparr>gs_net := s\<rparr>) = gtk_ok st" "gtk_ok (st\<lparr>gs_reply := buf\<rparr>) = gtk_ok st"
  "gtk_ok (st\<lparr>gs_entry := t\<rparr>) = gtk_ok st" "gtk_ok (st\<lparr>gs_spin := v\<rparr>) = gtk_ok st" "gtk_ok (st\<lparr>gtk_data := p\<rparr>) = gtk_ok st"
  "gtk_ok (st\<lparr>gs_menu := m\<rparr>) = gtk_ok st" "gtk_ok (st\<lparr>gs_clipboard := c\<rparr>) = gtk_ok st" "gtk_ok (st\<lparr>gs_quit := q\<rparr>) = gtk_ok st"
  by (simp_all add: gtk_ok_def asn_clear_def)

lemma update_tree_row_asn:
  assumes "update_tree_row env i row new_row st = (r, st')"
  shows "asn_clear st [r]"
proof -
  obtain name st1 where n: "row_name env i (net_addr (gs_net st) row) st = (name, st1)" by force
  then show ?thesis
    using assms redrawn_printii [OF row_name_redrawn [OF n]]
    by (auto simp: update_tree_row_def Let_def asn_clear_def new_row_def split: if_splits prod.splits)
qed

lemma append_rows_asn: "append_rows env i mx (row, st) = (rs, st') \<Longrightarrow> asn_clear st rs"
proof (induction "nat (mx - row)" arbitrary: row st rs st')
  case 0
  then show ?case by (simp add: append_rows.simps [of env i mx row] asn_clear_def)
next
  case (Suc n)
  obtain r1 st1 where u: "update_tree_row env i row new_row st = (r1, st1)" by force
  obtain rs2 st2 where v: "append_rows env i mx (row + 1, st1) = (rs2, st2)" by force
  have rs: "rs = r1 # rs2" using Suc.prems Suc.hyps(2) u v by (auto simp: append_rows.simps [of env i mx row] split: if_splits)
  have "n = nat (mx - (row + 1))" using Suc.hyps(2) by simp
  from Suc.hyps(1) [OF this v] have "asn_clear st1 rs2" .
  then show ?case
    using update_tree_row_asn [OF u] redrawn_printii [OF update_tree_row_redrawn [OF u]] by (auto simp: asn_clear_def rs)
qed

lemma gtk_redraw_asn:
  assumes "asn_clear st (gs_rows st)"
  shows "asn_clear (gtk_redraw env i st) (gs_rows (gtk_redraw env i st))"
proof -
  obtain rs st1 where a: "append_rows env i (net_max (gs_ctl st) (gs_net st)) (net_min (gs_ctl st), st) = (rs, st1)" by force
  show ?thesis
    using append_rows_asn [OF a] redrawn_printii [OF gtk_redraw_redrawn, of env i st]
    by (simp add: gtk_redraw_append [OF assms] a asn_clear_def)
qed

lemma redraw_ok: "gtk_ok st \<Longrightarrow> gtk_ok (gtk_redraw env i st)"
  by (simp add: gtk_ok_def gtk_redraw_asn)

lemma add_timeout_ok:
  assumes "gs_timers st = []" "asn_clear st (gs_rows st)"
  shows "gtk_ok ((gtk_add_ping_timeout env i st)\<lparr>gs_paused := gs_active st\<rparr>)"
    "gs_active (gtk_add_ping_timeout env i st) = gs_active st" "gs_paused (gtk_add_ping_timeout env i st) = gs_paused st"
  using assms gtk_redraw_asn [OF assms(2), of env i]
  by (auto simp: gtk_add_ping_timeout_def gtk_ok_def asn_clear_def g_timeout_add_def Let_def)

lemma remove_timer: "gtk_ok st \<Longrightarrow> gs_timers (g_source_remove (ping_timeout_timer st) st) = []"
  by (auto simp: gtk_ok_def g_source_remove_def filter_empty_conv split: if_splits)

lemma click_pause_ok:
  assumes "gtk_ok st"
  shows "gtk_ok (click_pause env i st)" "gs_active (click_pause env i st) = (\<not> gs_active st)"
proof -
  let ?st = "st\<lparr>gs_active := \<not> gs_active st\<rparr>"
  have a: "asn_clear ?st (gs_rows ?st)" "gs_paused st = gs_active st" using assms by (simp_all add: gtk_ok_def asn_clear_def)
  have "gtk_ok (click_pause env i st) \<and> gs_active (click_pause env i st) = (\<not> gs_active st)"
  proof (cases "gs_paused st")
    case True
    then have "gs_timers ?st = []" using assms by (auto simp: gtk_ok_def)
    from add_timeout_ok [OF this a(1), of env i] show ?thesis
      using True a(2) by (simp add: click_pause_def on_pause_def Let_def redraw_ok)
  next
    case False
    then have "gtk_ok (g_source_remove (ping_timeout_timer st) ?st\<lparr>gs_paused := True\<rparr>)"
      using assms remove_timer [OF assms] by (simp add: gtk_ok_def g_source_remove_def asn_clear_def)
    then show ?thesis using False a(2) by (simp add: click_pause_def on_pause_def Let_def redraw_ok g_source_remove_def)
  qed
  then show "gtk_ok (click_pause env i st)" "gs_active (click_pause env i st) = (\<not> gs_active st)" by simp_all
qed

lemma set_active_ok: "gtk_ok st \<Longrightarrow> ge_clicks env \<Longrightarrow> gtk_ok (gtk_toggle_button_set_active env i b st)"
  by (simp add: gtk_toggle_button_set_active_def click_pause_ok)

lemma send_batch_printii:
  "net_send_batch env write_ok fp r1 r2 ctl s = Inr (v, ctl', s') \<Longrightarrow> is_printii ctl' = is_printii ctl"
  by (auto simp: net_send_batch_def choose_packet_def Let_def and_then_Inr is_printii_def split: if_splits)

lemma reopen_printii:
  "net_reopen env write_ok fp r1 r2 fam a ctl s = Inr (ctl', s') \<Longrightarrow> is_printii ctl' = is_printii ctl"
  by (auto simp: net_reopen_def Let_def and_then_Inr split: if_splits dest: send_batch_printii)

lemma gtk_lift_Inr: "gtk_lift r = Inr x \<longleftrightarrow> r = Inr x"
  by (cases r) auto

lemma on_wait_ok:
  assumes "gtk_ok st" "on_wait_time env i st = Inr st'"
  shows "gtk_ok st'"
proof -
  let ?st = "g_source_remove (ping_timeout_timer st) (st\<lparr>gs_ctl := (gs_ctl st)\<lparr>WaitTime := rndf (ge_fp env) (gs_spin st)\<rparr>\<rparr>)"
  have t: "gs_timers ?st = []" "asn_clear ?st (gs_rows ?st)" "gs_paused ?st = gs_active ?st"
    using assms(1) remove_timer [OF assms(1)] by (simp_all add: gtk_ok_def g_source_remove_def asn_clear_def is_printii_def)
  have "gtk_ok (gtk_add_ping_timeout env i ?st)" using add_timeout_ok [OF t(1,2), of env i] t(3) by (simp add: gtk_ok_def asn_clear_def)
  then show ?thesis using assms(2) by (auto simp: on_wait_time_def Let_def redraw_ok split: if_splits)
qed

lemma on_host_ok:
  assumes "gtk_ok st" "ge_clicks env" "on_host env i st = Inr st'"
  shows "gtk_ok st'"
proof (cases "gi_forward i (gs_entry st)")
  case None
  with assms(3) set_active_ok [OF assms(1,2), of i True] show ?thesis
    by (auto simp: on_host_def Let_def gtk_ok_def asn_clear_def)
next
  case (Some h)
  then obtain ctl s where r: "net_reopen (ge_inet env) (gi_write i) (ge_fp env) (fst (gi_rand i)) (snd (gi_rand i))
      (h_addrtype h) (h_address h) (gs_ctl st) (gs_net st) = Inr (ctl, s)"
    and st': "st' = gtk_toggle_button_set_active env i False (st\<lparr>gs_ctl := ctl, gs_net := s\<rparr>)"
    using assms(3) by (auto simp: on_host_def and_then_Inr gtk_lift_Inr)
  have "gtk_ok (st\<lparr>gs_ctl := ctl, gs_net := s\<rparr>)" using assms(1) reopen_printii [OF r] by (simp add: gtk_ok_def asn_clear_def)
  then show ?thesis unfolding st' using assms(2) by (rule set_active_ok)
qed

lemma gtk_ping_ok:
  assumes "gtk_ok st" "gtk_ping env i st = Inr st'"
  shows "gtk_ok st'"
proof -
  let ?st = "gtk_redraw env i st"
  obtain v ctl s where b: "net_send_batch (ge_inet env) (gi_write i) (ge_fp env) (fst (gi_rand i)) (snd (gi_rand i))
      (gs_ctl ?st) (gs_net ?st) = Inr (v, ctl, s)"
    and st': "st' = gtk_add_ping_timeout env i (g_source_remove (ping_timeout_timer ?st) (?st\<lparr>gs_ctl := ctl, gs_net := s\<rparr>))"
    using assms(2) by (auto simp: gtk_ping_def Let_def and_then_Inr gtk_lift_Inr)
  let ?st2 = "g_source_remove (ping_timeout_timer ?st) (?st\<lparr>gs_ctl := ctl, gs_net := s\<rparr>)"
  have ok: "gtk_ok ?st" using assms(1) by (rule redraw_ok)
  have t: "gs_timers ?st2 = []" "asn_clear ?st2 (gs_rows ?st2)" "gs_paused ?st2 = gs_active ?st2"
    using ok remove_timer [OF ok] send_batch_printii [OF b] by (auto simp: gtk_ok_def g_source_remove_def asn_clear_def)
  show ?thesis unfolding st' using add_timeout_ok [OF t(1,2), of env i] t(3) by (simp add: gtk_ok_def asn_clear_def)
qed

lemmas toolbar_eval = emit_def connected_def Toolbar_fill_def button_named_def

lemma button_step:
  "emit env i (button_named t) ''clicked'' st =
     (if t = ''gtk-quit'' then Inr (st\<lparr>gs_quit := True\<rparr>) else if t = ''_Restart'' then Inr (on_restart env i st)
      else if t = ''_Pause'' then Inr (on_pause env i st) else Inr st)"
  by (simp add: toolbar_eval)

lemma spin_step:
  "emit env i is_spin ''value_changed'' st = on_wait_time env i st"
  by (simp add: toolbar_eval is_spin_def)

lemma entry_step: "emit env i (\<lambda>w. ti_kind w = TextEntry) ''activate'' st = on_host env i st"
  by (simp add: toolbar_eval)

lemmas gtk_events = button_step spin_step entry_step

lemma gtk_net_dataE:
  assumes "gtk_net_data env available st = Inr st'"
  obtains buf s where "net_process_return (ge_inet env) (ge_fp env) (gs_ctl st) available (gs_reply st) (gs_net st) = Inr (buf, s)"
    "st' = st\<lparr>gs_reply := buf, gs_net := s\<rparr>"
  using assms by (auto simp: gtk_net_data_def and_then_Inr gtk_lift_Inr)

lemma on_new_destinationE:
  assumes "on_new_destination env i st = Inr s1"
  shows "s1 = st\<lparr>gtk_data := FreedPointer\<rparr> \<or> (\<exists>h. on_host env i (st\<lparr>gtk_data := FreedPointer, gs_entry := h\<rparr>) = Inr s1)"
  using assms by (auto simp: on_new_destination_def Let_def split: gtk_pointer.splits option.splits)

lemma gtk_step_ok:
  assumes "gtk_step env st (Inr st')" "ge_clicks env" "gtk_ok st"
  shows "gtk_ok st'"
  using assms(1)
proof (cases rule: gtk_step.cases)
  case (timer n ms i)
  then show ?thesis using gtk_ping_ok [OF assms(3)] by simp
next
  case (replies available)
  then obtain buf s where "st' = st\<lparr>gs_reply := buf, gs_net := s\<rparr>" using gtk_net_dataE by metis
  then show ?thesis using assms(3) by (simp add: gtk_ok_def asn_clear_def)
next
  case (names i uninit input)
  then show ?thesis using assms(3) by (simp add: gtk_dns_data_def redraw_ok)
next
  case (button t i)
  then show ?thesis using assms(3) by (auto simp: button_step on_restart_def intro!: redraw_ok split: if_splits)
next
  case (toggle i)
  then show ?thesis using click_pause_ok(1) [OF assms(3), of env i] by (simp add: button_step click_pause_def)
next
  case (spin v i)
  then show ?thesis using assms(3) on_wait_ok [of "st\<lparr>gs_spin := v\<rparr>"] by (simp add: spin_step)
next
  case (entry i t)
  then show ?thesis using assms(3) on_host_ok [OF _ assms(2), of "st\<lparr>gs_entry := t\<rparr>"] by (simp add: entry_step)
next
  case (row_clicked press b path)
  then show ?thesis using assms(3) by (auto simp: on_tree_click_def split: option.splits)
next
  case (copy path i)
  then show ?thesis using assms(3) by (auto simp: on_copy_def Let_def split: option.splits)
next
  case (destination path i)
  then obtain s1 where s1: "on_new_destination env i st = Inr s1" "st' = s1\<lparr>gs_menu := None\<rparr>"
    by (cases "on_new_destination env i st") auto
  have "gtk_ok s1" using on_new_destinationE [OF s1(1)] assms(3)
    by (auto dest!: on_host_ok [OF _ assms(2), rotated])
  then show ?thesis by (simp add: s1(2))
qed (use assms(3) in auto)

lemma gtk_start_ok: "gtk_ok (gtk_loop env i (gtk_open ctl s buf d a))"
proof -
  let ?st = "gtk_open ctl s buf d a"
  have t: "gs_timers ?st = []" "asn_clear ?st (gs_rows ?st)" "gs_paused ?st = gs_active ?st" by (simp_all add: gtk_open_def asn_clear_def)
  show ?thesis using add_timeout_ok [OF t(1,2), of env i] t(3) by (simp add: gtk_loop_def gtk_ok_def asn_clear_def)
qed

lemma gtk_reach_ok:
  assumes "gtk_reach env (gtk_open ctl s buf d a) st" "ge_clicks env"
  shows "gtk_ok st"
  using assms(1) by induction (auto intro: gtk_start_ok gtk_step_ok [OF _ assms(2)])

text \<open>C30: The window has one timer. In every state that the events can lead to, the next probe is due by exactly one
  timer, the one that \<open>ping_timeout_timer\<close> names, when the program is not paused, and by none when it is; and the
  button is pressed in exactly when it is paused, also after a host that was not found.\<close>

theorem one_timer:
  assumes "gtk_reach env (gtk_open ctl s buf d a) st" and "ge_clicks env"
  shows "map fst (gs_timers st) = (if gs_paused st then [] else [ping_timeout_timer st]) \<and> gs_active st = gs_paused st"
  using gtk_reach_ok [OF assms] by (simp add: gtk_ok_def)

text \<open>C31: A redraw shows the hops. Afterwards there is one row for each hop from the first to the last that is
  known, in order; under each title stands the value of that hop, in milliseconds where it is a time, and the
  row is red when the hop did not answer. The rows of before make no difference.\<close>

theorem redraw_shows_hops:
  assumes "gtk_reach env (gtk_open ctl s buf d a) st" and "ge_clicks env"
  shows "length (gs_rows (gtk_redraw env i st)) = nat (net_max (gs_ctl st) (gs_net st) - net_min (gs_ctl st))
    \<and> (\<forall>k < length (gs_rows (gtk_redraw env i st)).
         shows_hop env (gs_ctl st) (gs_net st) (net_min (gs_ctl st) + int k) (gs_rows (gtk_redraw env i st) ! k))
    \<and> gtk_redraw env i st = gtk_redraw env i (st\<lparr>gs_rows := []\<rparr>)"
proof -
  have c: "asn_clear st (gs_rows st)" using gtk_reach_ok [OF assms] by (simp add: gtk_ok_def)
  have e: "asn_clear (st\<lparr>gs_rows := []\<rparr>) []" by (simp add: asn_clear_def)
  obtain rs st1 where a: "append_rows env i (net_max (gs_ctl st) (gs_net st)) (net_min (gs_ctl st), st) = (rs, st1)" by force
  show ?thesis
    using append_rows_show [OF a] gtk_redraw_append [of "st\<lparr>gs_rows := []\<rparr>" env i] e
    by (simp add: gtk_redraw_append [OF c] append_rows_rows a)
qed

section \<open>The tables\<close>

text \<open>The part of the state that \<open>NetInv\<close> has.\<close>

abbreviation tables :: "gtk_state \<Rightarrow> net_config" where
  "tables st \<equiv> (gs_ctl st, gs_reply st, gs_net st)"

definition tracks :: "gtk_env \<Rightarrow> gtk_state \<Rightarrow> bool" where
  "tracks env st \<longleftrightarrow> inet_ok (ge_inet env) \<and> (\<forall>h \<in> ge_hosts env. h_addrtype h = AF_INET \<and> length (h_address h) = 4)
     \<and> net_reach (ge_inet env) (ge_fp env) (tables st) \<and> af (gs_ctl st) = AF_INET"

lemma tracks_update [simp]:
  "tracks env (st\<lparr>gs_dns := d\<rparr>) = tracks env st" "tracks env (st\<lparr>gs_entry := t\<rparr>) = tracks env st"
  "tracks env (st\<lparr>gs_spin := v\<rparr>) = tracks env st" "tracks env (st\<lparr>gtk_data := p\<rparr>) = tracks env st"
  "tracks env (st\<lparr>gs_menu := m\<rparr>) = tracks env st" "tracks env (st\<lparr>gs_clipboard := c\<rparr>) = tracks env st"
  "tracks env (st\<lparr>gs_quit := q\<rparr>) = tracks env st" "tracks env (st\<lparr>gs_timers := tm\<rparr>) = tracks env st"
  "tracks env (st\<lparr>ping_timeout_timer := n\<rparr>) = tracks env st" "tracks env (st\<lparr>gs_active := b\<rparr>) = tracks env st"
  "tracks env (st\<lparr>gs_paused := b\<rparr>) = tracks env st" "tracks env (g_source_remove k st) = tracks env st"
  by (simp_all add: tracks_def g_source_remove_def)

lemma tracks_options:
  assumes "tracks env st" "ctl_ok (gs_ctl st) \<Longrightarrow> ctl_ok ctl" "af ctl = af (gs_ctl st)"
  shows "net_reach (ge_inet env) (ge_fp env) (ctl, gs_reply st, gs_net st)"
proof -
  have r: "net_reach (ge_inet env) (ge_fp env) (tables st)" and inet: "inet_ok (ge_inet env)" using assms(1) by (simp_all add: tracks_def)
  then have "ctl_ok ctl" using net_reach_ok [OF r inet] assms(2) by simp
  from reach_step [OF r net_step.step_options [OF this assms(3)]] show ?thesis .
qed

lemma tracks_redraw:
  assumes "tracks env st"
  shows "tracks env (gtk_redraw env i st)"
proof -
  note c = redrawn_ctl [OF gtk_redraw_redrawn, of env i st]
  have "net_reach (ge_inet env) (ge_fp env) (gs_ctl (gtk_redraw env i st), gs_reply st, gs_net st)"
    using c by (intro tracks_options [OF assms]) (simp_all add: ctl_ok_def)
  then show ?thesis using assms c(3) by (simp add: tracks_def)
qed

lemma tracks_timeout: "tracks env st \<Longrightarrow> tracks env (gtk_add_ping_timeout env i st)"
  by (simp add: gtk_add_ping_timeout_def g_timeout_add_def Let_def tracks_redraw)

lemma tracks_pause: "tracks env st \<Longrightarrow> tracks env (on_pause env i st)"
  by (simp add: on_pause_def Let_def tracks_redraw tracks_timeout)

lemma tracks_set_active: "tracks env st \<Longrightarrow> tracks env (gtk_toggle_button_set_active env i b st)"
  by (simp add: gtk_toggle_button_set_active_def click_pause_def tracks_pause)

lemma tracks_wait:
  assumes "tracks env st" "on_wait_time env i st = Inr st'"
  shows "tracks env st'"
proof -
  have "tracks env (st\<lparr>gs_ctl := (gs_ctl st)\<lparr>WaitTime := rndf (ge_fp env) (gs_spin st)\<rparr>\<rparr>)"
    using tracks_options [OF assms(1), of "(gs_ctl st)\<lparr>WaitTime := rndf (ge_fp env) (gs_spin st)\<rparr>"] assms(1)
    by (simp add: tracks_def ctl_ok_def)
  then show ?thesis
    using assms(2) by (auto simp: on_wait_time_def Let_def tracks_redraw tracks_timeout split: if_splits)
qed

lemma tracks_host:
  assumes "tracks env st" "answers env i" "on_host env i st = Inr st'"
  shows "tracks env st'"
proof (cases "gi_forward i (gs_entry st)")
  case None
  then show ?thesis using assms by (auto simp: on_host_def Let_def tracks_set_active)
next
  case (Some h)
  then obtain ctl s where r: "net_reopen (ge_inet env) (gi_write i) (ge_fp env) (fst (gi_rand i)) (snd (gi_rand i))
      (h_addrtype h) (h_address h) (gs_ctl st) (gs_net st) = Inr (ctl, s)"
    and st': "st' = gtk_toggle_button_set_active env i False (st\<lparr>gs_ctl := ctl, gs_net := s\<rparr>)"
    using assms(3) by (auto simp: on_host_def and_then_Inr gtk_lift_Inr)
  have h: "h_addrtype h = af (gs_ctl st)" "addr_len (af (gs_ctl st)) \<le> length (h_address h)"
    using Some assms(1,2) by (auto simp: answers_def tracks_def addr_len_def)
  have reach: "net_reach (ge_inet env) (ge_fp env) (tables st)" and inet: "inet_ok (ge_inet env)" using assms(1) by (simp_all add: tracks_def)
  have ok: "net_ok (gs_ctl st) (gs_net st)" "ctl_ok (gs_ctl st)" using net_reach_ok [OF reach inet] by simp_all
  have "net_reach (ge_inet env) (ge_fp env) (ctl, gs_reply st, s)"
    using reach_step [OF reach net_step.step_reopen] r h by metis
  moreover have "af ctl = AF_INET" using net_reopen_ok r h ok assms(1) by (metis tracks_def)
  ultimately have "tracks env (st\<lparr>gs_ctl := ctl, gs_net := s\<rparr>)" using assms(1) by (simp add: tracks_def)
  then show ?thesis unfolding st' by (rule tracks_set_active)
qed

lemma tracks_ping:
  assumes "tracks env st" "gtk_ping env i st = Inr st'"
  shows "tracks env st'"
proof -
  let ?st = "gtk_redraw env i st"
  obtain v ctl s where b: "net_send_batch (ge_inet env) (gi_write i) (ge_fp env) (fst (gi_rand i)) (snd (gi_rand i))
      (gs_ctl ?st) (gs_net ?st) = Inr (v, ctl, s)"
    and st': "st' = gtk_add_ping_timeout env i (g_source_remove (ping_timeout_timer ?st) (?st\<lparr>gs_ctl := ctl, gs_net := s\<rparr>))"
    using assms(2) by (auto simp: gtk_ping_def Let_def and_then_Inr gtk_lift_Inr)
  have t: "tracks env ?st" using assms(1) by (rule tracks_redraw)
  then have reach: "net_reach (ge_inet env) (ge_fp env) (tables ?st)" and inet: "inet_ok (ge_inet env)" by (simp_all add: tracks_def)
  have ok: "net_ok (gs_ctl ?st) (gs_net ?st)" "ctl_ok (gs_ctl ?st)" using net_reach_ok [OF reach inet] by simp_all
  have "net_reach (ge_inet env) (ge_fp env) (ctl, gs_reply ?st, s)" using reach_step [OF reach net_step.step_batch [OF b]] .
  moreover have "af ctl = AF_INET" using net_send_batch_ok [OF ok b] t by (simp add: tracks_def)
  ultimately have "tracks env (?st\<lparr>gs_ctl := ctl, gs_net := s\<rparr>)" using t by (simp add: tracks_def)
  then show ?thesis unfolding st' by (intro tracks_timeout) simp
qed

lemma tracks_step:
  assumes "gtk_step env st (Inr st')" "tracks env st"
  shows "tracks env st'"
  using assms(1)
proof (cases rule: gtk_step.cases)
  case (timer n ms i)
  then show ?thesis using tracks_ping [OF assms(2)] by simp
next
  case (replies available)
  then obtain buf s where r: "net_process_return (ge_inet env) (ge_fp env) (gs_ctl st) available (gs_reply st) (gs_net st) = Inr (buf, s)"
    "st' = st\<lparr>gs_reply := buf, gs_net := s\<rparr>" using gtk_net_dataE by metis
  have "net_reach (ge_inet env) (ge_fp env) (tables st)" using assms(2) by (simp add: tracks_def)
  from reach_step [OF this net_step.step_return [OF r(1)]] show ?thesis using assms(2) r(2) by (simp add: tracks_def)
next
  case (names i uninit input)
  then show ?thesis using assms(2) by (simp add: gtk_dns_data_def tracks_redraw)
next
  case (button t i)
  have "net_reach (ge_inet env) (ge_fp env) (tables st)" using assms(2) by (simp add: tracks_def)
  from reach_step [OF this net_step.step_reset] have "tracks env (st\<lparr>gs_net := net_reset (gs_ctl st) (gs_net st)\<rparr>)"
    using assms(2) by (simp add: tracks_def)
  then show ?thesis using button assms(2) by (auto simp: button_step on_restart_def intro!: tracks_redraw split: if_splits)
next
  case (toggle i)
  then show ?thesis using tracks_pause assms(2) by (simp add: button_step)
next
  case (spin v i)
  then show ?thesis using tracks_wait [of env "st\<lparr>gs_spin := v\<rparr>"] assms(2) by (simp add: spin_step)
next
  case (entry i t)
  then show ?thesis using tracks_host [of env "st\<lparr>gs_entry := t\<rparr>"] assms(2) by (simp add: entry_step)
next
  case (row_clicked press b path)
  then show ?thesis using assms(2) by (auto simp: on_tree_click_def split: option.splits)
next
  case (copy path i)
  then show ?thesis using assms(2) by (auto simp: on_copy_def Let_def split: option.splits)
next
  case (destination path i)
  then obtain s1 where s1: "on_new_destination env i st = Inr s1" "st' = s1\<lparr>gs_menu := None\<rparr>"
    by (cases "on_new_destination env i st") auto
  have "tracks env s1" using on_new_destinationE [OF s1(1)] assms(2)
    by (auto dest!: tracks_host [OF _ destination(3), rotated])
  then show ?thesis by (simp add: s1(2))
qed (use assms(2) in auto)

lemma tracks_reach:
  assumes "gtk_reach env st0 st" "tracks env st0"
  shows "tracks env st"
  using assms(1) by induction (auto simp: gtk_loop_def intro: tracks_timeout assms(2) tracks_step)

text \<open>C32: The window keeps to the tables. Every state of the tables that the events of the window lead to is one
  that \<open>net_reach\<close> allows, provided that the session is over IPv4, the only family \<open>gethostbyname\<close> answers
  with.\<close>

theorem gtk_refines_net:
  assumes "inet_ok (ge_inet env)" and "\<forall>h \<in> ge_hosts env. h_addrtype h = AF_INET \<and> length (h_address h) = 4"
    and "af ctl = AF_INET" and "net_reach (ge_inet env) (ge_fp env) (ctl, buf, s)"
    and "gtk_reach env (gtk_open ctl s buf d a) st"
  shows "net_reach (ge_inet env) (ge_fp env) (tables st)"
proof -
  have "tracks env (gtk_open ctl s buf d a)" using assms(1-4) by (simp add: tracks_def gtk_open_def)
  from tracks_reach [OF assms(5) this] show ?thesis by (simp add: tracks_def)
qed

section \<open>The pointer\<close>

lemma gtk_data_same [simp]:
  "gtk_data (g_source_remove n st) = gtk_data st" "gtk_data (gtk_add_ping_timeout env i st) = gtk_data st"
  "gtk_data (on_pause env i st) = gtk_data st" "gtk_data (gtk_toggle_button_set_active env i b st) = gtk_data st"
proof -
  show r: "gtk_data (g_source_remove n st) = gtk_data st" for n st by (simp add: g_source_remove_def)
  show a: "gtk_data (gtk_add_ping_timeout env i st) = gtk_data st" for st
    by (simp add: gtk_add_ping_timeout_def g_timeout_add_def Let_def)
  show p: "gtk_data (on_pause env i st) = gtk_data st" for st by (simp add: on_pause_def Let_def r a)
  show "gtk_data (gtk_toggle_button_set_active env i b st) = gtk_data st"
    by (simp add: gtk_toggle_button_set_active_def click_pause_def p)
qed

lemma on_host_data: "on_host env i st = Inr st' \<Longrightarrow> gtk_data st' = gtk_data st"
  by (auto simp: on_host_def Let_def and_then_Inr split: option.splits)

lemma gtk_ping_data: "gtk_ping env i st = Inr st' \<Longrightarrow> gtk_data st' = gtk_data st"
  by (auto simp: gtk_ping_def Let_def and_then_Inr)

lemma gtk_step_data:
  assumes "gtk_step env st (Inr st')" "gtk_data st \<noteq> SpinPointer"
  shows "gtk_data st' \<noteq> SpinPointer"
  using assms(1)
proof (cases rule: gtk_step.cases)
  case (timer n ms i)
  then show ?thesis using assms(2) gtk_ping_data [of env i st st'] by simp
next
  case (replies available)
  then obtain buf s where "st' = st\<lparr>gs_reply := buf, gs_net := s\<rparr>" using gtk_net_dataE by metis
  then show ?thesis using assms(2) by simp
next
  case (names i uninit input)
  then show ?thesis using assms(2) by (simp add: gtk_dns_data_def)
next
  case (button t i)
  then show ?thesis using assms(2) by (auto simp: button_step on_restart_def split: if_splits)
next
  case (toggle i)
  then show ?thesis using assms(2) by (simp add: button_step)
next
  case (spin v i)
  then show ?thesis using assms(2) by (simp add: spin_step on_wait_time_def)
next
  case (entry i t)
  then show ?thesis using assms(2) on_host_data [of env i "st\<lparr>gs_entry := t\<rparr>"] by (simp add: entry_step)
next
  case (row_clicked press b path)
  then show ?thesis using assms(2) by (auto simp: on_tree_click_def split: option.splits)
next
  case (copy path i)
  then show ?thesis using assms(2) by (auto simp: on_copy_def Let_def split: option.splits if_splits)
next
  case (destination path i)
  then obtain s1 where s1: "on_new_destination env i st = Inr s1" "st' = s1\<lparr>gs_menu := None\<rparr>"
    by (cases "on_new_destination env i st") auto
  have "gtk_data s1 = FreedPointer" using on_new_destinationE [OF s1(1)] by (auto dest: on_host_data)
  then show ?thesis by (simp add: s1(2))
qed (use assms(2) in auto)

text \<open>C33: The menu breaks the spin button. After a right click on a row, whatever happens then, a change of the
  interval takes \<open>gtk_data\<close> for the spin button, and it is not.\<close>

theorem menu_breaks_spin:
  "(\<lambda>a b. gtk_step env a (Inr b))\<^sup>*\<^sup>* (on_tree_click True 3 (Some path) st) st' \<Longrightarrow>
     emit env i is_spin ''value_changed'' (st'\<lparr>gs_spin := v\<rparr>) = Inl WrongPointer"
proof -
  assume "(\<lambda>a b. gtk_step env a (Inr b))\<^sup>*\<^sup>* (on_tree_click True 3 (Some path) st) st'"
  then have "gtk_data st' \<noteq> SpinPointer"
    by induction (auto simp: on_tree_click_def dest: gtk_step_data)
  then show ?thesis by (simp add: spin_step on_wait_time_def)
qed

section \<open>A window\<close>

text \<open>A target that is the first hop; four probes were sent to it.\<close>

definition window_env :: gtk_env where
  "window_env = \<lparr>ge_inet = sample_inet, ge_fp = exact_fp, ge_resolver = no_resolver, ge_root = False, ge_hosts = {}, ge_clicks = True\<rparr>"

definition window_in :: gtk_in where
  "window_in = \<lparr>gi_write = \<lambda>_. True, gi_dns_write = \<lambda>_. True, gi_rand = (0, 0), gi_forward = \<lambda>_. None, gi_timer = 7\<rparr>"

definition window_net :: net where
  "window_net = (net_reset test_ctl empty_net)\<lparr>host := (\<lambda>h. if h = 0
     then template_host\<lparr>h_addr := remoteaddress empty_net, h_xmit := 4\<rparr> else template_host)\<rparr>"

abbreviation window_open :: "net \<Rightarrow> gtk_state" where
  "window_open s \<equiv> gtk_open test_ctl s [] empty_dns no_asn"

abbreviation window_start :: "net \<Rightarrow> gtk_state" where
  "window_start s \<equiv> gtk_loop window_env window_in (window_open s)"

lemma window_started: "gtk_reach window_env (window_open s) (window_start s)"
  by (rule gtk_reach.start)

lemma window_clicks: "ge_clicks window_env"
  by (simp add: window_env_def)

lemma window_max:
  assumes "redrawn (window_open window_net) st"
  shows "net_max (gs_ctl st) window_net = 1" "net_min (gs_ctl st) = 0"
proof -
  let ?a = "remoteaddress empty_net"
  have a: "addrcmp ?a ?a AF_INET = 0" "addrcmp ?a zero_ip AF_INET \<noteq> 0"
    by (simp_all add: empty_net_def addrcmp_def zero_ip_def addr_len_def numeral_nat)
  note c = redrawn_ctl [OF assms]
  show "net_max (gs_ctl st) window_net = 1" "net_min (gs_ctl st) = 0"
    using a c by (simp_all add: net_max_def net_min_def net_max_loop.simps window_net_def net_reset_def gtk_open_def
        test_ctl_def default_ctl_def template_host_def)
qed

lemma window_start_net: "gs_net (window_start s) = s" "gs_paused (window_start s) = False" "gs_quit (window_start s) = False"
  "redrawn (window_open s) ((window_start s)\<lparr>gs_timers := [], ping_timeout_timer := 0\<rparr>)"
  using gtk_redraw_redrawn [where st = "window_open s" and env = window_env and i = window_in]
  by (auto simp: gtk_loop_def gtk_add_ping_timeout_def g_timeout_add_def Let_def gtk_open_def kept_def)

theorem one_timer_witness:
  "\<exists>st. gtk_reach window_env (window_open empty_net) st \<and> gs_paused st \<and> gs_timers st = []"
proof -
  let ?st = "window_start empty_net"
  have "gtk_step window_env ?st (emit window_env window_in (button_named ''_Pause'') ''clicked'' (?st\<lparr>gs_active := \<not> gs_active ?st\<rparr>))"
    by (rule gtk_step.toggle)
  then have "gtk_step window_env ?st (Inr (click_pause window_env window_in ?st))" by (simp add: button_step click_pause_def)
  with window_started have r: "gtk_reach window_env (window_open empty_net) (click_pause window_env window_in ?st)"
    using window_start_net(3) gtk_reach.step by blast
  have "gs_paused (click_pause window_env window_in ?st)"
    using window_start_net(2) [of empty_net] by (simp add: click_pause_def on_pause_def Let_def g_source_remove_def)
  with r one_timer [OF r window_clicks] show ?thesis by auto
qed

theorem redraw_shows_hops_witness:
  "\<exists>r. gs_rows (gtk_redraw window_env window_in (window_start window_net)) = [r]
     \<and> shows_hop window_env (gs_ctl (window_start window_net)) window_net 0 r"
proof -
  let ?st = "window_start window_net"
  have m: "net_max (gs_ctl ?st) window_net = 1" "net_min (gs_ctl ?st) = 0"
    using window_max [OF window_start_net(4)] by simp_all
  note r = redraw_shows_hops [OF window_started [of window_net] window_clicks, where i = window_in]
  from m have "length (gs_rows (gtk_redraw window_env window_in ?st)) = 1"
    "\<forall>k < length (gs_rows (gtk_redraw window_env window_in ?st)). shows_hop window_env (gs_ctl ?st) window_net (int k) (gs_rows (gtk_redraw window_env window_in ?st) ! k)"
    using conjunct1 [OF r] conjunct1 [OF conjunct2 [OF r]]
    by (simp_all add: window_start_net)
  then show ?thesis by (cases "gs_rows (gtk_redraw window_env window_in ?st)") auto
qed

theorem gtk_refines_net_witness:
  "net_reach sample_inet exact_fp (tables (window_start (net_end_transit (net_reset test_ctl empty_net))))"
  using gtk_refines_net [of window_env test_ctl "[]" "net_end_transit (net_reset test_ctl empty_net)", OF _ _ _ _ window_started]
    sample_inet_ok empty_reach test_ctl_ok(2) by (simp add: window_env_def)

theorem menu_breaks_spin_witness:
  "emit window_env window_in is_spin ''value_changed''
     ((on_tree_click True 3 (Some 0) (window_start empty_net))\<lparr>gs_menu := None, gs_spin := 2\<rparr>) = Inl WrongPointer"
proof -
  let ?st = "on_tree_click True 3 (Some 0) (window_start empty_net)"
  have "(\<lambda>a b. gtk_step window_env a (Inr b))\<^sup>*\<^sup>* ?st (?st\<lparr>gs_menu := None\<rparr>)"
    by (rule r_into_rtranclp) (rule gtk_step.menu_closed)
  from menu_breaks_spin [OF this, of window_in 2] show ?thesis .
qed

end
