(* ===== verification/Getopt.thy ===== *)
theory Getopt
  imports Prelude
begin

text \<open>
  \<open>portability/getopt.c\<close> and \<open>getopt1.c\<close>: the scan of the arguments for systems whose library has none.
  The static variables and \<open>argv\<close> are a state; \<open>nextchar\<close> is a pointer into the argument that is
  scanned, here the text from there on. Messages are collected. \<open>argc\<close> is the length of \<open>argv\<close>.
\<close>

section \<open>State\<close>

datatype ordering = REQUIRE_ORDER | PERMUTE | RETURN_IN_ORDER

text \<open>\<open>has_arg\<close> is 0, 1 for a required and 2 for an optional argument; \<open>lo_flag\<close> names the variable that is
  set instead of returning the value.\<close>

record long_option =
  lo_name :: string
  has_arg :: nat
  lo_flag :: "nat option"
  lo_val :: int

record getopt_state =
  argv :: "string list"
  optind :: nat
  optarg :: "string option"
  nextchar :: "string option"
  opterr :: bool
  optopt :: int
  ordering :: ordering
  posixly_correct :: bool
  first_nonopt :: nat
  last_nonopt :: nat
  flag_vars :: "nat \<Rightarrow> int"
  longind :: "nat option"
  messages :: "string list"

abbreviation (input) EOF_CODE :: int where "EOF_CODE \<equiv> -1"

text \<open>The character at a place of a C string.\<close>

definition chr_at :: "string \<Rightarrow> nat \<Rightarrow> char" where
  "chr_at s n = (if n < length s then s ! n else NUL)"

definition dash :: "string \<Rightarrow> nat \<Rightarrow> bool" where
  "dash s n \<longleftrightarrow> chr_at s n = CHR ''-''"

text \<open>The text from the first place of a character on.\<close>

fun my_index :: "string \<Rightarrow> char \<Rightarrow> string option" where
  "my_index [] chr = None"
| "my_index (c # str) chr = (if c = chr then Some (c # str) else my_index str chr)"

text \<open>A \<open>char\<close> is signed.\<close>

definition char_code :: "char \<Rightarrow> int" where
  "char_code c = (let n = int (of_char c) in if n < 128 then n else n - 256)"

section \<open>Permutation of the arguments\<close>

text \<open>Two blocks of \<open>len\<close> elements, at \<open>i\<close> and \<open>j\<close>, change places element by element.\<close>

definition swap_block :: "nat \<Rightarrow> nat \<Rightarrow> nat \<Rightarrow> 'a list \<Rightarrow> 'a list" where
  "swap_block i j len a = fold (\<lambda>k a. a[i + k := a ! (j + k), j + k := a ! (i + k)]) [0..<len] a"

function exchange_loop :: "nat \<Rightarrow> nat \<Rightarrow> nat \<Rightarrow> 'a list \<Rightarrow> 'a list" where
  "exchange_loop lo mid hi a =
     (if mid < hi \<and> lo < mid then
        (if mid - lo < hi - mid
         then (let len = mid - lo in exchange_loop lo mid (hi - len) (swap_block lo (hi - len) len a))
         else (let len = hi - mid in exchange_loop (lo + len) mid hi (swap_block lo mid len a)))
      else a)"
  by pat_completeness auto
termination
  by (relation "measure (\<lambda>(b, m, t, a). t - b)") auto

declare exchange_loop.simps [simp del]

definition exchange :: "getopt_state \<Rightarrow> getopt_state" where
  "exchange st =
     st\<lparr>argv := exchange_loop (first_nonopt st) (last_nonopt st) (optind st) (argv st),
        first_nonopt := first_nonopt st + (optind st - last_nonopt st),
        last_nonopt := optind st\<rparr>"

section \<open>The next argument\<close>

text \<open>\<open>posix\<close> says whether \<open>POSIXLY_CORRECT\<close> is in the environment.\<close>

definition getopt_initialize :: "bool \<Rightarrow> string \<Rightarrow> getopt_state \<Rightarrow> string \<times> getopt_state" where
  "getopt_initialize posix optstring st =
     (let st = st\<lparr>first_nonopt := 1, last_nonopt := 1, optind := 1, nextchar := None, posixly_correct := posix\<rparr>
      in if dash optstring 0 then (tl optstring, st\<lparr>ordering := RETURN_IN_ORDER\<rparr>)
         else if chr_at optstring 0 = CHR ''+'' then (tl optstring, st\<lparr>ordering := REQUIRE_ORDER\<rparr>)
         else (optstring, st\<lparr>ordering := (if posix then REQUIRE_ORDER else PERMUTE)\<rparr>))"

definition nonoption :: "string \<Rightarrow> bool" where
  "nonoption a \<longleftrightarrow> \<not> dash a 0 \<or> chr_at a 1 = NUL"

function skip_nonoptions :: "string list \<Rightarrow> nat \<Rightarrow> nat" where
  "skip_nonoptions args n = (if n < length args \<and> nonoption (args ! n) then skip_nonoptions args (n + 1) else n)"
  by pat_completeness auto
termination
  by (relation "measure (\<lambda>(a, n). length a - n)") auto

declare skip_nonoptions.simps [simp del]

definition permute_step :: "getopt_state \<Rightarrow> getopt_state" where
  "permute_step st =
     (let st = (if first_nonopt st \<noteq> last_nonopt st \<and> last_nonopt st \<noteq> optind st then exchange st
                else if last_nonopt st \<noteq> optind st then st\<lparr>first_nonopt := optind st\<rparr> else st);
          n = skip_nonoptions (argv st) (optind st)
      in st\<lparr>optind := n, last_nonopt := n\<rparr>)"

text \<open>The argument \<open>--\<close> ends the options.\<close>

definition end_of_options :: "getopt_state \<Rightarrow> getopt_state" where
  "end_of_options st =
     (if optind st \<noteq> length (argv st) \<and> argv st ! optind st = ''--'' then
        (let st = st\<lparr>optind := optind st + 1\<rparr>;
             st = (if first_nonopt st \<noteq> last_nonopt st \<and> last_nonopt st \<noteq> optind st then exchange st
                   else if first_nonopt st = last_nonopt st then st\<lparr>first_nonopt := optind st\<rparr> else st)
         in st\<lparr>last_nonopt := length (argv st), optind := length (argv st)\<rparr>)
      else st)"

text \<open>Advancing to the next argument: either the value of the call, or an option to decode.\<close>

definition next_argument :: "bool \<Rightarrow> getopt_state \<Rightarrow> (int \<times> getopt_state) + getopt_state" where
  "next_argument has_long st =
     (let st = (if ordering st = PERMUTE then permute_step st else st);
          st = end_of_options st
      in if optind st = length (argv st) then
           Inl (EOF_CODE, if first_nonopt st \<noteq> last_nonopt st then st\<lparr>optind := first_nonopt st\<rparr> else st)
         else
           (let a = argv st ! optind st
            in if nonoption a then
                 Inl (if ordering st = REQUIRE_ORDER then (EOF_CODE, st)
                      else (1, st\<lparr>optarg := Some a, optind := optind st + 1\<rparr>))
               else Inr (st\<lparr>nextchar := Some (drop (if has_long \<and> dash a 1 then 2 else 1) a)\<rparr>)))"

section \<open>Long options\<close>

text \<open>The loop over the long options: the option found and its index, whether it is exact, whether
  the name is ambiguous.\<close>

fun match_long ::
  "string \<Rightarrow> nat \<Rightarrow> long_option list \<Rightarrow> (long_option \<times> nat) option \<Rightarrow> bool \<Rightarrow> (long_option \<times> nat) option \<times> bool \<times> bool" where
  "match_long name i [] pfound ambig = (pfound, False, ambig)"
| "match_long name i (p # ps) pfound ambig =
     (if take (length name) (lo_name p) = name then
        (if length name = length (lo_name p) then (Some (p, i), True, ambig)
         else if pfound = None then match_long name (i + 1) ps (Some (p, i)) ambig
         else match_long name (i + 1) ps pfound True)
      else match_long name (i + 1) ps pfound ambig)"

definition quoted :: "string \<Rightarrow> string" where
  "quoted s = CHR 0x60 # s @ [CHR 0x27]"

definition tell :: "string \<Rightarrow> getopt_state \<Rightarrow> getopt_state" where
  "tell msg st = (if opterr st then st\<lparr>messages := messages st @ [argv st ! 0 @ '': '' @ msg @ [NL]]\<rparr> else st)"

definition question :: int where "question = char_code (CHR ''?'')"

text \<open>The long option that was found; \<open>rest\<close> is the text from the end of the name on.\<close>

definition take_long ::
  "string \<Rightarrow> long_option \<times> nat \<Rightarrow> string \<Rightarrow> getopt_state \<Rightarrow> int \<times> getopt_state" where
  "take_long optstring = (\<lambda>(p, i) rest st.
     (let arg = argv st ! optind st;
          st = st\<lparr>optind := optind st + 1\<rparr>;
          finish = (\<lambda>st. (let st = st\<lparr>nextchar := Some [], longind := Some i\<rparr>
                          in case lo_flag p of
                               Some v \<Rightarrow> (0, st\<lparr>flag_vars := (flag_vars st)(v := lo_val p)\<rparr>)
                             | None \<Rightarrow> (lo_val p, st)))
      in if rest \<noteq> [] then
           (if has_arg p \<noteq> 0 then finish (st\<lparr>optarg := Some (tl rest)\<rparr>)
            else (question, (tell (''option '' @ quoted ((if dash arg 1 then ''--'' else [chr_at arg 0]) @ lo_name p)
                    @ '' doesn'' @ [CHR 0x27] @ ''t allow an argument'') st)\<lparr>nextchar := Some []\<rparr>))
         else if has_arg p = 1 then
           (if optind st < length (argv st)
            then finish (st\<lparr>optarg := Some (argv st ! optind st), optind := optind st + 1\<rparr>)
            else (if chr_at optstring 0 = CHR '':'' then char_code (CHR '':'') else question,
                  (tell (''option '' @ quoted arg @ '' requires an argument'') st)\<lparr>nextchar := Some []\<rparr>))
         else finish st))"

text \<open>The long options, for an argument that may be one: \<open>Inr\<close> goes on to the short options.\<close>

definition long_option ::
  "string \<Rightarrow> long_option list \<Rightarrow> bool \<Rightarrow> string \<Rightarrow> getopt_state \<Rightarrow> (int \<times> getopt_state) + getopt_state" where
  "long_option optstring longopts long_only nc st =
     (let name = takeWhile (\<lambda>c. c \<noteq> CHR ''='') nc;
          rest = drop (length name) nc;
          arg = argv st ! optind st
      in case match_long name 0 longopts None False of (pfound, exact, ambig) \<Rightarrow>
         if ambig \<and> \<not> exact then
           Inl (question, (tell (''option '' @ quoted arg @ '' is ambiguous'') st)\<lparr>nextchar := Some [], optind := optind st + 1\<rparr>)
         else (case pfound of
            Some p \<Rightarrow> Inl (take_long optstring p rest st)
          | None \<Rightarrow>
              if \<not> long_only \<or> dash arg 1 \<or> my_index optstring (chr_at nc 0) = None then
                Inl (question, (tell (''unrecognized option '' @ quoted ((if dash arg 1 then ''--'' else [chr_at arg 0]) @ nc)) st)
                       \<lparr>nextchar := Some [], optind := optind st + 1\<rparr>)
              else Inr st))"

section \<open>Short options\<close>

definition short_option :: "string \<Rightarrow> string \<Rightarrow> getopt_state \<Rightarrow> int \<times> getopt_state" where
  "short_option optstring nc st =
     (let c = chr_at nc 0; nc = tl nc; temp = my_index optstring c;
          st = st\<lparr>nextchar := Some nc\<rparr>;
          st = (if nc = [] then st\<lparr>optind := optind st + 1\<rparr> else st)
      in case temp of
           None \<Rightarrow> (question, (tell ((if posixly_correct st then ''illegal'' else ''invalid'') @ '' option -- '' @ [c]) st)\<lparr>optopt := char_code c\<rparr>)
         | Some temp \<Rightarrow>
             if c = CHR '':'' then
               (question, (tell ((if posixly_correct st then ''illegal'' else ''invalid'') @ '' option -- '' @ [c]) st)\<lparr>optopt := char_code c\<rparr>)
             else if chr_at temp 1 \<noteq> CHR '':'' then (char_code c, st)
             else if chr_at temp 2 = CHR '':'' then
               (char_code c, (if nc \<noteq> [] then st\<lparr>optarg := Some nc, optind := optind st + 1\<rparr> else st\<lparr>optarg := None\<rparr>)\<lparr>nextchar := None\<rparr>)
             else if nc \<noteq> [] then
               (char_code c, st\<lparr>optarg := Some nc, optind := optind st + 1, nextchar := None\<rparr>)
             else if optind st = length (argv st) then
               (if chr_at optstring 0 = CHR '':'' then char_code (CHR '':'') else question,
                (tell (''option requires an argument -- '' @ [c]) st)\<lparr>optopt := char_code c, nextchar := None\<rparr>)
             else (char_code c, st\<lparr>optarg := Some (argv st ! optind st), optind := optind st + 1, nextchar := None\<rparr>))"

section \<open>The call\<close>

definition may_be_long :: "string \<Rightarrow> bool \<Rightarrow> string \<Rightarrow> bool" where
  "may_be_long optstring long_only a \<longleftrightarrow>
     dash a 1 \<or> long_only \<and> (chr_at a 2 \<noteq> NUL \<or> my_index optstring (chr_at a 1) = None)"

definition getopt_internal ::
  "bool \<Rightarrow> string \<Rightarrow> long_option list option \<Rightarrow> bool \<Rightarrow> getopt_state \<Rightarrow> int \<times> getopt_state" where
  "getopt_internal posix optstring longopts long_only st =
     (let st = st\<lparr>optarg := None\<rparr>
      in case (if optind st = 0 then (case getopt_initialize posix optstring st of (os, st) \<Rightarrow> (os, st\<lparr>optind := 1\<rparr>))
               else (optstring, st)) of
         (optstring, st) \<Rightarrow>
           (case (if nextchar st = None \<or> nextchar st = Some [] then next_argument (longopts \<noteq> None) st else Inr st) of
              Inl r \<Rightarrow> r
            | Inr st \<Rightarrow>
                (let nc = the (nextchar st)
                 in case (case longopts of
                            Some lo \<Rightarrow> if may_be_long optstring long_only (argv st ! optind st)
                                       then long_option optstring lo long_only nc st else Inr st
                          | None \<Rightarrow> Inr st) of
                      Inl r \<Rightarrow> r
                    | Inr st \<Rightarrow> short_option optstring nc st)))"

definition getopt :: "bool \<Rightarrow> string \<Rightarrow> getopt_state \<Rightarrow> int \<times> getopt_state" where
  "getopt posix optstring st = getopt_internal posix optstring None False st"

definition getopt_long :: "bool \<Rightarrow> string \<Rightarrow> long_option list \<Rightarrow> getopt_state \<Rightarrow> int \<times> getopt_state" where
  "getopt_long posix optstring longopts st = getopt_internal posix optstring (Some longopts) False st"

definition getopt_long_only :: "bool \<Rightarrow> string \<Rightarrow> long_option list \<Rightarrow> getopt_state \<Rightarrow> int \<times> getopt_state" where
  "getopt_long_only posix optstring longopts st = getopt_internal posix optstring (Some longopts) True st"

text \<open>The state before the first call.\<close>

definition getopt_start :: "string list \<Rightarrow> getopt_state" where
  "getopt_start args =
     \<lparr>argv = args, optind = 0, optarg = None, nextchar = None, opterr = True, optopt = question, ordering = REQUIRE_ORDER,
      posixly_correct = False, first_nonopt = 0, last_nonopt = 0, flag_vars = \<lambda>_. 0, longind = None, messages = []\<rparr>"

section \<open>The calls together\<close>

text \<open>The loop of a caller: the values returned with \<open>optarg\<close>, until the end, and the state then.\<close>

partial_function (option) getopt_codes ::
  "bool \<Rightarrow> string \<Rightarrow> long_option list \<Rightarrow> getopt_state \<Rightarrow> ((int \<times> string option) list \<times> getopt_state) option" where
  "getopt_codes posix optstring longopts st =
     (case getopt_long posix optstring longopts st of (c, st) \<Rightarrow>
        if c = EOF_CODE then Some ([], st)
        else Option.bind (getopt_codes posix optstring longopts st) (\<lambda>(cs, st'). Some ((c, optarg st) # cs, st')))"

section \<open>Specification: reading a list of arguments\<close>

text \<open>How many arguments a short option takes, 2 for an optional one.\<close>

definition short_kind :: "string \<Rightarrow> char \<Rightarrow> nat option" where
  "short_kind os c =
     (case my_index os c of None \<Rightarrow> None
      | Some t \<Rightarrow> if c = CHR '':'' then None
                  else Some (if chr_at t 1 \<noteq> CHR '':'' then 0 else if chr_at t 2 = CHR '':'' then 2 else 1))"

definition missing :: "string \<Rightarrow> int" where
  "missing os = (if chr_at os 0 = CHR '':'' then char_code (CHR '':'') else question)"

fun short_codes :: "string \<Rightarrow> string \<Rightarrow> string list \<Rightarrow> (int \<times> string option) list \<times> string list" where
  "short_codes os [] rest = ([], rest)"
| "short_codes os (c # cs) rest =
     (case short_kind os c of
        None \<Rightarrow> (case short_codes os cs rest of (r, rest) \<Rightarrow> ((question, None) # r, rest))
      | Some k \<Rightarrow>
          if k = 0 then (case short_codes os cs rest of (r, rest) \<Rightarrow> ((char_code c, None) # r, rest))
          else if cs \<noteq> [] then ([(char_code c, Some cs)], rest)
          else if k = 2 then ([(char_code c, None)], rest)
          else case rest of [] \<Rightarrow> ([(missing os, None)], []) | a # rest \<Rightarrow> ([(char_code c, Some a)], rest))"

text \<open>A long name means the option of that name, or else the only one that it begins.\<close>

definition find_long :: "long_option list \<Rightarrow> string \<Rightarrow> long_option option" where
  "find_long lo name =
     (case filter (\<lambda>p. lo_name p = name) lo of
        p # _ \<Rightarrow> Some p
      | [] \<Rightarrow> (case filter (\<lambda>p. take (length name) (lo_name p) = name) lo of [p] \<Rightarrow> Some p | _ \<Rightarrow> None))"

definition long_value :: "long_option \<Rightarrow> int" where
  "long_value p = (if lo_flag p = None then lo_val p else 0)"

definition long_code ::
  "string \<Rightarrow> long_option list \<Rightarrow> string \<Rightarrow> string list \<Rightarrow> (int \<times> string option) \<times> string list" where
  "long_code os lo t rest =
     (let name = takeWhile (\<lambda>c. c \<noteq> CHR ''='') t; arg = drop (length name) t
      in case find_long lo name of
           None \<Rightarrow> ((question, None), rest)
         | Some p \<Rightarrow>
             if arg \<noteq> [] then (if has_arg p \<noteq> 0 then (long_value p, Some (tl arg)) else (question, None), rest)
             else if has_arg p = 1 then
               (case rest of [] \<Rightarrow> ((missing os, None), []) | a # rest \<Rightarrow> ((long_value p, Some a), rest))
             else ((long_value p, None), rest))"

definition decode_argument ::
  "string \<Rightarrow> long_option list \<Rightarrow> string \<Rightarrow> string list \<Rightarrow> (int \<times> string option) list \<times> string list" where
  "decode_argument os lo a rest =
     (if dash a 1 then (case long_code os lo (drop 2 a) rest of (c, rest) \<Rightarrow> ([c], rest))
      else short_codes os (drop 1 a) rest)"

lemma short_codes_rest: "length (snd (short_codes os nc rest)) \<le> length rest"
  by (induction os nc rest rule: short_codes.induct) (auto split: option.splits prod.splits list.splits)

lemma decode_rest: "length (snd (decode_argument os lo a rest)) \<le> length rest"
  using short_codes_rest [of os "drop 1 a" rest]
  by (auto simp: decode_argument_def long_code_def Let_def split: option.splits prod.splits list.splits)

text \<open>The options with their arguments, and the other arguments. With \<open>posix\<close> the first argument that is
  not an option ends the scan.\<close>

function scan_args ::
  "bool \<Rightarrow> string \<Rightarrow> long_option list \<Rightarrow> string list \<Rightarrow> (int \<times> string option) list \<times> string list" where
  "scan_args posix os lo [] = ([], [])"
| "scan_args posix os lo (a # rest) =
     (if a = ''--'' then ([], rest)
      else if nonoption a then
        (if posix then ([], a # rest) else (case scan_args posix os lo rest of (cs, ns) \<Rightarrow> (cs, a # ns)))
      else (case decode_argument os lo a rest of (cs, rest) \<Rightarrow>
             (case scan_args posix os lo rest of (cs', ns) \<Rightarrow> (cs @ cs', ns))))"
  by pat_completeness auto
termination
  by (relation "measure (\<lambda>(p, os, lo, args). length args)")
    (auto, metis decode_rest le_imp_less_Suc snd_conv)

declare scan_args.simps(2) [simp del]

end
