(* ===== verification/GetoptProps.thy ===== *)
theory GetoptProps
  imports Getopt "HOL-Library.Multiset" "HOL-Library.Sublist"
begin

text \<open>
  Properties of the scan of the arguments: the exchange of two segments, and that the calls of
  \<open>getopt_long\<close> together read the arguments as a simple function on lists does.
\<close>

section \<open>The exchange\<close>

lemma swap_elements:
  assumes "length P = i" "length M = m"
  shows "(P @ x # M @ y # S)[i := (P @ x # M @ y # S) ! (i + m + 1), i + m + 1 := (P @ x # M @ y # S) ! i] = P @ y # M @ x # S"
  using assms by (simp add: nth_append list_update_append)

lemma swap_block_Suc:
  "swap_block i j (Suc n) a = (let a = swap_block i j n a in a[i + n := a ! (j + n), j + n := a ! (i + n)])"
  by (simp add: swap_block_def Let_def)

lemma swap_blocks:
  assumes "length A = length B" "i = length P" "j = length P + length A + length M"
  shows "swap_block i j (length A) (P @ A @ M @ B @ S) = P @ B @ M @ A @ S"
  using assms(1,3)
proof (induction A arbitrary: B j M S rule: rev_induct)
  case Nil
  then show ?case by (simp add: swap_block_def)
next
  case (snoc x A)
  then obtain B' y where B: "B = B' @ [y]" "length B' = length A" by (cases B rule: rev_cases) auto
  have "swap_block i j (length A) (P @ A @ (x # M) @ B' @ (y # S)) = P @ B' @ (x # M) @ A @ (y # S)"
    using B(2) snoc.prems by (intro snoc.IH) auto
  moreover have j: "j = i + length A + 1 + length M" using snoc.prems assms(2) by simp
  have "(P @ B' @ x # M @ A @ y # S)[i + length A := (P @ B' @ x # M @ A @ y # S) ! (j + length A),
      j + length A := (P @ B' @ x # M @ A @ y # S) ! (i + length A)] = P @ B' @ y # M @ A @ x # S"
    using swap_elements [of "P @ B'" "i + length A" "M @ A" "length (M @ A)" x y S] j B(2) assms(2)
    by (simp add: algebra_simps)
  ultimately show ?case using B by (simp add: swap_block_Suc Let_def)
qed

text \<open>Two adjacent segments change places.\<close>

lemma exchange_segments:
  "lo = length P \<Longrightarrow> mid = lo + length X \<Longrightarrow> hi = mid + length Y \<Longrightarrow>
     exchange_loop lo mid hi (P @ X @ Y @ S) = P @ Y @ X @ S"
proof (induction "length X + length Y" arbitrary: lo mid hi P X Y S rule: less_induct)
  case less
  show ?case
  proof (cases "X = [] \<or> Y = []")
    case True
    then show ?thesis using less.prems by (auto simp: exchange_loop.simps)
  next
    case nonempty: False
    then have c: "mid < hi \<and> lo < mid" using less.prems by simp
    show ?thesis
    proof (cases "length X < length Y")
      case True
      define Y1 Y2 where y: "Y1 = take (length Y - length X) Y" "Y2 = drop (length Y - length X) Y"
      have Y: "Y = Y1 @ Y2" "length Y2 = length X" "length Y1 + length Y2 = length Y" using True by (simp_all add: y)
      have h: "hi - (mid - lo) = length P + length X + length Y1" "mid - lo = length X" using less.prems Y(2,3) by simp_all
      have s: "swap_block lo (hi - (mid - lo)) (mid - lo) (P @ X @ Y @ S) = P @ Y2 @ Y1 @ X @ S"
        using swap_blocks [of X Y2 lo P "hi - (mid - lo)" Y1 S] less.prems(1) h Y(1,2) by simp
      have "exchange_loop lo mid (hi - (mid - lo)) (P @ Y2 @ Y1 @ X @ S) = P @ Y1 @ Y2 @ X @ S"
        using nonempty Y less.prems h by (intro less.hyps) auto
      moreover have "mid - lo < hi - mid" using True less.prems by simp
      ultimately show ?thesis using c s by (simp add: exchange_loop.simps [of lo mid hi] Let_def Y(1))
    next
      case False
      define X1 X2 where x: "X1 = take (length Y) X" "X2 = drop (length Y) X"
      have X: "X = X1 @ X2" "length X1 = length Y" "length X1 + length X2 = length X" using False by (simp_all add: x)
      have h: "hi - mid = length X1" using less.prems X(2) by simp
      have s: "swap_block lo mid (hi - mid) (P @ X @ Y @ S) = P @ Y @ X2 @ X1 @ S"
        using swap_blocks [of X1 Y lo P mid X2 S] less.prems X h by simp
      have "exchange_loop (lo + (hi - mid)) mid hi ((P @ Y) @ X2 @ X1 @ S) = (P @ Y) @ X1 @ X2 @ S"
        using nonempty X less.prems h by (intro less.hyps) auto
      moreover have "\<not> mid - lo < hi - mid" using False less.prems by simp
      ultimately show ?thesis using c s by (simp add: exchange_loop.simps [of lo mid hi] Let_def X(1))
    qed
  qed
qed

section \<open>The segments of the arguments\<close>

text \<open>The arguments that are done with, the ones that were passed over, the options read since, and what is
  to be scanned.\<close>

definition seg :: "getopt_state \<Rightarrow> string list \<Rightarrow> string list \<Rightarrow> string list \<Rightarrow> string list \<Rightarrow> bool" where
  "seg st pre sk mid tail \<longleftrightarrow>
     pre \<noteq> [] \<and> argv st = pre @ sk @ mid @ tail \<and> first_nonopt st = length pre \<and> last_nonopt st = length pre + length sk
     \<and> optind st = length pre + length sk + length mid"

lemma seg_exchange:
  assumes "seg st pre sk mid tail"
  shows "seg (exchange st) (pre @ mid) sk [] tail"
  using assms exchange_segments [of "length pre" pre "length pre + length sk" sk "length pre + length sk + length mid" mid tail]
  by (simp add: seg_def exchange_def)

lemma skip_nonoptions_drop: "n \<le> length args \<Longrightarrow> skip_nonoptions args n = n + length (takeWhile nonoption (drop n args))"
proof (induction args n rule: skip_nonoptions.induct)
  case (1 args n)
  show ?case
  proof (cases "n < length args")
    case True
    then have "drop n args = args ! n # drop (Suc n) args" by (simp add: Cons_nth_drop_Suc)
    then show ?thesis using 1 True by (simp add: skip_nonoptions.simps [of args n])
  qed (use 1 in \<open>simp add: skip_nonoptions.simps [of args]\<close>)
qed

lemma seg_skip:
  assumes "seg st pre sk [] tail"
  shows "seg (st\<lparr>optind := skip_nonoptions (argv st) (optind st), last_nonopt := skip_nonoptions (argv st) (optind st)\<rparr>)
    pre (sk @ takeWhile nonoption tail) [] (dropWhile nonoption tail)"
  using assms by (simp add: seg_def skip_nonoptions_drop)

lemma seg_permute:
  assumes "seg st pre sk mid tail"
  shows "\<exists>pre'. seg (permute_step st) pre' (sk @ takeWhile nonoption tail) [] (dropWhile nonoption tail)"
proof -
  have "\<exists>pre' st'. seg st' pre' sk [] tail \<and> permute_step st =
      st'\<lparr>optind := skip_nonoptions (argv st') (optind st'), last_nonopt := skip_nonoptions (argv st') (optind st')\<rparr>"
  proof (cases "sk = [] \<or> mid = []")
    case True
    let ?st = "st\<lparr>first_nonopt := (if sk = [] then optind st else first_nonopt st), last_nonopt := optind st\<rparr>"
    have "seg ?st (if sk = [] then pre @ mid else pre) sk [] tail"
      using assms True by (auto simp: seg_def)
    moreover have "permute_step st = ?st\<lparr>optind := skip_nonoptions (argv ?st) (optind ?st), last_nonopt := skip_nonoptions (argv ?st) (optind ?st)\<rparr>"
      using assms True by (auto simp: permute_step_def Let_def seg_def)
    ultimately show ?thesis by blast
  next
    case False
    then show ?thesis using seg_exchange [OF assms] assms
      by (intro exI [of _ "pre @ mid"] exI [of _ "exchange st"]) (simp add: permute_step_def Let_def seg_def)
  qed
  then show ?thesis using seg_skip by metis
qed

text \<open>The end of the scan: what is left for the caller.\<close>

definition leaves :: "getopt_state \<Rightarrow> string list \<Rightarrow> bool" where
  "leaves st ns \<longleftrightarrow> drop (optind st) (argv st) = ns"

lemma seg_end:
  assumes "seg st pre sk mid (''--'' # tail)" "sk = [] \<or> mid = []"
  shows "\<exists>pre'. seg (end_of_options st) pre' (sk @ tail) [] []"
proof -
  have o: "optind st \<noteq> length (argv st)" "argv st ! optind st = ''--''"
    using assms(1) by (simp_all add: seg_def nth_append)
  show ?thesis
  proof (cases "sk = []")
    case True
    then show ?thesis using o assms(1)
      by (intro exI [of _ "pre @ mid @ [''--'']"]) (simp add: end_of_options_def seg_def Let_def)
  next
    case False
    then have s: "seg (st\<lparr>optind := optind st + 1\<rparr>) pre sk [''--''] tail" using assms by (simp add: seg_def)
    have e: "seg (exchange (st\<lparr>optind := optind st + 1\<rparr>)) (pre @ [''--'']) sk [] tail" using seg_exchange [OF s] .
    have "first_nonopt st \<noteq> last_nonopt st" "last_nonopt st \<noteq> optind st + 1" "argv st = pre @ sk @ ''--'' # tail"
      using assms False by (auto simp: seg_def)
    then have "end_of_options st = (let st = exchange (st\<lparr>optind := optind st + 1\<rparr>) in st\<lparr>last_nonopt := length (argv st), optind := length (argv st)\<rparr>)"
      using o by (simp add: end_of_options_def Let_def)
    then show ?thesis using e by (intro exI [of _ "pre @ [''--'']"]) (simp add: seg_def Let_def)
  qed
qed

lemma seg_no_end: "seg st pre sk mid (a # tail) \<Longrightarrow> a \<noteq> ''--'' \<Longrightarrow> end_of_options st = st"
  by (simp add: end_of_options_def seg_def nth_append)

text \<open>The call advances to the next argument.\<close>

lemma next_argument_end:
  assumes "seg st' pre' sk [] []" "end_of_options (if ordering st = PERMUTE then permute_step st else st) = st'"
  shows "\<exists>st''. next_argument h st = Inl (EOF_CODE, st'') \<and> leaves st'' sk"
  using assms by (auto simp: next_argument_def Let_def seg_def leaves_def)

section \<open>One call\<close>

lemma tell_same [simp]:
  "argv (tell m st) = argv st" "optind (tell m st) = optind st" "optarg (tell m st) = optarg st"
  "first_nonopt (tell m st) = first_nonopt st" "last_nonopt (tell m st) = last_nonopt st" "ordering (tell m st) = ordering st"
  "nextchar (tell m st) = nextchar st"
  by (simp_all add: tell_def)

text \<open>Between two calls, with the text \<open>nc\<close> of a group of short options still to be read.\<close>

definition ready :: "getopt_state \<Rightarrow> string list \<Rightarrow> string list \<Rightarrow> string list \<Rightarrow> string \<Rightarrow> string list \<Rightarrow> bool" where
  "ready st pre sk mid nc rest \<longleftrightarrow>
     (if nc = [] then nextchar st \<in> {None, Some []} \<and> seg st pre sk mid rest
      else nextchar st = Some nc \<and> (\<exists>cur. \<not> dash cur 1 \<and> seg st pre sk mid (cur # rest)))"

definition work :: "string \<Rightarrow> string list \<Rightarrow> nat" where
  "work nc rest = length nc + sum_list (map (\<lambda>a. Suc (length a)) rest)"

definition ascii :: "string \<Rightarrow> bool" where
  "ascii os \<longleftrightarrow> (\<forall>c \<in> set os. (of_char c :: nat) < 128)"

lemma my_index_set: "my_index os c = Some t \<Longrightarrow> c \<in> set os"
  by (induction os) (auto split: if_splits)

lemma codes_not_eof [simp]: "question \<noteq> -1" "missing os \<noteq> -1" "-1 \<noteq> question" "-1 \<noteq> missing os"
  by (auto simp: question_def missing_def char_code_def)

lemma short_code_not_eof: "ascii os \<Longrightarrow> my_index os c = Some t \<Longrightarrow> char_code c \<noteq> -1"
  using my_index_set by (auto simp: char_code_def Let_def ascii_def)

text \<open>The state after a call, against what is left to read; the value of the call with its argument
  is the first of \<open>codes\<close>.\<close>

definition stepped where
  "stepped st pre sk r nc' rest' \<longleftrightarrow>
     fst r \<noteq> EOF_CODE \<and> ordering (snd r) = ordering st \<and> (\<exists>mid'. ready (snd r) pre sk mid' nc' rest')"

lemma ready_group:
  assumes "seg st pre sk mid (cur # rest)" "\<not> dash cur 1" "argv st' = argv st" "first_nonopt st' = first_nonopt st"
    "last_nonopt st' = last_nonopt st" "optind st' = optind st + of_bool (nc = [])" "nextchar st' = Some nc"
  shows "\<exists>mid'. ready st' pre sk mid' nc rest"
proof -
  have "ready st' pre sk (if nc = [] then mid @ [cur] else mid) nc rest"
    using assms by (auto simp: ready_def seg_def)
  then show ?thesis by blast
qed

lemma ready_next:
  assumes "seg st pre sk mid (new @ rest)" "argv st' = argv st" "first_nonopt st' = first_nonopt st"
    "last_nonopt st' = last_nonopt st" "optind st' = optind st + length new" "nextchar st' \<in> {None, Some []}"
  shows "\<exists>mid'. ready st' pre sk mid' [] rest"
proof -
  have "ready st' pre sk (mid @ new) [] rest" using assms by (auto simp: ready_def seg_def)
  then show ?thesis by blast
qed

lemma short_step:
  assumes s: "seg st pre sk mid (cur # rest)" "\<not> dash cur 1" "optarg st = None" and os: "ascii os"
  shows "\<exists>nc' rest'. stepped st pre sk (short_option os (c # cs) st) nc' rest'
    \<and> short_codes os (c # cs) rest = (case short_codes os nc' rest' of (r, rest'') \<Rightarrow>
        ((fst (short_option os (c # cs) st), optarg (snd (short_option os (c # cs) st))) # r, rest''))
    \<and> work nc' rest' < work (c # cs) rest"
proof -
  let ?r = "short_option os (c # cs) st" and ?st = "snd (short_option os (c # cs) st)"
  show ?thesis
  proof (cases "short_kind os c")
    case None
    then have f: "argv ?st = argv st" "first_nonopt ?st = first_nonopt st" "last_nonopt ?st = last_nonopt st"
      "optind ?st = optind st + of_bool (cs = [])" "nextchar ?st = Some cs" "ordering ?st = ordering st"
      "fst ?r = question" "optarg ?st = None"
      using s(3) by (auto simp: short_kind_def short_option_def Let_def chr_at_def split: option.splits if_splits)
    then have "stepped st pre sk ?r cs rest" using ready_group [OF s(1,2) f(1-5)] by (simp add: stepped_def)
    then show ?thesis using None f(7,8) by (intro exI [of _ cs] exI [of _ rest]) (simp add: work_def)
  next
    case (Some k)
    then obtain t where t: "my_index os c = Some t" "c \<noteq> CHR '':''"
      "k = (if chr_at t 1 \<noteq> CHR '':'' then 0 else if chr_at t 2 = CHR '':'' then 2 else 1)"
      by (auto simp: short_kind_def split: option.splits if_splits)
    note ne = short_code_not_eof [OF os t(1)]
    note eval = short_option_def Let_def t(1,2) chr_at_def [of "_ # _"]
    consider (none) "k = 0" | (joined) "k \<noteq> 0" "cs \<noteq> []" | (optional) "k = 2" "cs = []" | (takes) a r where "k = 1" "cs = []" "rest = a # r"
      | (gone) "k = 1" "cs = []" "rest = []"
      using t(3) by (cases rest) (auto split: if_splits)
    then show ?thesis
    proof cases
      case none
      then have t': "chr_at t 1 \<noteq> CHR '':''" using t(3) by (simp split: if_splits)
      then have f: "argv ?st = argv st" "first_nonopt ?st = first_nonopt st" "last_nonopt ?st = last_nonopt st"
        "optind ?st = optind st + of_bool (cs = [])" "nextchar ?st = Some cs" "ordering ?st = ordering st"
        "fst ?r = char_code c" "optarg ?st = None"
        using s(3) by (simp_all add: eval)
      then have "stepped st pre sk ?r cs rest" using ne ready_group [OF s(1,2) f(1-5)] by (simp add: stepped_def)
      then show ?thesis using none Some f(7,8) by (intro exI [of _ cs] exI [of _ rest]) (simp add: work_def)
    next
      case joined
      then have t': "chr_at t 1 = CHR '':''" using t(3) by (simp split: if_splits)
      then have f: "argv ?st = argv st" "first_nonopt ?st = first_nonopt st" "last_nonopt ?st = last_nonopt st"
        "optind ?st = optind st + length [cur]" "nextchar ?st \<in> {None, Some []}" "ordering ?st = ordering st"
        "fst ?r = char_code c" "optarg ?st = Some cs"
        using joined by (simp_all add: eval)
      then have "stepped st pre sk ?r [] rest" using ne ready_next [OF _ f(1-5), of pre sk mid rest] s(1) by (simp add: stepped_def)
      then show ?thesis using joined Some f(7,8) by (intro exI [of _ "[]"] exI [of _ rest]) (simp add: work_def)
    next
      case optional
      then have t': "chr_at t 1 = CHR '':''" "chr_at t 2 = CHR '':''" using t(3) by (simp_all split: if_splits)
      then have f: "argv ?st = argv st" "first_nonopt ?st = first_nonopt st" "last_nonopt ?st = last_nonopt st"
        "optind ?st = optind st + length [cur]" "nextchar ?st \<in> {None, Some []}" "ordering ?st = ordering st"
        "fst ?r = char_code c" "optarg ?st = None"
        using optional by (simp_all add: eval)
      then have "stepped st pre sk ?r [] rest" using ne ready_next [OF _ f(1-5), of pre sk mid rest] s(1) by (simp add: stepped_def)
      then show ?thesis using optional Some f(7,8) by (intro exI [of _ "[]"] exI [of _ rest]) (simp add: work_def)
    next
      case takes
      have t': "chr_at t 1 = CHR '':''" "chr_at t 2 \<noteq> CHR '':''" using t(3) unfolding takes(1) by (auto split: if_splits)
      have at: "argv st ! Suc (optind st) = a" "Suc (optind st) \<noteq> length (argv st)" using s(1) takes(3) by (simp_all add: seg_def nth_append)
      then have f: "argv ?st = argv st" "first_nonopt ?st = first_nonopt st" "last_nonopt ?st = last_nonopt st"
        "optind ?st = optind st + length [cur, a]" "nextchar ?st \<in> {None, Some []}" "ordering ?st = ordering st"
        "fst ?r = char_code c" "optarg ?st = Some a"
        using takes t' by (simp_all add: eval)
      then have "stepped st pre sk ?r [] r" using ne ready_next [OF _ f(1-5), of pre sk mid r] s(1) takes by (simp add: stepped_def)
      then show ?thesis using takes Some f(7,8) by (intro exI [of _ "[]"] exI [of _ r]) (simp add: work_def)
    next
      case gone
      have t': "chr_at t 1 = CHR '':''" "chr_at t 2 \<noteq> CHR '':''" using t(3) unfolding gone(1) by (auto split: if_splits)
      have at: "Suc (optind st) = length (argv st)" using s(1) gone(3) by (simp add: seg_def)
      then have f: "argv ?st = argv st" "first_nonopt ?st = first_nonopt st" "last_nonopt ?st = last_nonopt st"
        "optind ?st = optind st + length [cur]" "nextchar ?st \<in> {None, Some []}" "ordering ?st = ordering st"
        "fst ?r = missing os" "optarg ?st = None"
        using gone t' s(3) by (simp_all add: eval missing_def)
      then have "stepped st pre sk ?r [] []" using ready_next [OF _ f(1-5), of pre sk mid "[]"] s(1) gone by (simp add: stepped_def)
      then show ?thesis using gone Some f(7,8) by (intro exI [of _ "[]"] exI [of _ "[]"]) (simp add: work_def)
    qed
  qed
qed

section \<open>Long options\<close>

lemma match_exact:
  "filter (\<lambda>p. lo_name p = name) lo = p # ps \<Longrightarrow> \<exists>j amb'. match_long name i lo pf amb = (Some (p, j), True, amb')"
proof (induction name i lo pf amb rule: match_long.induct)
  case (2 name i q lo pf amb)
  show ?case
  proof (cases "lo_name q = name")
    case False
    then have "\<not> (take (length name) (lo_name q) = name \<and> length name = length (lo_name q))" by auto
    then show ?thesis using 2 False by (cases "take (length name) (lo_name q) = name") auto
  qed (use 2 in auto)
qed simp

lemma match_partial:
  "filter (\<lambda>p. lo_name p = name) lo = [] \<Longrightarrow>
     \<exists>pf'. match_long name i lo pf amb =
         (pf', False, amb \<or> (if pf = None then 1 else 0) < length (filter (\<lambda>p. take (length name) (lo_name p) = name) lo))
       \<and> map_option fst pf' = (case pf of Some r \<Rightarrow> Some (fst r)
           | None \<Rightarrow> (case filter (\<lambda>p. take (length name) (lo_name p) = name) lo of [] \<Rightarrow> None | p # _ \<Rightarrow> Some p))"
proof (induction name i lo pf amb rule: match_long.induct)
  case (2 name i q lo pf amb)
  then have n: "lo_name q \<noteq> name" "filter (\<lambda>p. lo_name p = name) lo = []" by (auto split: if_splits)
  show ?case
  proof (cases "take (length name) (lo_name q) = name")
    case True
    then have "length name \<noteq> length (lo_name q)" using n(1) by auto
    then show ?thesis using True n "2.IH"(1,2) by (cases pf) (fastforce split: list.splits)+
  qed (use 2 n in auto)
qed (simp split: option.splits)

lemma match_long_finds:
  "find_long lo name = (case match_long name 0 lo None False of (pf, exact, ambig) \<Rightarrow> if ambig \<and> \<not> exact then None else map_option fst pf)"
proof (cases "filter (\<lambda>p. lo_name p = name) lo")
  case Nil
  then show ?thesis using match_partial [OF Nil, of 0 None False]
    by (auto simp: find_long_def split: list.splits)
next
  case (Cons p ps)
  then show ?thesis using match_exact [OF Cons, of 0 None False] by (auto simp: find_long_def)
qed

definition own_codes :: "long_option list \<Rightarrow> bool" where
  "own_codes lo \<longleftrightarrow> (\<forall>p \<in> set lo. lo_flag p = None \<longrightarrow> lo_val p \<noteq> EOF_CODE)"

lemma find_long_mem: "find_long lo name = Some p \<Longrightarrow> p \<in> set lo"
  by (auto simp: find_long_def split: list.splits dest!: filter_eq_ConsD)

lemma long_value_not_eof: "own_codes lo \<Longrightarrow> find_long lo name = Some p \<Longrightarrow> long_value p \<noteq> -1"
  using find_long_mem by (auto simp: own_codes_def long_value_def)

lemma take_long_step:
  assumes s: "seg st pre sk mid (cur # rest)" "optarg st = None" "long_value p \<noteq> -1"
  shows "\<exists>rest'. stepped st pre sk (take_long os (p, i) arg st) [] rest'
    \<and> (if arg \<noteq> [] then (if has_arg p \<noteq> 0 then (long_value p, Some (tl arg)) else (question, None), rest)
       else if has_arg p = 1 then
         (case rest of [] \<Rightarrow> ((missing os, None), []) | a # rest \<Rightarrow> ((long_value p, Some a), rest))
       else ((long_value p, None), rest))
      = ((fst (take_long os (p, i) arg st), optarg (snd (take_long os (p, i) arg st))), rest')
    \<and> work [] rest' \<le> work [] rest"
proof -
  let ?r = "take_long os (p, i) arg st" and ?st = "snd (take_long os (p, i) arg st)"
  note eval = take_long_def Let_def long_value_def
  consider (one) "arg \<noteq> [] \<or> has_arg p \<noteq> 1" | (takes) a r where "arg = []" "has_arg p = 1" "rest = a # r"
    | (gone) "arg = []" "has_arg p = 1" "rest = []" by (cases rest) auto
  then show ?thesis
  proof cases
    case one
    have f: "argv ?st = argv st" "first_nonopt ?st = first_nonopt st" "last_nonopt ?st = last_nonopt st"
      "optind ?st = optind st + length [cur]" "nextchar ?st \<in> {None, Some []}" "ordering ?st = ordering st"
      using one by (auto simp: eval split: option.splits)
    have v: "fst ?r = (if arg \<noteq> [] \<and> has_arg p = 0 then question else long_value p)"
      "optarg ?st = (if arg \<noteq> [] \<and> has_arg p \<noteq> 0 then Some (tl arg) else None)"
      using one s(2) by (auto simp: eval split: option.splits)
    have "stepped st pre sk ?r [] rest" using s(3) v(1) ready_next [OF _ f(1-5), of pre sk mid rest] s(1) f(6) by (simp add: stepped_def)
    then show ?thesis using one v by (intro exI [of _ rest]) auto
  next
    case takes
    have at: "argv st ! Suc (optind st) = a" "Suc (optind st) < length (argv st)" using s(1) takes(3) by (simp_all add: seg_def nth_append)
    have f: "argv ?st = argv st" "first_nonopt ?st = first_nonopt st" "last_nonopt ?st = last_nonopt st"
      "optind ?st = optind st + length [cur, a]" "nextchar ?st \<in> {None, Some []}" "ordering ?st = ordering st"
      using takes(1,2) at by (auto simp: eval split: option.splits)
    have v: "fst ?r = long_value p" "optarg ?st = Some a"
      using takes(1,2) at by (auto simp: eval split: option.splits)
    have "stepped st pre sk ?r [] r" using s(3) v(1) ready_next [OF _ f(1-5), of pre sk mid r] s(1) f(6) takes(3) by (simp add: stepped_def)
    then show ?thesis using takes v by (intro exI [of _ r]) (simp add: work_def)
  next
    case gone
    have at: "Suc (optind st) = length (argv st)" using s(1) gone(3) by (simp add: seg_def)
    have f: "argv ?st = argv st" "first_nonopt ?st = first_nonopt st" "last_nonopt ?st = last_nonopt st"
      "optind ?st = optind st + length [cur]" "nextchar ?st \<in> {None, Some []}" "ordering ?st = ordering st"
      "fst ?r = missing os" "optarg ?st = None"
      using gone(1,2) at s(2) by (simp_all add: eval missing_def)
    have "stepped st pre sk ?r [] []" using ready_next [OF _ f(1-5), of pre sk mid "[]"] s(1) f(6,7) gone(3) by (simp add: stepped_def)
    then show ?thesis using gone f(7,8) by (intro exI [of _ "[]"]) simp
  qed
qed

lemma long_step:
  assumes s: "seg st pre sk mid (cur # rest)" "optarg st = None" "dash cur 1" and lo: "own_codes lo"
  shows "\<exists>r rest'. long_option os lo False t st = Inl r \<and> stepped st pre sk r [] rest'
    \<and> long_code os lo t rest = ((fst r, optarg (snd r)), rest') \<and> work [] rest' \<le> work [] rest"
proof -
  let ?name = "takeWhile (\<lambda>c. c \<noteq> CHR ''='') t"
  obtain pf exact ambig where m: "match_long ?name 0 lo None False = (pf, exact, ambig)" by (cases "match_long ?name 0 lo None False") auto
  have a: "argv st ! optind st = cur" using s(1) by (simp add: seg_def nth_append)
  show ?thesis
  proof (cases "find_long lo ?name")
    case None
    then obtain r where r: "long_option os lo False t st = Inl r" "fst r = question" "argv (snd r) = argv st"
      "first_nonopt (snd r) = first_nonopt st" "last_nonopt (snd r) = last_nonopt st"
      "optind (snd r) = optind st + length [cur]" "nextchar (snd r) \<in> {None, Some []}" "ordering (snd r) = ordering st"
      "optarg (snd r) = None"
      using m s(2) by (auto simp: match_long_finds long_option_def Let_def split: if_splits)
    have "stepped st pre sk r [] rest" using r(2,8) ready_next [OF _ r(3-7), of pre sk mid rest] s(1) by (simp add: stepped_def)
    then show ?thesis using r(1,2,9) None by (intro exI [of _ r] exI [of _ rest]) (simp add: long_code_def Let_def)
  next
    case (Some p)
    then obtain i where i: "pf = Some (p, i)" "\<not> (ambig \<and> \<not> exact)" using m by (auto simp: match_long_finds split: if_splits)
    let ?r = "take_long os (p, i) (drop (length ?name) t) st"
    have "long_option os lo False t st = Inl ?r" using m i by (auto simp: long_option_def Let_def)
    moreover have "\<exists>rest'. stepped st pre sk ?r [] rest' \<and> long_code os lo t rest = ((fst ?r, optarg (snd ?r)), rest') \<and> work [] rest' \<le> work [] rest"
      using take_long_step [OF s(1,2) long_value_not_eof [OF lo Some], of os i "drop (length ?name) t"] Some
      by (simp add: long_code_def Let_def)
    ultimately show ?thesis by blast
  qed
qed

section \<open>All calls\<close>

text \<open>A call after the argument was found.\<close>

definition decode_call :: "string \<Rightarrow> long_option list \<Rightarrow> getopt_state \<Rightarrow> int \<times> getopt_state" where
  "decode_call os lo st =
     (let nc = the (nextchar st)
      in case (if dash (argv st ! optind st) 1 then long_option os lo False nc st else Inr st) of
           Inl r \<Rightarrow> r | Inr st \<Rightarrow> short_option os nc st)"

lemma getopt_long_call:
  "optind st \<noteq> 0 \<Longrightarrow> getopt_long posix os lo st =
     (let st = st\<lparr>optarg := None\<rparr>
      in case (if nextchar st = None \<or> nextchar st = Some [] then next_argument True st else Inr st) of
           Inl r \<Rightarrow> r | Inr st \<Rightarrow> decode_call os lo st)"
  by (auto simp: getopt_long_def getopt_internal_def decode_call_def may_be_long_def Let_def split: sum.split)

definition decode_text :: "string \<Rightarrow> long_option list \<Rightarrow> string \<Rightarrow> string \<Rightarrow> string list \<Rightarrow> (int \<times> string option) list \<times> string list" where
  "decode_text os lo a nc rest =
     (if dash a 1 then (case long_code os lo nc rest of (c, rest) \<Rightarrow> ([c], rest)) else short_codes os nc rest)"

lemma decode_step:
  assumes s: "seg st pre sk mid (cur # rest)" "optarg st = None" "nextchar st = Some nc" "nc \<noteq> []"
    and os: "ascii os" "own_codes lo"
  shows "\<exists>nc' rest'. stepped st pre sk (decode_call os lo st) nc' rest'
    \<and> decode_text os lo cur nc rest = (case short_codes os nc' rest' of (r, rest'') \<Rightarrow>
        ((fst (decode_call os lo st), optarg (snd (decode_call os lo st))) # r, rest''))
    \<and> work nc' rest' < work nc rest"
proof -
  have a: "argv st ! optind st = cur" using s(1) by (simp add: seg_def nth_append)
  show ?thesis
  proof (cases "dash cur 1")
    case True
    obtain r rest' where r: "long_option os lo False nc st = Inl r" "stepped st pre sk r [] rest'"
      "long_code os lo nc rest = ((fst r, optarg (snd r)), rest')" "work [] rest' \<le> work [] rest"
      using long_step [OF s(1,2) True os(2)] by blast
    have "work [] rest' < work nc rest" using r(4) s(4) by (cases nc) (auto simp: work_def)
    moreover have "decode_call os lo st = r" using True a s(3) r(1) by (simp add: decode_call_def)
    moreover have "decode_text os lo cur nc rest = ([(fst r, optarg (snd r))], rest')" using True r(3) by (simp add: decode_text_def)
    ultimately have "stepped st pre sk (decode_call os lo st) [] rest'
      \<and> decode_text os lo cur nc rest = (case short_codes os [] rest' of (r, rest'') \<Rightarrow>
          ((fst (decode_call os lo st), optarg (snd (decode_call os lo st))) # r, rest''))
      \<and> work [] rest' < work nc rest" using r(2) by simp
    then show ?thesis by blast
  next
    case False
    then obtain c cs where "nc = c # cs" using s(4) by (cases nc) auto
    then show ?thesis using short_step [OF s(1) False s(2) os(1), of c cs] a False s(3)
      by (simp add: decode_call_def decode_text_def)
  qed
qed

lemma scan_nonoptions:
  "\<forall>w \<in> set ws. nonoption w \<Longrightarrow> ws = [] \<or> \<not> posix \<Longrightarrow>
     scan_args posix os lo (ws @ rest) = (case scan_args posix os lo rest of (cs, ns) \<Rightarrow> (cs, ws @ ns))"
proof (induction ws)
  case (Cons w ws)
  then have "w \<noteq> ''--''" by (auto simp: nonoption_def dash_def chr_at_def)
  then show ?case using Cons by (simp add: scan_args.simps(2) split: prod.splits)
qed (simp split: prod.splits)

lemma scan_option:
  "a \<noteq> ''--'' \<Longrightarrow> \<not> nonoption a \<Longrightarrow> scan_args posix os lo (a # rest) =
     (case decode_text os lo a (drop (if dash a 1 then 2 else 1) a) rest of (cs, rest) \<Rightarrow>
        (case scan_args posix os lo rest of (cs', ns) \<Rightarrow> (cs @ cs', ns)))"
  by (simp add: scan_args.simps(2) decode_argument_def decode_text_def split: prod.splits)

text \<open>What the scan of the specification still reads, from the text of a group and the arguments after it.\<close>

definition reading where
  "reading posix os lo nc rest =
     (case short_codes os nc rest of (cs, rest) \<Rightarrow> (case scan_args posix os lo rest of (cs', ns) \<Rightarrow> (cs @ cs', ns)))"

lemma permute_step_same [simp]:
  "ordering (permute_step st) = ordering st" "optarg (permute_step st) = optarg st" "nextchar (permute_step st) = nextchar st"
  by (simp_all add: permute_step_def exchange_def Let_def)

definition passed :: "getopt_state \<Rightarrow> bool \<Rightarrow> string list \<Rightarrow> bool" where
  "passed st posix sk \<longleftrightarrow> ordering st = (if posix then REQUIRE_ORDER else PERMUTE) \<and> (posix \<longrightarrow> sk = [])"

text \<open>Where the search for the next option begins.\<close>

lemma next_segments:
  assumes "seg st pre sk mid rest" "passed st posix sk"
  shows "\<exists>pre' ws mid' rest' st'. (if ordering st = PERMUTE then permute_step st else st) = st' \<and> rest = ws @ rest'
    \<and> seg st' pre' (sk @ ws) mid' rest' \<and> (\<forall>w \<in> set ws. nonoption w) \<and> (ws = [] \<or> \<not> posix)
    \<and> (posix \<or> mid' = [] \<and> (rest' = [] \<or> \<not> nonoption (hd rest'))) \<and> ordering st' = ordering st \<and> optarg st' = optarg st"
proof (cases posix)
  case True
  then show ?thesis using assms
    by (intro exI [of _ pre] exI [of _ "[]"] exI [of _ mid] exI [of _ rest] exI [of _ st]) (simp add: passed_def)
next
  case False
  then obtain pre' where "seg (permute_step st) pre' (sk @ takeWhile nonoption rest) [] (dropWhile nonoption rest)"
    using seg_permute [OF assms(1)] by blast
  then show ?thesis using assms(2) False hd_dropWhile [of nonoption rest]
    by (intro exI [of _ pre'] exI [of _ "takeWhile nonoption rest"] exI [of _ "[]"] exI [of _ "dropWhile nonoption rest"]
        exI [of _ "permute_step st"]) (auto simp: passed_def dest: set_takeWhileD)
qed

lemma next_call:
  assumes "seg st pre sk mid rest" "passed st posix sk"
  shows "(\<exists>ns st'. next_argument True st = Inl (EOF_CODE, st') \<and> leaves st' (sk @ ns) \<and> scan_args posix os lo rest = ([], ns))
    \<or> (\<exists>ws a rest' pre' mid' st'. rest = ws @ a # rest' \<and> next_argument True st = Inr st' \<and> seg st' pre' (sk @ ws) mid' (a # rest')
        \<and> nextchar st' = Some (drop (if dash a 1 then 2 else 1) a) \<and> ordering st' = ordering st \<and> optarg st' = optarg st
        \<and> a \<noteq> ''--'' \<and> \<not> nonoption a \<and> (\<forall>w \<in> set ws. nonoption w) \<and> (ws = [] \<or> \<not> posix))"
proof -
  obtain pre' ws mid' rest' st' where n: "(if ordering st = PERMUTE then permute_step st else st) = st'" "rest = ws @ rest'"
    "seg st' pre' (sk @ ws) mid' rest'" "\<forall>w \<in> set ws. nonoption w" "ws = [] \<or> \<not> posix"
    "posix \<or> mid' = [] \<and> (rest' = [] \<or> \<not> nonoption (hd rest'))" "ordering st' = ordering st" "optarg st' = optarg st"
    using next_segments [OF assms] by metis
  note scan = scan_nonoptions [OF n(4,5), of os lo rest']
  have order: "ordering st' = (if posix then REQUIRE_ORDER else PERMUTE)" "posix \<Longrightarrow> sk = []"
    using assms(2) n(7) by (auto simp: passed_def)
  consider (gone) "rest' = []" | (stop) r where "rest' = ''--'' # r"
    | (operand) a r where "rest' = a # r" "a \<noteq> ''--''" "nonoption a" | (option) a r where "rest' = a # r" "a \<noteq> ''--''" "\<not> nonoption a"
    by (metis neq_Nil_conv)
  then show ?thesis
  proof cases
    case gone
    then have "end_of_options st' = st'" using n(3) by (simp add: end_of_options_def seg_def)
    then have "next_argument True st = Inl (EOF_CODE, if first_nonopt st' \<noteq> last_nonopt st' then st'\<lparr>optind := first_nonopt st'\<rparr> else st')"
      using n(1,3) gone by (simp add: next_argument_def Let_def seg_def)
    moreover have "leaves (if first_nonopt st' \<noteq> last_nonopt st' then st'\<lparr>optind := first_nonopt st'\<rparr> else st') (sk @ ws)"
      using n(3,5,6) gone order(2) by (cases posix) (auto simp: leaves_def seg_def)
    ultimately show ?thesis using scan n(2) gone by (intro disjI1) auto
  next
    case stop
    then have "sk @ ws = [] \<or> mid' = []" using n(5,6) order(2) by auto
    then obtain pre'' where "seg (end_of_options st') pre'' (sk @ ws @ r) [] []"
      using seg_end [of st' pre' "sk @ ws" mid' r] n(3) stop by auto
    then obtain st'' where "next_argument True st = Inl (EOF_CODE, st'')" "leaves st'' (sk @ ws @ r)"
      using next_argument_end n(1) by blast
    then show ?thesis using scan n(2) stop by (intro disjI1) (auto simp: scan_args.simps(2))
  next
    case operand
    then have p: posix "ws = []" "sk = []" using n(5,6) order(2) by auto
    have e: "end_of_options st' = st'" using n(3) operand seg_no_end by blast
    then have "next_argument True st = Inl (EOF_CODE, st')" "leaves st' (a # r)"
      using n(1,3) operand order(1) p by (simp_all add: next_argument_def Let_def seg_def nth_append leaves_def)
    then show ?thesis using scan n(2) operand p by (intro disjI1) (auto simp: scan_args.simps(2))
  next
    case option
    then have e: "end_of_options st' = st'" using n(3) seg_no_end by blast
    then have "next_argument True st = Inr (st'\<lparr>nextchar := Some (drop (if dash a 1 then 2 else 1) a)\<rparr>)"
      using n(1,3) option by (simp add: next_argument_def Let_def seg_def nth_append)
    then show ?thesis using n option
      by (intro disjI2 exI [of _ ws] exI [of _ a] exI [of _ r] exI [of _ pre'] exI [of _ mid']
          exI [of _ "st'\<lparr>nextchar := Some (drop (if dash a 1 then 2 else 1) a)\<rparr>"]) (simp add: seg_def)
  qed
qed

lemma codes_step:
  assumes "getopt_long posix os lo st = r" "fst r \<noteq> EOF_CODE" "getopt_codes posix os lo (snd r) = Some (cs, st')"
  shows "getopt_codes posix os lo st = Some ((fst r, optarg (snd r)) # cs, st')"
  using assms by (auto simp: getopt_codes.simps [of _ _ _ st] split: prod.splits)

lemma option_text:
  assumes "a \<noteq> ''--''" "\<not> nonoption a"
  shows "drop (if dash a 1 then 2 else 1) a \<noteq> []" "length (drop (if dash a 1 then 2 else 1) a) < length a"
proof -
  obtain c t where "a = CHR ''-'' # c # t"
    using assms(2) by (cases a; cases "tl a") (auto simp: nonoption_def dash_def chr_at_def)
  then show "drop (if dash a 1 then 2 else 1) a \<noteq> []" "length (drop (if dash a 1 then 2 else 1) a) < length a"
    using assms(1) by (auto simp: dash_def chr_at_def)
qed

lemma codes_end:
  "getopt_long posix os lo st = (EOF_CODE, st') \<Longrightarrow> getopt_codes posix os lo st = Some ([], st')"
  by (simp add: getopt_codes.simps)

lemma ready_optind: "ready st pre sk mid nc rest \<Longrightarrow> optind st \<noteq> 0"
  by (auto simp: ready_def seg_def split: if_splits)

text \<open>An option that was found is decoded, and the calls go on from there.\<close>

lemma decoded_call:
  assumes call: "getopt_long p os lo st = decode_call os lo st1"
    and s: "seg st1 pre sk mid (cur # rest)" "optarg st1 = None" "nextchar st1 = Some nc" "nc \<noteq> []" "passed st1 posix sk"
    and os: "ascii os" "own_codes lo"
    and go: "\<And>st2 mid2 nc2 rest2. work nc2 rest2 < work nc rest \<Longrightarrow> ready st2 pre sk mid2 nc2 rest2 \<Longrightarrow> passed st2 posix sk \<Longrightarrow>
      \<exists>st'. getopt_codes p os lo st2 = Some (fst (reading posix os lo nc2 rest2), st')
        \<and> leaves st' (sk @ snd (reading posix os lo nc2 rest2))"
  shows "\<exists>st'. getopt_codes p os lo st = Some
        (fst (case decode_text os lo cur nc rest of (cs, r) \<Rightarrow> (case scan_args posix os lo r of (cs', ns) \<Rightarrow> (cs @ cs', ns))), st')
      \<and> leaves st' (sk @ snd (case decode_text os lo cur nc rest of (cs, r) \<Rightarrow> (case scan_args posix os lo r of (cs', ns) \<Rightarrow> (cs @ cs', ns))))"
proof -
  let ?r = "decode_call os lo st1"
  obtain nc2 rest2 where d: "stepped st1 pre sk ?r nc2 rest2" "work nc2 rest2 < work nc rest"
    "decode_text os lo cur nc rest = (case short_codes os nc2 rest2 of (r, rest'') \<Rightarrow> ((fst ?r, optarg (snd ?r)) # r, rest''))"
    using decode_step [OF s(1-4) os] by blast
  obtain mid2 where m: "ready (snd ?r) pre sk mid2 nc2 rest2" "fst ?r \<noteq> EOF_CODE" "passed (snd ?r) posix sk"
    using d(1) s(5) by (auto simp: stepped_def passed_def)
  obtain st' where "getopt_codes p os lo (snd ?r) = Some (fst (reading posix os lo nc2 rest2), st')"
    "leaves st' (sk @ snd (reading posix os lo nc2 rest2))" using go [OF d(2) m(1,3)] by blast
  then show ?thesis using codes_step [OF call m(2)] d(3) by (auto simp: reading_def split: prod.splits)
qed

lemma getopt_simulation:
  assumes os: "ascii os" "own_codes lo"
  shows "ready st pre sk mid nc rest \<Longrightarrow> passed st posix sk \<Longrightarrow>
    \<exists>st'. getopt_codes p os lo st = Some (fst (reading posix os lo nc rest), st')
      \<and> leaves st' (sk @ snd (reading posix os lo nc rest))"
proof (induction "work nc rest" arbitrary: st pre sk mid nc rest rule: less_induct)
  case less
  note call = getopt_long_call [OF ready_optind [OF less.prems(1)], of p os lo]
  let ?st = "st\<lparr>optarg := None\<rparr>"
  show ?case
  proof (cases "nc = []")
    case False
    then obtain cur where c: "nextchar st = Some nc" "\<not> dash cur 1" "seg ?st pre sk mid (cur # rest)" "passed ?st posix sk"
      using less.prems by (auto simp: ready_def seg_def passed_def)
    have "getopt_long p os lo st = decode_call os lo ?st" using call c(1) False by simp
    from decoded_call [OF this c(3) _ _ False c(4) os less.hyps] c(1,2)
    show ?thesis by (simp add: decode_text_def reading_def)
  next
    case True
    then have s: "seg ?st pre sk mid rest" "passed ?st posix sk" "nextchar st \<in> {None, Some []}"
      using less.prems by (auto simp: ready_def seg_def passed_def)
    then have c: "getopt_long p os lo st = (case next_argument True ?st of Inl r \<Rightarrow> r | Inr st \<Rightarrow> decode_call os lo st)"
      using call by auto
    show ?thesis
    proof (rule disjE [OF next_call [OF s(1,2), of os lo]], goal_cases)
      case 1
      then obtain ns st' where "next_argument True ?st = Inl (EOF_CODE, st')" "leaves st' (sk @ ns)" "scan_args posix os lo rest = ([], ns)" by blast
      then show ?case using codes_end c True by (simp add: reading_def)
    next
      case 2
      then obtain ws a r pre' mid' st' where n: "rest = ws @ a # r" "next_argument True ?st = Inr st'" "seg st' pre' (sk @ ws) mid' (a # r)"
        "nextchar st' = Some (drop (if dash a 1 then 2 else 1) a)" "ordering st' = ordering ?st" "optarg st' = optarg ?st"
        "a \<noteq> ''--''" "\<not> nonoption a" "\<forall>w \<in> set ws. nonoption w" "ws = [] \<or> \<not> posix"
        by blast
      define t where t: "t = drop (if dash a 1 then 2 else 1) a"
      have nc: "t \<noteq> []" "work t r < work nc rest" using n(1) option_text [OF n(7,8)] by (simp_all add: work_def t)
      have c': "getopt_long p os lo st = decode_call os lo st'" using c n(2) by simp
      have p: "passed st' posix (sk @ ws)" "optarg st' = None" using s(2) n(5,6,10) by (auto simp: passed_def)
      have go: "work nc2 rest2 < work t r \<Longrightarrow> ready st2 pre' (sk @ ws) mid2 nc2 rest2 \<Longrightarrow> passed st2 posix (sk @ ws) \<Longrightarrow>
        \<exists>st'. getopt_codes p os lo st2 = Some (fst (reading posix os lo nc2 rest2), st')
          \<and> leaves st' ((sk @ ws) @ snd (reading posix os lo nc2 rest2))" for st2 mid2 nc2 rest2
        using less.hyps nc(2) by (meson less_trans)
      note d = decoded_call [OF c' n(3) p(2) n(4) [folded t] nc(1) p(1) os go]
      have "scan_args posix os lo rest = (case decode_text os lo a t r of (cs, r) \<Rightarrow>
          (case scan_args posix os lo r of (cs', ns) \<Rightarrow> (cs @ cs', ws @ ns)))"
        using scan_nonoptions [OF n(9,10), of os lo "a # r"] scan_option [OF n(7,8), of posix os lo r, folded t] n(1)
        by (simp split: prod.splits)
      then show ?case using d True by (simp add: reading_def split: prod.splits)
    qed
  qed
qed

text \<open>The first call of a scan: \<open>optind\<close> is 0, which the caller can set to scan another list.\<close>

definition opened :: "bool \<Rightarrow> getopt_state \<Rightarrow> getopt_state" where
  "opened posix st = st\<lparr>optarg := None, first_nonopt := 1, last_nonopt := 1, optind := 1, nextchar := None,
     posixly_correct := posix, ordering := (if posix then REQUIRE_ORDER else PERMUTE)\<rparr>"

lemma first_call:
  assumes "optind st = 0" "\<not> dash os 0" "chr_at os 0 \<noteq> CHR ''+''"
  shows "getopt_long posix os lo st = getopt_long posix os lo (opened posix st)"
  using assms by (cases st) (simp add: getopt_long_def getopt_internal_def getopt_initialize_def opened_def Let_def)

lemma first_codes:
  assumes "optind st = 0" "\<not> dash os 0" "chr_at os 0 \<noteq> CHR ''+''"
  shows "getopt_codes posix os lo st = getopt_codes posix os lo (opened posix st)"
  unfolding getopt_codes.simps [of _ _ _ st] first_call [OF assms]
  by (simp add: getopt_codes.simps [of _ _ _ "opened posix st"])

lemma opened_ready:
  "argv st = prog # args \<Longrightarrow> ready (opened posix st) [prog] [] [] [] args \<and> passed (opened posix st) posix []"
  by (simp add: opened_def ready_def seg_def passed_def)

lemma getopt_scan:
  assumes "optind st = 0" "argv st = prog # args" "\<not> dash os 0" "chr_at os 0 \<noteq> CHR ''+''" "ascii os" "own_codes lo"
  shows "\<exists>st'. getopt_codes posix os lo st = Some (fst (scan_args posix os lo args), st')
    \<and> drop (optind st') (argv st') = snd (scan_args posix os lo args)"
proof -
  note r = opened_ready [OF assms(2), of posix]
  show ?thesis using getopt_simulation [OF assms(5,6) conjunct1 [OF r] conjunct2 [OF r], of posix] first_codes [OF assms(1,3,4)]
    by (auto simp: reading_def leaves_def split: prod.splits)
qed

text \<open>C38: The loop over \<open>getopt_long\<close> ends; it returns the options of the specification in their order with their
  arguments, and leaves the other arguments in their order from \<open>optind\<close> on, whatever was permuted.\<close>

theorem getopt_reads:
  assumes "optind st = 0" "argv st = prog # args" "\<not> dash os 0" "chr_at os 0 \<noteq> CHR ''+''" "ascii os" "own_codes lo"
  shows "map_option (\<lambda>(cs, st). (cs, drop (optind st) (argv st))) (getopt_codes posix os lo st)
    = Some (scan_args posix os lo args)"
  using getopt_scan [OF assms, of posix] by (auto simp: prod_eq_iff)

theorem getopt_reads_witness:
  "map_option (\<lambda>(cs, st). (cs, drop (optind st) (argv st)))
      (getopt_codes False ''ab:'' [\<lparr>lo_name = ''beta'', has_arg = 1, lo_flag = None, lo_val = 98\<rparr>]
        (getopt_start [''prog'', ''x'', ''-ab1'', ''y'', ''--be'', ''2'', ''z'']))
    = Some ([(97, None), (98, Some ''1''), (98, Some ''2'')], [''x'', ''y'', ''z''])"
proof -
  let ?lo = "[\<lparr>lo_name = ''beta'', has_arg = 1, lo_flag = None, lo_val = 98\<rparr>]"
  have "scan_args False ''ab:'' ?lo [''x'', ''-ab1'', ''y'', ''--be'', ''2'', ''z'']
      = ([(97, None), (98, Some ''1''), (98, Some ''2'')], [''x'', ''y'', ''z''])"
    by (simp add: scan_args.simps(2) nonoption_def dash_def chr_at_def decode_argument_def long_code_def Let_def find_long_def
        long_value_def short_kind_def char_code_def)
  then show ?thesis
    using getopt_reads [of "getopt_start [''prog'', ''x'', ''-ab1'', ''y'', ''--be'', ''2'', ''z'']" "''prog''"
        "[''x'', ''-ab1'', ''y'', ''--be'', ''2'', ''z'']" "''ab:''" ?lo False]
    by (simp add: getopt_start_def dash_def chr_at_def ascii_def own_codes_def)
qed

end
