(* ===== verification/CmdLine.thy ===== *)
theory CmdLine
  imports MtrOptions GetoptProps
begin

text \<open>
  The command line of \<open>mtr\<close> (\<open>parse_arg\<close>, \<open>parse_mtr_options\<close> and \<open>usage\<close> of \<open>ui/mtr.c\<close>): the table of the long
  options, the string of the short options that is built from it, the scan with \<open>getopt_long\<close> and what
  it gives to the handling of the options.
\<close>

section \<open>The options\<close>

definition OPT_DISPLAYMODE :: int where "OPT_DISPLAYMODE = 127 + 1"

definition long_opt :: "string \<Rightarrow> nat \<Rightarrow> char \<Rightarrow> long_option" where
  "long_opt name arg c = \<lparr>lo_name = name, has_arg = arg, lo_flag = None, lo_val = char_code c\<rparr>"

text \<open>The table without the entry of zeros that ends it.\<close>

definition long_options :: "long_option list" where
  "long_options =
     [long_opt ''help'' 0 (CHR ''h''), long_opt ''version'' 0 (CHR ''v''), long_opt ''inet'' 0 (CHR ''4''),
      long_opt ''inet6'' 0 (CHR ''6''), long_opt ''filename'' 1 (CHR ''F''), long_opt ''report'' 0 (CHR ''r''),
      long_opt ''report-wide'' 0 (CHR ''w''), long_opt ''xml'' 0 (CHR ''x''), long_opt ''curses'' 0 (CHR ''t''),
      long_opt ''gtk'' 0 (CHR ''g''), long_opt ''raw'' 0 (CHR ''l''), long_opt ''csv'' 0 (CHR ''C''),
      long_opt ''json'' 0 (CHR ''j''),
      \<lparr>lo_name = ''displaymode'', has_arg = 1, lo_flag = None, lo_val = OPT_DISPLAYMODE\<rparr>,
      long_opt ''split'' 0 (CHR ''p''), long_opt ''no-dns'' 0 (CHR ''n''), long_opt ''show-ips'' 0 (CHR ''b''),
      long_opt ''order'' 1 (CHR ''o''), long_opt ''ipinfo'' 1 (CHR ''y''), long_opt ''aslookup'' 0 (CHR ''z''),
      long_opt ''interval'' 1 (CHR ''i''), long_opt ''report-cycles'' 1 (CHR ''c''), long_opt ''psize'' 1 (CHR ''s''),
      long_opt ''bitpattern'' 1 (CHR ''B''), long_opt ''tos'' 1 (CHR ''Q''), long_opt ''mpls'' 0 (CHR ''e''),
      long_opt ''interface'' 1 (CHR ''I''), long_opt ''address'' 1 (CHR ''a''), long_opt ''first-ttl'' 1 (CHR ''f''),
      long_opt ''max-ttl'' 1 (CHR ''m''), long_opt ''max-unknown'' 1 (CHR ''U''), long_opt ''udp'' 0 (CHR ''u''),
      long_opt ''tcp'' 0 (CHR ''T''), long_opt ''sctp'' 0 (CHR ''S''), long_opt ''port'' 1 (CHR ''P''),
      long_opt ''localport'' 1 (CHR ''L''), long_opt ''timeout'' 1 (CHR ''Z''), long_opt ''gracetime'' 1 (CHR ''G''),
      long_opt ''mark'' 1 (CHR ''M'')]"

definition end_option :: long_option where
  "end_option = long_opt [] 0 NUL"

definition num_options :: nat where
  "num_options = length long_options + 1"

text \<open>The loop that fills \<open>short_options\<close>, an array of \<open>2 * num_options\<close> characters; the entry that ends the table
  writes the character 0 that ends the string.\<close>

fun fill_short :: "long_option list \<Rightarrow> string" where
  "fill_short [] = []"
| "fill_short (p # ps) =
     (if 127 < lo_val p then fill_short ps
      else char_of (nat (lo_val p)) # (if has_arg p = 1 then '':'' else []) @ fill_short ps)"

definition short_options :: string where
  "short_options = cstr (fill_short (long_options @ [end_option]))"

section \<open>The scan\<close>

definition option_of :: "int \<Rightarrow> option_code" where
  "option_of c = (if c = OPT_DISPLAYMODE then OptDisplayMode else Opt (char_of (nat c)))"

text \<open>The options with their arguments, and the state of the scan at its end.\<close>

definition scan_line :: "bool \<Rightarrow> getopt_state \<Rightarrow> ((option_code \<times> string) list \<times> getopt_state) option" where
  "scan_line posix g =
     map_option (\<lambda>(cs, g). (map (\<lambda>(c, a). (option_of c, case a of None \<Rightarrow> [] | Some a \<Rightarrow> a)) cs, g))
       (getopt_codes posix short_options long_options g)"

text \<open>\<open>MTR_OPTIONS\<close> is scanned first, as the arguments of a program of its own, and \<open>optind\<close> is set back to 0;
  what is not an option there is not looked at.\<close>

definition scan_env :: "bool \<Rightarrow> string option \<Rightarrow> getopt_state \<Rightarrow> ((option_code \<times> string) list \<times> getopt_state) option" where
  "scan_env posix env g =
     (case env of
        None \<Rightarrow> Some ([], g)
      | Some s \<Rightarrow> map_option (\<lambda>(opts, g). (opts, g\<lparr>optind := 0\<rparr>))
          (scan_line posix (g\<lparr>argv := ''mtr'' # split_options 1 s\<rparr>)))"

text \<open>The start of \<open>main\<close> from the arguments: the two scans and \<open>configure\<close>.\<close>

definition start_mtr ::
  "options_env \<Rightarrow> bool \<Rightarrow> display \<Rightarrow> string option \<Rightarrow> string list \<Rightarrow> (ui_exit + (mtr_ctl \<times> string list)) option" where
  "start_mtr oe posix detected env args =
     Option.bind (scan_env posix env (getopt_start args)) (\<lambda>(eopts, g).
     Option.bind (scan_line posix (g\<lparr>argv := args\<rparr>)) (\<lambda>(opts, g).
       Some (configure oe (\<lambda>_. eopts) detected env opts (drop (optind g) (argv g)))))"

section \<open>The help\<close>

text \<open>The lines of \<open>usage\<close>, without the character that ends each.\<close>

definition usage_lines :: "string list" where
  "usage_lines =
     [[NL] @ ''Usage:'',
      '' mtr [options] hostname'',
      [],
      '' -F, --filename FILE        read hostname(s) from a file'',
      '' -4                         use IPv4 only'',
      '' -6                         use IPv6 only'',
      '' -u, --udp                  use UDP instead of ICMP echo'',
      '' -T, --tcp                  use TCP instead of ICMP echo'',
      '' -I, --interface NAME       use named network interface'',
      '' -a, --address ADDRESS      bind the outgoing socket to ADDRESS'',
      '' -f, --first-ttl NUMBER     set what TTL to start'',
      '' -m, --max-ttl NUMBER       maximum number of hops'',
      '' -U, --max-unknown NUMBER   maximum unknown host'',
      '' -P, --port PORT            target port number for TCP, SCTP, or UDP'',
      '' -L, --localport LOCALPORT  source port number for UDP'',
      '' -s, --psize PACKETSIZE     set the packet size used for probing'',
      '' -B, --bitpattern NUMBER    set bit pattern to use in payload'',
      '' -i, --interval SECONDS     ICMP echo request interval'',
      '' -G, --gracetime SECONDS    number of seconds to wait for responses'',
      '' -Q, --tos NUMBER           type of service field in IP header'',
      '' -e, --mpls                 display information from ICMP extensions'',
      '' -Z, --timeout SECONDS      seconds to keep probe sockets open'',
      '' -M, --mark MARK            mark each sent packet'',
      '' -r, --report               output using report mode'',
      '' -w, --report-wide          output wide report'',
      '' -c, --report-cycles COUNT  set the number of pings sent'',
      '' -j, --json                 output json'',
      '' -x, --xml                  output xml'',
      '' -C, --csv                  output comma separated values'',
      '' -l, --raw                  output raw format'',
      '' -p, --split                split output'',
      '' -t, --curses               use curses terminal interface'',
      ''     --displaymode MODE     select initial display mode'',
      '' -g, --gtk                  use GTK+ xwindow interface'',
      '' -n, --no-dns               do not resolve host names'',
      '' -b, --show-ips             show IP numbers and host names'',
      '' -o, --order FIELDS         select output fields'',
      '' -y, --ipinfo NUMBER        select IP information in output'',
      '' -z, --aslookup             display AS number'',
      '' -h, --help                 display this help and exit'',
      '' -v, --version              output version information and exit'',
      [],
      ''See the '' @ [CHR 0x27] @ ''man 8 mtr'' @ [CHR 0x27] @ '' for details.'']"

text \<open>What \<open>usage\<close> writes, and the status it exits with.\<close>

definition usage :: "bool \<Rightarrow> string \<times> nat" where
  "usage to_stderr = (concat (map (\<lambda>l. l @ [NL]) usage_lines), if to_stderr then 1 else 0)"

section \<open>What the table fixes\<close>

lemma short_options_value:
  "short_options = ''hv46F:rwxtglCjpnbo:y:zi:c:s:B:Q:eI:a:f:m:U:uTSP:L:Z:G:M:''"
  by code_simp

lemma options_ascii [simp]: "ascii short_options"
  by (simp add: short_options_value ascii_def)

lemma options_own_codes [simp]: "own_codes long_options"
  by (simp add: own_codes_def long_options_def long_opt_def char_code_def OPT_DISPLAYMODE_def)

lemma options_start [simp]: "\<not> dash short_options 0" "chr_at short_options 0 \<noteq> CHR ''+''"
  by (simp_all add: short_options_value dash_def chr_at_def)

end
