(* ===== verification/CmdLineProps.thy ===== *)
theory CmdLineProps
  imports CmdLine
begin

text \<open>
  Properties of the command line: the scans end and give \<open>configure\<close> what the specification of a scan reads, every
  option can be written in each of its forms, and the help names the options.
\<close>

section \<open>Reading the command line\<close>

definition read_line :: "bool \<Rightarrow> string list \<Rightarrow> (option_code \<times> string) list \<times> string list" where
  "read_line posix args =
     (case scan_args posix short_options long_options args of
        (cs, ns) \<Rightarrow> (map (\<lambda>(c, a). (option_of c, case a of None \<Rightarrow> [] | Some a \<Rightarrow> a)) cs, ns))"

lemma scan_line_reads:
  assumes "optind g = 0" "argv g = prog # args"
  shows "\<exists>g'. scan_line posix g = Some (fst (read_line posix args), g') \<and> drop (optind g') (argv g') = snd (read_line posix args)"
  using getopt_scan [OF assms, of short_options long_options posix]
  by (auto simp: scan_line_def read_line_def split: prod.splits)

lemma scan_env_reads:
  assumes "optind g = 0"
  shows "\<exists>g'. scan_env posix env g = Some (case env of None \<Rightarrow> [] | Some s \<Rightarrow> fst (read_line posix (split_options 1 s)), g')
    \<and> optind g' = 0"
proof (cases env)
  case None
  then show ?thesis using assms by (simp add: scan_env_def)
next
  case (Some s)
  obtain g' where "scan_line posix (g\<lparr>argv := ''mtr'' # split_options 1 s\<rparr>) = Some (fst (read_line posix (split_options 1 s)), g')"
    using scan_line_reads [of "g\<lparr>argv := ''mtr'' # split_options 1 s\<rparr>" "''mtr''" "split_options 1 s" posix] assms by auto
  then show ?thesis using Some by (simp add: scan_env_def)
qed

section \<open>The forms of an option\<close>

text \<open>The table is consistent: names and letters are those of one option, letters ask for an argument like names do.\<close>

lemma find_distinct:
  assumes "distinct (map lo_name lo)" "p \<in> set lo"
  shows "find_long lo (lo_name p) = Some p"
proof -
  have "filter (\<lambda>q. lo_name q = lo_name p) lo = [p]" using assms
    by (induction lo) (auto simp: filter_empty_conv image_iff)
  then show ?thesis by (simp add: find_long_def)
qed

lemma names_distinct: "distinct (map lo_name long_options)"
  by (simp add: long_options_def long_opt_def)

lemma code_char: "of_char c < (128::nat) \<Longrightarrow> char_of (nat (char_code c)) = c"
  by (simp add: char_code_def Let_def)

lemma option_of_letter: "of_char c < (128::nat) \<Longrightarrow> option_of (char_code c) = Opt c"
  using code_char [of c] by (simp add: option_of_def OPT_DISPLAYMODE_def char_code_def Let_def)

lemma entry_names:
  assumes "p \<in> set long_options"
  shows "lo_flag p = None" "CHR ''='' \<notin> set (lo_name p)" "lo_name p \<noteq> []" "has_arg p \<le> 1"
proof -
  have "list_all (\<lambda>p. lo_flag p = None \<and> CHR ''='' \<notin> set (lo_name p) \<and> lo_name p \<noteq> [] \<and> has_arg p \<le> 1) long_options"
    by (simp add: long_options_def long_opt_def)
  then show "lo_flag p = None" "CHR ''='' \<notin> set (lo_name p)" "lo_name p \<noteq> []" "has_arg p \<le> 1"
    using assms by (simp_all add: list_all_iff)
qed

lemma entry_letters:
  assumes "p \<in> set long_options" "lo_val p \<le> 127"
  shows "\<exists>c. lo_val p = char_code c \<and> char_of (nat (lo_val p)) = c \<and> c \<noteq> CHR ''-'' \<and> c \<noteq> NUL
    \<and> short_kind short_options c = Some (has_arg p)"
proof -
  have "list_all (\<lambda>p. lo_val p \<le> 127 \<longrightarrow> (\<exists>c. lo_val p = char_code c \<and> of_char c < (128::nat) \<and> c \<noteq> CHR ''-'' \<and> c \<noteq> NUL)) long_options"
    by (auto simp add: long_options_def long_opt_def OPT_DISPLAYMODE_def intro!: exI)
  moreover have "list_all (\<lambda>p. lo_val p \<le> 127 \<longrightarrow> short_kind short_options (char_of (nat (lo_val p))) = Some (has_arg p)) long_options"
    by (simp add: long_options_def long_opt_def code_char OPT_DISPLAYMODE_def short_kind_def short_options_value chr_at_def)
  ultimately show ?thesis using assms by (auto simp: list_all_iff code_char)
qed

text \<open>The ways to write an option: \<open>--name argument\<close>, \<open>--name=argument\<close>, \<open>-c argument\<close> and \<open>-cargument\<close>.\<close>

definition forms :: "long_option \<Rightarrow> string \<Rightarrow> string list list" where
  "forms p a =
     (let long = ''--'' @ lo_name p; short = [CHR ''-'', char_of (nat (lo_val p))]
      in (if has_arg p = 1 then [[long, a], [long @ ''='' @ a]] else [[long]])
         @ (if 127 < lo_val p then []
            else if has_arg p = 1 then [short, a] # (if a = [] then [] else [[short @ a]]) else [[short]]))"

definition option_value :: "long_option \<Rightarrow> string \<Rightarrow> int \<times> string option" where
  "option_value p a = (lo_val p, if has_arg p = 1 then Some a else None)"

lemma takeWhile_name: "CHR ''='' \<notin> set n \<Longrightarrow> takeWhile (\<lambda>c. c \<noteq> CHR ''='') n = n
    \<and> takeWhile (\<lambda>c. c \<noteq> CHR ''='') (n @ CHR ''='' # a) = n"
  by (induction n) auto

lemma long_scans:
  assumes "t \<noteq> []" "long_code os lo t rest = (c, rest')"
  shows "scan_args posix os lo ((''--'' @ t) # rest) = (case scan_args posix os lo rest' of (cs, ns) \<Rightarrow> (c # cs, ns))"
  using assms by (simp add: scan_args.simps(2) decode_argument_def nonoption_def dash_def chr_at_def split: prod.splits)

lemma short_scans:
  assumes "c \<noteq> CHR ''-''" "c \<noteq> NUL" "short_codes os (c # t) rest = (r, rest')"
  shows "scan_args posix os lo ((CHR ''-'' # c # t) # rest) = (case scan_args posix os lo rest' of (cs, ns) \<Rightarrow> (r @ cs, ns))"
  using assms(1,2) assms(3) by (simp add: scan_args.simps(2) decode_argument_def nonoption_def dash_def chr_at_def split: prod.splits del: short_codes.simps)

lemma form_scans:
  assumes p: "p \<in> set long_options" and ws: "ws \<in> set (forms p a)"
  shows "scan_args posix short_options long_options (ws @ rest) =
    (case scan_args posix short_options long_options rest of (cs, ns) \<Rightarrow> (option_value p a # cs, ns))"
proof -
  note ok = find_distinct [OF names_distinct p] entry_names [OF p]
  have v: "long_value p = lo_val p" using ok by (simp add: long_value_def)
  consider (name) "ws = (''--'' @ lo_name p) # (if has_arg p = 1 then [a] else [])"
    | (joined) "ws = [''--'' @ lo_name p @ ''='' @ a]" "has_arg p = 1"
    | (letter) "ws = [CHR ''-'', char_of (nat (lo_val p))] # (if has_arg p = 1 then [a] else [])" "lo_val p \<le> 127"
    | (together) "ws = [CHR ''-'' # char_of (nat (lo_val p)) # a]" "has_arg p = 1" "a \<noteq> []" "lo_val p \<le> 127"
    using ws by (auto simp: forms_def Let_def split: if_splits)
  then show ?thesis
  proof cases
    case name
    have "long_code short_options long_options (lo_name p) ((if has_arg p = 1 then [a] else []) @ rest) = (option_value p a, rest)"
      using ok v by (simp add: long_code_def Let_def takeWhile_name option_value_def)
    from long_scans [OF ok(4) this] show ?thesis using name by simp
  next
    case joined
    have "long_code short_options long_options (lo_name p @ ''='' @ a) rest = (option_value p a, rest)"
      using ok v joined(2) by (simp add: long_code_def Let_def takeWhile_name option_value_def)
    from long_scans [OF _ this] show ?thesis using joined by simp
  next
    case letter
    then obtain c where c: "lo_val p = char_code c" "char_of (nat (lo_val p)) = c" "c \<noteq> CHR ''-''" "c \<noteq> NUL"
      "short_kind short_options c = Some (has_arg p)" using entry_letters [OF p] by metis
    have "short_codes short_options [c] ((if has_arg p = 1 then [a] else []) @ rest) = ([option_value p a], rest)"
      using c(1,5) ok(5) by (auto simp: option_value_def)
    from short_scans [OF c(3,4) this] show ?thesis using letter(1) c(2) by simp
  next
    case together
    then obtain c where c: "lo_val p = char_code c" "char_of (nat (lo_val p)) = c" "c \<noteq> CHR ''-''" "c \<noteq> NUL"
      "short_kind short_options c = Some (has_arg p)" using entry_letters [OF p] by metis
    have "short_codes short_options (c # a) rest = ([option_value p a], rest)"
      using c(1,5) together(2,3) by (simp add: option_value_def)
    from short_scans [OF c(3,4) this] show ?thesis using together(1) c(2) by simp
  qed
qed

lemma forms_scan:
  assumes "list_all2 (\<lambda>(p, a) ws. p \<in> set long_options \<and> ws \<in> set (forms p a)) opts wss"
  shows "scan_args posix short_options long_options (concat wss @ ''--'' # operands)
    = (map (\<lambda>(p, a). option_value p a) opts, operands)"
  using assms
proof (induction opts wss rule: list_all2_induct)
  case Nil
  then show ?case by (simp add: scan_args.simps(2))
next
  case (Cons o ws opts wss)
  then show ?case by (auto simp: form_scans split: prod.splits)
qed

section \<open>Theorems\<close>

text \<open>
  The two scans of the start of \<open>mtr\<close> end, whatever the environment and the arguments are, and \<open>configure\<close> is given the
  options and the operands that the specification reads.
\<close>

theorem start_reads:
  "start_mtr oe posix detected env (prog # args) =
     Some (configure oe (\<lambda>_. case env of None \<Rightarrow> [] | Some s \<Rightarrow> fst (read_line posix (split_options 1 s))) detected env
       (fst (read_line posix args)) (snd (read_line posix args)))"
proof -
  obtain g where g: "scan_env posix env (getopt_start (prog # args)) =
      Some (case env of None \<Rightarrow> [] | Some s \<Rightarrow> fst (read_line posix (split_options 1 s)), g)" "optind g = 0"
    using scan_env_reads [of "getopt_start (prog # args)" posix env] by (auto simp: getopt_start_def)
  then obtain g' where "scan_line posix (g\<lparr>argv := prog # args\<rparr>) = Some (fst (read_line posix args), g')"
    "drop (optind g') (argv g') = snd (read_line posix args)"
    using scan_line_reads [of "g\<lparr>argv := prog # args\<rparr>" prog args posix] by auto
  then show ?thesis using g by (simp add: start_mtr_def)
qed

text \<open>C39: Options that are written in any of their forms, followed by \<open>--\<close> and operands, are read back by the calls of
  \<open>getopt_long\<close> with the tables of \<open>mtr\<close>: the options with their arguments in order, then the operands.
\<close>

theorem written_options_read:
  assumes "list_all2 (\<lambda>(p, a) ws. p \<in> set long_options \<and> ws \<in> set (forms p a)) opts wss"
  shows "map_option (\<lambda>(os, g). (os, drop (optind g) (argv g))) (scan_line posix (getopt_start (prog # concat wss @ ''--'' # operands)))
    = Some (map (\<lambda>(p, a). (option_of (lo_val p), if has_arg p = 1 then a else [])) opts, operands)"
proof -
  have "read_line posix (concat wss @ ''--'' # operands)
      = (map (\<lambda>(p, a). (option_of (lo_val p), if has_arg p = 1 then a else [])) opts, operands)"
    by (simp add: read_line_def forms_scan [OF assms] option_value_def split_beta)
  then show ?thesis
    using scan_line_reads [of "getopt_start (prog # concat wss @ ''--'' # operands)" prog "concat wss @ ''--'' # operands" posix]
    by (auto simp: getopt_start_def)
qed

theorem written_options_read_witness:
  "map_option (\<lambda>(os, g). (os, drop (optind g) (argv g)))
      (scan_line True (getopt_start (''mtr'' # [''--max-ttl=9'', ''-i2'', ''-r'', ''--'', ''-host''])))
    = Some ([(Opt (CHR ''m''), ''9''), (Opt (CHR ''i''), ''2''), (Opt (CHR ''r''), [])], [''-host''])"
proof -
  have l: "list_all2 (\<lambda>(p, a) ws. p \<in> set long_options \<and> ws \<in> set (forms p a))
      [(long_opt ''max-ttl'' 1 (CHR ''m''), ''9''), (long_opt ''interval'' 1 (CHR ''i''), ''2''), (long_opt ''report'' 0 (CHR ''r''), [])]
      [[''--max-ttl=9''], [''-i2''], [''-r'']]"
    by (simp add: forms_def Let_def long_opt_def long_options_def code_char) (simp add: char_code_def)
  show ?thesis using written_options_read [OF l, of True "''mtr''" "[''-host'']"]
    by (simp add: long_opt_def option_of_letter)
qed

section \<open>The targets\<close>

lemma parse_option_names:
  "fst opt \<noteq> Opt (CHR ''F'') \<Longrightarrow> parse_option oe opt (ctl, names) = Inr (ctl', names') \<Longrightarrow> names' = names"
  by (cases opt) (auto simp: parse_option_def Let_def and_then_Inr split: option_code.splits if_splits option.splits)

lemma parse_options_names:
  "\<forall>opt \<in> set opts. fst opt \<noteq> Opt (CHR ''F'') \<Longrightarrow> parse_options oe opts (ctl, names) = Inr (ctl', names') \<Longrightarrow> names' = names"
proof (induction opts arbitrary: ctl names)
  case (Cons opt opts)
  then obtain c n where o: "parse_option oe opt (ctl, names) = Inr (c, n)" "parse_options oe opts (c, n) = Inr (ctl', names')"
    by (auto simp: and_then_Inr)
  then have "n = names" using Cons.prems(1) parse_option_names [of opt] by simp
  then show ?case using Cons.IH [OF _ o(2)] Cons.prems(1) by simp
qed simp

lemma append_operands: "foldl append_to_names names ops = names @ ops"
  by (induction ops arbitrary: names) (simp_all add: append_to_names_eq)

text \<open>Without a file of names the targets are the operands, in their order, wherever they stood between the options.\<close>

theorem operands_are_targets:
  assumes "start_mtr oe posix detected None (prog # args) = Some (Inr (ctl, names))"
    and "\<forall>opt \<in> set (fst (read_line posix args)). fst opt \<noteq> Opt (CHR ''F'')"
  shows "names = (if snd (read_line posix args) = [] then [''localhost''] else snd (read_line posix args))"
proof -
  obtain c where p: "parse_arg oe (fst (read_line posix args)) (init_fld_options (default_ctl detected), []) = Inr c"
    "names = (let names = foldl append_to_names (snd c) (snd (read_line posix args)) in if names = [] then append_to_names names ''localhost'' else names)"
    using assms(1) by (auto simp: start_reads configure_def parse_mtr_options_def Let_def and_then_Inr)
  then have "snd c = []" using parse_options_names [OF assms(2)] by (cases c) (auto simp: parse_arg_def and_then_Inr)
  then show ?thesis using p(2) by (simp add: append_operands append_to_names_eq Let_def)
qed

section \<open>The help\<close>

text \<open>How the help names an option.\<close>

definition help_entry :: "long_option \<Rightarrow> string" where
  "help_entry p = '' '' @ (if 127 < lo_val p then ''    '' else [CHR ''-'', char_of (nat (lo_val p)), CHR '','', CHR '' '']) @ ''--'' @ lo_name p"

text \<open>The help does not name \<open>--sctp\<close>, which is one of the options.\<close>

lemma help_without_sctp:
  "long_opt ''sctp'' 0 (CHR ''S'') \<in> set long_options
    \<and> (\<forall>l \<in> set usage_lines. take 10 l \<noteq> help_entry (long_opt ''sctp'' 0 (CHR ''S'')))"
  by (simp add: help_entry_def usage_lines_def long_options_def long_opt_def code_char)

end
