(* ===== verification/Streams.thy ===== *)
theory Streams
  imports Prelude
begin

text \<open>
  The output streams of \<open>mtr\<close>: the messages of \<open>error\<close> on systems without it (\<open>portability/error.c\<close>), the closing of
  the streams at the exit (\<open>close_stream\<close> and \<open>close_stdout\<close> of \<open>ui/utils.c\<close>), and the record lock that \<open>main\<close> of
  \<open>ui/mtr.c\<close> takes on its output (\<open>lock\<close>, \<open>unlock\<close>). A system call is given by its result; the text that
  stands in the buffer of a stream is kept apart from what is in the file.
\<close>

section \<open>Messages\<close>

text \<open>What \<open>error\<close> writes and the status it exits with. \<open>vwarn\<close> and \<open>verr\<close> describe the variable \<open>errno\<close>; \<open>errnum\<close> is only
  compared with 0.\<close>

definition error_call ::
  "string \<Rightarrow> (int \<Rightarrow> string) \<Rightarrow> int \<Rightarrow> int \<Rightarrow> int \<Rightarrow> string \<Rightarrow> string \<times> int option" where
  "error_call progname strerror errno status errnum msg =
     (progname @ '': '' @ msg @ (if errnum = 0 then [] else '': '' @ strerror errno) @ [NL],
      if status = 0 then None else Some status)"

text \<open>\<open>xmalloc\<close> and \<open>xstrdup\<close> end the program when there is no memory: \<open>Inl\<close> is the message.\<close>

definition xmalloc :: "(nat \<Rightarrow> nat option) \<Rightarrow> (nat \<Rightarrow> string) \<Rightarrow> nat \<Rightarrow> string + nat option" where
  "xmalloc malloc dec sz =
     (case malloc sz of
        Some a \<Rightarrow> Inr (Some a)
      | None \<Rightarrow> if sz \<noteq> 0 then Inl (''cannot allocate '' @ dec sz @ '' bytes'') else Inr None)"

definition xstrdup :: "(string \<Rightarrow> bool) \<Rightarrow> string option \<Rightarrow> string + string option" where
  "xstrdup memory str =
     (case str of
        None \<Rightarrow> Inr None
      | Some s \<Rightarrow> if memory s then Inr (Some s) else Inl (''cannot duplicate string: '' @ s))"

section \<open>Closing\<close>

abbreviation (input) EBADF :: int where "EBADF \<equiv> 9"
abbreviation (input) EPIPE :: int where "EPIPE \<equiv> 32"

text \<open>A stream as it is closed: whether text is pending, whether an error was seen before, and the error of
  \<open>fclose\<close>.\<close>

record stream =
  st_pending :: bool
  st_error :: bool
  st_fclose :: "int option"

text \<open>The result, and \<open>errno\<close> after it.\<close>

definition close_stream :: "stream \<Rightarrow> int \<Rightarrow> bool \<times> int" where
  "close_stream s errno =
     (let fclose_fail = st_fclose s \<noteq> None;
          errno = (case st_fclose s of None \<Rightarrow> errno | Some e \<Rightarrow> e)
      in if st_error s \<or> fclose_fail \<and> (st_pending s \<or> errno \<noteq> EBADF)
         then (False, if \<not> fclose_fail \<and> errno \<noteq> EPIPE then 0 else errno)
         else (True, errno))"

text \<open>\<open>close_stdout\<close>: the status the program is ended with, if it is, and whether there is a message.\<close>

definition close_stdout :: "stream \<Rightarrow> stream \<Rightarrow> int \<Rightarrow> int option \<times> bool" where
  "close_stdout out err errno =
     (case close_stream out errno of (ok, errno) \<Rightarrow>
        if \<not> ok \<and> errno \<noteq> EPIPE then (Some 1, True)
        else (case close_stream err errno of (ok, errno) \<Rightarrow> (if ok then None else Some 1, False)))"

text \<open>An error of an earlier write is reported with a message, unless \<open>errno\<close> says that the reader has gone.\<close>

lemma close_stdout_reports:
  "st_error out \<Longrightarrow> (case st_fclose out of None \<Rightarrow> errno | Some e \<Rightarrow> e) \<noteq> EPIPE \<Longrightarrow> close_stdout out err errno = (Some 1, True)"
  by (auto simp: close_stdout_def close_stream_def Let_def split: option.splits)

lemma close_stdout_quiet:
  "close_stdout out err errno = (None, b) \<Longrightarrow> \<not> st_error err \<and> (st_error out \<longrightarrow> (case st_fclose out of None \<Rightarrow> errno | Some e \<Rightarrow> e) = EPIPE)"
  by (auto simp: close_stdout_def close_stream_def Let_def split: option.splits if_splits)

section \<open>The lock on the output\<close>



definition cut_locks :: "nat \<Rightarrow> nat \<Rightarrow> (nat \<times> nat \<times> nat option) list \<Rightarrow> (nat \<times> nat \<times> nat option) list" where
  "cut_locks p from ls =
     concat (map (\<lambda>(q, a, b). if q = p \<and> (case b of None \<Rightarrow> True | Some b \<Rightarrow> from < b)
                              then (if a < from then [(q, a, Some from)] else []) else [(q, a, b)]) ls)"






subsection \<open>What the lock protects\<close>


lemma cut_own [simp]: "cut_locks p n ((p, n, None) # ls) = cut_locks p n ls"
  by (simp add: cut_locks_def)

lemma cut_none: "\<forall>(q, a, b) \<in> set ls. q \<noteq> p \<Longrightarrow> cut_locks p n ls = ls"
  by (induction ls) (auto simp: cut_locks_def)

lemma cut_grown: "cut_locks p (n + k) ((p, n, None) # ls) = (if k = 0 then [] else [(p, n, Some (n + k))]) @ cut_locks p (n + k) ls"
  by (simp add: cut_locks_def)





end
