(* ===== verification/LengthOrder.thy ===== *)
theory LengthOrder
  imports PacketInv
begin

text \<open>
  The test for the byte order of the length field (\<open>check_length_order\<close> of \<open>packet/probe_unix.c\<close>), which systems other than
  Linux make at the start: a ping to the own host with the length in network order, and if that is not accepted one with the
  length in the order of the host.
\<close>

definition byte_order_param :: probe_param_t where
  "byte_order_param = \<lparr>pp_ip_version = 4, pp_command_token = 0, pp_remote_address = Some ''127.0.0.1'', pp_local_address = None,
     pp_protocol = IPPROTO_ICMP, pp_dest_port = 0, pp_local_port = 0, pp_type_of_service = 0, pp_routing_mark = 0, pp_ttl = 255,
     pp_packet_size = 0, pp_bit_pattern = 0, pp_timeout = 0, pp_is_probing_byte_order = True\<rparr>"

text \<open>A packet built and sent with one of the orders.\<close>

definition try_length_order :: "'w os \<Rightarrow> sockaddr \<Rightarrow> sockaddr \<Rightarrow> bool \<Rightarrow> (int option, 'w) proc" where
  "try_length_order os dest_sockaddr src_sockaddr host_order =
     bnd (upd_ns (\<lambda>ns. ns\<lparr>ip_length_host_order := host_order\<rparr>)) (\<lambda>_.
     bnd (construct_packet os MIN_PORT dest_sockaddr src_sockaddr byte_order_param) (\<lambda>built.
     case built of
       None \<Rightarrow> error_exit ''Unable to send to localhost''
     | Some (packet, _) \<Rightarrow> send_packet os byte_order_param MIN_PORT packet dest_sockaddr))"

definition check_length_order :: "'w os \<Rightarrow> (unit, 'w) proc" where
  "check_length_order os =
     bnd (resolve_probe_addresses os byte_order_param) (\<lambda>addresses.
     case addresses of
       None \<Rightarrow> error_exit ''Error decoding localhost address''
     | Some (dest_sockaddr, src_sockaddr) \<Rightarrow>
         bnd (try_length_order os dest_sockaddr src_sockaddr False) (\<lambda>bytes_sent.
         if (case bytes_sent of None \<Rightarrow> False | Some n \<Rightarrow> 0 < n) then ret ()
         else bnd (try_length_order os dest_sockaddr src_sockaddr True) (\<lambda>bytes_sent.
              if (case bytes_sent of None \<Rightarrow> True | Some n \<Rightarrow> n < 0)
              then error_exit ''Unable to send with swapped length'' else ret ())))"

section \<open>What it leaves\<close>

text \<open>The procedures that leave the order as it is.\<close>

definition keeps_order :: "('a, 'w) proc \<Rightarrow> bool" where
  "keeps_order m \<longleftrightarrow> (\<forall>st x st'. m st = Inr (x, st') \<longrightarrow>
     ip_length_host_order (net_state st') = ip_length_host_order (net_state st))"

named_theorems orders

lemma order_bnd [orders]: "keeps_order m \<Longrightarrow> (\<And>x. keeps_order (f x)) \<Longrightarrow> keeps_order (bnd m f)"
  unfolding keeps_order_def bnd_def by (fastforce simp: and_then_Inr)

lemma keeps_simple [orders]:
  "keeps_order (ret x)" "keeps_order get_ns" "keeps_order get_errno" "keeps_order (set_errno e)" "keeps_order (error_exit msg)"
  by (auto simp: keeps_order_def ret_def get_ns_def get_errno_def set_errno_def error_exit_def)

lemma keeps_sys [orders]: "keeps_order (sys call)"
  by (auto simp: keeps_order_def sys_def Let_def split: prod.splits sum.splits)

lemma keeps_if [orders]: "keeps_order m \<Longrightarrow> keeps_order m' \<Longrightarrow> keeps_order (if c then m else m')"
  by simp

lemma keeps_option [orders]:
  "keeps_order m \<Longrightarrow> (\<And>x. keeps_order (f x)) \<Longrightarrow> keeps_order (case v of None \<Rightarrow> m | Some x \<Rightarrow> f x)"
  by (cases v) simp_all

lemma keeps_send [orders]: "keeps_order (send_packet os param q packet addr)"
  unfolding send_packet_def Let_def by (intro orders)

lemma keeps_guard [orders]: "keeps_order call \<Longrightarrow> keeps_order k \<Longrightarrow> keeps_order (guard_call call k)"
  unfolding guard_call_def by (intro orders)

lemma keeps_construct [orders]: "keeps_order (construct_packet os q dest src byte_order_param)"
proof -
  have "keeps_order (construct_ip4_packet os q packet n src dest byte_order_param)" for packet n
    by (simp add: construct_ip4_packet_def byte_order_param_def is_stream_def Let_def) (intro orders)
  then have "keeps_order (case compute_packet_size ns byte_order_param of
       None \<Rightarrow> bnd (set_errno EINVAL) (\<lambda>_. ret None)
     | Some n \<Rightarrow> if PACKET_BUFFER_SIZE < n then bnd (set_errno EINVAL) (\<lambda>_. ret None)
         else construct_ip4_packet os q (replicate (nat n) (word_of_int (pp_bit_pattern byte_order_param))) n src dest byte_order_param)" for ns
    by (intro orders)
  moreover have v: "pp_ip_version byte_order_param = 4" by (simp add: byte_order_param_def)
  have "construct_packet os q dest src byte_order_param = bnd get_ns (\<lambda>ns. case compute_packet_size ns byte_order_param of
       None \<Rightarrow> bnd (set_errno EINVAL) (\<lambda>_. ret None)
     | Some n \<Rightarrow> if PACKET_BUFFER_SIZE < n then bnd (set_errno EINVAL) (\<lambda>_. ret None)
         else construct_ip4_packet os q (replicate (nat n) (word_of_int (pp_bit_pattern byte_order_param))) n src dest byte_order_param)"
    unfolding construct_packet_def Let_def v by (intro arg_cong [of _ _ "bnd get_ns"] ext) (simp split: option.split)
  ultimately show ?thesis by (simp only: order_bnd keeps_simple)
qed

lemma bnd_upd: "bnd (upd_ns f) g st = g () (st\<lparr>net_state := f (net_state st)\<rparr>)"
  by (simp add: bnd_def upd_ns_def)

lemma try_leaves_order:
  assumes "try_length_order os dest src b st = Inr (sent, st')"
  shows "ip_length_host_order (net_state st') = b"
proof -
  let ?send = "bnd (construct_packet os MIN_PORT dest src byte_order_param) (\<lambda>built. case built of
       None \<Rightarrow> error_exit ''Unable to send to localhost''
     | Some (packet, _) \<Rightarrow> send_packet os byte_order_param MIN_PORT packet dest)"
  have "keeps_order ?send"
    by (intro order_bnd keeps_option keeps_construct keeps_simple) (auto simp: keeps_send split: prod.split)
  moreover have "?send (st\<lparr>net_state := (net_state st)\<lparr>ip_length_host_order := b\<rparr>\<rparr>) = Inr (sent, st')"
    using assms by (simp add: try_length_order_def bnd_upd)
  ultimately show ?thesis by (fastforce simp: keeps_order_def)
qed

text \<open>If the test returns, the order it leaves is one in which a packet to the own host was just accepted.\<close>

theorem order_accepted:
  assumes "check_length_order os st = Inr ((), st')"
  shows "\<exists>dest src st1 n. try_length_order os dest src (ip_length_host_order (net_state st')) st1 = Inr (Some n, st')
    \<and> (if ip_length_host_order (net_state st') then 0 \<le> n else 0 < n)"
proof -
  obtain dest src st0 sent st1 where r: "try_length_order os dest src False st0 = Inr (sent, st1)"
    "(case sent of None \<Rightarrow> False | Some n \<Rightarrow> 0 < n) \<and> st' = st1
      \<or> (\<exists>n. try_length_order os dest src True st1 = Inr (Some n, st') \<and> 0 \<le> n)"
  proof -
    obtain dest src st0 where a: "(bnd (try_length_order os dest src False) (\<lambda>bytes_sent.
         if (case bytes_sent of None \<Rightarrow> False | Some n \<Rightarrow> 0 < n) then ret ()
         else bnd (try_length_order os dest src True) (\<lambda>bytes_sent.
              if (case bytes_sent of None \<Rightarrow> True | Some n \<Rightarrow> n < 0)
              then error_exit ''Unable to send with swapped length'' else ret ()))) st0 = Inr ((), st')"
      using assms by (auto simp: check_length_order_def bnd_Inr [of "resolve_probe_addresses _ _"] error_exit_def split: option.splits)
    then obtain sent st1 where s: "try_length_order os dest src False st0 = Inr (sent, st1)"
      "(if (case sent of None \<Rightarrow> False | Some n \<Rightarrow> 0 < n) then ret ()
         else bnd (try_length_order os dest src True) (\<lambda>bytes_sent.
              if (case bytes_sent of None \<Rightarrow> True | Some n \<Rightarrow> n < 0)
              then error_exit ''Unable to send with swapped length'' else ret ())) st1 = Inr ((), st')"
      by (auto simp: bnd_Inr [of "try_length_order os dest src False"])
    show thesis
      by (rule that [OF s(1)]) (use s(2) in \<open>auto simp: bnd_Inr ret_def error_exit_def split: if_splits option.splits\<close>)
  qed
  then show ?thesis using try_leaves_order
    by (cases sent) (fastforce split: if_splits)+
qed

lemma check_length_calm [calms]: "calm S (check_length_order os)"
  unfolding check_length_order_def try_length_order_def
  by (intro calms; simp add: probes_ok_def)

end
