(* ===== verification/Spec2Isabelle.thy ===== *)
theory Spec2Isabelle
  imports PacketProps Timeouts Matching Protocol NetProps PacketBytes StreamProps Traversal ConfigProps
    DnsProps SplitProps LoopProps ReportProps CursesProps HostsProps CygwinProps
    ProcessProps GtkProps CmdLineProps Streams LengthOrder
begin

text \<open>
  A model of the C sources of \<open>mtr\<close>, a traceroute that keeps probing, in the form this repository
  holds them: \<open>packet/\<close> is the privileged process \<open>mtr-packet\<close>, which sends probes and reports
  replies; \<open>ui/\<close> is the unprivileged process \<open>mtr\<close>, which asks for probes, keeps the statistics
  of the hops and displays them. The two talk over a pair of pipes, one line of text per request
  and per reply.

  The parts and the theories that model them:

  \<^item> \<open>Prelude\<close>, \<open>Inet\<close>: machine integers, C strings, \<open>strtol\<close>, \<open>printf\<close> of numbers, error
    numbers, address families. \<open>Utils\<close>: \<open>ui/utils.c\<close>.
  \<^item> \<open>CmdParse\<close>: \<open>packet/cmdparse.c\<close>, the tokenizer both processes use. \<open>LineBuffer\<close>: the contract
    of a reader that consumes complete lines from a buffer, as a locale; it is interpreted for the
    reply buffer in \<open>CmdPipe\<close> and for the command buffer in \<open>Command\<close>.
  \<^item> \<open>MtrTypes\<close>, \<open>MtrOptions\<close>: the options record of \<open>ui/mtr.h\<close> and the option parsing of
    \<open>ui/mtr.c\<close>. \<open>Getopt\<close>: \<open>portability/getopt.c\<close> and \<open>getopt1.c\<close>, the scan of the arguments with their
    permutation, and beside it the specification of a scan as a function on lists. \<open>CmdLine\<close>: the tables of options of
    \<open>ui/mtr.c\<close>, the scans of \<open>MTR_OPTIONS\<close> and of the arguments that give \<open>configure\<close> its input, and the help. \<open>Streams\<close>:
    the closing of the output and the messages (\<open>ui/utils.c\<close>, \<open>portability/error.c\<close>), and the lock on the output
    (\<open>ui/mtr.c\<close>). \<open>CmdPipe\<close>: \<open>ui/cmdpipe.c\<close>, the requests, the feature checks and the replies.
  \<^item> \<open>Net\<close>, \<open>NetInv\<close>: \<open>ui/net.c\<close>, the tables of hops and of sequence numbers, with every
    operation, the invariant that each keeps, and the reachable states.
  \<^item> \<open>Dns\<close>: \<open>ui/dns.c\<close>, the cache of host names as a client of the resolver process, and
    the locale \<open>name_cache\<close> of what the displays rely on. \<open>Display\<close>: \<open>ui/display.c\<close> and
    \<open>ui/raw.c\<close>. \<open>Split\<close>: \<open>ui/split.c\<close>, with the program that receives its lines.
    \<open>Select\<close>: \<open>ui/select.c\<close>, the loop of \<open>mtr\<close>; a pass takes what the clock, \<open>select\<close> and
    the descriptors give as its input, and the loop runs over the inputs of its passes.
  \<^item> \<open>Printf\<close>: the conversions of \<open>printf\<close> that the program uses, over the format string.
    \<open>Asn\<close>: \<open>ui/asn.c\<close>, over a resolver library as parameter. \<open>Report\<close>: \<open>ui/report.c\<close>,
    the text, JSON, XML and CSV reports. \<open>Curses\<close>, \<open>CursesDraw\<close>: \<open>ui/curses.c\<close>, the keys
    with their questions, and what is drawn, as the list of the operations of the terminal library.
    A use of a null pointer, of memory beyond an array or of a text as a format is the left value of
    a sum. \<open>Hosts\<close>: the loop of \<open>main\<close> over the names in \<open>ui/mtr.c\<close>, with the resolving of a
    name and, from \<open>ui/net.c\<close>, the local address and the opening of the tables. \<open>Processes\<close>: the
    children that \<open>mtr\<close> starts for a target and the descriptors they share with it. \<open>Gtk\<close>: \<open>ui/gtk.c\<close>, the window: what the program uses of the
    widget library is a state (rows, timers, the button, the entry), each callback a function on it, and
    the main loop of the library a step relation.
  \<^item> \<open>TimeVal\<close>, \<open>BsdList\<close>: \<open>packet/timeval.c\<close> and the list macros of \<open>portability/queue.h\<close>
    over an explicit store; the locale \<open>tracking_list\<close> is what the probe table relies on.
  \<^item> \<open>PacketState\<close>, \<open>Probe\<close>: the records of \<open>packet/probe.h\<close> and \<open>probe_unix.h\<close>, and
    \<open>packet/probe.c\<close>. \<open>Construct\<close>: \<open>packet/construct_unix.c\<close>. \<open>Deconstruct\<close>:
    \<open>packet/deconstruct_unix.c\<close>. \<open>ProbeUnix\<close>: \<open>packet/probe_unix.c\<close>. \<open>Command\<close>:
    \<open>packet/command.c\<close> and \<open>command_unix.c\<close>. \<open>PacketMain\<close>: \<open>packet/packet.c\<close> and
    \<open>wait_unix.c\<close>.
  \<^item> \<open>Cygwin\<close>: the other platform of \<open>mtr-packet\<close>, \<open>packet/probe_cygwin.c\<close>,
    \<open>command_cygwin.c\<close> and \<open>wait_cygwin.c\<close>: the completions of reads and probes that Windows
    runs while the program sleeps are the steps of a relation, in any order that Windows allows.
  \<^item> \<open>LengthOrder\<close>: the test of \<open>packet/probe_unix.c\<close> for the order of the length field, which is made on systems
    other than Linux; \<open>ProbeUnix\<close> has the start on Linux.
  \<^item> \<open>PacketInv\<close>: what each operation of \<open>mtr-packet\<close> does to the outstanding probes.

  The state of \<open>mtr-packet\<close> is the record \<open>pst\<close>: \<open>net_state\<close> is \<open>struct net_state_t\<close>, with the
  outstanding probes as the list that \<open>tracking_list\<close> justifies, \<open>stdout_lines\<close> are the lines
  printed, \<open>world\<close> is the state of the operating system. A system call is a field of the record
  \<open>os\<close>, a function of the world: the operating system is a parameter of the model, and no law is
  assumed of it. An exit is the left value of a sum, with the message. The state of \<open>mtr\<close> that is
  modelled is the record \<open>net\<close> of the tables, with the options \<open>mtr_ctl\<close>; the functions
  \<open>inet_ntop\<close> and \<open>inet_pton\<close> are parameters with the law \<open>inet_ok\<close> (printing and reading
  an address are inverse), and the rounding of floating point operations is a parameter with the
  law \<open>fp_ok\<close> (monotone, exact on integers of 53 bits).

  The properties: \<open>PacketProps\<close> has those of \<open>mtr-packet\<close> as a whole (each command is answered
  once, no freed probe is used), \<open>Timeouts\<close> those of the timeouts, \<open>Matching\<close> those that
  relate the packets built to the packets recognised, \<open>Protocol\<close> the two directions of the text
  protocol, \<open>StreamProps\<close> those of the streams of lines, \<open>PacketBytes\<close> those of checksums and
  MPLS extensions, \<open>Traversal\<close> the removal during a traversal, \<open>NetProps\<close> those of the tables
  of hops, \<open>ConfigProps\<close> the options that \<open>main\<close> has, \<open>DnsProps\<close> the cache of names,
  \<open>SplitProps\<close> the split and the raw display, \<open>SelectProps\<close> the times the loop of \<open>mtr\<close> waits,
  \<open>LoopProps\<close> the loop with the tables and the split display, \<open>ReportProps\<close> the reports,
  \<open>CursesProps\<close> the keys and the screen of the curses display, \<open>HostsProps\<close> the targets,
  \<open>ProcessProps\<close> the descriptors and processes, \<open>GtkProps\<close> the window, \<open>CygwinProps\<close> the Cygwin platform,
  \<open>GetoptProps\<close> that \<open>getopt_long\<close> reads what the specification of a scan reads, and \<open>CmdLineProps\<close> the forms of the options;
  what is shown of the lock stands in \<open>Streams\<close>.
  \<open>Samples\<close> has concrete parameters for the witnesses.

  Fuel: the loop of \<open>main\<close> in \<open>packet/packet.c\<close>, the wait and the receive loops run as long as
  the operating system says so, and take fuel; running out of it is an exit with its own message.
  The loop of the curses display that reads the fields may not end; it is a partial function, and
  \<open>fields_question_hangs\<close> says when it ends. The loop over \<open>getopt_long\<close> is a partial function too, and \<open>getopt_reads\<close>
  says that it ends. Every other loop is a total function.

  Not modelled: the looks of the window and its about box, the list macros of \<open>portability/queue.h\<close> that the programs do not
  use, the test programs in the copies of \<open>getopt\<close>, the listener \<open>test/packet_listen.c\<close>, and the scripts of the web pages in the repository, which only
  start the programs.
\<close>

end
